(* ===== verification/Prelude.thy ===== *)
theory Prelude
  imports Main "HOL-Library.Word"
begin

unbundle bit_operations_syntax

section \<open>Machine integers, byte buffers and shared lemmas\<close>

text \<open>
  The vocabulary every component uses: the machine integers of the Rust code as words,
  byte buffers as lists of words, the little- and big-endian conversions of the Rust
  standard library (\<^verbatim>\<open>to_le_bytes\<close>, \<^verbatim>\<open>from_be_bytes\<close> and so on), bounds-checked reads,
  and the saturating and checked operations, instants and durations.
\<close>

type_synonym u8 = "8 word"
type_synonym u16 = "16 word"
type_synonym u32 = "32 word"
type_synonym u64 = "64 word"
type_synonym i32 = "32 word"
type_synonym bytes = "u8 list"

text \<open>A hardware address is six bytes, as the Rust type \<^verbatim>\<open>[u8; 6]\<close>.\<close>

type_synonym mac = "u8 list"

text \<open>
  Instants and durations are counted in nanoseconds. An instant is a natural number since
  the clock's origin, so that going back beyond the origin fails as \<^verbatim>\<open>checked_sub\<close> does,
  and the saturating difference of two instants is the difference of natural numbers.
\<close>

type_synonym instant = nat
type_synonym duration = nat

definition from_millis :: "nat \<Rightarrow> duration" where
  "from_millis ms = ms * 1000000"

definition from_secs :: "nat \<Rightarrow> duration" where
  "from_secs s = s * 1000000000"

definition duration_since :: "instant \<Rightarrow> instant \<Rightarrow> duration" where
  "duration_since now t = now - t"

definition instant_checked_sub :: "instant \<Rightarrow> duration \<Rightarrow> instant option" where
  "instant_checked_sub t d = (if d \<le> t then Some (t - d) else None)"

named_theorems time_simps
named_theorems wire_simps

lemma from_secs_millis [time_simps]: "from_secs s = from_millis (1000 * s)"
  by (simp add: from_secs_def from_millis_def)

lemmas time_defs [time_simps] = from_millis_def duration_since_def instant_checked_sub_def

subsection \<open>Saturating and checked arithmetic\<close>

definition saturating_sub :: "'a::len word \<Rightarrow> 'a word \<Rightarrow> 'a word" where
  "saturating_sub a b = (if b \<le> a then a - b else 0)"

definition saturating_add :: "'a::len word \<Rightarrow> 'a word \<Rightarrow> 'a word" where
  "saturating_add a b = (if unat a + unat b < 2 ^ LENGTH('a) then a + b else - 1)"

lemma unat_saturating_sub: "unat (saturating_sub a b) = unat a - unat b"
  by (auto simp: saturating_sub_def unat_sub word_le_nat_alt)

lemma unat_saturating_add:
  "unat (saturating_add (a::'a::len word) b) = min (unat a + unat b) (2 ^ LENGTH('a) - 1)"
proof (cases "unat a + unat b < 2 ^ LENGTH('a)")
  case True
  then show ?thesis
    by (simp add: saturating_add_def unat_word_ariths)
next
  case False
  then show ?thesis
    by (simp add: saturating_add_def unsigned_minus_1_eq_mask mask_eq_exp_minus_1)
qed

subsection \<open>Endian conversions\<close>

primrec nat_to_le :: "nat \<Rightarrow> nat \<Rightarrow> bytes" where
  "nat_to_le 0 n = []"
| "nat_to_le (Suc k) n = of_nat (n mod 256) # nat_to_le k (n div 256)"

primrec le_to_nat :: "bytes \<Rightarrow> nat" where
  "le_to_nat [] = 0"
| "le_to_nat (b # bs) = unat b + 256 * le_to_nat bs"

definition to_le :: "'a::len word \<Rightarrow> bytes" where
  "to_le (w :: 'a word) = nat_to_le (LENGTH('a) div 8) (unat w)"

definition to_be :: "'a::len word \<Rightarrow> bytes" where
  "to_be w = rev (to_le w)"

definition from_le :: "bytes \<Rightarrow> 'a::len word" where
  "from_le bs = of_nat (le_to_nat bs)"

definition from_be :: "bytes \<Rightarrow> 'a::len word" where
  "from_be bs = from_le (rev bs)"

lemma length_nat_to_le [simp]: "length (nat_to_le k n) = k"
  by (induction k arbitrary: n) auto

lemma length_to_le [simp]: "length (to_le (w::'a::len word)) = LENGTH('a) div 8"
  by (simp add: to_le_def)

lemma length_to_be [simp]: "length (to_be (w::'a::len word)) = LENGTH('a) div 8"
  by (simp add: to_be_def)

lemma unat_u8_less: "unat (b :: u8) < 256"
  using unsigned_less [of b, where ?'a = nat] by simp

lemma le_to_nat_bound: "le_to_nat bs < 256 ^ length bs"
proof (induction bs)
  case Nil
  then show ?case by simp
next
  case (Cons b bs)
  have "unat b < 256"
    by (rule unat_u8_less)
  with Cons show ?case by simp
qed

lemma le_to_nat_nat_to_le: "le_to_nat (nat_to_le k n) = n mod 256 ^ k"
proof (induction k arbitrary: n)
  case 0
  then show ?case by simp
next
  case (Suc k)
  have "unat (of_nat (n mod 256) :: u8) = n mod 256"
    by (simp add: unat_of_nat)
  with Suc show ?case
    by (simp add: mod_mult2_eq)
qed

lemma nat_to_le_le_to_nat: "nat_to_le (length bs) (le_to_nat bs) = bs"
proof (induction bs)
  case Nil
  then show ?case by simp
next
  case (Cons b bs)
  have "unat b < 256"
    by (rule unat_u8_less)
  with Cons show ?case
    by (simp add: of_nat_unat)
qed

lemma power_256: "(256::nat) ^ n = 2 ^ (8 * n)"
  by (simp add: power_mult)

lemma from_le_to_le:
  assumes "8 dvd LENGTH('a)"
  shows "from_le (to_le (w::'a::len word)) = w"
proof -
  have "(256::nat) ^ (LENGTH('a) div 8) = 2 ^ LENGTH('a)"
    using assms by (simp add: power_256)
  then have "unat w mod 256 ^ (LENGTH('a) div 8) = unat w"
    using unsigned_less [of w, where ?'a = nat] by simp
  then show ?thesis
    by (simp add: from_le_def to_le_def le_to_nat_nat_to_le)
qed

lemma to_le_from_le:
  assumes "8 * length bs = LENGTH('a)"
  shows "to_le (from_le bs :: 'a::len word) = bs"
proof -
  have "length bs = LENGTH('a) div 8" and "le_to_nat bs < 2 ^ LENGTH('a)"
    using assms le_to_nat_bound [of bs] by (auto simp: power_256)
  then show ?thesis
    using nat_to_le_le_to_nat [of bs]
    by (simp add: from_le_def to_le_def unat_of_nat)
qed

lemma from_be_to_be:
  "8 dvd LENGTH('a) \<Longrightarrow> from_be (to_be (w::'a::len word)) = w"
  by (simp add: from_be_def to_be_def from_le_to_le)

lemma to_be_from_be:
  "8 * length bs = LENGTH('a) \<Longrightarrow> to_be (from_be bs :: 'a::len word) = bs"
  by (simp add: from_be_def to_be_def to_le_from_le)

lemmas endian_roundtrips [simp] = from_le_to_le to_le_from_le from_be_to_be to_be_from_be

text \<open>
  The reads \<^verbatim>\<open>buf[o..o + n]\<close> of the code: a slice that panics out of range in Rust is
  \<open>None\<close> here.
\<close>

definition slice_at :: "bytes \<Rightarrow> nat \<Rightarrow> nat \<Rightarrow> bytes option" where
  "slice_at buf off n = (if off + n \<le> length buf then Some (take n (drop off buf)) else None)"

abbreviation sub_slice :: "bytes \<Rightarrow> nat \<Rightarrow> nat \<Rightarrow> bytes" where
  "sub_slice buf off n \<equiv> take n (drop off buf)"

lemma slice_at_Some [simp]: "off + n \<le> length buf \<Longrightarrow> slice_at buf off n = Some (sub_slice buf off n)"
  by (simp add: slice_at_def)

lemma slice_at_None [simp]: "length buf < off + n \<Longrightarrow> slice_at buf off n = None"
  by (simp add: slice_at_def)

lemma slice_at_length: "slice_at buf off n = Some bs \<Longrightarrow> length bs = n"
  by (auto simp: slice_at_def split: if_splits)

definition u16_le_at :: "bytes \<Rightarrow> nat \<Rightarrow> u16" where
  "u16_le_at buf off = from_le (sub_slice buf off 2)"

definition u16_be_at :: "bytes \<Rightarrow> nat \<Rightarrow> u16" where
  "u16_be_at buf off = from_be (sub_slice buf off 2)"

definition u32_le_at :: "bytes \<Rightarrow> nat \<Rightarrow> u32" where
  "u32_le_at buf off = from_le (sub_slice buf off 4)"

definition u32_be_at :: "bytes \<Rightarrow> nat \<Rightarrow> u32" where
  "u32_be_at buf off = from_be (sub_slice buf off 4)"

definition u64_le_at :: "bytes \<Rightarrow> nat \<Rightarrow> u64" where
  "u64_le_at buf off = from_le (sub_slice buf off 8)"

definition u64_be_at :: "bytes \<Rightarrow> nat \<Rightarrow> u64" where
  "u64_be_at buf off = from_be (sub_slice buf off 8)"

lemmas at_defs = u16_le_at_def u16_be_at_def u32_le_at_def u32_be_at_def u64_le_at_def u64_be_at_def

text \<open>A signed 16-bit field is the two's complement reading of the word.\<close>

definition i16_of :: "u16 \<Rightarrow> int" where
  "i16_of w = sint w"

lemma i16_of_range: "- 32768 \<le> i16_of w \<and> i16_of w < 32768"
  using sint_range_size [of w] by (simp add: i16_of_def word_size)

subsection \<open>Reading past a prefix\<close>

lemma drop_prefix [simp]: "length xs = n \<Longrightarrow> drop n (xs @ ys) = ys"
  by simp

lemma sub_slice_append:
  "length xs = off \<Longrightarrow> length ys = n \<Longrightarrow> sub_slice (xs @ ys @ zs) off n = ys"
  by simp

lemma take_2_nth: "2 \<le> length xs \<Longrightarrow> take 2 xs = [xs ! 0, xs ! 1]"
  by (cases xs; cases "tl xs") (auto simp: numeral_2_eq_2)

end
