(* ===== verification/Ieee_Float.thy ===== *)
theory Ieee_Float
  imports Prelude
begin

section \<open>IEEE 754 arithmetic, as Rust's f32 and f64 have it\<close>

text \<open>
  The language's floating-point types. A value is a NaN, an infinity, or a sign and a
  magnitude; the magnitude counts the smallest subnormal of the format (2 to the power
  -149 for \<^verbatim>\<open>f32\<close>, -1074 for \<^verbatim>\<open>f64\<close>), so every finite float is a natural number and
  all arithmetic is exact before the one rounding step \<open>fp_round\<close> (to nearest, ties to
  even). A stored float is its bit pattern, as the wire formats carry it. NaN payloads,
  which Rust leaves unspecified, are not tracked: an operation returns the quiet NaN.
\<close>

datatype fp = FNaN | FInf bool | FFin bool nat

subsection \<open>Rounding\<close>

fun blen :: "nat \<Rightarrow> nat" where
  "blen n = (if n = 0 then 0 else Suc (blen (n div 2)))"

declare blen.simps [simp del]

definition rne :: "nat \<Rightarrow> nat \<Rightarrow> nat" where
  "rne n d = (let q = n div d; r = n mod d in
     if 2 * r < d \<or> (2 * r = d \<and> even q) then q else Suc q)"

text \<open>The magnitude nearest to \<open>n / d\<close> with \<open>mb + 1\<close> significant bits.\<close>

definition fp_exp :: "nat \<Rightarrow> nat \<Rightarrow> nat \<Rightarrow> nat" where
  "fp_exp mb n d = blen (n div d) - Suc mb"

definition fp_round :: "nat \<Rightarrow> nat \<Rightarrow> nat \<Rightarrow> nat" where
  "fp_round mb n d = (let e = fp_exp mb n d in rne n (d * 2 ^ e) * 2 ^ e)"

text \<open>
  A format: mantissa bits, exponent bits, the number of units in 1.0, and the first
  magnitude that overflows to infinity.
\<close>

record fmt =
  mbits :: nat
  ebits :: nat
  funit :: nat
  flimit :: nat

definition fmt32 :: fmt where
  "fmt32 = \<lparr>mbits = 23, ebits = 8, funit = 2 ^ 149, flimit = 2 ^ 277\<rparr>"

definition fmt64 :: fmt where
  "fmt64 = \<lparr>mbits = 52, ebits = 11, funit = 2 ^ 1074, flimit = 2 ^ 2098\<rparr>"

definition fp_make :: "fmt \<Rightarrow> bool \<Rightarrow> nat \<Rightarrow> nat \<Rightarrow> fp" where
  "fp_make F s n d = (let k = fp_round (mbits F) n d in
     if k < flimit F then FFin s k else FInf s)"

definition repr :: "nat \<Rightarrow> nat \<Rightarrow> bool" where
  "repr mb k \<longleftrightarrow> (\<exists>m e. k = m * 2 ^ e \<and> m < 2 ^ Suc mb)"

lemma blen_0 [simp]: "blen 0 = 0"
  by (simp add: blen.simps)

lemma blen_pos: "0 < n \<Longrightarrow> blen n = Suc (blen (n div 2))"
  by (subst blen.simps) simp

lemma blen_bounds: "0 < n \<Longrightarrow> 2 ^ (blen n - 1) \<le> n \<and> n < 2 ^ blen n \<and> 0 < blen n"
proof (induction n rule: blen.induct)
  case (1 n)
  show ?case
  proof (cases "n = 1")
    case True
    then show ?thesis by (simp add: blen_pos)
  next
    case False
    with 1 have n: "0 < n div 2" and eq: "blen n = Suc (blen (n div 2))"
      by (auto simp: blen_pos)
    with 1 have IH: "2 ^ (blen (n div 2) - 1) \<le> n div 2" "n div 2 < 2 ^ blen (n div 2)"
      "0 < blen (n div 2)" by auto
    then obtain b where b: "blen (n div 2) = Suc b" by (cases "blen (n div 2)") auto
    have "2 * (n div 2) \<le> n" and "n < 2 * (n div 2) + 2" by simp_all
    moreover have "2 * 2 ^ b \<le> 2 * (n div 2)" and "2 * (n div 2) + 2 \<le> 4 * 2 ^ b"
      using IH b by simp_all
    ultimately show ?thesis using eq b by simp
  qed
qed

lemma blen_le: "n < 2 ^ k \<Longrightarrow> blen n \<le> k"
proof (rule ccontr)
  assume n: "n < 2 ^ k" and "\<not> blen n \<le> k"
  then have k: "k \<le> blen n - 1" and pos: "0 < n" by (cases "n = 0"; auto)+
  have "(2::nat) ^ k \<le> 2 ^ (blen n - 1)" using k by (rule power_increasing) simp
  with n blen_bounds [OF pos] show False by linarith
qed

lemma blen_less: "n < 2 ^ blen n"
  by (cases "n = 0") (auto simp: blen_bounds)

lemma blen_mono: "m \<le> n \<Longrightarrow> blen m \<le> blen n"
  using blen_less [of n] by (intro blen_le) linarith

lemma rne_cases: "rne n d = n div d \<or> (rne n d = Suc (n div d) \<and> d \<le> 2 * (n mod d))"
  by (auto simp: rne_def Let_def)

lemma rne_lower: "n div d \<le> rne n d"
  using rne_cases [of n d] by auto

lemma rne_upper: "rne n d \<le> Suc (n div d)"
  using rne_cases [of n d] by auto

lemma rne_exact: "0 < d \<Longrightarrow> rne (k * d) d = k"
  by (simp add: rne_def)

text \<open>Rounding is monotone in the rational \<open>n / d\<close>.\<close>

lemma frac_div_mono:
  assumes "0 < b" "0 < d" "a * d \<le> c * b"
  shows "a div b \<le> (c::nat) div d"
proof -
  have "(a div b) * b \<le> a" by simp
  then have "(a div b) * b * d \<le> a * d" by (rule mult_le_mono1)
  then have "(a div b) * d * b \<le> c * b" using assms(3) by (simp only: ac_simps)
  then have "(a div b) * d \<le> c" by (rule mult_right_le_imp_le) (rule assms(1))
  then show ?thesis using assms(2) by (simp add: less_eq_div_iff_mult_less_eq)
qed

lemma rne_mono:
  assumes b: "0 < b" and d: "0 < d" and le: "a * d \<le> c * b"
  shows "rne a b \<le> rne c d"
proof (cases "a div b = c div d")
  case False
  with frac_div_mono [OF b d le] have "Suc (a div b) \<le> c div d" by simp
  then show ?thesis using rne_upper [of a b] rne_lower [of c d] by linarith
next
  case True
  let ?q = "c div d"
  have "(a mod b) * d + ?q * b * d \<le> (c mod d) * b + ?q * d * b"
  proof -
    have "a * d = (a mod b + a div b * b) * d" and "c * b = (c mod d + c div d * d) * b"
      by simp_all
    then have "a * d = (a mod b) * d + ?q * b * d" and "c * b = (c mod d) * b + ?q * d * b"
      using True by (simp_all only: add_mult_distrib)
    with le show ?thesis by linarith
  qed
  then have r: "(a mod b) * d \<le> (c mod d) * b" by (simp add: ac_simps)
  have "2 * (c mod d) < d \<Longrightarrow> 2 * (a mod b) < b"
  proof (rule ccontr)
    assume c2: "2 * (c mod d) < d" and "\<not> 2 * (a mod b) < b"
    then have "b * d \<le> 2 * (a mod b) * d" by simp
    also have "\<dots> \<le> 2 * (c mod d) * b" using r by simp
    also have "\<dots> < d * b" using c2 b by simp
    finally show False by simp
  qed
  moreover have "2 * (c mod d) = d \<Longrightarrow> 2 * (a mod b) \<le> b"
  proof -
    assume c2: "2 * (c mod d) = d"
    have "2 * (a mod b) * d \<le> 2 * (c mod d) * b" using r by simp
    with c2 have "2 * (a mod b) * d \<le> b * d" by simp
    with d show ?thesis by simp
  qed
  ultimately show ?thesis using True by (auto simp: rne_def Let_def)
qed

lemma fp_exp_mono:
  "0 < b \<Longrightarrow> 0 < d \<Longrightarrow> a * d \<le> c * b \<Longrightarrow> fp_exp mb a b \<le> fp_exp mb c d"
  by (simp add: fp_exp_def diff_le_mono blen_mono frac_div_mono)

text \<open>The significand of a rounded value has at most \<open>mb + 1\<close> bits, or is the next power.\<close>

lemma fp_sig_upper:
  assumes "0 < d"
  shows "rne n (d * 2 ^ fp_exp mb n d) \<le> 2 ^ Suc mb"
proof -
  let ?e = "fp_exp mb n d"
  have "n div d < 2 ^ blen (n div d)" by (rule blen_less)
  also have "\<dots> \<le> 2 ^ (Suc mb + ?e)"
    by (rule power_increasing) (auto simp: fp_exp_def)
  finally have "n div d < 2 ^ Suc mb * 2 ^ ?e" by (simp only: power_add)
  then have "n div d div 2 ^ ?e < 2 ^ Suc mb" by (simp add: div_less_iff_less_mult)
  then show ?thesis
    using rne_upper [of n "d * 2 ^ ?e"] by (simp add: div_mult2_eq)
qed

lemma fp_sig_lower:
  assumes "0 < fp_exp mb n d"
  shows "2 ^ mb \<le> rne n (d * 2 ^ fp_exp mb n d)"
proof -
  let ?e = "fp_exp mb n d"
  from assms have b: "blen (n div d) = Suc mb + ?e" by (simp add: fp_exp_def)
  then have "0 < n div d" by (cases "n div d = 0") auto
  then have "2 ^ (blen (n div d) - 1) \<le> n div d" using blen_bounds by blast
  with b have "2 ^ mb * 2 ^ ?e \<le> n div d" by (simp add: power_add)
  then have "2 ^ mb \<le> n div d div 2 ^ ?e" by (simp add: less_eq_div_iff_mult_less_eq)
  then show ?thesis
    using rne_lower [of n "d * 2 ^ ?e"] by (simp add: div_mult2_eq)
qed

lemma fp_round_mono:
  assumes b: "0 < b" and d: "0 < d" and le: "a * d \<le> c * b"
  shows "fp_round mb a b \<le> fp_round mb c d"
proof -
  let ?e = "fp_exp mb a b" and ?f = "fp_exp mb c d"
  have "?e \<le> ?f" using assms by (rule fp_exp_mono)
  then consider "?e = ?f" | "?e < ?f" by linarith
  then show ?thesis
  proof cases
    case 1
    have "a * (d * 2 ^ ?f) \<le> c * (b * 2 ^ ?f)" using le by (simp add: ac_simps)
    then have "rne a (b * 2 ^ ?f) \<le> rne c (d * 2 ^ ?f)" using b d by (intro rne_mono) auto
    with 1 show ?thesis by (simp add: fp_round_def Let_def)
  next
    case 2
    have "fp_round mb a b \<le> 2 ^ Suc mb * 2 ^ ?e"
      using fp_sig_upper [OF b] by (simp add: fp_round_def Let_def)
    also have "\<dots> = 2 ^ (mb + Suc ?e)" by (simp add: power_add)
    also have "\<dots> \<le> 2 ^ (mb + ?f)" using 2 by (intro power_increasing) auto
    also have "\<dots> = 2 ^ mb * 2 ^ ?f" by (simp add: power_add)
    also have "\<dots> \<le> fp_round mb c d"
      using fp_sig_lower [of mb c d] 2 by (simp add: fp_round_def Let_def)
    finally show ?thesis .
  qed
qed

lemma repr_fp_round:
  assumes "0 < d"
  shows "repr mb (fp_round mb n d)"
proof (cases "rne n (d * 2 ^ fp_exp mb n d) = 2 ^ Suc mb")
  case True
  then have "fp_round mb n d = 1 * 2 ^ (Suc mb + fp_exp mb n d)"
    by (simp add: fp_round_def Let_def power_add)
  moreover have "(1::nat) < 2 ^ Suc mb" using one_less_power [of "2::nat" "Suc mb"] by simp
  ultimately show ?thesis unfolding repr_def by blast
next
  case False
  then have "rne n (d * 2 ^ fp_exp mb n d) < 2 ^ Suc mb"
    using fp_sig_upper [OF assms, of n mb] by simp
  then show ?thesis unfolding repr_def fp_round_def Let_def by blast
qed

text \<open>Rounding is exact on every representable value.\<close>

lemma fp_round_exact:
  assumes "repr mb k" and d: "0 < d"
  shows "fp_round mb (k * d) d = k"
proof -
  from assms(1) obtain m e where k: "k = m * 2 ^ e" and m: "m < 2 ^ Suc mb"
    unfolding repr_def by blast
  have "k < 2 ^ Suc mb * 2 ^ e" unfolding k using m by simp
  then have "k < 2 ^ (Suc mb + e)" by (simp only: power_add)
  then have "blen k \<le> Suc mb + e" by (rule blen_le)
  then have "fp_exp mb (k * d) d \<le> e" using d by (simp add: fp_exp_def)
  then have "2 ^ fp_exp mb (k * d) d dvd k"
    unfolding k by (intro dvd_mult) (rule le_imp_power_dvd)
  then obtain j where j: "k = j * 2 ^ fp_exp mb (k * d) d" by (auto simp: mult.commute)
  have "k * d = j * (d * 2 ^ fp_exp mb (k * d) d)"
    using arg_cong [OF j, of "\<lambda>x. x * d"] by (simp add: ac_simps)
  moreover have "rne (j * (d * 2 ^ fp_exp mb (k * d) d)) (d * 2 ^ fp_exp mb (k * d) d) = j"
    using d by (intro rne_exact) simp
  ultimately have "rne (k * d) (d * 2 ^ fp_exp mb (k * d) d) = j" by (simp only:)
  then show ?thesis using j unfolding fp_round_def Let_def by metis
qed

lemma repr_small: "k < 2 ^ Suc mb \<Longrightarrow> repr mb k"
  unfolding repr_def by (rule exI [of _ k], rule exI [of _ 0]) simp

lemma repr_0 [simp]: "repr mb 0"
  by (rule repr_small) simp

lemma fp_round_0 [simp]: "0 < d \<Longrightarrow> fp_round mb 0 d = 0"
  using fp_round_exact [OF repr_0, of d mb] by simp

subsection \<open>Bit patterns\<close>

definition fp_decode :: "fmt \<Rightarrow> nat \<Rightarrow> fp" where
  "fp_decode F w = (let s = odd (w div 2 ^ (ebits F + mbits F));
       ex = (w div 2 ^ mbits F) mod 2 ^ ebits F; fr = w mod 2 ^ mbits F in
     if ex = 2 ^ ebits F - 1 then (if fr = 0 then FInf s else FNaN)
     else FFin s (if ex = 0 then fr else (2 ^ mbits F + fr) * 2 ^ (ex - 1)))"

definition fp_enc_mag :: "nat \<Rightarrow> nat \<Rightarrow> nat" where
  "fp_enc_mag mb k = (if k < 2 ^ mb then k
     else (let e = blen k - Suc mb in e * 2 ^ mb + k div 2 ^ e))"

definition fp_encode :: "fmt \<Rightarrow> fp \<Rightarrow> nat" where
  "fp_encode F v = (case v of
      FNaN \<Rightarrow> (2 ^ ebits F - 1) * 2 ^ mbits F + 2 ^ (mbits F - 1)
    | FInf s \<Rightarrow> of_bool s * 2 ^ (ebits F + mbits F) + (2 ^ ebits F - 1) * 2 ^ mbits F
    | FFin s k \<Rightarrow> of_bool s * 2 ^ (ebits F + mbits F) + fp_enc_mag (mbits F) k)"

definition fp_ok :: "fmt \<Rightarrow> fp \<Rightarrow> bool" where
  "fp_ok F v = (case v of FFin s k \<Rightarrow> repr (mbits F) k \<and> k < flimit F | _ \<Rightarrow> True)"

definition fmt_ok :: "fmt \<Rightarrow> bool" where
  "fmt_ok F \<longleftrightarrow> flimit F = 2 ^ (Suc (mbits F) + 2 ^ ebits F - 3) \<and> 2 \<le> ebits F \<and> 0 < mbits F
     \<and> 0 < funit F"

lemma fmt_ok_32 [simp]: "fmt_ok fmt32" and fmt_ok_64 [simp]: "fmt_ok fmt64"
  by (simp_all add: fmt_ok_def fmt32_def fmt64_def)

lemma repr_split:
  assumes "repr mb k" and "2 ^ mb \<le> k" and e: "e = blen k - Suc mb"
  shows "\<exists>fr. k = (2 ^ mb + fr) * 2 ^ e \<and> fr < 2 ^ mb"
proof -
  have pos: "0 < k" using assms(2) by (rule less_le_trans [rotated]) simp
  from assms(1) obtain m e' where k: "k = m * 2 ^ e'" and m: "m < 2 ^ Suc mb"
    unfolding repr_def by blast
  have "k < 2 ^ Suc mb * 2 ^ e'" unfolding k using m by simp
  then have "blen k \<le> Suc mb + e'" by (intro blen_le) (simp only: power_add)
  then have "2 ^ e dvd k" unfolding k e by (intro dvd_mult le_imp_power_dvd) simp
  then obtain j where j: "k = j * 2 ^ e" by (auto simp: mult.commute)
  have "k < 2 ^ blen k" by (rule blen_less)
  also have "\<dots> \<le> 2 ^ (Suc mb + e)" by (rule power_increasing) (auto simp: e)
  finally have "j * 2 ^ e < 2 ^ Suc mb * 2 ^ e" using j by (simp only: power_add)
  then have up: "j < 2 ^ Suc mb" by simp
  have low: "2 ^ mb \<le> j"
  proof (cases e)
    case 0
    with j assms(2) show ?thesis by simp
  next
    case (Suc e0)
    then have "blen k - 1 = mb + e" using e by simp
    then have "2 ^ mb * 2 ^ e \<le> j * 2 ^ e"
      using blen_bounds [OF pos] j by (simp add: power_add)
    then show ?thesis by simp
  qed
  from up low have "j = 2 ^ mb + (j - 2 ^ mb)" and "j - 2 ^ mb < 2 ^ mb" by auto
  with j show ?thesis by metis
qed

lemma fp_enc_mag_cases:
  assumes F: "fmt_ok F" and r: "repr (mbits F) k" and l: "k < flimit F"
  shows "\<exists>ex fr. fp_enc_mag (mbits F) k = ex * 2 ^ mbits F + fr \<and> fr < 2 ^ mbits F
     \<and> ex < 2 ^ ebits F - 1 \<and> k = (if ex = 0 then fr else (2 ^ mbits F + fr) * 2 ^ (ex - 1))"
proof (cases "k < 2 ^ mbits F")
  case True
  have "(2::nat) ^ 1 \<le> 2 ^ ebits F" using F by (intro power_increasing) (auto simp: fmt_ok_def)
  then have "0 < (2::nat) ^ ebits F - 1" by simp
  then show ?thesis using True by (intro exI [of _ 0] exI [of _ k]) (simp add: fp_enc_mag_def)
next
  case False
  let ?e = "blen k - Suc (mbits F)"
  obtain fr where fr: "k = (2 ^ mbits F + fr) * 2 ^ ?e" "fr < 2 ^ mbits F"
    using repr_split [OF r _ refl] False by auto
  have "(2::nat) ^ 2 \<le> 2 ^ ebits F" using F by (intro power_increasing) (auto simp: fmt_ok_def)
  moreover have "blen k \<le> Suc (mbits F) + 2 ^ ebits F - 3"
    using F l by (intro blen_le) (simp add: fmt_ok_def)
  ultimately have e: "Suc ?e < 2 ^ ebits F - 1" by simp
  have "k div 2 ^ ?e = 2 ^ mbits F + fr" using fr(1) by (metis nonzero_mult_div_cancel_right power_not_zero zero_neq_numeral)
  then have "fp_enc_mag (mbits F) k = Suc ?e * 2 ^ mbits F + fr"
    using False by (simp add: fp_enc_mag_def Let_def)
  then show ?thesis using fr e by (intro exI [of _ "Suc ?e"] exI [of _ fr]) simp
qed

lemma fp_decode_parts:
  assumes "fr < 2 ^ mbits F" and "ex < 2 ^ ebits F"
  shows "fp_decode F (of_bool s * 2 ^ (ebits F + mbits F) + (ex * 2 ^ mbits F + fr)) =
    (if ex = 2 ^ ebits F - 1 then (if fr = 0 then FInf s else FNaN)
     else FFin s (if ex = 0 then fr else (2 ^ mbits F + fr) * 2 ^ (ex - 1)))"
proof -
  let ?w = "of_bool s * 2 ^ (ebits F + mbits F) + (ex * 2 ^ mbits F + fr)"
  have w: "?w = (of_bool s * 2 ^ ebits F + ex) * 2 ^ mbits F + fr"
    by (simp add: power_add algebra_simps)
  have "?w div 2 ^ mbits F = of_bool s * 2 ^ ebits F + ex" and "?w mod 2 ^ mbits F = fr"
    unfolding w using assms(1) by simp_all
  moreover from this have "?w div 2 ^ (ebits F + mbits F) = of_bool s"
    using assms(2) by (simp add: add.commute [of "ebits F"] power_add div_mult2_eq)
  moreover have "(of_bool s * 2 ^ ebits F + ex) mod 2 ^ ebits F = ex" using assms(2) by simp
  ultimately show ?thesis by (simp add: fp_decode_def Let_def)
qed

lemma fp_decode_encode:
  assumes F: "fmt_ok F" and v: "fp_ok F v"
  shows "fp_decode F (fp_encode F v) = v"
proof -
  have eb: "(2::nat) ^ ebits F - 1 < 2 ^ ebits F" by simp
  have mb: "(2::nat) ^ (mbits F - 1) < 2 ^ mbits F"
    using F by (intro power_strict_increasing) (auto simp: fmt_ok_def)
  show ?thesis
  proof (cases v)
    case FNaN
    with fp_decode_parts [OF mb eb, of False] show ?thesis by (simp add: fp_encode_def)
  next
    case (FInf s)
    have "(0::nat) < 2 ^ mbits F" by simp
    from fp_decode_parts [OF this eb, of s] FInf show ?thesis by (simp add: fp_encode_def)
  next
    case (FFin s k)
    with v obtain ex fr where "fp_enc_mag (mbits F) k = ex * 2 ^ mbits F + fr" "fr < 2 ^ mbits F"
      "ex < 2 ^ ebits F - 1" "k = (if ex = 0 then fr else (2 ^ mbits F + fr) * 2 ^ (ex - 1))"
      using fp_enc_mag_cases [OF F] unfolding fp_ok_def by fastforce
    with fp_decode_parts [of fr F ex s] FFin show ?thesis by (simp add: fp_encode_def)
  qed
qed

lemma fp_encode_bound:
  assumes F: "fmt_ok F" and v: "fp_ok F v"
  shows "fp_encode F v < 2 ^ Suc (ebits F + mbits F)"
proof -
  have m: "(2::nat) ^ (mbits F - 1) < 2 ^ mbits F"
    using F by (intro power_strict_increasing) (auto simp: fmt_ok_def)
  have bound: "ex * 2 ^ mbits F + fr < 2 ^ (ebits F + mbits F)"
    if "ex \<le> 2 ^ ebits F - 1" "fr < 2 ^ mbits F" for ex fr :: nat
  proof -
    have "ex * 2 ^ mbits F + fr < Suc ex * 2 ^ mbits F" using that(2) by simp
    also have "\<dots> \<le> 2 ^ ebits F * 2 ^ mbits F"
      using that(1) by (intro mult_le_mono1) (simp add: Suc_le_eq le_less_trans [OF that(1)])
    finally show ?thesis by (simp add: power_add)
  qed
  show ?thesis
  proof (cases v)
    case FNaN
    with bound [OF order.refl m] show ?thesis by (simp add: fp_encode_def)
  next
    case (FInf s)
    with bound [OF order.refl, of 0] show ?thesis by (simp add: fp_encode_def)
  next
    case (FFin s k)
    with v obtain ex fr where "fp_enc_mag (mbits F) k = ex * 2 ^ mbits F + fr" "fr < 2 ^ mbits F"
      "ex < 2 ^ ebits F - 1"
      using fp_enc_mag_cases [OF F] unfolding fp_ok_def by fastforce
    with bound [of ex fr] FFin show ?thesis by (simp add: fp_encode_def)
  qed
qed

subsection \<open>Arithmetic, comparison and conversion\<close>

definition sgn_int :: "bool \<Rightarrow> nat \<Rightarrow> int" where
  "sgn_int s k = (if s then - int k else int k)"

fun fp_neg :: "fp \<Rightarrow> fp" where
  "fp_neg FNaN = FNaN"
| "fp_neg (FInf s) = FInf (\<not> s)"
| "fp_neg (FFin s k) = FFin (\<not> s) k"

fun fp_abs :: "fp \<Rightarrow> fp" where
  "fp_abs FNaN = FNaN"
| "fp_abs (FInf s) = FInf False"
| "fp_abs (FFin s k) = FFin False k"

fun fp_add :: "fmt \<Rightarrow> fp \<Rightarrow> fp \<Rightarrow> fp" where
  "fp_add F (FFin s k) (FFin t l) =
     (let z = sgn_int s k + sgn_int t l in
      if z = 0 then FFin (s \<and> t) 0 else fp_make F (z < 0) (nat \<bar>z\<bar>) 1)"
| "fp_add F (FInf s) (FInf t) = (if s = t then FInf s else FNaN)"
| "fp_add F (FInf s) (FFin t l) = FInf s"
| "fp_add F (FFin s k) (FInf t) = FInf t"
| "fp_add F FNaN v = FNaN"
| "fp_add F v FNaN = FNaN"

definition fp_sub :: "fmt \<Rightarrow> fp \<Rightarrow> fp \<Rightarrow> fp" where
  "fp_sub F a b = fp_add F a (fp_neg b)"

fun fp_mul :: "fmt \<Rightarrow> fp \<Rightarrow> fp \<Rightarrow> fp" where
  "fp_mul F (FFin s k) (FFin t l) = fp_make F (s \<noteq> t) (k * l) (funit F)"
| "fp_mul F (FInf s) (FInf t) = FInf (s \<noteq> t)"
| "fp_mul F (FInf s) (FFin t l) = (if l = 0 then FNaN else FInf (s \<noteq> t))"
| "fp_mul F (FFin s k) (FInf t) = (if k = 0 then FNaN else FInf (s \<noteq> t))"
| "fp_mul F FNaN v = FNaN"
| "fp_mul F v FNaN = FNaN"

fun fp_div :: "fmt \<Rightarrow> fp \<Rightarrow> fp \<Rightarrow> fp" where
  "fp_div F (FFin s k) (FFin t l) =
     (if l = 0 then (if k = 0 then FNaN else FInf (s \<noteq> t))
      else fp_make F (s \<noteq> t) (k * funit F) l)"
| "fp_div F (FInf s) (FInf t) = FNaN"
| "fp_div F (FInf s) (FFin t l) = FInf (s \<noteq> t)"
| "fp_div F (FFin s k) (FInf t) = FFin (s \<noteq> t) 0"
| "fp_div F FNaN v = FNaN"
| "fp_div F v FNaN = FNaN"

text \<open>
  Comparisons are false on a NaN. Finite values compare as signed integers, so that the
  two zeros are equal; the infinities lie outside.
\<close>

fun fp_less :: "fp \<Rightarrow> fp \<Rightarrow> bool" where
  "fp_less (FFin s k) (FFin t l) = (sgn_int s k < sgn_int t l)"
| "fp_less (FInf s) (FInf t) = (s \<and> \<not> t)"
| "fp_less (FInf s) (FFin t l) = s"
| "fp_less (FFin s k) (FInf t) = (\<not> t)"
| "fp_less FNaN v = False"
| "fp_less v FNaN = False"

fun fp_eqv :: "fp \<Rightarrow> fp \<Rightarrow> bool" where
  "fp_eqv (FFin s k) (FFin t l) = (sgn_int s k = sgn_int t l)"
| "fp_eqv (FInf s) (FInf t) = (s = t)"
| "fp_eqv _ _ = False"

definition fp_le :: "fp \<Rightarrow> fp \<Rightarrow> bool" where
  "fp_le a b = (fp_less a b \<or> fp_eqv a b)"

text \<open>\<open>as\<close> casts: to an unsigned integer, saturating, with NaN to 0; to a signed one.\<close>

fun fp_to_nat_sat :: "fmt \<Rightarrow> nat \<Rightarrow> fp \<Rightarrow> nat" where
  "fp_to_nat_sat F m FNaN = 0"
| "fp_to_nat_sat F m (FInf s) = (if s then 0 else m)"
| "fp_to_nat_sat F m (FFin s k) = (if s then 0 else min (k div funit F) m)"

fun fp_to_int_sat :: "fmt \<Rightarrow> int \<Rightarrow> int \<Rightarrow> fp \<Rightarrow> int" where
  "fp_to_int_sat F lo hi FNaN = 0"
| "fp_to_int_sat F lo hi (FInf s) = (if s then lo else hi)"
| "fp_to_int_sat F lo hi (FFin s k) = max lo (min hi (sgn_int s (k div funit F)))"

definition fp_of_int :: "fmt \<Rightarrow> int \<Rightarrow> fp" where
  "fp_of_int F i = fp_make F (i < 0) (nat \<bar>i\<bar> * funit F) 1"

text \<open>\<^verbatim>\<open>round()\<close>: the nearest integer, halves away from zero. The result is exact.\<close>

fun fp_round_int :: "fmt \<Rightarrow> fp \<Rightarrow> fp" where
  "fp_round_int F (FFin s k) = FFin s ((2 * k + funit F) div (2 * funit F) * funit F)"
| "fp_round_int F v = v"

subsection \<open>The types f32 and f64\<close>

datatype f32 = F32 (f32_bits: u32)
datatype f64 = F64 (f64_bits: u64)

definition f32_val :: "f32 \<Rightarrow> fp" where
  "f32_val x = fp_decode fmt32 (unat (f32_bits x))"

definition f64_val :: "f64 \<Rightarrow> fp" where
  "f64_val x = fp_decode fmt64 (unat (f64_bits x))"

definition f32_of :: "fp \<Rightarrow> f32" where
  "f32_of v = F32 (of_nat (fp_encode fmt32 v))"

definition f64_of :: "fp \<Rightarrow> f64" where
  "f64_of v = F64 (of_nat (fp_encode fmt64 v))"

lemma f32_val_of [simp]: "fp_ok fmt32 v \<Longrightarrow> f32_val (f32_of v) = v"
  using fp_encode_bound [OF fmt_ok_32, of v] fp_decode_encode [OF fmt_ok_32, of v]
  by (simp add: f32_val_def f32_of_def unat_of_nat fmt32_def)

lemma f64_val_of [simp]: "fp_ok fmt64 v \<Longrightarrow> f64_val (f64_of v) = v"
  using fp_encode_bound [OF fmt_ok_64, of v] fp_decode_encode [OF fmt_ok_64, of v]
  by (simp add: f64_val_def f64_of_def unat_of_nat fmt64_def)

instantiation f32 :: "{plus, minus, times, inverse, uminus, zero, one, ord, abs}"
begin

definition plus_f32 :: "f32 \<Rightarrow> f32 \<Rightarrow> f32" where
  "plus_f32 a b = f32_of (fp_add fmt32 (f32_val a) (f32_val b))"

definition minus_f32 :: "f32 \<Rightarrow> f32 \<Rightarrow> f32" where
  "minus_f32 a b = f32_of (fp_sub fmt32 (f32_val a) (f32_val b))"

definition times_f32 :: "f32 \<Rightarrow> f32 \<Rightarrow> f32" where
  "times_f32 a b = f32_of (fp_mul fmt32 (f32_val a) (f32_val b))"

definition divide_f32 :: "f32 \<Rightarrow> f32 \<Rightarrow> f32" where
  "divide_f32 a b = f32_of (fp_div fmt32 (f32_val a) (f32_val b))"

definition inverse_f32 :: "f32 \<Rightarrow> f32" where
  "inverse_f32 a = f32_of (fp_div fmt32 (fp_of_int fmt32 1) (f32_val a))"

definition uminus_f32 :: "f32 \<Rightarrow> f32" where
  "uminus_f32 a = f32_of (fp_neg (f32_val a))"

definition zero_f32 :: "f32" where
  "zero_f32 = F32 0"

definition one_f32 :: "f32" where
  "one_f32 = F32 0x3F800000"

definition less_f32 :: "f32 \<Rightarrow> f32 \<Rightarrow> bool" where
  "less_f32 a b = fp_less (f32_val a) (f32_val b)"

definition less_eq_f32 :: "f32 \<Rightarrow> f32 \<Rightarrow> bool" where
  "less_eq_f32 a b = fp_le (f32_val a) (f32_val b)"

definition abs_f32 :: "f32 \<Rightarrow> f32" where
  "abs_f32 a = f32_of (fp_abs (f32_val a))"

instance ..

end

instantiation f64 :: "{plus, minus, times, inverse, uminus, zero, one, ord, abs}"
begin

definition plus_f64 :: "f64 \<Rightarrow> f64 \<Rightarrow> f64" where
  "plus_f64 a b = f64_of (fp_add fmt64 (f64_val a) (f64_val b))"

definition minus_f64 :: "f64 \<Rightarrow> f64 \<Rightarrow> f64" where
  "minus_f64 a b = f64_of (fp_sub fmt64 (f64_val a) (f64_val b))"

definition times_f64 :: "f64 \<Rightarrow> f64 \<Rightarrow> f64" where
  "times_f64 a b = f64_of (fp_mul fmt64 (f64_val a) (f64_val b))"

definition divide_f64 :: "f64 \<Rightarrow> f64 \<Rightarrow> f64" where
  "divide_f64 a b = f64_of (fp_div fmt64 (f64_val a) (f64_val b))"

definition inverse_f64 :: "f64 \<Rightarrow> f64" where
  "inverse_f64 a = f64_of (fp_div fmt64 (fp_of_int fmt64 1) (f64_val a))"

definition uminus_f64 :: "f64 \<Rightarrow> f64" where
  "uminus_f64 a = f64_of (fp_neg (f64_val a))"

definition zero_f64 :: "f64" where
  "zero_f64 = F64 0"

definition one_f64 :: "f64" where
  "one_f64 = F64 0x3FF0000000000000"

definition less_f64 :: "f64 \<Rightarrow> f64 \<Rightarrow> bool" where
  "less_f64 a b = fp_less (f64_val a) (f64_val b)"

definition less_eq_f64 :: "f64 \<Rightarrow> f64 \<Rightarrow> bool" where
  "less_eq_f64 a b = fp_le (f64_val a) (f64_val b)"

definition abs_f64 :: "f64 \<Rightarrow> f64" where
  "abs_f64 a = f64_of (fp_abs (f64_val a))"

instance ..

end

text \<open>The literal \<open>n / d\<close>, rounded as the compiler rounds a decimal literal.\<close>

definition f32_lit :: "nat \<Rightarrow> nat \<Rightarrow> f32" where
  "f32_lit n d = f32_of (fp_make fmt32 False (n * funit fmt32) d)"

definition f64_lit :: "nat \<Rightarrow> nat \<Rightarrow> f64" where
  "f64_lit n d = f64_of (fp_make fmt64 False (n * funit fmt64) d)"

definition f32_nan :: f32 where
  "f32_nan = f32_of FNaN"

definition f32_is_nan :: "f32 \<Rightarrow> bool" where
  "f32_is_nan x = (f32_val x = FNaN)"

fun fp_finite :: "fp \<Rightarrow> bool" where
  "fp_finite (FFin s k) = True"
| "fp_finite v = False"

definition f32_is_finite :: "f32 \<Rightarrow> bool" where
  "f32_is_finite x = fp_finite (f32_val x)"

definition f64_is_finite :: "f64 \<Rightarrow> bool" where
  "f64_is_finite x = fp_finite (f64_val x)"

definition f32_eq :: "f32 \<Rightarrow> f32 \<Rightarrow> bool" where
  "f32_eq a b = fp_eqv (f32_val a) (f32_val b)"

definition f32_of_int :: "int \<Rightarrow> f32" where
  "f32_of_int i = f32_of (fp_of_int fmt32 i)"

definition f64_of_int :: "int \<Rightarrow> f64" where
  "f64_of_int i = f64_of (fp_of_int fmt64 i)"

definition f32_round :: "f32 \<Rightarrow> f32" where
  "f32_round x = f32_of (fp_round_int fmt32 (f32_val x))"

definition f32_to_u8 :: "f32 \<Rightarrow> u8" where
  "f32_to_u8 x = of_nat (fp_to_nat_sat fmt32 255 (f32_val x))"

text \<open>\<^verbatim>\<open>clamp(lo, hi)\<close>: a NaN passes through.\<close>

definition f32_clamp :: "f32 \<Rightarrow> f32 \<Rightarrow> f32 \<Rightarrow> f32" where
  "f32_clamp x lo hi = (let y = (if x < lo then lo else x) in if hi < y then hi else y)"

subsection \<open>Well-formedness of every value\<close>

lemma fp_ok_simps [simp]: "fp_ok F FNaN" "fp_ok F (FInf s)"
  "fp_ok F (FFin s k) = (repr (mbits F) k \<and> k < flimit F)"
  by (simp_all add: fp_ok_def)

lemma fp_ok_make [simp]: "0 < d \<Longrightarrow> fp_ok F (fp_make F s n d)"
  by (simp add: fp_make_def Let_def repr_fp_round)

lemma fp_ok_decode:
  assumes F: "fmt_ok F"
  shows "fp_ok F (fp_decode F w)"
proof -
  let ?ex = "(w div 2 ^ mbits F) mod 2 ^ ebits F" and ?fr = "w mod 2 ^ mbits F"
  have fr: "?fr < 2 ^ mbits F" by simp
  have eb: "(2::nat) ^ 2 \<le> 2 ^ ebits F" using F by (intro power_increasing) (auto simp: fmt_ok_def)
  have lim: "2 ^ mbits F < flimit F"
    using F eb by (simp add: fmt_ok_def) 
  have "fp_ok F (FFin s ?fr)" for s
    using less_trans [OF fr lim] less_trans [OF fr, of "2 ^ Suc (mbits F)"]
    by (auto intro: repr_small)
  moreover have "fp_ok F (FFin s ((2 ^ mbits F + ?fr) * 2 ^ (?ex - 1)))"
    if "?ex \<noteq> 2 ^ ebits F - 1" for s
  proof -
    have "?ex < 2 ^ ebits F" by simp
    with that eb have ex: "?ex - 1 \<le> 2 ^ ebits F - 3" by linarith
    have m: "2 ^ mbits F + ?fr < 2 ^ Suc (mbits F)" using fr by simp
    then have "(2 ^ mbits F + ?fr) * 2 ^ (?ex - 1) < 2 ^ Suc (mbits F) * 2 ^ (?ex - 1)" by simp
    also have "\<dots> = 2 ^ (Suc (mbits F) + (?ex - 1))" by (simp only: power_add)
    also have "\<dots> \<le> 2 ^ (Suc (mbits F) + 2 ^ ebits F - 3)"
    proof (rule power_increasing)
      show "Suc (mbits F) + (?ex - 1) \<le> Suc (mbits F) + 2 ^ ebits F - 3"
        using ex eb by (simp add: Nat.le_diff_conv2)
    qed simp
    also have "\<dots> = flimit F" using F by (simp add: fmt_ok_def)
    finally have "(2 ^ mbits F + ?fr) * 2 ^ (?ex - 1) < flimit F" .
    moreover have "repr (mbits F) ((2 ^ mbits F + ?fr) * 2 ^ (?ex - 1))"
      using m unfolding repr_def by blast
    ultimately show ?thesis by simp
  qed
  ultimately show ?thesis unfolding fp_decode_def Let_def by (simp only: fp_ok_simps split: if_split) blast
qed

lemma fp_ok_val [simp]: "fp_ok fmt32 (f32_val x)" "fp_ok fmt64 (f64_val y)"
  by (simp_all add: f32_val_def f64_val_def fp_ok_decode)

lemma funit_pos [simp]: "0 < funit fmt32" "0 < funit fmt64"
  by (simp_all add: fmt32_def fmt64_def)

lemma fp_ok_neg [simp]: "fp_ok F (fp_neg v) = fp_ok F v"
  by (cases v) auto

lemma fp_ok_abs [simp]: "fp_ok F v \<Longrightarrow> fp_ok F (fp_abs v)"
  by (cases v) auto

lemma fp_ok_add: "fmt_ok F \<Longrightarrow> fp_ok F a \<Longrightarrow> fp_ok F b \<Longrightarrow> fp_ok F (fp_add F a b)"
  by (cases "(F, a, b)" rule: fp_add.cases) (auto simp: Let_def fmt_ok_def)

lemma fp_ok_mul: "fmt_ok F \<Longrightarrow> fp_ok F a \<Longrightarrow> fp_ok F b \<Longrightarrow> fp_ok F (fp_mul F a b)"
  by (cases "(F, a, b)" rule: fp_mul.cases) (auto simp: fmt_ok_def)

lemma fp_ok_div: "fmt_ok F \<Longrightarrow> fp_ok F a \<Longrightarrow> fp_ok F b \<Longrightarrow> fp_ok F (fp_div F a b)"
  by (cases "(F, a, b)" rule: fp_div.cases) (auto simp: fmt_ok_def)

lemma f32_ops_val [simp]:
  "f32_val (a + b) = fp_add fmt32 (f32_val a) (f32_val b)"
  "f32_val (a - b) = fp_sub fmt32 (f32_val a) (f32_val b)"
  "f32_val (a * b) = fp_mul fmt32 (f32_val a) (f32_val b)"
  "f32_val (a / b) = fp_div fmt32 (f32_val a) (f32_val b)"
  "f32_val (- a) = fp_neg (f32_val a)"
  "f32_val \<bar>a\<bar> = fp_abs (f32_val a)"
  by (simp_all add: plus_f32_def minus_f32_def times_f32_def divide_f32_def uminus_f32_def
      abs_f32_def fp_sub_def fp_ok_add fp_ok_mul fp_ok_div)

lemma f64_ops_val [simp]:
  "f64_val (a + b) = fp_add fmt64 (f64_val a) (f64_val b)"
  "f64_val (a - b) = fp_sub fmt64 (f64_val a) (f64_val b)"
  "f64_val (a * b) = fp_mul fmt64 (f64_val a) (f64_val b)"
  "f64_val (a / b) = fp_div fmt64 (f64_val a) (f64_val b)"
  "f64_val (- a) = fp_neg (f64_val a)"
  "f64_val \<bar>a\<bar> = fp_abs (f64_val a)"
  by (simp_all add: plus_f64_def minus_f64_def times_f64_def divide_f64_def uminus_f64_def
      abs_f64_def fp_sub_def fp_ok_add fp_ok_mul fp_ok_div)

lemma f32_val_0 [simp]: "f32_val 0 = FFin False 0"
  by (simp add: zero_f32_def f32_val_def fp_decode_def fmt32_def)

lemma f32_val_1 [simp]: "f32_val 1 = FFin False (funit fmt32)"
  by (simp add: one_f32_def f32_val_def fp_decode_def fmt32_def Let_def)

lemma f64_val_0 [simp]: "f64_val 0 = FFin False 0"
  by (simp add: zero_f64_def f64_val_def fp_decode_def fmt64_def)

text \<open>Small integers convert exactly.\<close>

lemma repr_mult_pow: "m < 2 ^ Suc mb \<Longrightarrow> repr mb (m * 2 ^ e)"
  unfolding repr_def by blast

lemma fp_make_exact:
  assumes "repr (mbits F) k" "k < flimit F" "0 < d"
  shows "fp_make F s (k * d) d = FFin s k"
  using assms by (simp add: fp_make_def Let_def fp_round_exact)

lemma fp_of_int_32:
  assumes "\<bar>i\<bar> < 2 ^ 24"
  shows "fp_of_int fmt32 i = FFin (i < 0) (nat \<bar>i\<bar> * funit fmt32)"
proof -
  let ?k = "nat \<bar>i\<bar> * 2 ^ 149"
  have m: "nat \<bar>i\<bar> < 2 ^ 24" using assms by (simp add: nat_less_iff)
  then have "repr 23 ?k" by (intro repr_mult_pow) simp
  moreover have "?k < 2 ^ 24 * 2 ^ 149" using m by (rule mult_strict_right_mono) simp
  moreover have "(2::nat) ^ 24 * 2 ^ 149 \<le> 2 ^ 277" by simp
  ultimately have "repr 23 ?k" and "?k < 2 ^ 277" by linarith+
  then have "fp_make fmt32 (i < 0) (?k * 1) 1 = FFin (i < 0) ?k"
    by (intro fp_make_exact) (auto simp: fmt32_def simp del: power_numeral)
  then show ?thesis by (simp add: fp_of_int_def fmt32_def)
qed

lemma f32_val_of_int: "\<bar>i\<bar> < 2 ^ 24 \<Longrightarrow> f32_val (f32_of_int i) = FFin (i < 0) (nat \<bar>i\<bar> * funit fmt32)"
proof -
  assume i: "\<bar>i\<bar> < 2 ^ 24"
  have "fp_ok fmt32 (fp_of_int fmt32 i)" by (simp add: fp_of_int_def)
  with fp_of_int_32 [OF i] show ?thesis by (simp add: f32_of_int_def)
qed

lemma fp_less_irrefl [simp]: "\<not> fp_less v v"
  by (cases v) auto

lemma f32_not_less_nan: "f32_is_nan x \<Longrightarrow> \<not> x < y \<and> \<not> y < x"
  by (cases "f32_val y") (simp_all add: f32_is_nan_def less_f32_def)

text \<open>A clamp into the unit interval: every number lands in it, a NaN stays a NaN.\<close>

definition unit_val :: "fp \<Rightarrow> bool" where
  "unit_val v = (\<exists>s k. v = FFin s k \<and> 0 \<le> sgn_int s k \<and> k \<le> funit fmt32)"

lemma f32_clamp_unit:
  "f32_is_nan x \<or> unit_val (f32_val (f32_clamp x 0 1))"
proof (cases "f32_val x")
  case FNaN
  then show ?thesis by (simp add: f32_is_nan_def)
next
  case (FInf s)
  then show ?thesis
    by (auto simp: f32_clamp_def less_f32_def unit_val_def Let_def sgn_int_def)
next
  case (FFin s k)
  then show ?thesis
    by (auto simp: f32_clamp_def less_f32_def unit_val_def Let_def sgn_int_def)
qed

lemma f32_clamp_id: "unit_val (f32_val x) \<Longrightarrow> f32_clamp x 0 1 = x"
  by (auto simp: unit_val_def f32_clamp_def less_f32_def sgn_int_def split: if_splits)

text \<open>Multiplying non-negative values is monotone, rounding included.\<close>

lemma fp_make_mono:
  assumes "0 < b" "0 < d" "a * d \<le> c * b"
  shows "\<not> fp_less (fp_make F False c d) (fp_make F False a b)"
  using fp_round_mono [OF assms, of "mbits F"]
  by (auto simp: fp_make_def Let_def sgn_int_def)

subsection \<open>Evaluation of closed terms\<close>

lemma blen_numeral: "blen (numeral w) = Suc (blen (numeral w div 2))"
  by (rule blen_pos) simp

lemma blen_1: "blen (Suc 0) = Suc 0"
  by (simp add: blen_pos)

lemmas fp_eval = f32_lit_def fp_make_def fp_round_def fp_exp_def rne_def blen_numeral blen_1
  fmt32_def Let_def f32_of_def fp_encode_def fp_enc_mag_def f32_val_def fp_decode_def sgn_int_def

end
