(* ===== verification/Codec.thy ===== *)
theory Codec
  imports Ieee_Float "HOL-Library.Monad_Syntax"
begin

section \<open>Readers and the codec interface\<close>

text \<open>
  A reader consumes a prefix of a byte buffer and hands the rest back. The locale
  \<open>codec\<close> is the contract every wire encoder and its reader share; \<open>strict_codec\<close> adds
  that the reader accepts nothing but what the encoder writes. The clients of the
  contract (field sequences, packets) only use its laws.
\<close>

definition rd_bytes :: "nat \<Rightarrow> bytes \<Rightarrow> (bytes \<times> bytes) option" where
  "rd_bytes n bs = (if n \<le> length bs then Some (take n bs, drop n bs) else None)"

definition rd_u8 :: "bytes \<Rightarrow> (u8 \<times> bytes) option" where
  "rd_u8 bs = (case bs of [] \<Rightarrow> None | b # r \<Rightarrow> Some (b, r))"

definition rd_u16_be :: "bytes \<Rightarrow> (u16 \<times> bytes) option" where
  "rd_u16_be bs = do { (x, r) \<leftarrow> rd_bytes 2 bs; Some (from_be x, r) }"

definition rd_u32_be :: "bytes \<Rightarrow> (u32 \<times> bytes) option" where
  "rd_u32_be bs = do { (x, r) \<leftarrow> rd_bytes 4 bs; Some (from_be x, r) }"

definition rd_u64_be :: "bytes \<Rightarrow> (u64 \<times> bytes) option" where
  "rd_u64_be bs = do { (x, r) \<leftarrow> rd_bytes 8 bs; Some (from_be x, r) }"

definition f32_to_be :: "f32 \<Rightarrow> bytes" where
  "f32_to_be x = to_be (f32_bits x)"

definition rd_f32_be :: "bytes \<Rightarrow> (f32 \<times> bytes) option" where
  "rd_f32_be bs = do { (x, r) \<leftarrow> rd_u32_be bs; Some (F32 x, r) }"

definition u8_enc :: "u8 \<Rightarrow> bytes" where
  "u8_enc b = [b]"

subsection \<open>The contract\<close>

locale codec =
  fixes enc :: "'a \<Rightarrow> bytes"
    and dec :: "bytes \<Rightarrow> ('a \<times> bytes) option"
    and wf :: "'a \<Rightarrow> bool"
  assumes roundtrip: "wf x \<Longrightarrow> dec (enc x @ rest) = Some (x, rest)"
begin

lemma roundtrip_exact: "wf x \<Longrightarrow> dec (enc x) = Some (x, [])"
  using roundtrip [of x "[]"] by simp

lemma prefix_free:
  assumes "wf x" "wf y" "enc x @ r = enc y @ s"
  shows "x = y \<and> r = s"
proof -
  have "Some (x, r) = dec (enc x @ r)" using assms(1) by (simp add: roundtrip)
  also have "\<dots> = Some (y, s)" using assms(2,3) by (simp add: roundtrip)
  finally show ?thesis by simp
qed

lemma enc_inj: "wf x \<Longrightarrow> wf y \<Longrightarrow> enc x = enc y \<Longrightarrow> x = y"
  using prefix_free [of x y "[]" "[]"] by simp

fun dec_list :: "nat \<Rightarrow> bytes \<Rightarrow> ('a list \<times> bytes) option" where
  "dec_list 0 bs = Some ([], bs)"
| "dec_list (Suc n) bs =
     do { (x, r) \<leftarrow> dec bs; (xs, r') \<leftarrow> dec_list n r; Some (x # xs, r') }"

lemma list_roundtrip:
  "(\<And>x. x \<in> set xs \<Longrightarrow> wf x) \<Longrightarrow> dec_list (length xs) (concat (map enc xs) @ rest) = Some (xs, rest)"
  by (induction xs) (simp_all add: roundtrip)

end

locale strict_codec = codec +
  assumes sound: "dec bs = Some (x, rest) \<Longrightarrow> wf x \<and> bs = enc x @ rest"
begin

lemma dec_iff: "dec bs = Some (x, rest) \<longleftrightarrow> wf x \<and> bs = enc x @ rest"
  using sound roundtrip by auto

lemma dec_consumes: "dec bs = Some (x, rest) \<Longrightarrow> length bs = length (enc x) + length rest"
  by (drule sound) simp

end

text \<open>
  An enumeration over a tag: writing is the tag of the variant, reading looks the tag up.
  The interface asks only that a tag that is found is the tag of what was found.
\<close>

definition enum_enc :: "('t \<Rightarrow> bytes) \<Rightarrow> ('a \<Rightarrow> 't) \<Rightarrow> 'a \<Rightarrow> bytes" where
  "enum_enc tenc code x = tenc (code x)"

definition enum_dec :: "(bytes \<Rightarrow> ('t \<times> bytes) option) \<Rightarrow> ('t \<Rightarrow> 'a option) \<Rightarrow> bytes \<Rightarrow> ('a \<times> bytes) option" where
  "enum_dec tdec lookup bs = do { (t, r) \<leftarrow> tdec bs; x \<leftarrow> lookup t; Some (x, r) }"

definition canonical :: "('t \<Rightarrow> 'a option) \<Rightarrow> ('a \<Rightarrow> 't) \<Rightarrow> 'a \<Rightarrow> bool" where
  "canonical lookup code x \<longleftrightarrow> lookup (code x) = Some x"

locale wire_enum = tag: strict_codec tenc tdec "\<lambda>_. True"
  for tenc :: "'t \<Rightarrow> bytes" and tdec :: "bytes \<Rightarrow> ('t \<times> bytes) option" +
  fixes code :: "'a \<Rightarrow> 't" and lookup :: "'t \<Rightarrow> 'a option"
  assumes lookup_code: "lookup t = Some x \<Longrightarrow> code x = t"
begin

lemma lookup_canonical: "lookup t = Some x \<Longrightarrow> canonical lookup code x"
  using lookup_code by (auto simp: canonical_def)

sublocale strict_codec "enum_enc tenc code" "enum_dec tdec lookup" "canonical lookup code"
proof unfold_locales
  fix x rest
  assume "canonical lookup code x"
  then show "enum_dec tdec lookup (enum_enc tenc code x @ rest) = Some (x, rest)"
    by (simp add: canonical_def enum_enc_def enum_dec_def tag.roundtrip)
next
  fix bs x rest
  assume "enum_dec tdec lookup bs = Some (x, rest)"
  then obtain t where t: "tdec bs = Some (t, rest)" and x: "lookup t = Some x"
    by (auto simp: enum_dec_def bind_eq_Some_conv)
  from tag.sound [OF t] x show "canonical lookup code x \<and> bs = enum_enc tenc code x @ rest"
    using lookup_code lookup_canonical by (auto simp: enum_enc_def)
qed

end

subsection \<open>The primitive readers meet the contract\<close>

lemma rd_bytes_append [simp]: "length xs = n \<Longrightarrow> rd_bytes n (xs @ rest) = Some (xs, rest)"
  by (simp add: rd_bytes_def)

lemma rd_bytes_exact [simp]: "length xs = n \<Longrightarrow> rd_bytes n xs = Some (xs, [])"
  by (simp add: rd_bytes_def)

lemma rd_bytes_Some: "rd_bytes n bs = Some (x, r) \<Longrightarrow> length x = n \<and> bs = x @ r"
  by (auto simp: rd_bytes_def split: if_splits)

lemma to_be_read:
  "rd_u16_be (to_be w @ rest) = Some (w, rest)"
  "rd_u32_be (to_be v @ rest) = Some (v, rest)"
  "rd_u64_be (to_be u @ rest) = Some (u, rest)"
  by (simp_all add: rd_u16_be_def rd_u32_be_def rd_u64_be_def)

interpretation u8_codec: strict_codec u8_enc rd_u8 "\<lambda>_. True"
  by unfold_locales (auto simp: u8_enc_def rd_u8_def split: list.splits)

interpretation u16_codec: strict_codec to_be rd_u16_be "\<lambda>_. True"
  by unfold_locales (auto simp: rd_u16_be_def bind_eq_Some_conv dest!: rd_bytes_Some)

interpretation u32_codec: strict_codec to_be rd_u32_be "\<lambda>_. True"
  by unfold_locales (auto simp: rd_u32_be_def bind_eq_Some_conv dest!: rd_bytes_Some)

interpretation u64_codec: strict_codec to_be rd_u64_be "\<lambda>_. True"
  by unfold_locales (auto simp: rd_u64_be_def bind_eq_Some_conv dest!: rd_bytes_Some)

interpretation f32_codec: strict_codec f32_to_be rd_f32_be "\<lambda>_. True"
  by unfold_locales
    (auto simp: rd_f32_be_def f32_to_be_def bind_eq_Some_conv to_be_read dest!: u32_codec.sound)

lemma rd_u8_Cons [simp]: "rd_u8 (b # r) = Some (b, r)"
  by (simp add: rd_u8_def)

lemma f32_to_be_read [simp]: "rd_f32_be (f32_to_be x @ rest) = Some (x, rest)"
  by (rule f32_codec.roundtrip) simp

lemma f32_to_be_read_exact [simp]: "rd_f32_be (f32_to_be x) = Some (x, [])"
  by (rule f32_codec.roundtrip_exact) simp

lemma length_f32_to_be [simp]: "length (f32_to_be x) = 4"
  by (simp add: f32_to_be_def)

lemma to_be_read_exact [simp]:
  "rd_u16_be (to_be w) = Some (w, [])"
  "rd_u32_be (to_be v) = Some (v, [])"
  "rd_u64_be (to_be u) = Some (u, [])"
  using to_be_read [where rest = "[]"] by simp_all

declare to_be_read [simp]

end
