(* ===== verification/Slime_Enums.thy ===== *)
theory Slime_Enums
  imports Codec
begin

section \<open>The enumerations of the SlimeVR wire protocol\<close>

text \<open>
  Each enum of \<^verbatim>\<open>crates/slime-tracker/src/serverbound.rs\<close> with its wire identifiers. An
  enum with a catch-all variant reads every identifier; the others reject the unknown
  ones. A value is canonical when reading back what it writes gives it again: an
  \<open>UnknownVariant\<close> that carries a known identifier is not.
\<close>

datatype board_type =
    BoardUnknown
  | BoardSlimeVRLegacy
  | BoardSlimeVRDev
  | BoardNodeMCU
  | BoardCustom
  | BoardWRoom32
  | BoardWemosD1Mini
  | BoardTTGOTBase
  | BoardESP01
  | BoardSlimeVR
  | BoardLolinC3Mini
  | BoardBeetle32C3
  | BoardESP32C3DevKitM1
  | BoardThirdPartyAndroid
  | BoardWrangler
  | BoardMocopi
  | BoardWemosWroom02
  | BoardXiaoEsp32C3
  | BoardHaritora
  | BoardDevReserved
  | BoardUnknownVariant u32

fun board_type_code :: "board_type \<Rightarrow> u32" where
  "board_type_code BoardUnknown = 0"
| "board_type_code BoardSlimeVRLegacy = 1"
| "board_type_code BoardSlimeVRDev = 2"
| "board_type_code BoardNodeMCU = 3"
| "board_type_code BoardCustom = 4"
| "board_type_code BoardWRoom32 = 5"
| "board_type_code BoardWemosD1Mini = 6"
| "board_type_code BoardTTGOTBase = 7"
| "board_type_code BoardESP01 = 8"
| "board_type_code BoardSlimeVR = 9"
| "board_type_code BoardLolinC3Mini = 10"
| "board_type_code BoardBeetle32C3 = 11"
| "board_type_code BoardESP32C3DevKitM1 = 12"
| "board_type_code BoardThirdPartyAndroid = 13"
| "board_type_code BoardWrangler = 14"
| "board_type_code BoardMocopi = 15"
| "board_type_code BoardWemosWroom02 = 16"
| "board_type_code BoardXiaoEsp32C3 = 17"
| "board_type_code BoardHaritora = 18"
| "board_type_code BoardDevReserved = 250"
| "board_type_code (BoardUnknownVariant n) = n"

definition board_type_of :: "u32 \<Rightarrow> board_type option" where
  "board_type_of n = (
     if n = 0 then Some BoardUnknown
     else if n = 1 then Some BoardSlimeVRLegacy
     else if n = 2 then Some BoardSlimeVRDev
     else if n = 3 then Some BoardNodeMCU
     else if n = 4 then Some BoardCustom
     else if n = 5 then Some BoardWRoom32
     else if n = 6 then Some BoardWemosD1Mini
     else if n = 7 then Some BoardTTGOTBase
     else if n = 8 then Some BoardESP01
     else if n = 9 then Some BoardSlimeVR
     else if n = 10 then Some BoardLolinC3Mini
     else if n = 11 then Some BoardBeetle32C3
     else if n = 12 then Some BoardESP32C3DevKitM1
     else if n = 13 then Some BoardThirdPartyAndroid
     else if n = 14 then Some BoardWrangler
     else if n = 15 then Some BoardMocopi
     else if n = 16 then Some BoardWemosWroom02
     else if n = 17 then Some BoardXiaoEsp32C3
     else if n = 18 then Some BoardHaritora
     else if n = 250 then Some BoardDevReserved
     else Some (BoardUnknownVariant n))"

datatype imu_type =
    ImuUnknown
  | ImuMpu9250
  | ImuMpu6500
  | ImuBno080
  | ImuBno085
  | ImuBno055
  | ImuMpu6050
  | ImuBno086
  | ImuBmi160
  | ImuIcm20948
  | ImuIcm42688
  | ImuBmi270
  | ImuLsm6ds3trc
  | ImuLsm6dsv
  | ImuLsm6dso
  | ImuLsm6dsr
  | ImuIcm45686
  | ImuIcm45605
  | ImuAdcResistance
  | ImuDevReserved
  | ImuUnknownVariant u8

fun imu_type_code :: "imu_type \<Rightarrow> u8" where
  "imu_type_code ImuUnknown = 0"
| "imu_type_code ImuMpu9250 = 1"
| "imu_type_code ImuMpu6500 = 2"
| "imu_type_code ImuBno080 = 3"
| "imu_type_code ImuBno085 = 4"
| "imu_type_code ImuBno055 = 5"
| "imu_type_code ImuMpu6050 = 6"
| "imu_type_code ImuBno086 = 7"
| "imu_type_code ImuBmi160 = 8"
| "imu_type_code ImuIcm20948 = 9"
| "imu_type_code ImuIcm42688 = 10"
| "imu_type_code ImuBmi270 = 11"
| "imu_type_code ImuLsm6ds3trc = 12"
| "imu_type_code ImuLsm6dsv = 13"
| "imu_type_code ImuLsm6dso = 14"
| "imu_type_code ImuLsm6dsr = 15"
| "imu_type_code ImuIcm45686 = 16"
| "imu_type_code ImuIcm45605 = 17"
| "imu_type_code ImuAdcResistance = 18"
| "imu_type_code ImuDevReserved = 250"
| "imu_type_code (ImuUnknownVariant n) = n"

definition imu_type_of :: "u8 \<Rightarrow> imu_type option" where
  "imu_type_of n = (
     if n = 0 then Some ImuUnknown
     else if n = 1 then Some ImuMpu9250
     else if n = 2 then Some ImuMpu6500
     else if n = 3 then Some ImuBno080
     else if n = 4 then Some ImuBno085
     else if n = 5 then Some ImuBno055
     else if n = 6 then Some ImuMpu6050
     else if n = 7 then Some ImuBno086
     else if n = 8 then Some ImuBmi160
     else if n = 9 then Some ImuIcm20948
     else if n = 10 then Some ImuIcm42688
     else if n = 11 then Some ImuBmi270
     else if n = 12 then Some ImuLsm6ds3trc
     else if n = 13 then Some ImuLsm6dsv
     else if n = 14 then Some ImuLsm6dso
     else if n = 15 then Some ImuLsm6dsr
     else if n = 16 then Some ImuIcm45686
     else if n = 17 then Some ImuIcm45605
     else if n = 18 then Some ImuAdcResistance
     else if n = 250 then Some ImuDevReserved
     else Some (ImuUnknownVariant n))"

datatype mcu_type =
    McuUnknown
  | McuEsp8266
  | McuEsp32
  | McuThirdPartyAndroid
  | McuWrangler
  | McuThirdPartyIos
  | McuEsp32C3
  | McuMocopi
  | McuHaritora
  | McuDevReserved
  | McuUnknownVariant u32

fun mcu_type_code :: "mcu_type \<Rightarrow> u32" where
  "mcu_type_code McuUnknown = 0"
| "mcu_type_code McuEsp8266 = 1"
| "mcu_type_code McuEsp32 = 2"
| "mcu_type_code McuThirdPartyAndroid = 3"
| "mcu_type_code McuWrangler = 4"
| "mcu_type_code McuThirdPartyIos = 5"
| "mcu_type_code McuEsp32C3 = 6"
| "mcu_type_code McuMocopi = 7"
| "mcu_type_code McuHaritora = 8"
| "mcu_type_code McuDevReserved = 250"
| "mcu_type_code (McuUnknownVariant n) = n"

definition mcu_type_of :: "u32 \<Rightarrow> mcu_type option" where
  "mcu_type_of n = (
     if n = 0 then Some McuUnknown
     else if n = 1 then Some McuEsp8266
     else if n = 2 then Some McuEsp32
     else if n = 3 then Some McuThirdPartyAndroid
     else if n = 4 then Some McuWrangler
     else if n = 5 then Some McuThirdPartyIos
     else if n = 6 then Some McuEsp32C3
     else if n = 7 then Some McuMocopi
     else if n = 8 then Some McuHaritora
     else if n = 250 then Some McuDevReserved
     else Some (McuUnknownVariant n))"

datatype sensor_status =
    StatusOffline
  | StatusOk

fun sensor_status_code :: "sensor_status \<Rightarrow> u8" where
  "sensor_status_code StatusOffline = 0"
| "sensor_status_code StatusOk = 1"

definition sensor_status_of :: "u8 \<Rightarrow> sensor_status option" where
  "sensor_status_of n = (
     if n = 0 then Some StatusOffline
     else if n = 1 then Some StatusOk
     else None)"

datatype sensor_data_type =
    DataNormal
  | DataCorrection

fun sensor_data_type_code :: "sensor_data_type \<Rightarrow> u8" where
  "sensor_data_type_code DataNormal = 1"
| "sensor_data_type_code DataCorrection = 2"

definition sensor_data_type_of :: "u8 \<Rightarrow> sensor_data_type option" where
  "sensor_data_type_of n = (
     if n = 1 then Some DataNormal
     else if n = 2 then Some DataCorrection
     else None)"

datatype action_type =
    ActResetFull
  | ActResetYaw
  | ActResetMounting
  | ActPauseTracking
  | ActUnknownVariant u8

fun action_type_code :: "action_type \<Rightarrow> u8" where
  "action_type_code ActResetFull = 2"
| "action_type_code ActResetYaw = 3"
| "action_type_code ActResetMounting = 4"
| "action_type_code ActPauseTracking = 5"
| "action_type_code (ActUnknownVariant n) = n"

definition action_type_of :: "u8 \<Rightarrow> action_type option" where
  "action_type_of n = (
     if n = 2 then Some ActResetFull
     else if n = 3 then Some ActResetYaw
     else if n = 4 then Some ActResetMounting
     else if n = 5 then Some ActPauseTracking
     else Some (ActUnknownVariant n))"

datatype tracker_position =
    PosNone
  | PosHead
  | PosNeck
  | PosUpperChest
  | PosChest
  | PosWaist
  | PosHip
  | PosLeftUpperLeg
  | PosRightUpperLeg
  | PosLeftLowerLeg
  | PosRightLowerLeg
  | PosLeftFoot
  | PosRightFoot
  | PosUnknownVariant u8

fun tracker_position_code :: "tracker_position \<Rightarrow> u8" where
  "tracker_position_code PosNone = 0"
| "tracker_position_code PosHead = 1"
| "tracker_position_code PosNeck = 2"
| "tracker_position_code PosUpperChest = 3"
| "tracker_position_code PosChest = 4"
| "tracker_position_code PosWaist = 5"
| "tracker_position_code PosHip = 6"
| "tracker_position_code PosLeftUpperLeg = 7"
| "tracker_position_code PosRightUpperLeg = 8"
| "tracker_position_code PosLeftLowerLeg = 9"
| "tracker_position_code PosRightLowerLeg = 10"
| "tracker_position_code PosLeftFoot = 11"
| "tracker_position_code PosRightFoot = 12"
| "tracker_position_code (PosUnknownVariant n) = n"

definition tracker_position_of :: "u8 \<Rightarrow> tracker_position option" where
  "tracker_position_of n = (
     if n = 0 then Some PosNone
     else if n = 1 then Some PosHead
     else if n = 2 then Some PosNeck
     else if n = 3 then Some PosUpperChest
     else if n = 4 then Some PosChest
     else if n = 5 then Some PosWaist
     else if n = 6 then Some PosHip
     else if n = 7 then Some PosLeftUpperLeg
     else if n = 8 then Some PosRightUpperLeg
     else if n = 9 then Some PosLeftLowerLeg
     else if n = 10 then Some PosRightLowerLeg
     else if n = 11 then Some PosLeftFoot
     else if n = 12 then Some PosRightFoot
     else Some (PosUnknownVariant n))"

datatype tracker_data_type =
    TDataRotation
  | TDataFlexResistance
  | TDataFlexAngle

fun tracker_data_type_code :: "tracker_data_type \<Rightarrow> u8" where
  "tracker_data_type_code TDataRotation = 0"
| "tracker_data_type_code TDataFlexResistance = 1"
| "tracker_data_type_code TDataFlexAngle = 2"

definition tracker_data_type_of :: "u8 \<Rightarrow> tracker_data_type option" where
  "tracker_data_type_of n = (
     if n = 0 then Some TDataRotation
     else if n = 1 then Some TDataFlexResistance
     else if n = 2 then Some TDataFlexAngle
     else None)"

lemma board_type_lookup: "board_type_of n = Some x \<Longrightarrow> board_type_code x = n"
  by (auto simp: board_type_of_def split: if_splits)

interpretation board_type_codec: wire_enum to_be rd_u32_be board_type_code board_type_of
  by unfold_locales (rule board_type_lookup)

lemma imu_type_lookup: "imu_type_of n = Some x \<Longrightarrow> imu_type_code x = n"
  by (auto simp: imu_type_of_def split: if_splits)

interpretation imu_type_codec: wire_enum u8_enc rd_u8 imu_type_code imu_type_of
  by unfold_locales (rule imu_type_lookup)

lemma mcu_type_lookup: "mcu_type_of n = Some x \<Longrightarrow> mcu_type_code x = n"
  by (auto simp: mcu_type_of_def split: if_splits)

interpretation mcu_type_codec: wire_enum to_be rd_u32_be mcu_type_code mcu_type_of
  by unfold_locales (rule mcu_type_lookup)

lemma sensor_status_lookup: "sensor_status_of n = Some x \<Longrightarrow> sensor_status_code x = n"
  by (auto simp: sensor_status_of_def split: if_splits)

interpretation sensor_status_codec: wire_enum u8_enc rd_u8 sensor_status_code sensor_status_of
  by unfold_locales (rule sensor_status_lookup)

lemma sensor_data_type_lookup: "sensor_data_type_of n = Some x \<Longrightarrow> sensor_data_type_code x = n"
  by (auto simp: sensor_data_type_of_def split: if_splits)

interpretation sensor_data_type_codec: wire_enum u8_enc rd_u8 sensor_data_type_code sensor_data_type_of
  by unfold_locales (rule sensor_data_type_lookup)

lemma action_type_lookup: "action_type_of n = Some x \<Longrightarrow> action_type_code x = n"
  by (auto simp: action_type_of_def split: if_splits)

interpretation action_type_codec: wire_enum u8_enc rd_u8 action_type_code action_type_of
  by unfold_locales (rule action_type_lookup)

lemma tracker_position_lookup: "tracker_position_of n = Some x \<Longrightarrow> tracker_position_code x = n"
  by (auto simp: tracker_position_of_def split: if_splits)

interpretation tracker_position_codec: wire_enum u8_enc rd_u8 tracker_position_code tracker_position_of
  by unfold_locales (rule tracker_position_lookup)

lemma tracker_data_type_lookup: "tracker_data_type_of n = Some x \<Longrightarrow> tracker_data_type_code x = n"
  by (auto simp: tracker_data_type_of_def split: if_splits)

interpretation tracker_data_type_codec: wire_enum u8_enc rd_u8 tracker_data_type_code tracker_data_type_of
  by unfold_locales (rule tracker_data_type_lookup)

text \<open>The readers and writers by name, with their round trip as simplification rules.\<close>

abbreviation "enc_board_type \<equiv> enum_enc to_be board_type_code"
abbreviation "rd_board_type \<equiv> enum_dec rd_u32_be board_type_of"

abbreviation "enc_imu_type \<equiv> enum_enc u8_enc imu_type_code"
abbreviation "rd_imu_type \<equiv> enum_dec rd_u8 imu_type_of"

abbreviation "enc_mcu_type \<equiv> enum_enc to_be mcu_type_code"
abbreviation "rd_mcu_type \<equiv> enum_dec rd_u32_be mcu_type_of"

abbreviation "enc_sensor_status \<equiv> enum_enc u8_enc sensor_status_code"
abbreviation "rd_sensor_status \<equiv> enum_dec rd_u8 sensor_status_of"

abbreviation "enc_sensor_data_type \<equiv> enum_enc u8_enc sensor_data_type_code"
abbreviation "rd_sensor_data_type \<equiv> enum_dec rd_u8 sensor_data_type_of"

abbreviation "enc_action_type \<equiv> enum_enc u8_enc action_type_code"
abbreviation "rd_action_type \<equiv> enum_dec rd_u8 action_type_of"

abbreviation "enc_tracker_position \<equiv> enum_enc u8_enc tracker_position_code"
abbreviation "rd_tracker_position \<equiv> enum_dec rd_u8 tracker_position_of"

abbreviation "enc_tracker_data_type \<equiv> enum_enc u8_enc tracker_data_type_code"
abbreviation "rd_tracker_data_type \<equiv> enum_dec rd_u8 tracker_data_type_of"

lemmas enum_roundtrips [simp] =
  board_type_codec.roundtrip board_type_codec.roundtrip_exact
  imu_type_codec.roundtrip imu_type_codec.roundtrip_exact
  mcu_type_codec.roundtrip mcu_type_codec.roundtrip_exact
  sensor_status_codec.roundtrip sensor_status_codec.roundtrip_exact
  sensor_data_type_codec.roundtrip sensor_data_type_codec.roundtrip_exact
  action_type_codec.roundtrip action_type_codec.roundtrip_exact
  tracker_position_codec.roundtrip tracker_position_codec.roundtrip_exact
  tracker_data_type_codec.roundtrip tracker_data_type_codec.roundtrip_exact

text \<open>The catch-all variants make these enums total: every identifier is read.\<close>

lemma catch_all_total: "board_type_of b \<noteq> None" "imu_type_of i \<noteq> None" "mcu_type_of m \<noteq> None"
    "action_type_of a \<noteq> None" "tracker_position_of p \<noteq> None"
  by (simp_all add: board_type_of_def imu_type_of_def mcu_type_of_def action_type_of_def
      tracker_position_of_def)

text \<open>Feature bits of the tracker and of the server (two separate namespaces).\<close>

definition firmware_SENSOR_CONFIG :: nat where
  "firmware_SENSOR_CONFIG = 2"

definition server_PROTOCOL_BUNDLE_SUPPORT :: nat where
  "server_PROTOCOL_BUNDLE_SUPPORT = 0"

definition server_PROTOCOL_BUNDLE_COMPACT_SUPPORT :: nat where
  "server_PROTOCOL_BUNDLE_COMPACT_SUPPORT = 1"

end
