(* ===== verification/Slime_Wire.thy ===== *)
theory Slime_Wire
  imports Slime_Enums
begin

section \<open>SlimeVR packets and bundles\<close>

text \<open>
  The wire format of \<^verbatim>\<open>crates/slime-tracker\<close>: quaternions and length-prefixed strings,
  the server-bound and client-bound packets with the layouts their declarations give,
  the packet wrapper (tag, sequence number, body) with its two error paths, and the
  hand-written bundle encoder and decoder. Signed fields are kept as words.
\<close>


record slime_quaternion =
  quat_i :: f32
  quat_j :: f32
  quat_k :: f32
  quat_w :: f32

definition enc_quaternion :: "slime_quaternion \<Rightarrow> bytes" where
  "enc_quaternion q = f32_to_be (quat_i q) @ f32_to_be (quat_j q) @ f32_to_be (quat_k q) @ f32_to_be (quat_w q)"

definition rd_quaternion :: "bytes \<Rightarrow> (slime_quaternion \<times> bytes) option" where
  "rd_quaternion bs = do {
     (i, r1) \<leftarrow> rd_f32_be bs; (j, r2) \<leftarrow> rd_f32_be r1;
     (k, r3) \<leftarrow> rd_f32_be r2; (w, r4) \<leftarrow> rd_f32_be r3;
     Some (\<lparr>quat_i = i, quat_j = j, quat_k = k, quat_w = w\<rparr>, r4) }"

interpretation quaternion_codec: strict_codec enc_quaternion rd_quaternion "\<lambda>_. True"
  by unfold_locales
    (auto simp: enc_quaternion_def rd_quaternion_def bind_eq_Some_conv dest!: f32_codec.sound)

subsection \<open>Length-prefixed strings\<close>

record slime_string =
  ss_count :: u8
  ss_data :: bytes

definition SLIME_STRING_MAX :: nat where
  "SLIME_STRING_MAX = 255"

text \<open>\<^verbatim>\<open>From<&str>\<close>: the UTF-8 bytes, cut at the largest length the prefix can hold.\<close>

definition slime_string_from :: "bytes \<Rightarrow> slime_string" where
  "slime_string_from s =
     (let d = (if length s > SLIME_STRING_MAX then take SLIME_STRING_MAX s else s)
      in \<lparr>ss_count = of_nat (length d), ss_data = d\<rparr>)"

definition wf_string :: "slime_string \<Rightarrow> bool" where
  "wf_string s \<longleftrightarrow> unat (ss_count s) = length (ss_data s)"

definition enc_string :: "slime_string \<Rightarrow> bytes" where
  "enc_string s = ss_count s # ss_data s"

definition rd_string :: "bytes \<Rightarrow> (slime_string \<times> bytes) option" where
  "rd_string bs = do {
     (n, r) \<leftarrow> rd_u8 bs; (d, r') \<leftarrow> rd_bytes (unat n) r;
     Some (\<lparr>ss_count = n, ss_data = d\<rparr>, r') }"

interpretation string_codec: strict_codec enc_string rd_string wf_string
  by unfold_locales
    (auto simp: enc_string_def rd_string_def wf_string_def bind_eq_Some_conv u8_enc_def
      dest!: u8_codec.sound rd_bytes_Some)

lemma slime_string_from_wf [simp]: "wf_string (slime_string_from s)"
  by (simp add: wf_string_def slime_string_from_def SLIME_STRING_MAX_def unat_of_nat Let_def)

lemma slime_string_from_data: "ss_data (slime_string_from s) = take 255 s"
  by (simp add: slime_string_from_def SLIME_STRING_MAX_def Let_def)

subsection \<open>Server-bound packets\<close>

datatype sb_packet =
    SbHeartbeat u8
  | SbHandshake board_type imu_type mcu_type "i32 \<times> i32 \<times> i32" i32 slime_string mac
  | SbAcceleration "f32 \<times> f32 \<times> f32" u8
  | SbMagnetometer u8 sensor_data_type "f32 \<times> f32 \<times> f32" u8
  | SbPing bytes
  | SbBatteryLevel f32 f32
  | SbSensorInfo u8 sensor_status imu_type u16 u8 tracker_position tracker_data_type
  | SbRotationData u8 sensor_data_type slime_quaternion u8
  | SbUserAction action_type
  | SbFeatureFlags bytes
  | SbAckConfigChange u8 u16
  | SbBundle bytes

fun sb_id :: "sb_packet \<Rightarrow> u32" where
  "sb_id (SbHeartbeat _) = 0"
| "sb_id (SbHandshake _ _ _ _ _ _ _) = 3"
| "sb_id (SbAcceleration _ _) = 4"
| "sb_id (SbMagnetometer _ _ _ _) = 5"
| "sb_id (SbPing _) = 10"
| "sb_id (SbBatteryLevel _ _) = 12"
| "sb_id (SbSensorInfo _ _ _ _ _ _ _) = 15"
| "sb_id (SbRotationData _ _ _ _) = 17"
| "sb_id (SbUserAction _) = 21"
| "sb_id (SbFeatureFlags _) = 22"
| "sb_id (SbAckConfigChange _ _) = 24"
| "sb_id (SbBundle _) = 100"

definition enc_vec3 :: "f32 \<times> f32 \<times> f32 \<Rightarrow> bytes" where
  "enc_vec3 v = (case v of (x, y, z) \<Rightarrow> f32_to_be x @ f32_to_be y @ f32_to_be z)"

fun sb_body :: "sb_packet \<Rightarrow> bytes" where
  "sb_body (SbHeartbeat t) = [t]"
| "sb_body (SbHandshake b i m (x, y, z) v f a) =
     enc_board_type b @ [0, 0, 0] @ enc_imu_type i @ enc_mcu_type m
     @ to_be x @ to_be y @ to_be z @ to_be v @ enc_string f @ a"
| "sb_body (SbAcceleration v s) = enc_vec3 v @ [s]"
| "sb_body (SbMagnetometer s d v c) = [s] @ enc_sensor_data_type d @ enc_vec3 v @ [c]"
| "sb_body (SbPing c) = c"
| "sb_body (SbBatteryLevel v l) = f32_to_be v @ f32_to_be l"
| "sb_body (SbSensorInfo s st i cfg cal pos dt) =
     [s] @ enc_sensor_status st @ enc_imu_type i @ to_be cfg @ [cal]
     @ enc_tracker_position pos @ enc_tracker_data_type dt"
| "sb_body (SbRotationData s d q c) = [s] @ enc_sensor_data_type d @ enc_quaternion q @ [c]"
| "sb_body (SbUserAction a) = enc_action_type a"
| "sb_body (SbFeatureFlags fs) = fs"
| "sb_body (SbAckConfigChange s c) = [s] @ to_be c"
| "sb_body (SbBundle inner) = inner"

definition rd_vec3 :: "bytes \<Rightarrow> ((f32 \<times> f32 \<times> f32) \<times> bytes) option" where
  "rd_vec3 bs = do {
     (x, r1) \<leftarrow> rd_f32_be bs; (y, r2) \<leftarrow> rd_f32_be r1; (z, r3) \<leftarrow> rd_f32_be r2;
     Some ((x, y, z), r3) }"

interpretation vec3_codec: strict_codec enc_vec3 rd_vec3 "\<lambda>_. True"
  by unfold_locales
    (auto simp: enc_vec3_def rd_vec3_def bind_eq_Some_conv split: prod.splits dest!: f32_codec.sound)

definition sb_read :: "u32 \<Rightarrow> bytes \<Rightarrow> (sb_packet \<times> bytes) option" where
  "sb_read tag bs = (
     if tag = 0 then do { (t, r) \<leftarrow> rd_u8 bs; Some (SbHeartbeat t, r) }
     else if tag = 3 then do {
       (b, r1) \<leftarrow> rd_board_type bs; (_, r2) \<leftarrow> rd_bytes 3 r1; (i, r3) \<leftarrow> rd_imu_type r2;
       (m, r4) \<leftarrow> rd_mcu_type r3; (x, r5) \<leftarrow> rd_u32_be r4; (y, r6) \<leftarrow> rd_u32_be r5;
       (z, r7) \<leftarrow> rd_u32_be r6; (v, r8) \<leftarrow> rd_u32_be r7; (f, r9) \<leftarrow> rd_string r8;
       (a, r10) \<leftarrow> rd_bytes 6 r9; Some (SbHandshake b i m (x, y, z) v f a, r10) }
     else if tag = 4 then do {
       (v, r1) \<leftarrow> rd_vec3 bs; (s, r2) \<leftarrow> rd_u8 r1; Some (SbAcceleration v s, r2) }
     else if tag = 5 then do {
       (s, r1) \<leftarrow> rd_u8 bs; (d, r2) \<leftarrow> rd_sensor_data_type r1; (v, r3) \<leftarrow> rd_vec3 r2;
       (c, r4) \<leftarrow> rd_u8 r3; Some (SbMagnetometer s d v c, r4) }
     else if tag = 10 then do { (c, r) \<leftarrow> rd_bytes 4 bs; Some (SbPing c, r) }
     else if tag = 12 then do {
       (v, r1) \<leftarrow> rd_f32_be bs; (l, r2) \<leftarrow> rd_f32_be r1; Some (SbBatteryLevel v l, r2) }
     else if tag = 15 then do {
       (s, r1) \<leftarrow> rd_u8 bs; (st, r2) \<leftarrow> rd_sensor_status r1; (i, r3) \<leftarrow> rd_imu_type r2;
       (cfg, r4) \<leftarrow> rd_u16_be r3; (cal, r5) \<leftarrow> rd_u8 r4; (pos, r6) \<leftarrow> rd_tracker_position r5;
       (dt, r7) \<leftarrow> rd_tracker_data_type r6; Some (SbSensorInfo s st i cfg cal pos dt, r7) }
     else if tag = 17 then do {
       (s, r1) \<leftarrow> rd_u8 bs; (d, r2) \<leftarrow> rd_sensor_data_type r1; (q, r3) \<leftarrow> rd_quaternion r2;
       (c, r4) \<leftarrow> rd_u8 r3; Some (SbRotationData s d q c, r4) }
     else if tag = 21 then do { (a, r) \<leftarrow> rd_action_type bs; Some (SbUserAction a, r) }
     else if tag = 22 then Some (SbFeatureFlags bs, [])
     else if tag = 24 then do {
       (s, r1) \<leftarrow> rd_u8 bs; (c, r2) \<leftarrow> rd_u16_be r1; Some (SbAckConfigChange s c, r2) }
     else if tag = 100 then Some (SbBundle bs, [])
     else None)"

text \<open>
  The values the Rust types allow: arrays have their length, a string's prefix is its
  length, and an enum is not an \<open>UnknownVariant\<close> of a known identifier.
\<close>

fun wf_sb :: "sb_packet \<Rightarrow> bool" where
  "wf_sb (SbHandshake b i m _ _ f a) \<longleftrightarrow>
     canonical board_type_of board_type_code b \<and> canonical imu_type_of imu_type_code i
     \<and> canonical mcu_type_of mcu_type_code m \<and> wf_string f \<and> length a = 6"
| "wf_sb (SbPing c) \<longleftrightarrow> length c = 4"
| "wf_sb (SbMagnetometer _ d _ _) \<longleftrightarrow> canonical sensor_data_type_of sensor_data_type_code d"
| "wf_sb (SbRotationData _ d _ _) \<longleftrightarrow> canonical sensor_data_type_of sensor_data_type_code d"
| "wf_sb (SbSensorInfo _ st i _ _ pos dt) \<longleftrightarrow>
     canonical sensor_status_of sensor_status_code st \<and> canonical imu_type_of imu_type_code i
     \<and> canonical tracker_position_of tracker_position_code pos
     \<and> canonical tracker_data_type_of tracker_data_type_code dt"
| "wf_sb (SbUserAction a) \<longleftrightarrow> canonical action_type_of action_type_code a"
| "wf_sb _ \<longleftrightarrow> True"

lemma rd_bytes_3 [simp]: "rd_bytes 3 (x # y # z # r) = Some ([x, y, z], r)"
  by (simp add: rd_bytes_def numeral_3_eq_3)

lemma sb_read_body: "wf_sb p \<Longrightarrow> sb_read (sb_id p) (sb_body p) = Some (p, [])"
  by (cases p)
    (auto simp: sb_read_def quaternion_codec.roundtrip vec3_codec.roundtrip
      string_codec.roundtrip)

subsection \<open>Client-bound packets\<close>

datatype cb_packet =
    CbDiscovery
  | CbHeartbeat
  | CbPing bytes
  | CbFeatureFlags bytes
  | CbSetConfigFlag u8 u16 u8
  | CbHandshakeResponse bytes

fun cb_id :: "cb_packet \<Rightarrow> u32" where
  "cb_id CbDiscovery = 0"
| "cb_id CbHeartbeat = 1"
| "cb_id (CbPing _) = 10"
| "cb_id (CbFeatureFlags _) = 22"
| "cb_id (CbSetConfigFlag _ _ _) = 25"
| "cb_id (CbHandshakeResponse _) = 55076217"

fun cb_body :: "cb_packet \<Rightarrow> bytes" where
  "cb_body CbDiscovery = []"
| "cb_body CbHeartbeat = []"
| "cb_body (CbPing c) = c"
| "cb_body (CbFeatureFlags fs) = fs"
| "cb_body (CbSetConfigFlag s c st) = [s] @ to_be c @ [st]"
| "cb_body (CbHandshakeResponse p) = p"

definition cb_read :: "u32 \<Rightarrow> bytes \<Rightarrow> (cb_packet \<times> bytes) option" where
  "cb_read tag bs = (
     if tag = 0 then Some (CbDiscovery, bs)
     else if tag = 1 then Some (CbHeartbeat, bs)
     else if tag = 10 then do { (c, r) \<leftarrow> rd_bytes 4 bs; Some (CbPing c, r) }
     else if tag = 22 then Some (CbFeatureFlags bs, [])
     else if tag = 25 then do {
       (s, r1) \<leftarrow> rd_u8 bs; (c, r2) \<leftarrow> rd_u16_be r1; (st, r3) \<leftarrow> rd_u8 r2;
       Some (CbSetConfigFlag s c st, r3) }
     else if tag = 55076217 then Some (CbHandshakeResponse bs, [])
     else None)"

fun wf_cb :: "cb_packet \<Rightarrow> bool" where
  "wf_cb (CbPing c) \<longleftrightarrow> length c = 4"
| "wf_cb _ \<longleftrightarrow> True"

lemma cb_read_body: "wf_cb p \<Longrightarrow> cb_read (cb_id p) (cb_body p) = Some (p, [])"
  by (cases p) (auto simp: cb_read_def)

subsection \<open>The packet wrapper\<close>

text \<open>
  \<^verbatim>\<open>Packet<D>\<close>: a tag, a sequence number and a body whose layout the tag selects. The
  wrapper is generic in the body, so its encoder and reader take the body's.
\<close>

datatype serialize_error = SerDeku | BufferTooSmall

datatype deserialize_error = DeDeku | BytesRemaining | Truncated | WrongTag u32

definition packet_bytes :: "('d \<Rightarrow> u32) \<Rightarrow> ('d \<Rightarrow> bytes) \<Rightarrow> u64 \<Rightarrow> 'd \<Rightarrow> bytes" where
  "packet_bytes did body seq d = to_be (did d) @ to_be seq @ body d"

definition serialize_into ::
  "('d \<Rightarrow> u32) \<Rightarrow> ('d \<Rightarrow> bytes) \<Rightarrow> u64 \<Rightarrow> 'd \<Rightarrow> bytes \<Rightarrow> serialize_error + (nat \<times> bytes)" where
  "serialize_into did body seq d buf =
     (let bs = packet_bytes did body seq d in
      if length bs > length buf then Inl BufferTooSmall
      else Inr (length bs, bs @ drop (length bs) buf))"

definition deserialize_from ::
  "(u32 \<Rightarrow> bytes \<Rightarrow> ('d \<times> bytes) option) \<Rightarrow> bytes \<Rightarrow> deserialize_error + (u64 \<times> 'd)" where
  "deserialize_from rd buf =
     (case do { (tag, r1) \<leftarrow> rd_u32_be buf; (seq, r2) \<leftarrow> rd_u64_be r1;
                (d, tail) \<leftarrow> rd tag r2; Some (seq, d, tail) } of
        None \<Rightarrow> Inl DeDeku
      | Some (seq, d, tail) \<Rightarrow> if tail = [] then Inr (seq, d) else Inl BytesRemaining)"

abbreviation "sb_packet_bytes \<equiv> packet_bytes sb_id sb_body"
abbreviation "cb_packet_bytes \<equiv> packet_bytes cb_id cb_body"

text \<open>
  The interface between the wrapper and a packet enum: the body read back under the
  packet's own tag. Both enums provide it.
\<close>

locale packet_body =
  fixes did :: "'d \<Rightarrow> u32" and body :: "'d \<Rightarrow> bytes"
    and rd :: "u32 \<Rightarrow> bytes \<Rightarrow> ('d \<times> bytes) option" and wf :: "'d \<Rightarrow> bool"
  assumes read_body: "wf d \<Longrightarrow> rd (did d) (body d) = Some (d, [])"
begin

lemma deserialize_packet:
  "wf d \<Longrightarrow> deserialize_from rd (packet_bytes did body seq d) = Inr (seq, d)"
  by (simp add: deserialize_from_def packet_bytes_def read_body)

lemma serialize_fits:
  assumes "serialize_into did body seq d buf = Inr (n, buf')"
  shows "take n buf' = packet_bytes did body seq d \<and> length buf' = length buf
    \<and> drop n buf' = drop n buf"
  using assms by (auto simp: serialize_into_def Let_def split: if_splits)

lemma serialize_error:
  "serialize_into did body seq d buf = Inl e \<longleftrightarrow>
     e = BufferTooSmall \<and> length buf < length (packet_bytes did body seq d)"
  by (auto simp: serialize_into_def Let_def)

lemma serialize_deserialize:
  assumes "wf d" "serialize_into did body seq d buf = Inr (n, buf')"
  shows "deserialize_from rd (take n buf') = Inr (seq, d)"
  using serialize_fits [OF assms(2)] by (simp only: deserialize_packet [OF assms(1)])

lemma packet_inj:
  assumes "wf d" "wf d'" "packet_bytes did body seq d = packet_bytes did body seq' d'"
  shows "seq = seq' \<and> d = d'"
  using deserialize_packet [OF assms(1), of seq] deserialize_packet [OF assms(2), of seq']
  unfolding assms(3) by simp

end

interpretation sb: packet_body sb_id sb_body sb_read wf_sb
  by unfold_locales (rule sb_read_body)

interpretation cb: packet_body cb_id cb_body cb_read wf_cb
  by unfold_locales (rule cb_read_body)

subsection \<open>Bundles\<close>

definition BUNDLE_TAG :: u32 where
  "BUNDLE_TAG = 100"

fun encode_inners :: "(u32 \<times> bytes) list \<Rightarrow> serialize_error + bytes" where
  "encode_inners [] = Inr []"
| "encode_inners ((t, payload) # rest) =
     (let inner_len = 4 + length payload in
      if inner_len > 65535 then Inl BufferTooSmall
      else case encode_inners rest of
          Inl e \<Rightarrow> Inl e
        | Inr bs \<Rightarrow> Inr (to_be (of_nat inner_len :: u16) @ to_be t @ payload @ bs))"

definition encode_bundle :: "u64 \<Rightarrow> (u32 \<times> bytes) list \<Rightarrow> serialize_error + bytes" where
  "encode_bundle seq inners =
     (case encode_inners inners of
        Inl e \<Rightarrow> Inl e
      | Inr bs \<Rightarrow> Inr (to_be BUNDLE_TAG @ to_be seq @ bs))"

text \<open>The decoder's loop over the cursor, which grows by at least six bytes each round.\<close>

function decode_inners :: "bytes \<Rightarrow> nat \<Rightarrow> deserialize_error + (u32 \<times> bytes) list" where
  "decode_inners buf cursor =
     (if cursor < length buf then
        if length buf < cursor + 6 then Inl Truncated
        else
          let inner_len = unat (u16_be_at buf cursor) in
          if inner_len < 4 \<or> length buf < cursor + 2 + inner_len then Inl Truncated
          else
            (case decode_inners buf (cursor + 2 + inner_len) of
               Inl e \<Rightarrow> Inl e
             | Inr out \<Rightarrow>
                 Inr ((u32_be_at buf (cursor + 2), sub_slice buf (cursor + 6) (inner_len - 4)) # out))
      else Inr [])"
  by pat_completeness auto
termination
  by (relation "measure (\<lambda>(buf, cursor). length buf - cursor)") auto

declare decode_inners.simps [simp del]

definition decode_bundle :: "bytes \<Rightarrow> deserialize_error + (u64 \<times> (u32 \<times> bytes) list)" where
  "decode_bundle buf =
     (if length buf < 12 then Inl Truncated
      else let tag = u32_be_at buf 0 in
        if tag \<noteq> BUNDLE_TAG then Inl (WrongTag tag)
        else case decode_inners buf 12 of
            Inl e \<Rightarrow> Inl e
          | Inr out \<Rightarrow> Inr (u64_be_at buf 4, out))"

subsection \<open>Bundles: what the encoder and the decoder promise\<close>

definition inner_bytes :: "u32 \<times> bytes \<Rightarrow> bytes" where
  "inner_bytes i = to_be (of_nat (4 + length (snd i)) :: u16) @ to_be (fst i) @ snd i"

lemma length_inner_bytes [simp]: "length (inner_bytes i) = 6 + length (snd i)"
  by (simp add: inner_bytes_def)

lemma inner_bytes_Pair:
  "inner_bytes (t, p) = to_be (of_nat (4 + length p) :: u16) @ to_be t @ p"
  by (simp add: inner_bytes_def)

lemma encode_inners_closed:
  "encode_inners inners =
     (if \<forall>i \<in> set inners. length (snd i) \<le> 65531 then Inr (concat (map inner_bytes inners))
      else Inl BufferTooSmall)"
proof (induction inners)
  case Nil
  then show ?case by simp
next
  case (Cons i inners)
  then show ?case
    by (cases i) (auto simp: Let_def inner_bytes_Pair)
qed

lemma decode_inners_end: "length buf \<le> cursor \<Longrightarrow> decode_inners buf cursor = Inr []"
  by (subst decode_inners.simps) simp

lemma be_at_prefix:
  "length pre = n \<Longrightarrow> u16_be_at (pre @ to_be w @ r) n = w"
  "length pre = n \<Longrightarrow> u32_be_at (pre @ to_be v @ r) n = v"
  "length pre = n \<Longrightarrow> u64_be_at (pre @ to_be u @ r) n = u"
  by (simp_all add: at_defs)

lemma decode_inners_step:
  assumes "length (snd i) \<le> 65531"
  shows "decode_inners (pre @ inner_bytes i @ post) (length pre) =
    (case decode_inners (pre @ inner_bytes i @ post) (length (pre @ inner_bytes i)) of
       Inl e \<Rightarrow> Inl e | Inr out \<Rightarrow> Inr (i # out))"
proof -
  define w :: u16 where "w = of_nat (4 + length (snd i))"
  define buf where "buf = pre @ (to_be w @ to_be (fst i) @ snd i) @ post"
  have len: "unat (u16_be_at buf (length pre)) = 4 + length (snd i)"
    using assms by (simp add: buf_def w_def be_at_prefix unat_of_nat del: of_nat_add)
  have tag: "u32_be_at buf (length pre + 2) = fst i"
    using be_at_prefix(2) [of "pre @ to_be w" "length pre + 2" "fst i" "snd i @ post"]
    by (simp add: buf_def)
  have payload: "sub_slice buf (length pre + 6) (length (snd i)) = snd i"
    using sub_slice_append [of "pre @ to_be w @ to_be (fst i)" "length pre + 6" "snd i"]
    by (simp add: buf_def)
  have fits: "length pre + 6 + length (snd i) \<le> length buf"
    by (simp add: buf_def)
  have "decode_inners buf (length pre) =
    (case decode_inners buf (length pre + 2 + (4 + length (snd i))) of
       Inl e \<Rightarrow> Inl e | Inr out \<Rightarrow> Inr (i # out))"
    by (subst decode_inners.simps)
      (use fits in \<open>simp add: len tag payload Let_def del: add_2_eq_Suc' split: sum.split\<close>)
  then show ?thesis
    by (simp add: buf_def w_def inner_bytes_def algebra_simps)
qed

lemma decode_encode_inners:
  assumes "\<forall>i \<in> set inners. length (snd i) \<le> 65531"
  shows "decode_inners (pre @ concat (map inner_bytes inners)) (length pre) = Inr inners"
  using assms
proof (induction inners arbitrary: pre)
  case Nil
  then show ?case by (simp add: decode_inners_end)
next
  case (Cons i inners)
  from Cons.IH [of "pre @ inner_bytes i"] Cons.prems show ?case
    using decode_inners_step [of i pre "concat (map inner_bytes inners)"] by simp
qed

lemma split_3:
  assumes "c + m + n \<le> length buf"
  shows "drop c buf = sub_slice buf c m @ sub_slice buf (c + m) n @ drop (c + m + n) buf"
proof -
  have "drop c buf = sub_slice buf c m @ drop m (drop c buf)"
    by (rule append_take_drop_id [symmetric])
  also have "drop m (drop c buf) = sub_slice buf (c + m) n @ drop n (drop m (drop c buf))"
    by (metis append_take_drop_id drop_drop add.commute)
  finally show ?thesis
    by (simp add: add.commute add.left_commute)
qed

lemma inner_bytes_slices:
  assumes "unat (u16_be_at buf c) = n" "4 \<le> n" "c + 2 + n \<le> length buf"
  shows "inner_bytes (u32_be_at buf (c + 2), sub_slice buf (c + 6) (n - 4)) @ drop (c + 2 + n) buf
    = drop c buf"
proof -
  have len: "length (sub_slice buf (c + 6) (n - 4)) = n - 4"
    using assms(2,3) by simp
  have n: "of_nat n = u16_be_at buf c"
    by (simp flip: assms(1))
  have heads: "to_be (u16_be_at buf c) = sub_slice buf c 2"
    "to_be (u32_be_at buf (c + 2)) = sub_slice buf (c + 2) 4"
    using assms(2,3) by (simp_all add: at_defs del: add_2_eq_Suc')
  have "drop c buf = sub_slice buf c 2 @ sub_slice buf (c + 2) 4 @ drop (c + 6) buf"
    using split_3 [of c 2 4 buf] assms(2,3) by (simp add: add.commute)
  moreover have "drop (c + 6) buf = sub_slice buf (c + 6) (n - 4) @ drop (c + 2 + n) buf"
    using append_take_drop_id [of "n - 4" "drop (c + 6) buf"] assms(2) by (simp add: add.commute)
  ultimately show ?thesis
    using assms(2) by (simp only: inner_bytes_Pair len heads append_assoc) (simp add: n heads)
qed

lemma decode_inners_sound:
  "decode_inners buf c = Inr out \<Longrightarrow> c \<le> length buf \<Longrightarrow>
     drop c buf = concat (map inner_bytes out) \<and> (\<forall>i \<in> set out. length (snd i) \<le> 65531)"
proof (induction buf c arbitrary: out rule: decode_inners.induct)
  case (1 buf c)
  show ?case
  proof (cases "c < length buf")
    case False
    with 1(2,3) show ?thesis
      by (simp add: decode_inners_end)
  next
    case True
    define n where "n = unat (u16_be_at buf c)"
    with 1(2) True have bounds: "c + 6 \<le> length buf" "4 \<le> n" "c + 2 + n \<le> length buf"
      by (subst (asm) decode_inners.simps; auto simp: Let_def split: if_splits)+
    with 1(2) True obtain rest where rest: "decode_inners buf (c + 2 + n) = Inr rest"
      and out: "out = (u32_be_at buf (c + 2), sub_slice buf (c + 6) (n - 4)) # rest"
      by (subst (asm) decode_inners.simps) (auto simp: Let_def n_def split: sum.splits)
    have "n \<le> 65535"
      using unsigned_less [of "u16_be_at buf c", where ?'a = nat] by (simp add: n_def)
    moreover have "drop (c + 2 + n) buf = concat (map inner_bytes rest)
        \<and> (\<forall>i \<in> set rest. length (snd i) \<le> 65531)"
      using 1(1) [OF True _ n_def _ rest] bounds by simp
    ultimately show ?thesis
      using inner_bytes_slices [OF n_def [symmetric] bounds(2,3)] bounds by (simp add: out)
  qed
qed

text \<open>The whole datagram: a fixed header, then the inner packets one after another.\<close>

lemma encode_bundle_closed:
  "encode_bundle seq inners =
     (if \<forall>i \<in> set inners. length (snd i) \<le> 65531
      then Inr (to_be BUNDLE_TAG @ to_be seq @ concat (map inner_bytes inners))
      else Inl BufferTooSmall)"
  by (simp add: encode_bundle_def encode_inners_closed)

lemma bundle_header:
  "u32_be_at (to_be t @ to_be s @ r) 0 = t" "u64_be_at (to_be (t :: u32) @ to_be s @ r) 4 = s"
  using be_at_prefix(2) [of "[]" 0 t "to_be s @ r"] be_at_prefix(3) [of "to_be t" 4 s r]
  by simp_all

lemma decode_encode_bundle:
  assumes "encode_bundle seq inners = Inr buf"
  shows "decode_bundle buf = Inr (seq, inners)"
proof -
  from assms have fits: "\<forall>i \<in> set inners. length (snd i) \<le> 65531"
    and buf: "buf = to_be BUNDLE_TAG @ to_be seq @ concat (map inner_bytes inners)"
    by (auto simp: encode_bundle_closed split: if_splits)
  have "decode_inners buf 12 = Inr inners"
    using decode_encode_inners [OF fits, of "to_be BUNDLE_TAG @ to_be seq"] by (simp add: buf)
  then show ?thesis
    using bundle_header [of BUNDLE_TAG seq "concat (map inner_bytes inners)"]
    by (simp add: decode_bundle_def buf [symmetric]) (simp add: buf)
qed

lemma encode_decode_bundle:
  assumes "decode_bundle buf = Inr (seq, inners)"
  shows "encode_bundle seq inners = Inr buf"
proof -
  from assms have len: "12 \<le> length buf" and tag: "u32_be_at buf 0 = BUNDLE_TAG"
    and seq: "seq = u64_be_at buf 4" and inners: "decode_inners buf 12 = Inr inners"
    by (auto simp: decode_bundle_def Let_def split: if_splits sum.splits)
  have "buf = sub_slice buf 0 4 @ sub_slice buf 4 8 @ drop 12 buf"
    using split_3 [of 0 4 8 buf] len by simp
  moreover have "sub_slice buf 0 4 = to_be BUNDLE_TAG" "sub_slice buf 4 8 = to_be seq"
    using len by (simp_all add: tag [symmetric] seq at_defs)
  ultimately show ?thesis
    using decode_inners_sound [OF inners len] by (simp add: encode_bundle_closed)
qed

subsection \<open>Properties\<close>

text \<open>
  Property C17. The bundle encoder and decoder are inverse to each other in both directions:
  encoding succeeds with a buffer exactly when decoding that buffer gives back the sequence
  number and the inner packets. So every accepted datagram is the encoding of its contents
  (the wire format has no second spelling), and nothing is lost or reordered.
\<close>

theorem bundle_codec:
  "encode_bundle seq inners = Inr buf \<longleftrightarrow> decode_bundle buf = Inr (seq, inners)"
  using decode_encode_bundle encode_decode_bundle by blast

text \<open>
  The bundle encoder fails exactly when some payload does not fit the 16-bit
  length prefix, always with \<^verbatim>\<open>BufferTooSmall\<close>; otherwise the datagram has twelve bytes of
  header and six per inner packet besides the payloads.
\<close>

theorem bundle_encode_outcome:
  "case encode_bundle seq inners of
     Inl e \<Rightarrow> e = BufferTooSmall \<and> (\<exists>i \<in> set inners. 65536 \<le> 4 + length (snd i))
   | Inr buf \<Rightarrow> list_all (\<lambda>i. 4 + length (snd i) < 65536) inners
       \<and> length buf = 12 + sum_list (map (\<lambda>i. 6 + length (snd i)) inners)"
  by (force simp: encode_bundle_closed list_all_iff length_concat comp_def)

text \<open>
  Property C11. A server-bound packet written into a buffer is read back as the same packet
  and sequence number, the bytes after it are untouched, and writing fails only when the
  buffer is shorter than the packet.
\<close>

theorem sb_packet_roundtrip:
  assumes "wf_sb p"
  shows "case serialize_into sb_id sb_body seq p buf of
      Inl e \<Rightarrow> e = BufferTooSmall \<and> length buf < length (packet_bytes sb_id sb_body seq p)
    | Inr (n, buf') \<Rightarrow> deserialize_from sb_read (take n buf') = Inr (seq, p)
        \<and> length buf' = length buf \<and> drop n buf' = drop n buf"
  using sb.serialize_error [of seq p buf] sb.serialize_fits [of seq p buf]
    sb.serialize_deserialize [OF assms, of seq buf]
  by (auto split: sum.split)

theorem sb_packet_roundtrip_witness:
  "\<exists>buf'. serialize_into sb_id sb_body 7
       (SbSensorInfo 1 StatusOk ImuBmi270 0 0 PosHead TDataRotation) (replicate 32 0) = Inr (20, buf')
     \<and> deserialize_from sb_read (take 20 buf') =
         Inr (7, SbSensorInfo 1 StatusOk ImuBmi270 0 0 PosHead TDataRotation)"
proof -
  let ?p = "SbSensorInfo 1 StatusOk ImuBmi270 0 0 PosHead TDataRotation"
  have "\<exists>buf'. serialize_into sb_id sb_body 7 ?p (replicate 32 0) = Inr (20, buf')"
    by (simp add: serialize_into_def packet_bytes_def Let_def enum_enc_def u8_enc_def)
  then obtain buf' where buf': "serialize_into sb_id sb_body 7 ?p (replicate 32 0) = Inr (20, buf')" ..
  show ?thesis
    using sb_packet_roundtrip [where p = ?p and seq = 7 and buf = "replicate 32 0"]
    by (simp add: buf' canonical_def sensor_status_of_def imu_type_of_def tracker_position_of_def
      tracker_data_type_of_def)
qed

end
