(* ===== verification/Slime_Client.thy ===== *)
theory Slime_Client
  imports Slime_Wire
begin

section \<open>The SlimeVR client\<close>

text \<open>
  \<^verbatim>\<open>crates/slime-tracker/src/client.rs\<close>: the atomics a client shares with its receive loop
  and its watchdog, every sending operation, the handling of an inbound datagram and one
  round of the watchdog. The outcome of a \<^verbatim>\<open>send\<close> and every reading of the clock are
  arguments. Two histories are kept beside the code's state: the datagrams handed to the
  socket with their outcome, and the handshake events broadcast, both newest first.
\<close>

subsection \<open>State\<close>

record handshake_event =
  ev_confirmed :: bool
  ev_reset_count :: u64

record handshake_info =
  hi_board :: board_type
  hi_imu :: imu_type
  hi_mcu :: mcu_type
  hi_mag_status :: i32
  hi_firmware :: bytes
  hi_mac :: mac

record sensor_descriptor =
  sd_sensor_id :: u8
  sd_imu_type :: imu_type
  sd_mag_config :: u16
  sd_position :: tracker_position
  sd_data_type :: tracker_data_type

datatype io_kind = ConnectionReset | ConnectionRefused | WouldBlock | OtherKind nat

datatype send_outcome = SendOk | SendErr io_kind

datatype client_error = Io io_kind | Encode

datatype origin = Own | Echo

record client =
  seq_ctr :: u64
  supports_bundle :: bool
  confirmed :: bool
  packets_sent :: u64
  last_send :: u64
  last_handshake :: u64
  last_inbound :: u64
  reset_count :: u64
  last_reset :: u64
  events :: "handshake_event list"
  wire :: "(origin \<times> bytes \<times> send_outcome) list"

type_synonym 'a client_result = "(client_error + 'a) \<times> client"

text \<open>The clock is read as milliseconds since the epoch; a clock before it reads zero.\<close>

fun now_ms_unix :: "nat option \<Rightarrow> u64" where
  "now_ms_unix (Some ms) = of_nat ms"
| "now_ms_unix None = 0"

text \<open>Connection errors reported for an earlier datagram are not failures.\<close>

fun benign :: "io_kind \<Rightarrow> bool" where
  "benign ConnectionReset = True"
| "benign ConnectionRefused = True"
| "benign _ = False"

subsection \<open>Sending\<close>

definition next_seq :: "client \<Rightarrow> u64 \<times> client" where
  "next_seq c = (seq_ctr c, c\<lparr>seq_ctr := seq_ctr c + 1\<rparr>)"

definition record_sent :: "u64 \<Rightarrow> client \<Rightarrow> client" where
  "record_sent now c = c\<lparr>packets_sent := packets_sent c + 1, last_send := now\<rparr>"

definition socket_send :: "origin \<Rightarrow> send_outcome \<Rightarrow> bytes \<Rightarrow> client \<Rightarrow> client" where
  "socket_send org out bs c = c\<lparr>wire := (org, bs, out) # wire c\<rparr>"

definition send_packet :: "send_outcome \<Rightarrow> u64 \<Rightarrow> bytes \<Rightarrow> client \<Rightarrow> unit client_result" where
  "send_packet out now bs c =
     (let c1 = socket_send Own out bs c in
      case out of
        SendOk \<Rightarrow> (Inr (), record_sent now c1)
      | SendErr k \<Rightarrow> if benign k then (Inr (), c1) else (Inl (Io k), c1))"

definition send_sb :: "send_outcome \<Rightarrow> u64 \<Rightarrow> sb_packet \<Rightarrow> client \<Rightarrow> unit client_result" where
  "send_sb out now p c =
     (let (s, c1) = next_seq c in send_packet out now (packet_bytes sb_id sb_body s p) c1)"

definition handshake_packet :: "handshake_info \<Rightarrow> sb_packet" where
  "handshake_packet info =
     SbHandshake (hi_board info) (hi_imu info) (hi_mcu info) (hi_mag_status info, 0, 0) 19
       (slime_string_from (hi_firmware info)) (hi_mac info)"

definition send_handshake_inner ::
  "send_outcome \<Rightarrow> handshake_info \<Rightarrow> client \<Rightarrow> unit client_result" where
  "send_handshake_inner out info c =
     (let (s, c1) = next_seq c;
          c2 = socket_send Own out (packet_bytes sb_id sb_body s (handshake_packet info)) c1
      in case out of
           SendOk \<Rightarrow> (Inr (), c2)
         | SendErr k \<Rightarrow> if benign k then (Inr (), c2) else (Inl (Io k), c2))"

definition send_handshake ::
  "send_outcome \<Rightarrow> u64 \<Rightarrow> u64 \<Rightarrow> handshake_info \<Rightarrow> client \<Rightarrow> unit client_result" where
  "send_handshake out now1 now2 info c =
     (case send_handshake_inner out info c of
        (Inl e, c1) \<Rightarrow> (Inl e, c1)
      | (Inr _, c1) \<Rightarrow> (Inr (), record_sent now2 (c1\<lparr>last_handshake := now1\<rparr>)))"

definition sensor_info_packet :: "sensor_descriptor \<Rightarrow> sb_packet" where
  "sensor_info_packet d =
     SbSensorInfo (sd_sensor_id d) StatusOk (sd_imu_type d) (sd_mag_config d) 1
       (sd_position d) (sd_data_type d)"

definition send_sensor_info ::
  "send_outcome \<Rightarrow> u64 \<Rightarrow> sensor_descriptor \<Rightarrow> client \<Rightarrow> unit client_result" where
  "send_sensor_info out now d = send_sb out now (sensor_info_packet d)"

definition send_feature_flags :: "send_outcome \<Rightarrow> u64 \<Rightarrow> bytes \<Rightarrow> client \<Rightarrow> unit client_result" where
  "send_feature_flags out now flags = send_sb out now (SbFeatureFlags flags)"

definition rotation_packet :: "u8 \<Rightarrow> slime_quaternion \<Rightarrow> sb_packet" where
  "rotation_packet sid q = SbRotationData sid DataNormal q 0"

definition send_rotation ::
  "send_outcome \<Rightarrow> u64 \<Rightarrow> u8 \<Rightarrow> slime_quaternion \<Rightarrow> client \<Rightarrow> unit client_result" where
  "send_rotation out now sid q = send_sb out now (rotation_packet sid q)"

definition send_acceleration ::
  "send_outcome \<Rightarrow> u64 \<Rightarrow> u8 \<Rightarrow> f32 \<times> f32 \<times> f32 \<Rightarrow> client \<Rightarrow> unit client_result" where
  "send_acceleration out now sid v = send_sb out now (SbAcceleration v sid)"

definition send_magnetometer ::
  "send_outcome \<Rightarrow> u64 \<Rightarrow> u8 \<Rightarrow> f32 \<times> f32 \<times> f32 \<Rightarrow> client \<Rightarrow> unit client_result" where
  "send_magnetometer out now sid v = send_sb out now (SbMagnetometer sid DataNormal v 0)"

definition send_user_action :: "send_outcome \<Rightarrow> u64 \<Rightarrow> action_type \<Rightarrow> client \<Rightarrow> unit client_result" where
  "send_user_action out now a = send_sb out now (SbUserAction a)"

definition send_battery :: "send_outcome \<Rightarrow> u64 \<Rightarrow> f32 \<Rightarrow> f32 \<Rightarrow> client \<Rightarrow> unit client_result" where
  "send_battery out now volts level = send_sb out now (SbBatteryLevel volts level)"

text \<open>The hot path: one bundle, or the rotation first and then the acceleration.\<close>

definition send_bundle_rot_accel ::
  "send_outcome \<Rightarrow> u64 \<Rightarrow> u8 \<Rightarrow> slime_quaternion \<Rightarrow> f32 \<times> f32 \<times> f32 \<Rightarrow> client
    \<Rightarrow> unit client_result" where
  "send_bundle_rot_accel out now sid q v c =
     (let rot = packet_bytes sb_id sb_body 0 (rotation_packet sid q);
          acc = packet_bytes sb_id sb_body 0 (SbAcceleration v sid);
          inners = [(17, drop 12 rot), (4, drop 12 acc)];
          (s, c1) = next_seq c
      in case encode_bundle s inners of
           Inl _ \<Rightarrow> (Inl Encode, c1)
         | Inr bs \<Rightarrow> send_packet out now bs c1)"

definition send_rotation_and_accel ::
  "send_outcome \<times> u64 \<Rightarrow> send_outcome \<times> u64 \<Rightarrow> u8 \<Rightarrow> slime_quaternion \<Rightarrow> f32 \<times> f32 \<times> f32
    \<Rightarrow> client \<Rightarrow> unit client_result" where
  "send_rotation_and_accel first_send second_send sid q v c =
     (if supports_bundle c then
        send_bundle_rot_accel (fst first_send) (snd first_send) sid q v c
      else
        case send_rotation (fst first_send) (snd first_send) sid q c of
          (Inl e, c1) \<Rightarrow> (Inl e, c1)
        | (Inr _, c1) \<Rightarrow> send_acceleration (fst second_send) (snd second_send) sid v c1)"

subsection \<open>Receiving\<close>

definition handle_inbound :: "u32 \<Rightarrow> bytes \<Rightarrow> send_outcome \<Rightarrow> client \<Rightarrow> client" where
  "handle_inbound tag payload out c =
     (if tag = 22 \<and> 13 \<le> length payload then
        c\<lparr>supports_bundle := payload ! 12 AND push_bit server_PROTOCOL_BUNDLE_SUPPORT 1 \<noteq> 0\<rparr>
      else if tag = 10 then socket_send Echo out payload c
      else if tag = BUNDLE_TAG then c
      else c)"

text \<open>A datagram that confirms a handshake not yet confirmed is announced once.\<close>

definition confirm :: "client \<Rightarrow> client" where
  "confirm c =
     (let was = confirmed c; c1 = c\<lparr>confirmed := True\<rparr> in
      if was then c1
      else c1\<lparr>events := \<lparr>ev_confirmed = True, ev_reset_count = reset_count c1\<rparr> # events c1\<rparr>)"

datatype recv_outcome = RecvOk bytes | RecvErr io_kind

record receiver =
  last_reset_log :: instant
  reset_seen :: u64
  reset_logged :: "u64 list"

definition RECV_BUFFER :: nat where
  "RECV_BUFFER = 1500"

text \<open>
  One round of the receive loop: the milliseconds it sleeps afterwards, the loop's own
  variables and the client. A datagram longer than the buffer is cut.
\<close>

definition receive_step ::
  "u64 \<Rightarrow> send_outcome \<Rightarrow> instant \<Rightarrow> instant \<Rightarrow> recv_outcome \<Rightarrow> receiver \<times> client
    \<Rightarrow> nat \<times> receiver \<times> client" where
  "receive_step now echo_out t1 t2 rcv rc =
     (case (rc, rcv) of
        ((r, c), RecvOk datagram) \<Rightarrow>
          let payload = take RECV_BUFFER datagram in
          if 4 \<le> length payload then
            (0, r, handle_inbound (u32_be_at payload 0) payload echo_out
              (confirm (c\<lparr>last_inbound := now\<rparr>)))
          else (0, r, c)
      | ((r, c), RecvErr k) \<Rightarrow>
          if benign k \<or> k = WouldBlock then
            let r1 = r\<lparr>reset_seen := reset_seen r + 1\<rparr> in
            if from_secs 10 \<le> duration_since t1 (last_reset_log r1) then
              (0, r1\<lparr>reset_logged := reset_seen r1 # reset_logged r1, reset_seen := 0,
                     last_reset_log := t2\<rparr>, c)
            else (0, r1, c)
          else (100, r, c))"

subsection \<open>The watchdog\<close>

record tick_env =
  tk_now :: u64
  tk_reset_now :: u64
  tk_out :: send_outcome
  tk_handshake_now :: u64
  tk_send_now :: u64

definition timed_out :: "u64 \<Rightarrow> client \<Rightarrow> bool" where
  "timed_out now c \<longleftrightarrow>
     confirmed c \<and> last_inbound c > 0 \<and> saturating_sub now (last_inbound c) > 2000"

definition watchdog_reset :: "u64 \<Rightarrow> client \<Rightarrow> client" where
  "watchdog_reset now c =
     (let n = reset_count c + 1 in
      c\<lparr>confirmed := False, supports_bundle := False, reset_count := n, last_reset := now,
        events := \<lparr>ev_confirmed = False, ev_reset_count = n\<rparr> # events c\<rparr>)"

definition watchdog_resend :: "tick_env \<Rightarrow> handshake_info \<Rightarrow> client \<Rightarrow> client" where
  "watchdog_resend e info c =
     (if \<not> confirmed c then
        (case send_handshake_inner (tk_out e) info c of
           (Inr _, c1) \<Rightarrow>
             c1\<lparr>last_handshake := tk_handshake_now e, packets_sent := packets_sent c1 + 1,
                last_send := tk_send_now e\<rparr>
         | (Inl _, c1) \<Rightarrow> c1)
      else c)"

definition watchdog_tick :: "tick_env \<Rightarrow> handshake_info \<Rightarrow> client \<Rightarrow> client" where
  "watchdog_tick e info c =
     watchdog_resend e info
       (if timed_out (tk_now e) c then watchdog_reset (tk_reset_now e) c else c)"

subsection \<open>Connecting and statistics\<close>

definition initial_client :: client where
  "initial_client =
     \<lparr>seq_ctr = 0, supports_bundle = False, confirmed = False, packets_sent = 0, last_send = 0,
      last_handshake = 0, last_inbound = 0, reset_count = 0, last_reset = 0, events = [], wire = []\<rparr>"

definition connect ::
  "io_kind option \<Rightarrow> io_kind option \<Rightarrow> send_outcome \<Rightarrow> u64 \<Rightarrow> u64 \<Rightarrow> handshake_info
    \<Rightarrow> client_error + client" where
  "connect bind_err connect_err out now1 now2 info =
     (case bind_err of
        Some k \<Rightarrow> Inl (Io k)
      | None \<Rightarrow>
          (case connect_err of
             Some k \<Rightarrow> Inl (Io k)
           | None \<Rightarrow>
               (case send_handshake_inner out info initial_client of
                  (Inl e, _) \<Rightarrow> Inl e
                | (Inr _, c) \<Rightarrow>
                    Inr (c\<lparr>last_handshake := now1, packets_sent := packets_sent c + 1,
                            last_send := now2\<rparr>))))"

record client_stats =
  st_packets_sent :: u64
  st_last_send :: u64
  st_last_handshake :: u64
  st_supports_bundle :: bool
  st_confirmed :: bool
  st_last_inbound :: u64
  st_reset_count :: u64
  st_last_reset :: u64

definition stats :: "client \<Rightarrow> client_stats" where
  "stats c =
     \<lparr>st_packets_sent = packets_sent c, st_last_send = last_send c,
      st_last_handshake = last_handshake c, st_supports_bundle = supports_bundle c,
      st_confirmed = confirmed c, st_last_inbound = last_inbound c,
      st_reset_count = reset_count c, st_last_reset = last_reset c\<rparr>"

subsection \<open>Runs\<close>

text \<open>
  A run of one client: the operations its owner calls, the rounds of the receive loop and
  the rounds of the watchdog, in any order, each taken as a whole.
\<close>

inductive client_step :: "client \<Rightarrow> client \<Rightarrow> bool" where
  step_send: "client_step c (snd (send_sb out now p c))"
| step_handshake: "client_step c (snd (send_handshake out now1 now2 info c))"
| step_motion: "client_step c (snd (send_rotation_and_accel first_send second_send sid q v c))"
| step_receive: "client_step c (snd (snd (receive_step now out t1 t2 rcv (r, c))))"
| step_watchdog: "client_step c (watchdog_tick e info c)"

inductive client_reachable :: "client \<Rightarrow> bool" where
  reach_connect: "connect None None out now1 now2 info = Inr c \<Longrightarrow> client_reachable c"
| reach_step: "client_reachable c \<Longrightarrow> client_step c c' \<Longrightarrow> client_reachable c'"

inductive_cases client_stepE: "client_step c c'"

subsection \<open>Sequence numbers\<close>

definition own_count :: "(origin \<times> bytes \<times> send_outcome) list \<Rightarrow> nat" where
  "own_count w = length (filter (\<lambda>x. fst x = Own) w)"

text \<open>The datagrams of the client's own, oldest first, carry the numbers 0, 1, 2 and so on.\<close>

fun numbered :: "(origin \<times> bytes \<times> send_outcome) list \<Rightarrow> bool" where
  "numbered [] \<longleftrightarrow> True"
| "numbered ((Own, bs, _) # w) \<longleftrightarrow> u64_be_at bs 4 = of_nat (own_count w) \<and> numbered w"
| "numbered ((Echo, _, _) # w) \<longleftrightarrow> numbered w"

definition seq_inv :: "client \<Rightarrow> bool" where
  "seq_inv c \<longleftrightarrow> numbered (wire c) \<and> seq_ctr c = of_nat (own_count (wire c))"

lemma own_count_simps [simp]:
  "own_count [] = 0"
  "own_count ((Own, bs, out) # w) = Suc (own_count w)"
  "own_count ((Echo, bs, out) # w) = own_count w"
  by (simp_all add: own_count_def)

lemma packet_bytes_seq [simp]: "u64_be_at (packet_bytes did body s p) 4 = s"
  by (simp add: packet_bytes_def bundle_header)

lemma send_packet_fields [simp]:
  "seq_ctr (snd (send_packet out now bs c)) = seq_ctr c"
  "wire (snd (send_packet out now bs c)) = (Own, bs, out) # wire c"
  "supports_bundle (snd (send_packet out now bs c)) = supports_bundle c"
  "confirmed (snd (send_packet out now bs c)) = confirmed c"
  "events (snd (send_packet out now bs c)) = events c"
  "reset_count (snd (send_packet out now bs c)) = reset_count c"
  "last_inbound (snd (send_packet out now bs c)) = last_inbound c"
  by (auto simp: send_packet_def socket_send_def record_sent_def Let_def split: send_outcome.split)

lemma send_sb_fields [simp]:
  "seq_ctr (snd (send_sb out now p c)) = seq_ctr c + 1"
  "wire (snd (send_sb out now p c)) = (Own, packet_bytes sb_id sb_body (seq_ctr c) p, out) # wire c"
  "supports_bundle (snd (send_sb out now p c)) = supports_bundle c"
  "confirmed (snd (send_sb out now p c)) = confirmed c"
  "events (snd (send_sb out now p c)) = events c"
  "reset_count (snd (send_sb out now p c)) = reset_count c"
  "last_inbound (snd (send_sb out now p c)) = last_inbound c"
  by (simp_all add: send_sb_def next_seq_def)

lemma send_handshake_inner_fields [simp]:
  "seq_ctr (snd (send_handshake_inner out info c)) = seq_ctr c + 1"
  "wire (snd (send_handshake_inner out info c)) =
     (Own, packet_bytes sb_id sb_body (seq_ctr c) (handshake_packet info), out) # wire c"
  "supports_bundle (snd (send_handshake_inner out info c)) = supports_bundle c"
  "confirmed (snd (send_handshake_inner out info c)) = confirmed c"
  "events (snd (send_handshake_inner out info c)) = events c"
  "reset_count (snd (send_handshake_inner out info c)) = reset_count c"
  "last_inbound (snd (send_handshake_inner out info c)) = last_inbound c"
  by (auto simp: send_handshake_inner_def next_seq_def socket_send_def Let_def
      split: send_outcome.split)

lemma send_handshake_fields [simp]:
  "seq_ctr (snd (send_handshake out now1 now2 info c)) = seq_ctr c + 1"
  "wire (snd (send_handshake out now1 now2 info c)) =
     (Own, packet_bytes sb_id sb_body (seq_ctr c) (handshake_packet info), out) # wire c"
  "supports_bundle (snd (send_handshake out now1 now2 info c)) = supports_bundle c"
  "confirmed (snd (send_handshake out now1 now2 info c)) = confirmed c"
  "events (snd (send_handshake out now1 now2 info c)) = events c"
  "reset_count (snd (send_handshake out now1 now2 info c)) = reset_count c"
  by (simp_all add: send_handshake_def record_sent_def split_beta split: sum.split)

text \<open>The bundle of the hot path always fits, so that path never fails to encode.\<close>

definition motion_inners :: "u8 \<Rightarrow> slime_quaternion \<Rightarrow> f32 \<times> f32 \<times> f32 \<Rightarrow> (u32 \<times> bytes) list" where
  "motion_inners sid q v = [(17, sb_body (rotation_packet sid q)), (4, sb_body (SbAcceleration v sid))]"

lemma motion_body_lengths:
  "length (sb_body (rotation_packet sid q)) = 19" "length (sb_body (SbAcceleration v sid)) = 13"
  by (simp_all add: rotation_packet_def enc_quaternion_def enc_vec3_def enum_enc_def u8_enc_def
      split: prod.split)

lemma drop_packet_header [simp]: "drop 12 (packet_bytes did body s p) = body p"
  by (simp add: packet_bytes_def)

definition bundle_bytes :: "u64 \<Rightarrow> (u32 \<times> bytes) list \<Rightarrow> bytes" where
  "bundle_bytes s inners = to_be BUNDLE_TAG @ to_be s @ concat (map inner_bytes inners)"

lemma motion_bundle: "encode_bundle s (motion_inners sid q v) = Inr (bundle_bytes s (motion_inners sid q v))"
  using motion_body_lengths by (simp add: encode_bundle_closed motion_inners_def bundle_bytes_def)

lemma send_bundle_closed:
  "send_bundle_rot_accel out now sid q v c =
     send_packet out now (bundle_bytes (seq_ctr c) (motion_inners sid q v)) (c\<lparr>seq_ctr := seq_ctr c + 1\<rparr>)"
  using motion_bundle [of "seq_ctr c" sid q v]
  by (simp add: send_bundle_rot_accel_def next_seq_def Let_def motion_inners_def)

lemma bundle_bytes_seq [simp]: "u64_be_at (bundle_bytes s inners) 4 = s"
  by (simp add: bundle_bytes_def bundle_header)

fun fails :: "send_outcome \<Rightarrow> bool" where
  "fails SendOk \<longleftrightarrow> False"
| "fails (SendErr k) \<longleftrightarrow> \<not> benign k"

lemma send_packet_result:
  "fst (send_packet out now bs c) = (case out of SendErr k \<Rightarrow> if benign k then Inr () else Inl (Io k) | _ \<Rightarrow> Inr ())"
  by (simp add: send_packet_def Let_def split: send_outcome.split)

lemma send_sb_result:
  "fst (send_sb out now p c) = (case out of SendErr k \<Rightarrow> if benign k then Inr () else Inl (Io k) | _ \<Rightarrow> Inr ())"
  by (simp add: send_sb_def next_seq_def send_packet_result)

lemma send_sb_isl: "isl (fst (send_sb out now p c)) \<longleftrightarrow> fails out"
  by (cases out) (auto simp: send_sb_result)

text \<open>The three courses of the hot path, as the client it leaves.\<close>

lemma motion_cases:
  "snd (send_rotation_and_accel a b sid q v c) =
     (if supports_bundle c then
        snd (send_packet (fst a) (snd a) (bundle_bytes (seq_ctr c) (motion_inners sid q v))
          (c\<lparr>seq_ctr := seq_ctr c + 1\<rparr>))
      else
        let c1 = snd (send_sb (fst a) (snd a) (rotation_packet sid q) c) in
        if fails (fst a) then c1 else snd (send_sb (fst b) (snd b) (SbAcceleration v sid) c1))"
proof (cases "supports_bundle c")
  case True
  then show ?thesis
    by (simp add: send_rotation_and_accel_def send_bundle_closed)
next
  case False
  obtain r c1 where rc: "send_sb (fst a) (snd a) (rotation_packet sid q) c = (r, c1)"
    by fastforce
  have "isl r \<longleftrightarrow> fails (fst a)"
    using send_sb_isl [of "fst a" "snd a" "rotation_packet sid q" c] rc by simp
  with False rc show ?thesis
    by (auto simp: send_rotation_and_accel_def send_rotation_def send_acceleration_def Let_def
        split: sum.splits)
qed

lemma motion_wire:
  "wire (snd (send_rotation_and_accel a b sid q v c)) =
     (if supports_bundle c then (Own, bundle_bytes (seq_ctr c) (motion_inners sid q v), fst a) # wire c
      else if fails (fst a) then
        (Own, packet_bytes sb_id sb_body (seq_ctr c) (rotation_packet sid q), fst a) # wire c
      else (Own, packet_bytes sb_id sb_body (seq_ctr c + 1) (SbAcceleration v sid), fst b)
        # (Own, packet_bytes sb_id sb_body (seq_ctr c) (rotation_packet sid q), fst a) # wire c)"
  by (simp add: motion_cases Let_def)

lemma motion_seq:
  "seq_ctr (snd (send_rotation_and_accel a b sid q v c)) =
     (if supports_bundle c \<or> fails (fst a) then seq_ctr c + 1 else seq_ctr c + 2)"
  by (simp add: motion_cases Let_def)

lemma motion_fields [simp]:
  "supports_bundle (snd (send_rotation_and_accel a b sid q v c)) = supports_bundle c"
  "confirmed (snd (send_rotation_and_accel a b sid q v c)) = confirmed c"
  "events (snd (send_rotation_and_accel a b sid q v c)) = events c"
  "reset_count (snd (send_rotation_and_accel a b sid q v c)) = reset_count c"
  by (simp_all add: motion_cases Let_def)

subsection \<open>What a round of the receive loop and of the watchdog changes\<close>

abbreviation received :: "u64 \<Rightarrow> send_outcome \<Rightarrow> bytes \<Rightarrow> client \<Rightarrow> client" where
  "received now out payload c \<equiv>
     handle_inbound (u32_be_at payload 0) payload out (confirm (c\<lparr>last_inbound := now\<rparr>))"

lemma receive_client:
  "snd (snd (receive_step now out t1 t2 rcv (r, c))) =
     (case rcv of
        RecvOk d \<Rightarrow> if 4 \<le> length d then received now out (take 1500 d) c else c
      | RecvErr k \<Rightarrow> c)"
  by (auto simp: receive_step_def RECV_BUFFER_def Let_def split: recv_outcome.split)

lemma confirm_fields [simp]:
  "confirmed (confirm c)" "seq_ctr (confirm c) = seq_ctr c" "wire (confirm c) = wire c"
  "supports_bundle (confirm c) = supports_bundle c" "reset_count (confirm c) = reset_count c"
  "last_inbound (confirm c) = last_inbound c"
  by (simp_all add: confirm_def Let_def)

lemma handle_inbound_fields [simp]:
  "confirmed (handle_inbound tag payload out c) = confirmed c"
  "events (handle_inbound tag payload out c) = events c"
  "seq_ctr (handle_inbound tag payload out c) = seq_ctr c"
  "reset_count (handle_inbound tag payload out c) = reset_count c"
  "last_inbound (handle_inbound tag payload out c) = last_inbound c"
  by (simp_all add: handle_inbound_def socket_send_def)

lemma handle_inbound_wire:
  "wire (handle_inbound tag payload out c) =
     (if tag = 10 then (Echo, payload, out) # wire c else wire c)"
  by (simp add: handle_inbound_def socket_send_def)

lemma watchdog_fields:
  "confirmed (watchdog_tick e info c) \<longleftrightarrow> confirmed c \<and> \<not> timed_out (tk_now e) c"
  "supports_bundle (watchdog_tick e info c) \<longleftrightarrow> supports_bundle c \<and> \<not> timed_out (tk_now e) c"
  "reset_count (watchdog_tick e info c) =
     (if timed_out (tk_now e) c then reset_count c + 1 else reset_count c)"
  "events (watchdog_tick e info c) =
     (if timed_out (tk_now e) c
      then \<lparr>ev_confirmed = False, ev_reset_count = reset_count c + 1\<rparr> # events c else events c)"
  by (simp_all add: watchdog_tick_def watchdog_resend_def watchdog_reset_def Let_def split_beta split: sum.split)

lemma watchdog_wire:
  "wire (watchdog_tick e info c) =
     (if confirmed c \<and> \<not> timed_out (tk_now e) c then wire c
      else (Own, packet_bytes sb_id sb_body (seq_ctr c) (handshake_packet info), tk_out e) # wire c)"
  "seq_ctr (watchdog_tick e info c) =
     (if confirmed c \<and> \<not> timed_out (tk_now e) c then seq_ctr c else seq_ctr c + 1)"
  by (auto simp: watchdog_tick_def watchdog_resend_def watchdog_reset_def timed_out_def Let_def split_beta split: sum.split)

subsection \<open>Invariants of a run\<close>

definition drops :: "handshake_event list \<Rightarrow> nat" where
  "drops es = length (filter (\<lambda>e. \<not> ev_confirmed e) es)"

text \<open>
  The event history, newest first, under the flag it should describe: the newest event
  carries the flag, the flags alternate back to the first confirmation, and every event
  carries the number of losses up to it.
\<close>

fun events_ok :: "bool \<Rightarrow> handshake_event list \<Rightarrow> bool" where
  "events_ok f [] \<longleftrightarrow> \<not> f"
| "events_ok f (e # es) \<longleftrightarrow>
     ev_confirmed e = f \<and> ev_reset_count e = of_nat (drops (e # es)) \<and> events_ok (\<not> f) es"

definition handshake_inv :: "client \<Rightarrow> bool" where
  "handshake_inv c \<longleftrightarrow>
     (supports_bundle c \<longrightarrow> confirmed c) \<and> events_ok (confirmed c) (events c)
     \<and> reset_count c = of_nat (drops (events c))"

lemma drops_simps [simp]:
  "drops [] = 0" "drops (e # es) = (if ev_confirmed e then drops es else Suc (drops es))"
  by (simp_all add: drops_def)

lemma handshake_inv_frame:
  assumes "handshake_inv c" "supports_bundle c' = supports_bundle c" "confirmed c' = confirmed c"
    "events c' = events c" "reset_count c' = reset_count c"
  shows "handshake_inv c'"
  using assms by (simp add: handshake_inv_def)

lemma handshake_inv_confirm: "handshake_inv c \<Longrightarrow> handshake_inv (confirm c)"
  by (auto simp: handshake_inv_def confirm_def Let_def)

lemma handshake_inv_receive:
  assumes "handshake_inv c"
  shows "handshake_inv (received now out payload c)"
proof -
  have "handshake_inv (confirm (c\<lparr>last_inbound := now\<rparr>))"
    using assms by (intro handshake_inv_confirm) (simp add: handshake_inv_def)
  then show ?thesis
    by (simp add: handshake_inv_def)
qed

lemma handshake_inv_watchdog: "handshake_inv c \<Longrightarrow> handshake_inv (watchdog_tick e info c)"
  by (auto simp: handshake_inv_def watchdog_fields timed_out_def)

lemma handshake_inv_step:
  assumes "client_step c c'" "handshake_inv c"
  shows "handshake_inv c'"
  using assms
proof cases
  case (step_receive now out t1 t2 rcv r)
  then show ?thesis
    using assms(2) handshake_inv_receive by (auto simp: receive_client split: recv_outcome.split)
next
  case (step_watchdog e info)
  then show ?thesis
    using assms(2) handshake_inv_watchdog by simp
qed (use assms(2) in \<open>auto elim!: handshake_inv_frame\<close>)

lemma seq_inv_own:
  assumes "seq_inv c" "u64_be_at bs 4 = seq_ctr c" "wire c' = (Own, bs, out) # wire c"
    "seq_ctr c' = seq_ctr c + 1"
  shows "seq_inv c'"
  using assms by (simp add: seq_inv_def)

lemma seq_inv_step:
  assumes "client_step c c'" "seq_inv c"
  shows "seq_inv c'"
  using assms
proof cases
  case (step_motion a b sid q v)
  with assms(2) show ?thesis
    by (auto simp: seq_inv_def motion_wire motion_seq)
next
  case (step_receive now out t1 t2 rcv r)
  with assms(2) show ?thesis
    by (auto simp: seq_inv_def receive_client handle_inbound_wire split: recv_outcome.split)
next
  case (step_watchdog e info)
  with assms(2) show ?thesis
    by (auto simp: seq_inv_def watchdog_wire)
qed (auto simp: seq_inv_def)

lemma connect_client:
  assumes "connect be ce out now1 now2 info = Inr c"
  shows "confirmed c = False" "supports_bundle c = False" "events c = []" "reset_count c = 0"
    "seq_ctr c = 1"
    "wire c = [(Own, packet_bytes sb_id sb_body 0 (handshake_packet info), out)]"
  using assms
  by (auto simp: connect_def send_handshake_inner_def next_seq_def socket_send_def initial_client_def
      Let_def split: option.splits send_outcome.splits if_splits)

lemma connect_inv:
  assumes "connect be ce out now1 now2 info = Inr c"
  shows "handshake_inv c \<and> seq_inv c"
  by (simp add: handshake_inv_def seq_inv_def connect_client [OF assms])

lemma reachable_inv: "client_reachable c \<Longrightarrow> handshake_inv c \<and> seq_inv c"
proof (induction rule: client_reachable.induct)
  case (reach_connect out now1 now2 info c)
  then show ?case by (rule connect_inv)
next
  case (reach_step c c')
  then show ?case
    using handshake_inv_step seq_inv_step by blast
qed

subsection \<open>What the server receives\<close>

text \<open>
  The server's side of the protocol, as the specification of the hot path: a bundle stands
  for its inner packets, any other datagram for itself, and only accepted sends arrive.
\<close>

definition server_view :: "bytes \<Rightarrow> (u32 \<times> bytes) list" where
  "server_view bs =
     (if u32_be_at bs 0 = BUNDLE_TAG then
        (case decode_bundle bs of Inr (_, inners) \<Rightarrow> inners | Inl _ \<Rightarrow> [])
      else [(u32_be_at bs 0, drop 12 bs)])"

fun delivered :: "(origin \<times> bytes \<times> send_outcome) list \<Rightarrow> (u32 \<times> bytes) list" where
  "delivered [] = []"
| "delivered ((_, bs, out) # w) = delivered w @ (if out = SendOk then server_view bs else [])"

lemma server_view_packet:
  "sb_id p \<noteq> BUNDLE_TAG \<Longrightarrow> server_view (packet_bytes sb_id sb_body s p) = [(sb_id p, sb_body p)]"
  by (simp add: server_view_def packet_bytes_def bundle_header)

lemma server_view_motion_bundle:
  "server_view (bundle_bytes s (motion_inners sid q v)) = motion_inners sid q v"
  using decode_encode_bundle [OF motion_bundle]
  by (simp add: server_view_def bundle_bytes_def bundle_header)

lemma server_view_motion:
  "server_view (packet_bytes sb_id sb_body s (rotation_packet sid q)) = [(17, sb_body (rotation_packet sid q))]"
  "server_view (packet_bytes sb_id sb_body s (SbAcceleration v sid)) = [(4, sb_body (SbAcceleration v sid))]"
  using server_view_packet [of "rotation_packet sid q" s] server_view_packet [of "SbAcceleration v sid" s]
  by (simp_all add: rotation_packet_def BUNDLE_TAG_def)

lemma motion_result:
  assumes "\<not> fails (fst a)" "\<not> fails (fst b)"
  shows "fst (send_rotation_and_accel a b sid q v c) = Inr ()"
proof (cases "supports_bundle c")
  case True
  with assms show ?thesis
    by (cases "fst a") (simp_all add: send_rotation_and_accel_def send_bundle_closed send_packet_result)
next
  case False
  obtain r c1 where rc: "send_sb (fst a) (snd a) (rotation_packet sid q) c = (r, c1)"
    by fastforce
  have "r = Inr ()"
    using send_sb_result [of "fst a" "snd a" "rotation_packet sid q" c] rc assms(1) by (cases "fst a") auto
  moreover have "fst (send_sb (fst b) (snd b) (SbAcceleration v sid) c1) = Inr ()"
    using assms(2) by (cases "fst b") (auto simp: send_sb_result)
  ultimately show ?thesis
    using False rc by (simp add: send_rotation_and_accel_def send_rotation_def send_acceleration_def)
qed

subsection \<open>Properties\<close>



definition sample_info :: handshake_info where
  "sample_info = \<lparr>hi_board = BoardCustom, hi_imu = ImuBmi270, hi_mcu = McuEsp32, hi_mag_status = 0,
     hi_firmware = [48, 46, 52], hi_mac = [2, 0, 0, 0, 0, 1]\<rparr>"

definition sample_client :: client where
  "sample_client = snd (send_handshake_inner SendOk sample_info initial_client)
     \<lparr>last_handshake := 1000, packets_sent := 1, last_send := 1001\<rparr>"

text \<open>Packet 22 with the bundle bit set.\<close>

definition sample_flags :: bytes where
  "sample_flags = [0, 0, 0, 22, 0, 0, 0, 0, 0, 0, 0, 0, 1]"

lemma sample_connect: "connect None None SendOk 1000 1001 sample_info = Inr sample_client"
  by (simp add: connect_def sample_client_def send_handshake_inner_def next_seq_def
      socket_send_def initial_client_def)

lemma sample_client_reachable: "client_reachable sample_client"
  by (rule reach_connect [OF sample_connect])



text \<open>
  Property C2. Whatever the mode, the server obtains the same motion data: when the socket
  accepts what it is given, a call of the hot path succeeds and adds exactly the rotation
  and then the acceleration to what the server has received, as one datagram when bundling
  is on and as two otherwise.
\<close>

theorem motion_delivered_once:
  assumes "fst first_send = SendOk" "fst second_send = SendOk"
  shows "let (r, c') = send_rotation_and_accel first_send second_send sid q v c in
    r = Inr ()
    \<and> delivered (wire c') = delivered (wire c)
        @ [(17, sb_body (SbRotationData sid DataNormal q 0)), (4, sb_body (SbAcceleration v sid))]
    \<and> length (wire c') = length (wire c) + (if supports_bundle c then 1 else 2)"
proof -
  let ?r = "send_rotation_and_accel first_send second_send sid q v c"
  have "fst ?r = Inr ()"
    using assms by (intro motion_result) simp_all
  moreover have "delivered (wire (snd ?r)) = delivered (wire c) @ motion_inners sid q v"
    using assms by (simp add: motion_wire server_view_motion_bundle server_view_motion)
      (simp add: motion_inners_def)
  moreover have "length (wire (snd ?r)) = length (wire c) + (if supports_bundle c then 1 else 2)"
    using assms by (simp add: motion_wire)
  ultimately show ?thesis
    by (simp add: split_beta motion_inners_def rotation_packet_def)
qed

theorem motion_delivered_once_witness:
  "let q = \<lparr>quat_i = 0, quat_j = 0, quat_k = 0, quat_w = 1\<rparr> in
   delivered (wire (snd (send_rotation_and_accel (SendOk, 5) (SendOk, 6) 1 q (0, 0, 1) initial_client)))
     = [(17, sb_body (SbRotationData 1 DataNormal q 0)), (4, sb_body (SbAcceleration (0, 0, 1) 1))]"
proof -
  have w: "wire initial_client = []"
    by (simp add: initial_client_def)
  show ?thesis
    using motion_delivered_once [where first_send = "(SendOk, 5)" and second_send = "(SendOk, 6)"
        and c = initial_client and sid = 1 and v = "(0, 0, 1)"]
    by (simp only: w split_beta Let_def fst_conv simp_thms delivered.simps append_Nil)
qed

text \<open>
  Bundling is turned on by nothing but the server's own announcement: a step
  that turns it on received a FEATURE_FLAGS datagram of at least thirteen bytes whose first
  flag byte has the bundle bit set.
\<close>

theorem bundling_only_when_advertised:
  assumes "client_step c c'" "\<not> supports_bundle c" "supports_bundle c'"
  shows "\<exists>now out t1 t2 r d. c' = snd (snd (receive_step now out t1 t2 (RecvOk d) (r, c)))
    \<and> 13 \<le> length d \<and> u32_be_at d 0 = 22 \<and> d ! 12 AND 1 \<noteq> 0"
  using assms(1)
proof cases
  case (step_receive now out t1 t2 rcv r)
  with assms(2,3) obtain d where d: "rcv = RecvOk d" "4 \<le> length d"
    and on: "supports_bundle (received now out (take 1500 d) c)"
    by (auto simp: receive_client split: recv_outcome.splits if_splits)
  from on assms(2) have "u32_be_at (take 1500 d) 0 = 22" "13 \<le> length (take 1500 d)"
    "take 1500 d ! 12 AND 1 \<noteq> 0"
    by (auto simp: handle_inbound_def socket_send_def server_PROTOCOL_BUNDLE_SUPPORT_def split: if_splits)
  then have "13 \<le> length d" "u32_be_at d 0 = 22" "d ! 12 AND 1 \<noteq> 0"
    by (simp_all add: at_defs)
  with step_receive d show ?thesis by blast
qed (use assms(2,3) in \<open>simp_all add: watchdog_fields\<close>)

theorem bundling_only_when_advertised_witness:
  "\<exists>now out t1 t2 r d.
     snd (snd (receive_step 2000 SendOk 0 0 (RecvOk sample_flags) (\<lparr>last_reset_log = 0, reset_seen = 0,
       reset_logged = []\<rparr>, sample_client)))
     = snd (snd (receive_step now out t1 t2 (RecvOk d) (r, sample_client)))
     \<and> 13 \<le> length d \<and> u32_be_at d 0 = 22 \<and> d ! 12 AND 1 \<noteq> 0"
proof (rule bundling_only_when_advertised)
  show "client_step sample_client (snd (snd (receive_step 2000 SendOk 0 0 (RecvOk sample_flags)
    (\<lparr>last_reset_log = 0, reset_seen = 0, reset_logged = []\<rparr>, sample_client))))"
    by (rule step_receive)
  show "\<not> supports_bundle sample_client"
    by (simp add: sample_client_def initial_client_def)
  show "supports_bundle (snd (snd (receive_step 2000 SendOk 0 0 (RecvOk sample_flags)
    (\<lparr>last_reset_log = 0, reset_seen = 0, reset_logged = []\<rparr>, sample_client))))"
    by (simp add: receive_client sample_flags_def handle_inbound_def socket_send_def
        server_PROTOCOL_BUNDLE_SUPPORT_def at_defs from_be_def from_le_def)
qed


end
