(* ===== verification/Slime_Race.thy ===== *)
theory Slime_Race
  imports Slime_Client
begin

section \<open>Receive loop and watchdog interleaved\<close>

text \<open>
  The receive loop and the watchdog of \<^verbatim>\<open>client.rs\<close> run as two tasks that share the client's
  atomics. Here each access to a shared atomic is a step of its own, and the two tasks
  interleave in any order. Program counters carry what a task has read so far.
\<close>

subsection \<open>Steps\<close>

datatype rpc =
    RIdle
  | RGot bytes
  | RAnnounce bytes
  | RCount bytes u64
  | RHandle bytes

datatype wpc =
    WIdle
  | WInbound u64
  | WNow u64 u64
  | WReset
  | WBundle
  | WCount
  | WStamp u64
  | WEvent u64
  | WCheck

type_synonym race = "client \<times> rpc \<times> wpc"

text \<open>A datagram arrives, the receive loop takes its next step, or the watchdog its own.\<close>

datatype race_action = Arrive bytes u64 | Receiver send_outcome | Watchdog tick_env

fun receiver_step :: "send_outcome \<Rightarrow> client \<Rightarrow> rpc \<Rightarrow> client \<times> rpc" where
  "receiver_step out c RIdle = (c, RIdle)"
| "receiver_step out c (RGot p) = (c\<lparr>confirmed := True\<rparr>, if confirmed c then RHandle p else RAnnounce p)"
| "receiver_step out c (RAnnounce p) = (c, RCount p (reset_count c))"
| "receiver_step out c (RCount p n) =
     (c\<lparr>events := \<lparr>ev_confirmed = True, ev_reset_count = n\<rparr> # events c\<rparr>, RHandle p)"
| "receiver_step out c (RHandle p) = (handle_inbound (u32_be_at p 0) p out c, RIdle)"

fun watchdog_step :: "tick_env \<Rightarrow> handshake_info \<Rightarrow> client \<Rightarrow> wpc \<Rightarrow> client \<times> wpc" where
  "watchdog_step e info c WIdle = (c, WInbound (last_inbound c))"
| "watchdog_step e info c (WInbound l) = (c, WNow l (tk_now e))"
| "watchdog_step e info c (WNow l now) =
     (c, if confirmed c \<and> l > 0 \<and> saturating_sub now l > 2000 then WReset else WCheck)"
| "watchdog_step e info c WReset = (c\<lparr>confirmed := False\<rparr>, WBundle)"
| "watchdog_step e info c WBundle = (c\<lparr>supports_bundle := False\<rparr>, WCount)"
| "watchdog_step e info c WCount =
     (c\<lparr>reset_count := reset_count c + 1\<rparr>, WStamp (reset_count c + 1))"
| "watchdog_step e info c (WStamp n) = (c\<lparr>last_reset := tk_reset_now e\<rparr>, WEvent n)"
| "watchdog_step e info c (WEvent n) =
     (c\<lparr>events := \<lparr>ev_confirmed = False, ev_reset_count = n\<rparr> # events c\<rparr>, WCheck)"
| "watchdog_step e info c WCheck = (watchdog_resend e info c, WIdle)"

fun race_step :: "handshake_info \<Rightarrow> race_action \<Rightarrow> race \<Rightarrow> race" where
  "race_step info (Arrive p now) (c, r, w) =
     (if r = RIdle \<and> 4 \<le> length p then (c\<lparr>last_inbound := now\<rparr>, RGot p, w) else (c, r, w))"
| "race_step info (Receiver out) (c, r, w) = (let (c', r') = receiver_step out c r in (c', r', w))"
| "race_step info (Watchdog e) (c, r, w) = (let (c', w') = watchdog_step e info c w in (c', r, w'))"

definition race_run :: "handshake_info \<Rightarrow> race_action list \<Rightarrow> race \<Rightarrow> race" where
  "race_run info acts s = fold (race_step info) acts s"

subsection \<open>Uninterrupted tasks are the handlers of the coarse model\<close>

lemma receiver_alone:
  assumes "4 \<le> length p"
  shows "\<exists>n. race_run info (Arrive p now # replicate n (Receiver out)) (c, RIdle, w)
    = (received now out p c, RIdle, w)"
proof (cases "confirmed c")
  case True
  with assms show ?thesis
    by (intro exI [of _ 2]) (simp add: race_run_def numeral_2_eq_2 confirm_def)
next
  case False
  with assms show ?thesis
    by (intro exI [of _ 4]) (simp add: race_run_def eval_nat_numeral confirm_def Let_def)
qed

lemma watchdog_alone:
  "\<exists>n. race_run info (replicate n (Watchdog e)) (c, r, WIdle) = (watchdog_tick e info c, r, WIdle)"
proof (cases "timed_out (tk_now e) c")
  case True
  then show ?thesis
    by (intro exI [of _ 9])
      (simp add: race_run_def eval_nat_numeral timed_out_def watchdog_tick_def watchdog_reset_def Let_def)
next
  case False
  then show ?thesis
    by (intro exI [of _ 4])
      (auto simp: race_run_def eval_nat_numeral timed_out_def watchdog_tick_def)
qed

subsection \<open>What survives the interleaving\<close>

definition gains :: "handshake_event list \<Rightarrow> nat" where
  "gains es = length (filter ev_confirmed es)"

fun pending_gain :: "rpc \<Rightarrow> nat" where
  "pending_gain (RAnnounce _) = 1"
| "pending_gain (RCount _ _) = 1"
| "pending_gain _ = 0"

fun pending_loss :: "wpc \<Rightarrow> nat" where
  "pending_loss WBundle = 1"
| "pending_loss WCount = 1"
| "pending_loss (WStamp _) = 1"
| "pending_loss (WEvent _) = 1"
| "pending_loss _ = 0"

fun counted_loss :: "wpc \<Rightarrow> nat" where
  "counted_loss (WStamp _) = 1"
| "counted_loss (WEvent _) = 1"
| "counted_loss _ = 0"

fun stamp_ok :: "u64 \<Rightarrow> wpc \<Rightarrow> bool" where
  "stamp_ok k (WStamp n) \<longleftrightarrow> n = k"
| "stamp_ok k (WEvent n) \<longleftrightarrow> n = k"
| "stamp_ok _ _ \<longleftrightarrow> True"

text \<open>The losses announced, newest first, are numbered without gaps.\<close>

fun losses_numbered :: "handshake_event list \<Rightarrow> bool" where
  "losses_numbered [] \<longleftrightarrow> True"
| "losses_numbered (e # es) \<longleftrightarrow>
     (ev_confirmed e \<or> ev_reset_count e = of_nat (Suc (drops es))) \<and> losses_numbered es"

fun race_inv :: "race \<Rightarrow> bool" where
  "race_inv (c, r, w) \<longleftrightarrow>
     gains (events c) + pending_gain r = drops (events c) + pending_loss w + (if confirmed c then 1 else 0)
     \<and> (w = WReset \<longrightarrow> confirmed c)
     \<and> reset_count c = of_nat (drops (events c) + counted_loss w)
     \<and> stamp_ok (reset_count c) w
     \<and> losses_numbered (events c)"

lemma gains_simps [simp]:
  "gains [] = 0" "gains (e # es) = (if ev_confirmed e then Suc (gains es) else gains es)"
  by (simp_all add: gains_def)

lemma resend_fields [simp]:
  "confirmed (watchdog_resend e info c) = confirmed c"
  "events (watchdog_resend e info c) = events c"
  "reset_count (watchdog_resend e info c) = reset_count c"
  "supports_bundle (watchdog_resend e info c) = supports_bundle c"
  by (simp_all add: watchdog_resend_def split_beta split: sum.split)

lemma race_inv_receiver:
  assumes "race_inv (c, r, w)"
  shows "race_inv (fst (receiver_step out c r), snd (receiver_step out c r), w)"
  using assms by (cases r) auto

lemma race_inv_watchdog:
  assumes "race_inv (c, r, w)"
  shows "race_inv (fst (watchdog_step e info c w), r, snd (watchdog_step e info c w))"
  using assms by (cases w) auto

lemma race_inv_step:
  assumes "race_inv s"
  shows "race_inv (race_step info a s)"
proof -
  obtain c r w where s: "s = (c, r, w)"
    by (cases s)
  show ?thesis
  proof (cases a)
    case (Arrive p now)
    with assms s show ?thesis by auto
  next
    case (Receiver out)
    with assms s race_inv_receiver [of c r w out] show ?thesis
      by (simp add: split_beta del: race_inv.simps)
  next
    case (Watchdog e)
    with assms s race_inv_watchdog [of c r w e info] show ?thesis
      by (simp add: split_beta del: race_inv.simps)
  qed
qed

lemma race_inv_run: "race_inv s \<Longrightarrow> race_inv (race_run info acts s)"
  by (induction acts arbitrary: s) (simp_all add: race_run_def race_inv_step)

subsection \<open>Properties\<close>

text \<open>
  However the receive loop and the watchdog interleave, no transition is lost
  or announced twice: whenever both tasks are between rounds, the confirmations announced
  exceed the losses announced by one if the client is confirmed and are equally many
  otherwise, the reset counter is the number of losses announced, and the losses are
  numbered without gaps.
\<close>

theorem race_events_balanced:
  assumes "connect None None out now1 now2 info = Inr c"
    and "race_run info acts (c, RIdle, WIdle) = (c', RIdle, WIdle)"
  shows "gains (events c') = drops (events c') + (if confirmed c' then 1 else 0)
    \<and> reset_count c' = of_nat (drops (events c')) \<and> losses_numbered (events c')"
proof -
  have "race_inv (c, RIdle, WIdle)"
    by (simp add: connect_client [OF assms(1)])
  then have "race_inv (c', RIdle, WIdle)"
    using race_inv_run [of "(c, RIdle, WIdle)" info acts] assms(2) by simp
  then show ?thesis by simp
qed

definition sample_ping :: bytes where
  "sample_ping = [0, 0, 0, 10, 0, 0, 0, 0, 0, 0, 0, 0, 1, 2, 3, 4]"

definition sample_tick :: tick_env where
  "sample_tick = \<lparr>tk_now = 4000, tk_reset_now = 4000, tk_out = SendOk, tk_handshake_now = 4000,
     tk_send_now = 4000\<rparr>"

text \<open>
  The server falls silent and returns just while the watchdog is resetting: its announcement
  is handled after the watchdog has dropped the confirmation and before it finishes.
\<close>

definition stale_run :: "race_action list" where
  "stale_run = Arrive sample_ping 1000 # replicate 4 (Receiver SendOk)
     @ replicate 4 (Watchdog sample_tick)
     @ Arrive sample_flags 4000 # replicate 4 (Receiver SendOk)
     @ replicate 5 (Watchdog sample_tick)"

lemma replicate_small:
  "replicate 4 x = [x, x, x, x]" "replicate 5 x = [x, x, x, x, x]"
  by (simp_all add: eval_nat_numeral)

lemma sample_tags:
  "u32_be_at sample_ping 0 = 10" "u32_be_at sample_flags 0 = 22"
  by (simp_all add: sample_ping_def sample_flags_def at_defs from_be_def from_le_def)

lemma sample_lengths: "length sample_ping = 16" "length sample_flags = 13" "sample_flags ! 12 = 1"
  by (simp_all add: sample_ping_def sample_flags_def)

lemma race_run_append: "race_run info (xs @ ys) s = race_run info ys (race_run info xs s)"
  by (simp add: race_run_def)

lemma stale_first:
  "race_run sample_info (Arrive sample_ping 1000 # replicate 4 (Receiver SendOk)) (sample_client, RIdle, WIdle)
    = (received 1000 SendOk sample_ping sample_client, RIdle, WIdle)"
  by (simp add: race_run_def replicate_small confirm_def sample_client_def initial_client_def
      sample_lengths Let_def)

lemma sample_confirmed:
  "events (confirm (sample_client\<lparr>last_inbound := t\<rparr>)) = [\<lparr>ev_confirmed = True, ev_reset_count = 0\<rparr>]"
  by (simp add: confirm_def sample_client_def initial_client_def Let_def)

lemma stale_rest:
  assumes "confirmed c" "last_inbound c = 1000"
  shows "race_run sample_info (replicate 4 (Watchdog sample_tick)
     @ Arrive sample_flags 4000 # replicate 4 (Receiver SendOk) @ replicate 5 (Watchdog sample_tick))
     (c, RIdle, WIdle) =
    (c\<lparr>confirmed := True, last_inbound := 4000, last_reset := 4000, supports_bundle := False,
       reset_count := reset_count c + 1,
       events := \<lparr>ev_confirmed = False, ev_reset_count = reset_count c + 1\<rparr>
         # \<lparr>ev_confirmed = True, ev_reset_count = reset_count c\<rparr> # events c\<rparr>, RIdle, WIdle)"
  using assms
  by (simp add: race_run_def replicate_small sample_tags sample_lengths handle_inbound_def
      watchdog_resend_def sample_tick_def saturating_sub_def)

text \<open>
  The broadcast order is not reliable: there is an interleaving after which both
  tasks are between rounds and the client is confirmed, but the newest event announces a
  loss, and the bundle support the server has just announced is forgotten. A subscriber that
  trusts the last event, or waits for bundling to resume, is wrong until the next change.
\<close>

theorem stale_loss_reachable:
  "connect None None SendOk 1000 1001 sample_info = Inr sample_client
    \<and> (let (c, r, w) = race_run sample_info stale_run (sample_client, RIdle, WIdle) in
        r = RIdle \<and> w = WIdle \<and> confirmed c \<and> \<not> supports_bundle c
        \<and> map ev_confirmed (events c) = [False, True, True])"
proof -
  have run: "stale_run = (Arrive sample_ping 1000 # replicate 4 (Receiver SendOk))
      @ (replicate 4 (Watchdog sample_tick)
         @ Arrive sample_flags 4000 # replicate 4 (Receiver SendOk) @ replicate 5 (Watchdog sample_tick))"
    by (simp add: stale_run_def)
  show ?thesis
    unfolding run
    by (subst race_run_append, subst stale_first, subst stale_rest)
      (simp_all add: sample_confirmed sample_connect)
qed

theorem race_events_balanced_witness:
  "\<exists>c'. race_run sample_info [Arrive sample_ping 1000, Receiver SendOk, Receiver SendOk, Receiver SendOk,
        Receiver SendOk] (sample_client, RIdle, WIdle) = (c', RIdle, WIdle)
     \<and> gains (events c') = drops (events c') + (if confirmed c' then 1 else 0)"
  using race_events_balanced [OF sample_connect stale_first] stale_first
  by (simp add: replicate_small)

end
