(* ===== verification/Text_Utf8.thy ===== *)
theory Text_Utf8
  imports Codec
begin

section \<open>Text\<close>

text \<open>
  A Rust string is modelled by its UTF-8 bytes, each as an Isabelle character.
  \<open>from_utf8\<close> is \<^verbatim>\<open>std::str::from_utf8\<close>: the well-formed sequences of the Unicode standard,
  so no overlong form, no surrogate and nothing beyond the last code point.
\<close>

type_synonym text_string = string

definition byte_char :: "u8 \<Rightarrow> char" where
  "byte_char b = char_of (unat b)"

definition char_byte :: "char \<Rightarrow> u8" where
  "char_byte c = of_nat (of_char c)"

definition as_bytes :: "text_string \<Rightarrow> bytes" where
  "as_bytes s = map char_byte s"

definition in_range :: "u8 \<Rightarrow> u8 \<Rightarrow> u8 \<Rightarrow> bool" where
  "in_range lo hi b \<longleftrightarrow> lo \<le> b \<and> b \<le> hi"

text \<open>What is left after the expected continuation bytes.\<close>

fun after_conts :: "(u8 \<times> u8) list \<Rightarrow> bytes \<Rightarrow> bytes option" where
  "after_conts [] bs = Some bs"
| "after_conts ((lo, hi) # rs) [] = None"
| "after_conts ((lo, hi) # rs) (b # bs) = (if in_range lo hi b then after_conts rs bs else None)"

text \<open>The continuation bytes that the first byte of a character calls for.\<close>

definition utf8_conts :: "u8 \<Rightarrow> (u8 \<times> u8) list option" where
  "utf8_conts b =
     (if b < 0x80 then Some []
      else if in_range 0xC2 0xDF b then Some [(0x80, 0xBF)]
      else if b = 0xE0 then Some [(0xA0, 0xBF), (0x80, 0xBF)]
      else if b = 0xED then Some [(0x80, 0x9F), (0x80, 0xBF)]
      else if in_range 0xE1 0xEF b then Some [(0x80, 0xBF), (0x80, 0xBF)]
      else if b = 0xF0 then Some [(0x90, 0xBF), (0x80, 0xBF), (0x80, 0xBF)]
      else if in_range 0xF1 0xF3 b then Some [(0x80, 0xBF), (0x80, 0xBF), (0x80, 0xBF)]
      else if b = 0xF4 then Some [(0x80, 0x8F), (0x80, 0xBF), (0x80, 0xBF)]
      else None)"

lemma after_conts_length: "after_conts rs bs = Some r \<Longrightarrow> length r \<le> length bs"
  by (induction rs bs rule: after_conts.induct) (auto split: if_splits)

function utf8_valid :: "bytes \<Rightarrow> bool" where
  "utf8_valid [] \<longleftrightarrow> True"
| "utf8_valid (b # bs) \<longleftrightarrow>
     (case utf8_conts b of
        None \<Rightarrow> False
      | Some rs \<Rightarrow> (case after_conts rs bs of None \<Rightarrow> False | Some r \<Rightarrow> utf8_valid r))"
  by pat_completeness auto
termination
  by (relation "measure length") (auto dest: after_conts_length)

definition from_utf8 :: "bytes \<Rightarrow> text_string option" where
  "from_utf8 bs = (if utf8_valid bs then Some (map byte_char bs) else None)"

definition valid_text :: "text_string \<Rightarrow> bool" where
  "valid_text s = utf8_valid (as_bytes s)"

lemma char_byte_char [simp]: "char_byte (byte_char b) = b"
  by (simp add: char_byte_def byte_char_def unat_u8_less)

lemma byte_char_byte [simp]: "byte_char (char_byte c) = c"
  by (simp add: char_byte_def byte_char_def unat_of_nat)

lemma as_bytes_chars [simp]: "as_bytes (map byte_char bs) = bs"
  by (simp add: as_bytes_def comp_def)

lemma chars_as_bytes [simp]: "map byte_char (as_bytes s) = s"
  by (simp add: as_bytes_def comp_def)

lemma length_as_bytes [simp]: "length (as_bytes s) = length s"
  by (simp add: as_bytes_def)

lemma from_utf8_as_bytes [simp]: "valid_text s \<Longrightarrow> from_utf8 (as_bytes s) = Some s"
  by (simp add: from_utf8_def valid_text_def)

lemma from_utf8_Some: "from_utf8 bs = Some s \<Longrightarrow> as_bytes s = bs \<and> valid_text s"
  by (auto simp: from_utf8_def valid_text_def split: if_splits)

lemma utf8_valid_ascii: "\<forall>b \<in> set bs. b < 0x80 \<Longrightarrow> utf8_valid bs"
  by (induction bs) (simp_all add: utf8_conts_def)

subsection \<open>Decimal numbers\<close>

fun dec_digits :: "nat \<Rightarrow> string" where
  "dec_digits n = (if n < 10 then [''0123456789'' ! n] else dec_digits (n div 10) @ [''0123456789'' ! (n mod 10)])"

declare dec_digits.simps [simp del]

end
