(* ===== verification/Device_Traits.thy ===== *)
theory Device_Traits
  imports Text_Utf8
begin

section \<open>The contracts every device driver shares\<close>

text \<open>
  \<^verbatim>\<open>crates/device-traits\<close>: device identity and metadata, the events a driver emits, the reset
  button detector, the sample-rate health classifier, the rumble conversions, the stores
  for settings and gyro biases, and the mock device. The trait contracts are locales.
\<close>

subsection \<open>Identity and events\<close>

record device_id =
  id_mac :: mac
  id_serial :: text_string

text \<open>Two upper-case hexadecimal digits, as \<^verbatim>\<open>{:02X}\<close>.\<close>

definition hex_digit :: "nat \<Rightarrow> char" where
  "hex_digit n = ''0123456789ABCDEF'' ! n"

definition hex02 :: "u8 \<Rightarrow> string" where
  "hex02 b = [hex_digit (unat b div 16), hex_digit (unat b mod 16)]"

fun join_colon :: "string list \<Rightarrow> string" where
  "join_colon [] = ''''"
| "join_colon [s] = s"
| "join_colon (s # t # ss) = s @ '':'' @ join_colon (t # ss)"

definition device_id_display :: "device_id \<Rightarrow> string" where
  "device_id_display i = join_colon (map hex02 (id_mac i)) @ ''/'' @ id_serial i"

datatype device_kind =
    JoyConL | JoyConR | ProController | ChargingGripL | ChargingGripR | JoyCon2L | JoyCon2R
  | ProController2 | DualSense | DualSenseEdge | DualShock4 | PsMoveZcm1 | PsMoveZcm2 | Wii
  | Tesla | SteamDeck | SteamController | Hopx | ThreeDs | Vita | DualShock3 | Phone | Watch
  | Gamepad

record capabilities =
  has_magnetometer :: bool
  has_battery :: bool
  has_rumble :: bool
  native_rate_hz :: u16

record device_metadata =
  md_id :: device_id
  md_kind :: device_kind
  md_firmware :: "text_string option"
  md_caps :: capabilities

datatype device_error =
    Hid text_string
  | DevDisconnected
  | Calibration text_string
  | Timeout text_string

record imu_sample =
  gyro :: "f32 \<times> f32 \<times> f32"
  accel :: "f32 \<times> f32 \<times> f32"
  mag :: "(f32 \<times> f32 \<times> f32) option"
  timestamp_us :: u64

record battery_state =
  fraction :: f32
  charging :: bool

datatype reset_kind = Yaw | Full | Mounting

datatype channel_info =
    Connected device_id
  | ImuSamples "imu_sample list"
  | Battery battery_state
  | ResetRequested reset_kind
  | Disconnected

subsection \<open>Reset buttons\<close>

datatype button_state = HomeOrCapture bool bool | CaptureOnly bool

record detector =
  pressed_since :: "instant option"
  capture_was_pressed :: bool
  long_threshold :: duration
  debounce :: duration
  last_emit :: "instant option"

definition detector_with_thresholds :: "duration \<Rightarrow> duration \<Rightarrow> detector" where
  "detector_with_thresholds long deb =
     \<lparr>pressed_since = None, capture_was_pressed = False, long_threshold = long, debounce = deb,
      last_emit = None\<rparr>"

definition detector_new :: detector where
  "detector_new = detector_with_thresholds (from_millis 1000) (from_millis 300)"

definition in_debounce :: "detector \<Rightarrow> instant \<Rightarrow> bool" where
  "in_debounce d now =
     (case last_emit d of Some t \<Rightarrow> duration_since now t < debounce d | None \<Rightarrow> False)"

fun observe :: "detector \<Rightarrow> button_state \<Rightarrow> instant \<Rightarrow> detector \<times> reset_kind option" where
  "observe d (HomeOrCapture home capture) now =
     (let edge = capture \<and> \<not> capture_was_pressed d;
          quiet = in_debounce d now;
          d1 = d\<lparr>capture_was_pressed := capture\<rparr>
      in if edge then
           if quiet then (d1, None) else (d1\<lparr>last_emit := Some now\<rparr>, Some Yaw)
         else
           (case (home, pressed_since d1) of
              (True, None) \<Rightarrow> (d1\<lparr>pressed_since := Some now\<rparr>, None)
            | (True, Some _) \<Rightarrow> (d1, None)
            | (False, Some start) \<Rightarrow>
                let d2 = d1\<lparr>pressed_since := None\<rparr> in
                if quiet then (d2, None)
                else (d2\<lparr>last_emit := Some now\<rparr>,
                  Some (if long_threshold d2 \<le> duration_since now start then Full else Yaw))
            | (False, None) \<Rightarrow> (d1, None)))"
| "observe d (CaptureOnly pressed) now =
     (let quiet = in_debounce d now in
      if pressed \<and> pressed_since d = None then
        let d1 = d\<lparr>pressed_since := Some now\<rparr> in
        if quiet then (d1, None) else (d1\<lparr>last_emit := Some now\<rparr>, Some Yaw)
      else if \<not> pressed then (d\<lparr>pressed_since := None\<rparr>, None)
      else (d, None))"

text \<open>The resets a sequence of reports makes the detector emit, with their times.\<close>

fun detect :: "detector \<Rightarrow> (button_state \<times> instant) list \<Rightarrow> (instant \<times> reset_kind) list" where
  "detect d [] = []"
| "detect d ((b, now) # rest) =
     (case observe d b now of
        (d', None) \<Rightarrow> detect d' rest
      | (d', Some k) \<Rightarrow> (now, k) # detect d' rest)"

subsection \<open>Health\<close>

datatype device_health = Healthy | LaggyImu | NoImu | HealthDisconnected

record classifier =
  target_hz :: u16
  window :: duration
  no_imu_after :: duration
  samples :: "instant list"
  last_seen :: "instant option"
  disconnected :: bool

definition classifier_new :: "u16 \<Rightarrow> classifier" where
  "classifier_new hz =
     \<lparr>target_hz = hz, window = from_secs 1, no_imu_after = from_secs 2, samples = [],
      last_seen = None, disconnected = False\<rparr>"

definition cutoff :: "classifier \<Rightarrow> instant \<Rightarrow> instant" where
  "cutoff c now = (case instant_checked_sub now (window c) of Some t \<Rightarrow> t | None \<Rightarrow> now)"

text \<open>The loop that pops the samples before the cutoff off the front of the queue.\<close>

definition evict :: "instant \<Rightarrow> instant list \<Rightarrow> instant list" where
  "evict t xs = dropWhile (\<lambda>x. x < t) xs"

definition record_sample :: "instant \<Rightarrow> classifier \<Rightarrow> classifier" where
  "record_sample now c =
     (let c1 = c\<lparr>last_seen := Some now, samples := samples c @ [now], disconnected := False\<rparr>
      in c1\<lparr>samples := evict (cutoff c1 now) (samples c1)\<rparr>)"

definition record_disconnect :: "classifier \<Rightarrow> classifier" where
  "record_disconnect c = c\<lparr>disconnected := True\<rparr>"

definition classify :: "instant \<Rightarrow> classifier \<Rightarrow> device_health \<times> classifier" where
  "classify now c =
     (if disconnected c then (HealthDisconnected, c)
      else
        let c1 = c\<lparr>samples := evict (cutoff c now) (samples c)\<rparr>;
            count = f64_of_int (int (length (samples c1)));
            target = f64_of_int (int (unat (target_hz c1))) * f64_lit 9 10;
            recent = (case last_seen c1 of Some t \<Rightarrow> duration_since now t < no_imu_after c1 | None \<Rightarrow> False)
        in if target \<le> count then (Healthy, c1)
           else if 0 < count \<or> recent then (LaggyImu, c1)
           else (NoImu, c1))"

subsection \<open>Rumble\<close>

definition clamp01 :: "f32 \<Rightarrow> f32" where
  "clamp01 x = (if f32_is_nan x then 0 else f32_clamp x 0 1)"

definition rumble_to_u8 :: "f32 \<Rightarrow> u8" where
  "rumble_to_u8 x = f32_to_u8 (f32_round (clamp01 x * f32_lit 255 1))"

definition rumble_is_on :: "f32 \<Rightarrow> f32 \<Rightarrow> bool" where
  "rumble_is_on x threshold = (threshold < clamp01 x)"

subsection \<open>Stores\<close>

record settings_mem =
  rot :: "device_id \<Rightarrow> f32 option"
  kv :: "text_string \<Rightarrow> text_string option"

definition settings_empty :: settings_mem where
  "settings_empty = \<lparr>rot = Map.empty, kv = Map.empty\<rparr>"

definition mem_get_rotation :: "settings_mem \<Rightarrow> device_id \<Rightarrow> f32" where
  "mem_get_rotation s i = (case rot s i of Some d \<Rightarrow> d | None \<Rightarrow> 0)"

definition mem_set_rotation :: "settings_mem \<Rightarrow> device_id \<Rightarrow> f32 \<Rightarrow> settings_mem" where
  "mem_set_rotation s i d = (if \<not> f32_is_finite d then s else s\<lparr>rot := (rot s)(i \<mapsto> d)\<rparr>)"

definition mem_get :: "settings_mem \<Rightarrow> text_string \<Rightarrow> text_string option" where
  "mem_get s k = kv s k"

definition mem_set :: "settings_mem \<Rightarrow> text_string \<Rightarrow> text_string \<Rightarrow> settings_mem" where
  "mem_set s k v = s\<lparr>kv := (kv s)(k \<mapsto> v)\<rparr>"

type_synonym bias = "f64 \<times> f64 \<times> f64"
type_synonym bias_mem = "device_id \<Rightarrow> bias option"

fun bias_finite :: "bias \<Rightarrow> bool" where
  "bias_finite (x, y, z) \<longleftrightarrow> f64_is_finite x \<and> f64_is_finite y \<and> f64_is_finite z"

definition mem_load_bias :: "bias_mem \<Rightarrow> device_id \<Rightarrow> bias option" where
  "mem_load_bias s i = s i"

definition mem_store_bias :: "bias_mem \<Rightarrow> device_id \<Rightarrow> bias \<Rightarrow> bias_mem" where
  "mem_store_bias s i b = (if \<not> bias_finite b then s else s(i \<mapsto> b))"

subsection \<open>The mock device\<close>

record mock_device =
  mock_metadata :: device_metadata
  mock_script :: "channel_info list"
  mock_task :: bool
  mock_started :: bool

text \<open>The counter is read and advanced by \<^verbatim>\<open>fetch_add\<close>; the new counter is returned.\<close>

definition mock_mac :: "u64 \<Rightarrow> mac" where
  "mock_mac n = [2, ucast (drop_bit 32 n AND 0xFF), ucast (drop_bit 24 n AND 0xFF),
     ucast (drop_bit 16 n AND 0xFF), ucast (drop_bit 8 n AND 0xFF), ucast (n AND 0xFF)]"

definition mock_new :: "u64 \<Rightarrow> text_string \<Rightarrow> device_kind \<Rightarrow> u64 \<times> mock_device" where
  "mock_new n serial kind =
     (n + 1,
      \<lparr>mock_metadata =
         \<lparr>md_id = \<lparr>id_mac = mock_mac n, id_serial = serial\<rparr>, md_kind = kind,
          md_firmware = Some ''mock 0.1'',
          md_caps = \<lparr>has_magnetometer = False, has_battery = True, has_rumble = False,
            native_rate_hz = 200\<rparr>\<rparr>,
       mock_script = [], mock_task = False, mock_started = False\<rparr>)"

definition mock_push :: "channel_info \<Rightarrow> mock_device \<Rightarrow> mock_device" where
  "mock_push e d = d\<lparr>mock_script := mock_script d @ [e]\<rparr>"

text \<open>A start hands the script over to the task, which sends it on the channel in order.\<close>

definition mock_start :: "mock_device \<Rightarrow> device_error + (channel_info list \<times> mock_device)" where
  "mock_start d =
     (if mock_started d then Inl (Hid ''MockDevice already started'')
      else Inr (mock_script d, d\<lparr>mock_script := [], mock_task := True, mock_started := True\<rparr>))"

definition mock_stop :: "mock_device \<Rightarrow> mock_device" where
  "mock_stop d = d\<lparr>mock_task := False, mock_started := False\<rparr>"

subsection \<open>Lemmas: reset detection\<close>

lemma observe_emit:
  assumes "observe d b now = (d', Some k)"
  shows "last_emit d' = Some now \<and> \<not> in_debounce d now"
  using assms by (cases b) (auto simp: Let_def split: if_splits option.splits bool.splits)

lemma observe_quiet: "observe d b now = (d', None) \<Longrightarrow> last_emit d' = last_emit d"
  by (cases b) (auto simp: Let_def split: if_splits option.splits bool.splits)

lemma observe_config [simp]:
  "debounce (fst (observe d b now)) = debounce d"
  "long_threshold (fst (observe d b now)) = long_threshold d"
  by (cases b; auto simp: Let_def split: option.splits bool.splits)+

text \<open>The pairs of neighbouring elements of a list are related.\<close>

fun neighbours :: "('a \<Rightarrow> 'a \<Rightarrow> bool) \<Rightarrow> 'a list \<Rightarrow> bool" where
  "neighbours P (x # y # zs) \<longleftrightarrow> P x y \<and> neighbours P (y # zs)"
| "neighbours P _ \<longleftrightarrow> True"

fun first_ready :: "detector \<Rightarrow> (instant \<times> reset_kind) list \<Rightarrow> bool" where
  "first_ready d [] \<longleftrightarrow> True"
| "first_ready d ((t, k) # es) \<longleftrightarrow>
     (case last_emit d of Some u \<Rightarrow> debounce d \<le> duration_since t u | None \<Rightarrow> True)"

lemma first_ready_cong:
  "last_emit d' = last_emit d \<Longrightarrow> debounce d' = debounce d \<Longrightarrow> first_ready d' es \<longleftrightarrow> first_ready d es"
  by (cases "(d, es)" rule: first_ready.cases) (simp_all split: option.split)

lemma neighbours_emit:
  assumes "last_emit d = Some t" "first_ready d es"
    "neighbours (\<lambda>a b. debounce d \<le> duration_since (fst b) (fst a)) es"
  shows "neighbours (\<lambda>a b. debounce d \<le> duration_since (fst b) (fst a)) ((t, k) # es)"
  using assms by (cases "(d, es)" rule: first_ready.cases) simp_all

lemma detect_head: "first_ready d (detect d rs)"
proof (induction d rs rule: detect.induct)
  case (1 d)
  then show ?case by simp
next
  case (2 d b now rest)
  obtain d' k where o: "observe d b now = (d', k)"
    by fastforce
  show ?case
  proof (cases k)
    case None
    with 2(1) o have "first_ready d' (detect d' rest)" by simp
    with None o observe_config(1) [of d b now] observe_quiet [of d b now d'] show ?thesis
      using first_ready_cong [of d' d] by simp
  next
    case (Some a)
    with o observe_emit [of d b now d' a] show ?thesis
      by (auto simp: in_debounce_def split: option.splits)
  qed
qed

lemma detect_spaced:
  "neighbours (\<lambda>a b. debounce d \<le> duration_since (fst b) (fst a)) (detect d rs)"
proof (induction d rs rule: detect.induct)
  case (1 d)
  then show ?case by simp
next
  case (2 d b now rest)
  obtain d' k where o: "observe d b now = (d', k)"
    by fastforce
  then have deb: "debounce d' = debounce d"
    using observe_config(1) [of d b now] by simp
  show ?case
  proof (cases k)
    case None
    with 2(1) o deb show ?thesis by simp
  next
    case (Some a)
    with o have "last_emit d' = Some now"
      using observe_emit by blast
    moreover have "neighbours (\<lambda>a b. debounce d' \<le> duration_since (fst b) (fst a)) (detect d' rest)"
      using 2(2) o Some by simp
    ultimately have "neighbours (\<lambda>a b. debounce d' \<le> duration_since (fst b) (fst a)) ((now, a) # detect d' rest)"
      using detect_head by (intro neighbours_emit)
    with o Some deb show ?thesis by simp
  qed
qed

text \<open>A report in which the button that matters is held down.\<close>

fun held :: "button_state \<Rightarrow> bool" where
  "held (HomeOrCapture home _) \<longleftrightarrow> home"
| "held (CaptureOnly pressed) \<longleftrightarrow> pressed"

lemma observe_pressed_since:
  "pressed_since (fst (observe d b now)) = Some s \<Longrightarrow>
     pressed_since d = Some s \<or> s = now \<and> held b"
  by (cases b) (auto simp: Let_def split: if_splits option.splits bool.splits)

lemma observe_full:
  "observe d b now = (d', Some Full) \<Longrightarrow>
     \<exists>s. pressed_since d = Some s \<and> long_threshold d \<le> duration_since now s \<and> \<not> held b"
  by (cases b) (auto simp: Let_def split: if_splits option.splits bool.splits)

lemma detect_full:
  assumes "(t, Full) \<in> set (detect d rs)"
  shows "\<exists>s. long_threshold d \<le> duration_since t s \<and> (\<exists>b. (b, t) \<in> set rs \<and> \<not> held b)
    \<and> (pressed_since d = Some s \<or> (\<exists>b. (b, s) \<in> set rs \<and> held b))"
  using assms
proof (induction d rs rule: detect.induct)
  case (1 d)
  then show ?case by simp
next
  case (2 d b now rest)
  obtain d' k where o: "observe d b now = (d', k)"
    by fastforce
  then have thr: "long_threshold d' = long_threshold d"
    using observe_config(2) [of d b now] by simp
  have since: "pressed_since d' = Some s \<Longrightarrow> pressed_since d = Some s \<or> s = now \<and> held b" for s
    using observe_pressed_since [of d b now s] o by simp
  show ?case
  proof (cases "k = Some Full \<and> t = now")
    case True
    with o observe_full [of d b now d'] show ?thesis by auto
  next
    case False
    with 2(3) o have "(t, Full) \<in> set (detect d' rest)"
      by (auto split: option.splits)
    with 2(1,2) o have "\<exists>s. long_threshold d' \<le> duration_since t s \<and> (\<exists>b. (b, t) \<in> set rest \<and> \<not> held b)
      \<and> (pressed_since d' = Some s \<or> (\<exists>b. (b, s) \<in> set rest \<and> held b))"
      by (cases k) auto
    then show ?thesis
      using since thr by (metis list.set_intros(1,2))
  qed
qed

subsection \<open>Lemmas: rumble\<close>

lemma lit_255: "f32_val (f32_lit 255 1) = FFin False (255 * funit fmt32)"
proof -
  have "f32_lit 255 1 = f32_of_int 255"
    by (simp add: f32_lit_def f32_of_int_def fp_of_int_def)
  then show ?thesis
    using f32_val_of_int [of 255] by simp
qed

text \<open>The level of a clamped intensity: its magnitude, with a negative zero at zero.\<close>

definition level :: "f32 \<Rightarrow> nat" where
  "level x = (case f32_val x of FFin False k \<Rightarrow> min k (funit fmt32) | FInf False \<Rightarrow> funit fmt32 | _ \<Rightarrow> 0)"

lemma clamp01_level: "\<exists>s. f32_val (clamp01 x) = FFin s (level x) \<and> (s \<longrightarrow> level x = 0)"
  by (cases "f32_val x")
    (auto simp: clamp01_def level_def f32_is_nan_def f32_clamp_def less_f32_def Let_def sgn_int_def
      split: bool.split)

lemma level_mono: "x \<le> y \<Longrightarrow> level x \<le> level y"
  by (cases "f32_val x"; cases "f32_val y")
    (auto simp: level_def less_eq_f32_def fp_le_def sgn_int_def split: bool.splits if_splits)

lemma level_le: "level x \<le> funit fmt32"
  by (simp add: level_def split: fp.split bool.split)

definition motor :: "nat \<Rightarrow> nat" where
  "motor k = (2 * fp_round 23 (k * (255 * funit fmt32)) (funit fmt32) + funit fmt32) div (2 * funit fmt32)"

lemma round_255: "fp_round 23 (255 * funit fmt32 * funit fmt32) (funit fmt32) = 255 * funit fmt32"
proof -
  have "repr 23 (255 * 2 ^ 149)"
    by (intro repr_mult_pow) simp
  then show ?thesis
    by (intro fp_round_exact) (simp_all add: fmt32_def del: power_numeral)
qed

lemma product_le: "k \<le> funit fmt32 \<Longrightarrow> fp_round 23 (k * (255 * funit fmt32)) (funit fmt32) \<le> 255 * funit fmt32"
  using fp_round_mono [of "funit fmt32" "funit fmt32" "k * (255 * funit fmt32)" "255 * funit fmt32 * funit fmt32" 23]
    round_255 by simp

lemma motor_mono: "k \<le> l \<Longrightarrow> motor k \<le> motor l"
  unfolding motor_def
  by (intro div_le_mono add_le_mono mult_le_mono order_refl fp_round_mono) simp_all

lemma motor_255: "motor k \<le> 255" if "k \<le> funit fmt32"
proof -
  have "2 * fp_round 23 (k * (255 * funit fmt32)) (funit fmt32) + funit fmt32
      \<le> 255 * (2 * funit fmt32) + funit fmt32"
    using product_le [OF that] by simp
  then have "motor k \<le> (255 * (2 * funit fmt32) + funit fmt32) div (2 * funit fmt32)"
    unfolding motor_def by (rule div_le_mono)
  also have "\<dots> = 255"
    by (simp add: fmt32_def)
  finally show ?thesis .
qed

lemma rumble_to_u8_motor: "unat (rumble_to_u8 x) = motor (level x)"
proof -
  let ?U = "funit fmt32"
  let ?r = "fp_round 23 (level x * (255 * ?U)) ?U"
  obtain s where s: "f32_val (clamp01 x) = FFin s (level x)" and neg: "s \<longrightarrow> level x = 0"
    using clamp01_level by blast
  have r: "?r \<le> 255 * ?U"
    by (rule product_le [OF level_le])
  then have lim: "?r < flimit fmt32"
    by (rule le_less_trans) (simp add: fmt32_def)
  have prod: "f32_val (clamp01 x * f32_lit 255 1) = FFin s ?r"
    unfolding f32_ops_val s lit_255 using lim by (simp add: fp_make_def fmt32_def)
  have m: "motor (level x) \<le> 255"
    by (rule motor_255 [OF level_le])
  have "fp_round_int fmt32 (FFin s ?r) = FFin s (motor (level x) * ?U)"
    by (simp add: motor_def)
  moreover have "fp_ok fmt32 (FFin s (motor (level x) * ?U))"
  proof -
    have "motor (level x) * ?U \<le> 255 * ?U"
      using m by simp
    then have "motor (level x) * ?U < flimit fmt32"
      by (rule le_less_trans) (simp add: fmt32_def)
    moreover have "repr 23 (motor (level x) * 2 ^ 149)"
      using m by (intro repr_mult_pow) simp
    ultimately show ?thesis
      by (simp add: fmt32_def)
  qed
  ultimately have "f32_val (f32_round (clamp01 x * f32_lit 255 1)) = FFin s (motor (level x) * ?U)"
    unfolding f32_round_def prod by (simp only: f32_val_of)
  then show ?thesis
    using m neg by (auto simp: rumble_to_u8_def f32_to_u8_def unat_of_nat motor_def)
qed

subsection \<open>Lemmas: the sliding window\<close>

text \<open>What happens to a classifier: a sample arrives, it is asked, or the device goes away.\<close>

datatype health_op = Sample instant | Poll instant | Gone

fun health_step :: "health_op \<Rightarrow> classifier \<Rightarrow> classifier" where
  "health_step (Sample t) c = record_sample t c"
| "health_step (Poll t) c = snd (classify t c)"
| "health_step Gone c = record_disconnect c"

definition health_run :: "u16 \<Rightarrow> health_op list \<Rightarrow> classifier" where
  "health_run hz ops = fold health_step ops (classifier_new hz)"

fun op_times :: "health_op list \<Rightarrow> instant list" where
  "op_times [] = []"
| "op_times (Sample t # ops) = t # op_times ops"
| "op_times (Poll t # ops) = t # op_times ops"
| "op_times (Gone # ops) = op_times ops"

fun sample_times :: "health_op list \<Rightarrow> instant list" where
  "sample_times [] = []"
| "sample_times (Sample t # ops) = t # sample_times ops"
| "sample_times (_ # ops) = sample_times ops"

definition gone :: "health_op list \<Rightarrow> bool" where
  "gone ops = fold (\<lambda>op g. case op of Sample _ \<Rightarrow> False | Poll _ \<Rightarrow> g | Gone \<Rightarrow> True) ops False"

lemma append_times:
  "op_times (xs @ ys) = op_times xs @ op_times ys"
  "sample_times (xs @ ys) = sample_times xs @ sample_times ys"
  by (induction xs rule: op_times.induct) simp_all

lemma sample_times_subset: "set (sample_times ops) \<subseteq> set (op_times ops)"
  by (induction ops rule: op_times.induct) auto

lemma evict_sorted: "sorted xs \<Longrightarrow> evict k xs = filter (\<lambda>t. k \<le> t) xs"
  unfolding evict_def
proof (induction xs)
  case Nil
  then show ?case by simp
next
  case (Cons x xs)
  show ?case
  proof (cases "x < k")
    case True
    with Cons show ?thesis by simp
  next
    case False
    with Cons.prems have "filter (\<lambda>t. k \<le> t) xs = xs"
      by (intro filter_True) auto
    with False show ?thesis by simp
  qed
qed

definition second :: duration where
  "second = from_secs 1"

text \<open>
  The queue holds the samples not older than some cutoff, which never passes the one that
  the next operation will use; settings stay as created.
\<close>

definition window_inv :: "u16 \<Rightarrow> instant list \<Rightarrow> instant \<Rightarrow> classifier \<Rightarrow> bool" where
  "window_inv hz ts now c \<longleftrightarrow>
     target_hz c = hz \<and> window c = second \<and> no_imu_after c = from_secs 2
     \<and> last_seen c = (if ts = [] then None else Some (last ts))
     \<and> (\<exists>k. k + second \<le> now \<and> samples c = filter (\<lambda>t. k \<le> t) ts)"

lemma cutoff_1s: "window c = second \<Longrightarrow> second \<le> now \<Longrightarrow> cutoff c now = now - second"
  by (simp add: cutoff_def instant_checked_sub_def)

lemma window_inv_mono: "window_inv hz ts t c \<Longrightarrow> t \<le> now \<Longrightarrow> window_inv hz ts now c"
  unfolding window_inv_def using le_trans by blast

lemma window_evict:
  assumes "window_inv hz ts now c" "sorted ts" "second \<le> now"
  shows "evict (cutoff c now) (samples c) = filter (\<lambda>t. now - second \<le> t) ts"
proof -
  from assms(1) obtain k where k: "k + second \<le> now" "samples c = filter (\<lambda>t. k \<le> t) ts"
    and w: "window c = second"
    by (auto simp: window_inv_def)
  have "evict (cutoff c now) (samples c) = filter (\<lambda>t. now - second \<le> t) (filter (\<lambda>t. k \<le> t) ts)"
    unfolding cutoff_1s [OF w assms(3)] k(2) by (rule evict_sorted) (rule sorted_wrt_filter [OF assms(2)])
  also have "\<dots> = filter (\<lambda>t. now - second \<le> t) ts"
    using k(1) by (auto intro: filter_cong)
  finally show ?thesis .
qed

lemma window_inv_samples:
  assumes "window_inv hz ts now c" "second \<le> now"
  shows "window_inv hz ts now (c\<lparr>samples := filter (\<lambda>t. now - second \<le> t) ts\<rparr>)"
proof -
  from assms(2) have "now - second + second \<le> now" by simp
  with assms(1) show ?thesis
    unfolding window_inv_def by auto
qed

lemma window_record:
  assumes "window_inv hz ts now c" "sorted (ts @ [now])" "second \<le> now"
  shows "window_inv hz (ts @ [now]) now (record_sample now c)"
proof -
  let ?c = "c\<lparr>last_seen := Some now, samples := samples c @ [now], disconnected := False\<rparr>"
  from assms(1) obtain k where k: "k + second \<le> now" "samples c = filter (\<lambda>t. k \<le> t) ts"
    by (auto simp: window_inv_def)
  then have "samples ?c = filter (\<lambda>t. k \<le> t) (ts @ [now])"
    by simp
  with assms(1) k(1) have "window_inv hz (ts @ [now]) now ?c"
    unfolding window_inv_def by (intro conjI exI [of _ k]) simp_all
  from window_inv_samples [OF this assms(3)] window_evict [OF this assms(2,3)] show ?thesis
    by (simp add: record_sample_def Let_def cutoff_def)
qed

lemma classify_state:
  "snd (classify now c) =
     (if disconnected c then c else c\<lparr>samples := evict (cutoff c now) (samples c)\<rparr>)"
  by (simp add: classify_def Let_def)

lemma window_classify:
  assumes "window_inv hz ts now c" "sorted ts" "second \<le> now"
  shows "window_inv hz ts now (snd (classify now c))"
  using assms(1) window_inv_samples [OF assms(1,3)] window_evict [OF assms]
  by (simp add: classify_state)

lemma gone_simps [simp]:
  "gone []= False" "gone (ops @ [Sample t]) = False" "gone (ops @ [Poll t]) = gone ops"
  "gone (ops @ [Gone]) = True"
  by (simp_all add: gone_def)

lemma health_run_snoc: "health_run hz (ops @ [op]) = health_step op (health_run hz ops)"
  by (simp add: health_run_def)

definition run_inv :: "u16 \<Rightarrow> health_op list \<Rightarrow> instant \<Rightarrow> bool" where
  "run_inv hz ops now \<longleftrightarrow> window_inv hz (sample_times ops) now (health_run hz ops)
    \<and> sorted (sample_times ops) \<and> disconnected (health_run hz ops) = gone ops"

lemma run_inv_Sample:
  assumes "run_inv hz ops t" "sorted (op_times ops @ [t])" "second \<le> t"
  shows "run_inv hz (ops @ [Sample t]) t"
proof -
  have "sorted (sample_times ops @ [t])"
    using assms(1,2) sample_times_subset [of ops] by (auto simp: run_inv_def sorted_append)
  with assms(1) window_record [OF _ _ assms(3)] show ?thesis
    by (simp add: run_inv_def health_run_snoc append_times) (simp add: record_sample_def Let_def)
qed

lemma run_inv_Poll:
  assumes "run_inv hz ops t" "second \<le> t"
  shows "run_inv hz (ops @ [Poll t]) t"
  using assms(1) window_classify [OF _ _ assms(2)]
  by (simp add: run_inv_def health_run_snoc append_times) (simp add: classify_state)

lemma run_inv_Gone: "run_inv hz ops t \<Longrightarrow> run_inv hz (ops @ [Gone]) t"
  by (simp add: run_inv_def health_run_snoc append_times window_inv_def record_disconnect_def)

lemma run_inv_mono: "run_inv hz ops t \<Longrightarrow> t \<le> now \<Longrightarrow> run_inv hz ops now"
  using window_inv_mono by (auto simp: run_inv_def)

lemma health_run_inv:
  assumes "sorted (op_times ops @ [now])" "\<forall>t \<in> set (op_times ops). second \<le> t" "second \<le> now"
  shows "run_inv hz ops now"
  using assms
proof (induction ops arbitrary: now rule: rev_induct)
  case Nil
  then show ?case
    by (auto simp: run_inv_def window_inv_def health_run_def classifier_new_def second_def intro: exI [of _ 0])
next
  case (snoc op ops)
  show ?case
  proof (cases op)
    case Gone
    with snoc show ?thesis
      by (intro run_inv_Gone [folded Gone]) (simp add: append_times)
  next
    case (Poll t)
    with snoc.prems have t: "sorted (op_times ops @ [t])" "second \<le> t" "t \<le> now"
      and all: "\<forall>t \<in> set (op_times ops). second \<le> t"
      by (auto simp: append_times sorted_append)
    show ?thesis
      using run_inv_mono [OF run_inv_Poll [OF snoc.IH [OF t(1) all t(2)] t(2)] t(3)] Poll by simp
  next
    case (Sample t)
    with snoc.prems have t: "sorted (op_times ops @ [t])" "second \<le> t" "t \<le> now"
      and all: "\<forall>t \<in> set (op_times ops). second \<le> t"
      by (auto simp: append_times sorted_append)
    show ?thesis
      using run_inv_mono [OF run_inv_Sample [OF snoc.IH [OF t(1) all t(2)] t(1,2)] t(3)] Sample by simp
  qed
qed

lemma f64_of_nat_pos: "0 < f64_of_int (int n) \<longleftrightarrow> 0 < n"
proof -
  have val: "f64_val (f64_of_int (int n)) = fp_make fmt64 False (n * funit fmt64) 1"
    by (simp add: f64_of_int_def fp_of_int_def)
  show ?thesis
  proof (cases "n = 0")
    case True
    with val show ?thesis
      by (simp add: less_f64_def fp_make_def Let_def sgn_int_def fmt64_def)
  next
    case False
    have "repr 52 (1 * 2 ^ 1074)"
      by (intro repr_mult_pow) simp
    then have "fp_round 52 (funit fmt64 * 1) 1 = funit fmt64"
      by (intro fp_round_exact) (simp_all add: fmt64_def del: power_numeral)
    moreover have "fp_round 52 (funit fmt64 * 1) 1 \<le> fp_round 52 (n * funit fmt64) 1"
      using False by (intro fp_round_mono) simp_all
    ultimately have "0 < fp_round (mbits fmt64) (n * funit fmt64) 1"
      using funit_pos(2) by (simp add: fmt64_def del: funit_pos)
    with False show ?thesis
      unfolding less_f64_def val by (simp add: fp_make_def Let_def sgn_int_def)
  qed
qed

lemma classify_result:
  "fst (classify now c) =
     (if disconnected c then HealthDisconnected
      else
        let n = length (evict (cutoff c now) (samples c)) in
        if f64_of_int (int (unat (target_hz c))) * f64_lit 9 10 \<le> f64_of_int (int n) then Healthy
        else if 0 < n \<or> (\<exists>t. last_seen c = Some t \<and> duration_since now t < no_imu_after c) then LaggyImu
        else NoImu)"
  by (simp add: classify_def Let_def f64_of_nat_pos split: option.split)

subsection \<open>The trait contracts\<close>

locale bias_store =
  fixes load :: "'s \<Rightarrow> device_id \<Rightarrow> bias option"
    and store :: "'s \<Rightarrow> device_id \<Rightarrow> bias \<Rightarrow> 's"
  assumes load_store: "bias_finite b \<Longrightarrow> load (store s i b) j = (if j = i then Some b else load s j)"
    and store_rejects: "\<not> bias_finite b \<Longrightarrow> load (store s i b) j = load s j"
begin

lemma load_other: "j \<noteq> i \<Longrightarrow> load (store s i b) j = load s j"
  by (cases "bias_finite b") (simp_all add: load_store store_rejects)

lemma load_after:
  "load (fold (\<lambda>(i, b) s. store s i b) ops s) i =
     (case map_of (rev (filter (\<lambda>(j, b). bias_finite b) ops)) i of Some b \<Rightarrow> Some b | None \<Rightarrow> load s i)"
  by (induction ops arbitrary: s)
    (auto simp: load_store store_rejects load_other map_add_def split: option.splits if_splits)

lemma never_poisoned:
  assumes "\<And>i b. load s i = Some b \<Longrightarrow> bias_finite b"
    and "load (fold (\<lambda>(i, b) s. store s i b) ops s) i = Some b"
  shows "bias_finite b"
  using assms(2) map_of_SomeD [of "rev (filter (\<lambda>(j, b). bias_finite b) ops)" i b] assms(1)
  by (auto simp: load_after split: option.splits)

end

locale settings_store =
  fixes get_rot :: "'s \<Rightarrow> device_id \<Rightarrow> f32"
    and set_rot :: "'s \<Rightarrow> device_id \<Rightarrow> f32 \<Rightarrow> 's"
    and get_key :: "'s \<Rightarrow> text_string \<Rightarrow> text_string option"
    and set_key :: "'s \<Rightarrow> text_string \<Rightarrow> text_string \<Rightarrow> 's"
  assumes get_set_rot: "f32_is_finite d \<Longrightarrow> get_rot (set_rot s i d) j = (if j = i then d else get_rot s j)"
    and set_rot_rejects: "\<not> f32_is_finite d \<Longrightarrow> get_rot (set_rot s i d) j = get_rot s j"
    and rot_key: "get_rot (set_key s k v) j = get_rot s j"
    and get_set_key: "get_key (set_key s k v) k' = (if k' = k then Some v else get_key s k')"
    and key_rot: "get_key (set_rot s i d) k = get_key s k"
begin

lemma finite_rot_preserved:
  "(\<And>j. f32_is_finite (get_rot s j)) \<Longrightarrow> f32_is_finite (get_rot (set_rot s i d) j)"
  by (cases "f32_is_finite d") (simp_all add: get_set_rot set_rot_rejects)

end

locale device_lifecycle =
  fixes start :: "'d \<Rightarrow> device_error + 'r \<times> 'd" and stop :: "'d \<Rightarrow> 'd" and running :: "'d \<Rightarrow> bool"
  assumes start_running: "running d \<Longrightarrow> \<exists>m. start d = Inl (Hid m)"
    and start_runs: "start d = Inr (r, d') \<Longrightarrow> running d'"
begin

lemma second_start: "start d = Inr (r, d') \<Longrightarrow> \<exists>m. start d' = Inl (Hid m)"
  using start_runs start_running by blast

end

locale restartable_device = device_lifecycle +
  assumes stop_idle: "\<not> running (stop d)"
    and idle_starts: "\<not> running d \<Longrightarrow> \<exists>r d'. start d = Inr (r, d')"
begin

lemma restart: "\<exists>r d'. start (stop d) = Inr (r, d')"
  using stop_idle idle_starts by blast

end

interpretation mem_bias: bias_store mem_load_bias mem_store_bias
  by unfold_locales (simp_all add: mem_load_bias_def mem_store_bias_def)

interpretation mem_settings: settings_store mem_get_rotation mem_set_rotation mem_get mem_set
  by unfold_locales
    (simp_all add: mem_get_rotation_def mem_set_rotation_def mem_get_def mem_set_def)

interpretation mock: restartable_device mock_start mock_stop mock_started
  by unfold_locales (auto simp: mock_start_def mock_stop_def split: if_splits)

subsection \<open>Properties\<close>

text \<open>
  Whatever the buttons do and whatever the clock reads, two resets a detector
  emits one after the other are at least the debounce time apart, so a bouncing button
  cannot reset the tracker twice.
\<close>

theorem resets_debounced:
  "neighbours (\<lambda>a b. debounce d \<le> duration_since (fst b) (fst a)) (detect d reports)"
  by (rule detect_spaced)

text \<open>
  A full reset is emitted only on release after a long hold: at its time the
  button was reported released, and there is an earlier press, at least the long threshold
  before, that started the hold (in the reports, or already running in the detector).
\<close>

theorem full_reset_needs_long_hold:
  assumes "(t, Full) \<in> set (detect d reports)"
  shows "\<exists>s. long_threshold d \<le> duration_since t s
    \<and> (\<exists>b. (b, t) \<in> set reports \<and> \<not> held b)
    \<and> (pressed_since d = Some s \<or> (\<exists>b. (b, s) \<in> set reports \<and> held b))"
  using assms by (rule detect_full)

theorem full_reset_needs_long_hold_witness:
  "\<exists>s. long_threshold detector_new \<le> duration_since (from_millis 1500) s
    \<and> (\<exists>b. (b, s) \<in> set [(HomeOrCapture True False, from_millis 200),
          (HomeOrCapture False False, from_millis 1500)] \<and> held b)"
proof -
  have "(from_millis 1500, Full) \<in> set (detect detector_new
    [(HomeOrCapture True False, from_millis 200), (HomeOrCapture False False, from_millis 1500)])"
    by (simp add: detector_new_def detector_with_thresholds_def in_debounce_def from_millis_def
        duration_since_def)
  from full_reset_needs_long_hold [OF this] show ?thesis
    by (auto simp: detector_new_def detector_with_thresholds_def)
qed

text \<open>
  The health classifier answers from the true history of its device, however
  often it was asked before: disconnected when the device went away after its last sample,
  healthy when the samples of the last second reach nine tenths of the target rate, laggy
  when some sample falls in the last second or the last one is younger than two seconds,
  and without samples otherwise. (The clock must have run for a second, and not go back.)
\<close>

theorem health_from_history:
  assumes "sorted (op_times ops @ [now])" "\<forall>t \<in> set (op_times ops). from_secs 1 \<le> t"
    "from_secs 1 \<le> now"
  shows "fst (classify now (health_run hz ops)) =
    (if gone ops then HealthDisconnected
     else
       let n = length (filter (\<lambda>t. now - from_secs 1 \<le> t) (sample_times ops)) in
       if f64_of_int (int (unat hz)) * f64_lit 9 10 \<le> f64_of_int (int n) then Healthy
       else if 0 < n \<or> (sample_times ops \<noteq> []
           \<and> duration_since now (last (sample_times ops)) < from_secs 2) then LaggyImu
       else NoImu)"
proof -
  have inv: "run_inv hz ops now"
    using assms by (intro health_run_inv) (simp_all add: second_def)
  then have w: "window_inv hz (sample_times ops) now (health_run hz ops)"
    and sorted: "sorted (sample_times ops)" and g: "disconnected (health_run hz ops) = gone ops"
    by (simp_all add: run_inv_def)
  have "evict (cutoff (health_run hz ops) now) (samples (health_run hz ops)) =
    filter (\<lambda>t. now - from_secs 1 \<le> t) (sample_times ops)"
    using window_evict [OF w sorted] assms(3) by (simp add: second_def)
  with w g show ?thesis
    by (simp add: classify_result window_inv_def Let_def)
qed

theorem health_from_history_witness:
  "fst (classify (from_secs 9) (health_run 200 [Sample (from_secs 5), Sample (from_secs 6), Poll (from_secs 6)]))
     = (if f64_of_int 200 * f64_lit 9 10 \<le> f64_of_int 0 then Healthy else NoImu)"
  using health_from_history [of "[Sample (from_secs 5), Sample (from_secs 6), Poll (from_secs 6)]"
      "from_secs 9" 200]
  by (simp add: from_secs_def duration_since_def gone_def)

text \<open>
  The motor byte follows the intensity: no intensity (or a NaN) gives 0, one or
  more gives 255, and a larger intensity never gives a smaller byte, so the rounding product
  and the cast never wrap.
\<close>

theorem rumble_byte_monotone:
  "(x \<le> y \<longrightarrow> rumble_to_u8 x \<le> rumble_to_u8 y)
    \<and> (f32_is_nan x \<or> x \<le> 0 \<longrightarrow> rumble_to_u8 x = 0) \<and> (1 \<le> x \<longrightarrow> rumble_to_u8 x = 255)"
proof -
  have zero: "motor 0 = 0"
    by (simp add: motor_def fmt32_def)
  have one: "motor (funit fmt32) = 255"
    using round_255 by (simp add: motor_def mult.commute fmt32_def)
  have "f32_is_nan x \<or> x \<le> 0 \<Longrightarrow> level x = 0"
    by (cases "f32_val x") (auto simp: level_def f32_is_nan_def less_eq_f32_def fp_le_def sgn_int_def
        split: bool.splits)
  moreover have "1 \<le> x \<Longrightarrow> level x = funit fmt32"
    by (cases "f32_val x") (auto simp: level_def less_eq_f32_def fp_le_def sgn_int_def
        split: bool.splits if_splits)
  moreover have "x \<le> y \<Longrightarrow> motor (level x) \<le> motor (level y)"
    by (intro motor_mono level_mono)
  ultimately show ?thesis
    using zero one by (simp add: word_le_nat_alt word_unat_eq_iff rumble_to_u8_motor)
qed

theorem rumble_byte_monotone_witness:
  "rumble_to_u8 0 \<le> rumble_to_u8 1 \<and> rumble_to_u8 0 = 0 \<and> rumble_to_u8 1 = 255"
proof -
  have "(0 :: f32) \<le> 1" "(0 :: f32) \<le> 0" "(1 :: f32) \<le> 1"
    by (simp_all add: less_eq_f32_def fp_le_def sgn_int_def)
  then show ?thesis
    using rumble_byte_monotone [of 0 1] rumble_byte_monotone [of 1 1] by simp
qed

text \<open>
  Whatever sequence of biases is stored, a lookup returns the last finite one
  stored for that device and nothing else: a bias with a NaN or an infinity on any axis is
  ignored, so none is ever loaded.
\<close>

theorem bias_store_last_finite:
  "mem_load_bias (fold (\<lambda>(i, b) s. mem_store_bias s i b) ops Map.empty) i =
     map_of (rev (filter (\<lambda>(j, b). bias_finite b) ops)) i"
  using mem_bias.load_after [of ops Map.empty i] by (simp add: mem_load_bias_def split: option.splits)

end
