(* ===== verification/Remote_Protocol.thy ===== *)
theory Remote_Protocol
  imports Device_Traits
begin

section \<open>The remote-hub protocol\<close>

text \<open>
  \<^verbatim>\<open>crates/device-remote/src/protocol.rs\<close>: the parser for datagrams of phones and other hubs
  and the two encoders. Every index and slice the code takes is a partial read here, so a
  read outside the buffer, a panic in Rust, is the outer \<open>None\<close> of the parser's result; the
  inner option is the code's own. The layout the protocol document gives is the encoder
  the parser is compared with.
\<close>

subsection \<open>Reads that may panic\<close>

definition idx :: "bytes \<Rightarrow> nat \<Rightarrow> u8 option" where
  "idx b i = (if i < length b then Some (b ! i) else None)"

definition rng :: "bytes \<Rightarrow> nat \<Rightarrow> nat \<Rightarrow> bytes option" where
  "rng b i j = (if i \<le> j \<and> j \<le> length b then Some (take (j - i) (drop i b)) else None)"

definition u16le :: "bytes \<Rightarrow> nat \<Rightarrow> u16 option" where
  "u16le b o' = do { x \<leftarrow> idx b o'; y \<leftarrow> idx b (o' + 1); Some (from_le [x, y]) }"

definition f32le :: "bytes \<Rightarrow> nat \<Rightarrow> f32 option" where
  "f32le b o' = do {
     w \<leftarrow> idx b o'; x \<leftarrow> idx b (o' + 1); y \<leftarrow> idx b (o' + 2); z \<leftarrow> idx b (o' + 3);
     Some (F32 (from_le [w, x, y, z])) }"

definition vec3le :: "bytes \<Rightarrow> nat \<Rightarrow> (f32 \<times> f32 \<times> f32) option" where
  "vec3le b o' = do { x \<leftarrow> f32le b o'; y \<leftarrow> f32le b (o' + 4); z \<leftarrow> f32le b (o' + 8); Some (x, y, z) }"

subsection \<open>Messages\<close>

definition MAGIC :: bytes where
  "MAGIC = [0x45, 0x49, 0x4D, 0x55]"

definition VERSION :: u8 where
  "VERSION = 1"

definition HEADER_LEN :: nat where
  "HEADER_LEN = 6"

definition SAMPLE_LEN :: nat where
  "SAMPLE_LEN = 8 + 12 + 12 + 1 + 12"

definition MSG_HELLO :: u8 where "MSG_HELLO = 1"
definition MSG_HELLO_ACK :: u8 where "MSG_HELLO_ACK = 2"
definition MSG_ANNOUNCE :: u8 where "MSG_ANNOUNCE = 3"
definition MSG_REMOVE :: u8 where "MSG_REMOVE = 4"
definition MSG_IMU :: u8 where "MSG_IMU = 5"
definition MSG_BATTERY :: u8 where "MSG_BATTERY = 6"
definition MSG_BUTTON :: u8 where "MSG_BUTTON = 7"
definition MSG_RUMBLE :: u8 where "MSG_RUMBLE = 8"
definition MSG_IMU2 :: u8 where "MSG_IMU2 = 9"

lemmas msg_defs = MSG_HELLO_def MSG_HELLO_ACK_def MSG_ANNOUNCE_def MSG_REMOVE_def MSG_IMU_def
  MSG_BATTERY_def MSG_BUTTON_def MSG_RUMBLE_def MSG_IMU2_def

record announce =
  an_handle :: u16
  an_kind :: device_kind
  an_mac :: mac
  an_has_mag :: bool
  an_has_battery :: bool
  an_has_rumble :: bool
  an_rate_hz :: u16
  an_name :: text_string

datatype remote_msg =
    Hello bytes text_string "u64 option"
  | Announce announce
  | Remove u16
  | Imu u16 "u16 option" "imu_sample list"
  | RemoteBattery u16 f32 bool
  | Button u16 reset_kind

definition kind_from_wire :: "u8 \<Rightarrow> device_kind option" where
  "kind_from_wire b =
     (if b = 1 then Some Phone else if b = 2 then Some Watch
      else if b = 3 then Some JoyCon2L else if b = 4 then Some JoyCon2R
      else if b = 5 then Some ProController2 else if b = 6 then Some Hopx
      else if b = 7 then Some DualSense else if b = 8 then Some DualShock4
      else if b = 9 then Some JoyConL else if b = 10 then Some JoyConR
      else if b = 11 then Some ProController else if b = 12 then Some Gamepad
      else None)"

subsection \<open>Parsing\<close>

definition read_sample :: "bytes \<Rightarrow> nat \<Rightarrow> imu_sample option" where
  "read_sample p off = do {
     ts \<leftarrow> rng p off (off + 8);
     m \<leftarrow> idx p (off + 32);
     g \<leftarrow> vec3le p (off + 8);
     a \<leftarrow> vec3le p (off + 20);
     mg \<leftarrow> (if m \<noteq> 0 then do { v \<leftarrow> vec3le p (off + 33); Some (Some v) } else Some None);
     Some \<lparr>gyro = g, accel = a, mag = mg, timestamp_us = from_le ts\<rparr> }"

fun read_samples :: "bytes \<Rightarrow> nat \<Rightarrow> nat \<Rightarrow> imu_sample list option" where
  "read_samples p off 0 = Some []"
| "read_samples p off (Suc n) = do {
     s \<leftarrow> read_sample p off; ss \<leftarrow> read_samples p (off + SAMPLE_LEN) n; Some (s # ss) }"

definition parse_imu_samples :: "bytes \<Rightarrow> nat \<Rightarrow> (u16 \<times> imu_sample list) option option" where
  "parse_imu_samples p extra =
     (if length p < 3 + extra then Some None
      else do {
        handle \<leftarrow> u16le p 0;
        count \<leftarrow> idx p (2 + extra);
        if length p < 3 + extra + unat count * SAMPLE_LEN then Some None
        else do {
          ss \<leftarrow> read_samples p (3 + extra) (unat count);
          Some (Some (handle, ss)) } })"

definition parse_hello :: "bytes \<Rightarrow> remote_msg option option" where
  "parse_hello p =
     (if length p < 17 then Some None
      else do {
        uuid \<leftarrow> rng p 0 16;
        n' \<leftarrow> idx p 16;
        let n = unat n' in
        if length p < 17 + n then Some None
        else do {
          nm \<leftarrow> rng p 17 (17 + n);
          case from_utf8 nm of
            None \<Rightarrow> Some None
          | Some name \<Rightarrow> do {
              tail \<leftarrow> rng p (17 + n) (length p);
              ts \<leftarrow> (if 8 \<le> length tail then do { t \<leftarrow> rng tail 0 8; Some (Some (from_le t)) }
                    else Some None);
              Some (Some (Hello uuid name ts)) } } })"

definition parse_announce :: "bytes \<Rightarrow> remote_msg option option" where
  "parse_announce p =
     (if length p < 15 then Some None
      else do {
        handle \<leftarrow> u16le p 0;
        k \<leftarrow> idx p 2;
        case kind_from_wire k of
          None \<Rightarrow> Some None
        | Some kind \<Rightarrow> do {
            mac \<leftarrow> rng p 3 9;
            n' \<leftarrow> idx p 14;
            let n = unat n' in
            if length p < 15 + n then Some None
            else do {
              nm \<leftarrow> rng p 15 (15 + n);
              case from_utf8 nm of
                None \<Rightarrow> Some None
              | Some name \<Rightarrow> do {
                  m \<leftarrow> idx p 9; b \<leftarrow> idx p 10; r \<leftarrow> idx p 11; rate \<leftarrow> u16le p 12;
                  Some (Some (Announce
                    \<lparr>an_handle = handle, an_kind = kind, an_mac = mac, an_has_mag = m \<noteq> 0,
                     an_has_battery = b \<noteq> 0, an_has_rumble = r \<noteq> 0, an_rate_hz = rate,
                     an_name = name\<rparr>)) } } } })"

definition parse_payload :: "u8 \<Rightarrow> bytes \<Rightarrow> remote_msg option option" where
  "parse_payload msg p =
     (if msg = MSG_HELLO then parse_hello p
      else if msg = MSG_ANNOUNCE then parse_announce p
      else if msg = MSG_REMOVE then
        if length p < 2 then Some None
        else do { h \<leftarrow> u16le p 0; Some (Some (Remove h)) }
      else if msg = MSG_IMU then do {
        r \<leftarrow> parse_imu_samples p 0; Some (map_option (\<lambda>(h, ss). Imu h None ss) r) }
      else if msg = MSG_IMU2 then
        if length p < 5 then Some None
        else do {
          seq \<leftarrow> u16le p 2;
          r \<leftarrow> parse_imu_samples p 2;
          Some (map_option (\<lambda>(h, ss). Imu h (Some seq) ss) r) }
      else if msg = MSG_BATTERY then
        if length p < 7 then Some None
        else do { h \<leftarrow> u16le p 0; f \<leftarrow> f32le p 2; c \<leftarrow> idx p 6; Some (Some (RemoteBattery h f (c \<noteq> 0))) }
      else if msg = MSG_BUTTON then
        if length p < 3 then Some None
        else do {
          r \<leftarrow> idx p 2; h \<leftarrow> u16le p 0;
          Some (Some (Button h (if r = 0 then Yaw else Full))) }
      else Some None)"

definition parse :: "bytes \<Rightarrow> remote_msg option option" where
  "parse buf =
     (if length buf < HEADER_LEN then Some None
      else do {
        magic \<leftarrow> rng buf 0 4;
        if magic \<noteq> MAGIC then Some None
        else do {
          v \<leftarrow> idx buf 4;
          if v \<noteq> VERSION then Some None
          else do {
            msg \<leftarrow> idx buf 5;
            p \<leftarrow> rng buf HEADER_LEN (length buf);
            parse_payload msg p } } })"

subsection \<open>Encoding\<close>

definition f32_to_le :: "f32 \<Rightarrow> bytes" where
  "f32_to_le x = to_le (f32_bits x)"

definition encode_hello_ack :: bytes where
  "encode_hello_ack = MAGIC @ [VERSION, MSG_HELLO_ACK, VERSION]"

definition encode_hello_ack_echo :: "u64 option \<Rightarrow> bytes" where
  "encode_hello_ack_echo ts = encode_hello_ack @ (case ts of Some t \<Rightarrow> to_le t | None \<Rightarrow> [])"

definition encode_rumble :: "u16 \<Rightarrow> f32 \<Rightarrow> bytes" where
  "encode_rumble handle intensity =
     MAGIC @ [VERSION, MSG_RUMBLE] @ to_le handle @ f32_to_le intensity"

subsection \<open>The parser never reads outside the datagram\<close>

lemma idx_total [simp]: "i < length b \<Longrightarrow> idx b i = Some (b ! i)"
  by (simp add: idx_def)

lemma rng_total [simp]: "i \<le> j \<Longrightarrow> j \<le> length b \<Longrightarrow> rng b i j = Some (take (j - i) (drop i b))"
  by (simp add: rng_def)

lemma take_drop_nth: "i < length b \<Longrightarrow> take (Suc n) (drop i b) = b ! i # take n (drop (Suc i) b)"
  by (simp add: Cons_nth_drop_Suc [symmetric])

lemma u16le_rng: "u16le b i = map_option from_le (rng b i (i + 2))"
proof (cases "i + 2 \<le> length b")
  case True
  then have "take 2 (drop i b) = [b ! i, b ! (i + 1)]"
    by (simp add: numeral_2_eq_2 take_drop_nth)
  with True show ?thesis
    by (simp add: u16le_def del: add_2_eq_Suc')
next
  case False
  then show ?thesis
    by (auto simp: u16le_def idx_def rng_def bind_eq_None_conv)
qed

lemma f32le_rng: "f32le b i = map_option (\<lambda>xs. F32 (from_le xs)) (rng b i (i + 4))"
proof (cases "i + 4 \<le> length b")
  case True
  then have "take 4 (drop i b) = [b ! i, b ! (i + 1), b ! (i + 2), b ! (i + 3)]"
    by (simp add: eval_nat_numeral take_drop_nth)
  with True show ?thesis
    by (simp add: f32le_def)
next
  case False
  then show ?thesis
    by (auto simp: f32le_def idx_def rng_def)
qed

lemma f32le_total: "i + 4 \<le> length b \<Longrightarrow> \<exists>x. f32le b i = Some x"
  by (simp add: f32le_rng)

lemma u16le_total: "i + 2 \<le> length b \<Longrightarrow> \<exists>x. u16le b i = Some x"
  by (simp add: u16le_rng)

lemma vec3le_total: "i + 12 \<le> length b \<Longrightarrow> \<exists>v. vec3le b i = Some v"
  using f32le_total [of i b] f32le_total [of "i + 4" b] f32le_total [of "i + 8" b]
  by (auto simp: vec3le_def)

lemma read_sample_total:
  assumes "off + SAMPLE_LEN \<le> length p"
  shows "\<exists>s. read_sample p off = Some s"
  using assms vec3le_total [of "off + 8" p] vec3le_total [of "off + 20" p] vec3le_total [of "off + 33" p]
  by (auto simp: read_sample_def SAMPLE_LEN_def)

lemma read_samples_total:
  "off + n * SAMPLE_LEN \<le> length p \<Longrightarrow> \<exists>ss. read_samples p off n = Some ss \<and> length ss = n"
proof (induction n arbitrary: off)
  case 0
  then show ?case by simp
next
  case (Suc n)
  then have "off + SAMPLE_LEN \<le> length p" "off + SAMPLE_LEN + n * SAMPLE_LEN \<le> length p"
    by simp_all
  from read_sample_total [OF this(1)] Suc.IH [OF this(2)] show ?case
    by auto
qed

lemma parse_imu_total: "\<exists>r. parse_imu_samples p extra = Some r"
  using u16le_total [of 0 p] read_samples_total [of "3 + extra" "unat (p ! (2 + extra))" p]
  by (auto simp: parse_imu_samples_def)

lemma parse_hello_total: "\<exists>r. parse_hello p = Some r"
  by (simp add: parse_hello_def Let_def split: option.split)

lemma parse_announce_total: "\<exists>r. parse_announce p = Some r"
  using u16le_total [of 0 p] u16le_total [of 12 p]
  by (auto simp: parse_announce_def Let_def split: option.split)

lemma parse_payload_total: "\<exists>r. parse_payload msg p = Some r"
  using parse_hello_total [of p] parse_announce_total [of p] parse_imu_total [of p 0]
    parse_imu_total [of p 2] u16le_total [of 0 p] u16le_total [of 2 p] f32le_total [of 2 p]
  by (auto simp: parse_payload_def)

subsection \<open>The documented layout\<close>

definition vec_bytes :: "f32 \<times> f32 \<times> f32 \<Rightarrow> bytes" where
  "vec_bytes v = (case v of (x, y, z) \<Rightarrow> f32_to_le x @ f32_to_le y @ f32_to_le z)"

definition sample_bytes :: "imu_sample \<Rightarrow> bytes" where
  "sample_bytes s = to_le (timestamp_us s) @ vec_bytes (gyro s) @ vec_bytes (accel s)
     @ (case mag s of Some v \<Rightarrow> 1 # vec_bytes v | None \<Rightarrow> 0 # replicate 12 0)"

fun kind_to_wire :: "device_kind \<Rightarrow> u8" where
  "kind_to_wire Phone = 1" | "kind_to_wire Watch = 2" | "kind_to_wire JoyCon2L = 3"
| "kind_to_wire JoyCon2R = 4" | "kind_to_wire ProController2 = 5" | "kind_to_wire Hopx = 6"
| "kind_to_wire DualSense = 7" | "kind_to_wire DualShock4 = 8" | "kind_to_wire JoyConL = 9"
| "kind_to_wire JoyConR = 10" | "kind_to_wire ProController = 11" | "kind_to_wire Gamepad = 12"
| "kind_to_wire _ = 0"

definition flag :: "bool \<Rightarrow> u8" where
  "flag b = (if b then 1 else 0)"

fun msg_id :: "remote_msg \<Rightarrow> u8" where
  "msg_id (Hello _ _ _) = 1"
| "msg_id (Announce _) = 3"
| "msg_id (Remove _) = 4"
| "msg_id (Imu _ None _) = 5"
| "msg_id (Imu _ (Some _) _) = 9"
| "msg_id (RemoteBattery _ _ _) = 6"
| "msg_id (Button _ _) = 7"

fun msg_payload :: "remote_msg \<Rightarrow> bytes" where
  "msg_payload (Hello uuid name ts) =
     uuid @ [of_nat (length name)] @ as_bytes name @ (case ts of Some t \<Rightarrow> to_le t | None \<Rightarrow> [])"
| "msg_payload (Announce a) =
     to_le (an_handle a) @ [kind_to_wire (an_kind a)] @ an_mac a
     @ [flag (an_has_mag a), flag (an_has_battery a), flag (an_has_rumble a)]
     @ to_le (an_rate_hz a) @ [of_nat (length (an_name a))] @ as_bytes (an_name a)"
| "msg_payload (Remove h) = to_le h"
| "msg_payload (Imu h seq ss) =
     to_le h @ (case seq of Some q \<Rightarrow> to_le q | None \<Rightarrow> [])
     @ [of_nat (length ss)] @ concat (map sample_bytes ss)"
| "msg_payload (RemoteBattery h f c) = to_le h @ f32_to_le f @ [flag c]"
| "msg_payload (Button h r) = to_le h @ [flag (r \<noteq> Yaw)]"

definition msg_bytes :: "remote_msg \<Rightarrow> bytes" where
  "msg_bytes m = MAGIC @ [VERSION, msg_id m] @ msg_payload m"

fun wf_msg :: "remote_msg \<Rightarrow> bool" where
  "wf_msg (Hello uuid name ts) \<longleftrightarrow> length uuid = 16 \<and> length name < 256 \<and> valid_text name"
| "wf_msg (Announce a) \<longleftrightarrow>
     kind_to_wire (an_kind a) \<noteq> 0 \<and> length (an_mac a) = 6 \<and> length (an_name a) < 256
     \<and> valid_text (an_name a)"
| "wf_msg (Imu h seq ss) \<longleftrightarrow> length ss < 256"
| "wf_msg (Button h r) \<longleftrightarrow> r \<noteq> Mounting"
| "wf_msg _ \<longleftrightarrow> True"

subsection \<open>Reading back the documented layout\<close>

lemma rng_prefix:
  "length pre = i \<Longrightarrow> length xs = n \<Longrightarrow> rng (pre @ xs @ post) i (i + n) = Some xs"
  by simp

lemma u16le_prefix: "length pre = i \<Longrightarrow> u16le (pre @ to_le w @ post) i = Some w"
  using rng_prefix [of pre i "to_le w" 2 post] by (simp add: u16le_rng)

lemma f32le_prefix: "length pre = i \<Longrightarrow> f32le (pre @ f32_to_le x @ post) i = Some x"
  using rng_prefix [of pre i "f32_to_le x" 4 post] by (simp add: f32le_rng f32_to_le_def)

lemma length_f32_to_le [simp]: "length (f32_to_le x) = 4"
  by (simp add: f32_to_le_def)

lemma length_vec_bytes [simp]: "length (vec_bytes v) = 12"
  by (simp add: vec_bytes_def split: prod.split)

lemma vec3le_prefix:
  assumes "length pre = i"
  shows "vec3le (pre @ vec_bytes v @ post) i = Some v"
proof -
  obtain x y z where v: "v = (x, y, z)"
    by (cases v)
  show ?thesis
    using f32le_prefix [of pre i x "f32_to_le y @ f32_to_le z @ post"]
      f32le_prefix [of "pre @ f32_to_le x" "i + 4" y "f32_to_le z @ post"]
      f32le_prefix [of "pre @ f32_to_le x @ f32_to_le y" "i + 8" z post] assms
    by (simp add: v vec3le_def vec_bytes_def)
qed

lemma length_sample_bytes [simp]: "length (sample_bytes s) = SAMPLE_LEN"
  by (simp add: sample_bytes_def SAMPLE_LEN_def split: option.split)

lemma idx_prefix: "length pre = i \<Longrightarrow> idx (pre @ x # post) i = Some x"
  by (auto simp: idx_def)

lemma read_sample_prefix:
  assumes "length pre = i"
  shows "read_sample (pre @ sample_bytes s @ post) i = Some s"
proof -
  define fl :: u8 where "fl = (case mag s of Some _ \<Rightarrow> 1 | None \<Rightarrow> 0)"
  define mb where "mb = (case mag s of Some v \<Rightarrow> vec_bytes v | None \<Rightarrow> replicate 12 0)"
  let ?ts = "to_le (timestamp_us s)" and ?g = "vec_bytes (gyro s)" and ?a = "vec_bytes (accel s)"
  have buf: "pre @ sample_bytes s @ post = pre @ ?ts @ ?g @ ?a @ fl # mb @ post"
    by (simp add: sample_bytes_def fl_def mb_def split: option.split)
  have ts: "rng (pre @ ?ts @ ?g @ ?a @ fl # mb @ post) i (i + 8) = Some ?ts"
    using assms by (intro rng_prefix) simp_all
  have g: "vec3le (pre @ ?ts @ ?g @ ?a @ fl # mb @ post) (i + 8) = Some (gyro s)"
    using vec3le_prefix [of "pre @ ?ts" "i + 8" "gyro s"] assms by simp
  have a: "vec3le (pre @ ?ts @ ?g @ ?a @ fl # mb @ post) (i + 20) = Some (accel s)"
    using vec3le_prefix [of "pre @ ?ts @ ?g" "i + 20" "accel s"] assms by simp
  have m: "idx (pre @ ?ts @ ?g @ ?a @ fl # mb @ post) (i + 32) = Some fl"
    using idx_prefix [of "pre @ ?ts @ ?g @ ?a" "i + 32" fl] assms by simp
  have mg: "vec3le (pre @ ?ts @ ?g @ ?a @ fl # mb @ post) (i + 33) = Some v" if "mag s = Some v" for v
    using vec3le_prefix [of "pre @ ?ts @ ?g @ ?a @ [fl]" "i + 33" v post] assms that by (simp add: mb_def)
  show ?thesis
  proof (cases "mag s")
    case None
    then show ?thesis
      unfolding buf read_sample_def ts g a m by (simp add: fl_def)
  next
    case (Some v)
    then have fl1: "fl = 1"
      by (simp add: fl_def)
    show ?thesis
      unfolding buf read_sample_def ts g a m using mg [OF Some] Some by (simp add: fl1)
  qed
qed

lemma read_samples_prefix:
  "length pre = i \<Longrightarrow> read_samples (pre @ concat (map sample_bytes ss) @ post) i (length ss) = Some ss"
proof (induction ss arbitrary: pre i)
  case Nil
  then show ?case by simp
next
  case (Cons s ss)
  then have "read_samples ((pre @ sample_bytes s) @ concat (map sample_bytes ss) @ post) (i + SAMPLE_LEN)
    (length ss) = Some ss"
    by (intro Cons.IH) simp
  then show ?case
    using read_sample_prefix [OF Cons.prems, of s "concat (map sample_bytes ss) @ post"] by simp
qed

lemma length_samples [simp]: "length (concat (map sample_bytes ss)) = length ss * SAMPLE_LEN"
  by (induction ss) simp_all

lemma unat_count [simp]: "n < 256 \<Longrightarrow> unat (of_nat n :: u8) = n"
  by (simp add: unat_of_nat)

lemma parse_imu_prefix:
  assumes "length ss < 256" "length mid = extra"
  shows "parse_imu_samples (to_le h @ mid @ of_nat (length ss) # concat (map sample_bytes ss) @ post) extra
    = Some (Some (h, ss))"
proof -
  let ?p = "to_le h @ mid @ of_nat (length ss) # concat (map sample_bytes ss) @ post"
  have h: "u16le ?p 0 = Some h"
    using u16le_prefix [of "[]" 0 h] by simp
  have c: "idx ?p (2 + extra) = Some (of_nat (length ss))"
    using idx_prefix [of "to_le h @ mid" "2 + extra"] assms by simp
  have ss: "read_samples ?p (3 + extra) (length ss) = Some ss"
    using read_samples_prefix [of "to_le h @ mid @ [of_nat (length ss)]" "3 + extra" ss post] assms by simp
  show ?thesis
    using assms unfolding parse_imu_samples_def h c by (simp add: ss)
qed

lemma kind_wire: "kind_to_wire k \<noteq> 0 \<Longrightarrow> kind_from_wire (kind_to_wire k) = Some k"
  by (cases k) (simp_all add: kind_from_wire_def)

lemma flag_neq [simp]: "flag b \<noteq> 0 \<longleftrightarrow> b" "flag b = 0 \<longleftrightarrow> \<not> b"
  by (simp_all add: flag_def)

lemma parse_hello_prefix:
  assumes "length uuid = 16" "length name < 256" "valid_text name"
  shows "parse_hello (uuid @ of_nat (length name) # as_bytes name @ tail) =
    Some (Some (Hello uuid name
      (if 8 \<le> length tail then Some (from_le (take 8 tail)) else None)))"
proof -
  let ?p = "uuid @ of_nat (length name) # as_bytes name @ tail"
  have n: "idx ?p 16 = Some (of_nat (length name))"
    by (rule idx_prefix [OF assms(1)])
  have nm: "rng ?p 17 (17 + length name) = Some (as_bytes name)"
    using rng_prefix [of "uuid @ [of_nat (length name)]" 17 "as_bytes name" "length name" tail] assms by simp
  have tl: "rng ?p (17 + length name) (length ?p) = Some tail"
    using assms by simp
  show ?thesis
    using assms unfolding parse_hello_def n nm by (simp add: Let_def nm tl del: rng_total)
      (simp add: rng_def)
qed

lemma parse_announce_prefix:
  assumes "wf_msg (Announce a)"
  shows "parse_announce (msg_payload (Announce a) @ post) = Some (Some (Announce a))"
proof -
  define h where "h = to_le (an_handle a)"
  define rate where "rate = to_le (an_rate_hz a)"
  define k where "k = kind_to_wire (an_kind a)"
  define x where "x = flag (an_has_mag a)"
  define y where "y = flag (an_has_battery a)"
  define z where "z = flag (an_has_rumble a)"
  define n :: u8 where "n = of_nat (length (an_name a))"
  let ?nm = "as_bytes (an_name a)"
  let ?p = "h @ k # an_mac a @ x # y # z # rate @ n # ?nm @ post"
  have p: "msg_payload (Announce a) @ post = ?p"
    by (simp add: h_def rate_def k_def x_def y_def z_def n_def)
  have len: "length h = 2" "length rate = 2" "length (an_mac a) = 6" "unat n = length (an_name a)"
    using assms by (simp_all add: h_def rate_def n_def)
  have hd: "u16le ?p 0 = Some (an_handle a)" "u16le ?p 12 = Some (an_rate_hz a)"
    using u16le_prefix [of "[]" 0 "an_handle a"]
      u16le_prefix [of "h @ k # an_mac a @ [x, y, z]" 12 "an_rate_hz a"] len
    by (simp_all add: h_def rate_def)
  have ix: "idx ?p 2 = Some k" "idx ?p 9 = Some x" "idx ?p 10 = Some y" "idx ?p 11 = Some z"
    "idx ?p 14 = Some n"
    using idx_prefix [of h 2 k] idx_prefix [of "h @ k # an_mac a" 9 x]
      idx_prefix [of "h @ k # an_mac a @ [x]" 10 y] idx_prefix [of "h @ k # an_mac a @ [x, y]" 11 z]
      idx_prefix [of "h @ k # an_mac a @ [x, y, z] @ rate" 14 n] len
    by simp_all
  have mac: "rng ?p 3 9 = Some (an_mac a)"
    using rng_prefix [of "h @ [k]" 3 "an_mac a" 6] len by simp
  have nm: "rng ?p 15 (15 + length (an_name a)) = Some ?nm"
    using rng_prefix [of "h @ k # an_mac a @ [x, y, z] @ rate @ [n]" 15 ?nm "length (an_name a)"] len by simp
  have k: "kind_from_wire k = Some (an_kind a)"
    using assms kind_wire by (simp add: k_def)
  have nm': "from_utf8 ?nm = Some (an_name a)"
    using assms by simp
  have long: "\<not> length ?p < 15" "\<not> length ?p < 15 + length (an_name a)"
    using len by simp_all
  show ?thesis
    unfolding p parse_announce_def hd ix mac
    by (simp only: long k len nm nm' Let_def bind.bind_lunit option.case if_False)
      (simp add: x_def y_def z_def)
qed

lemma parse_msg: "parse (MAGIC @ [VERSION, msg] @ p) = parse_payload msg p"
  by (simp add: parse_def HEADER_LEN_def MAGIC_def VERSION_def)

lemma u16le_start [simp]: "u16le (to_le w @ post) 0 = Some w" "u16le (to_le w) 0 = Some w"
  using u16le_prefix [of "[]" 0 w] u16le_prefix [of "[]" 0 w "[]"] by simp_all

definition is_hello :: "remote_msg \<Rightarrow> bool" where
  "is_hello m = (msg_id m = 1)"

lemma parse_payload_msg:
  assumes "wf_msg m" "is_hello m \<longrightarrow> post = []"
  shows "parse_payload (msg_id m) (msg_payload m @ post) = Some (Some m)"
proof (cases m)
  case (Hello uuid name ts)
  with assms have "parse_hello (msg_payload m @ post) = Some (Some m)"
    using parse_hello_prefix [of uuid name "case ts of Some t \<Rightarrow> to_le t | None \<Rightarrow> []"]
    by (auto simp: is_hello_def split: option.splits)
  with Hello show ?thesis
    by (simp add: parse_payload_def msg_defs)
next
  case (Announce a)
  with parse_announce_prefix [of a post] assms(1) show ?thesis
    by (simp add: parse_payload_def msg_defs)
next
  case (Remove h)
  then show ?thesis
    by (simp add: parse_payload_def msg_defs)
next
  case (Imu h seq ss)
  show ?thesis
  proof (cases seq)
    case None
    with Imu assms(1) parse_imu_prefix [of ss "[]" 0 h post] show ?thesis
      by (simp add: parse_payload_def msg_defs)
  next
    case (Some q)
    have "u16le (to_le h @ to_le q @ r) 2 = Some q" for r
      using u16le_prefix [of "to_le h" 2 q] by simp
    with Some Imu assms(1) parse_imu_prefix [of ss "to_le q" 2 h post] show ?thesis
      by (simp add: parse_payload_def msg_defs)
  qed
next
  case (RemoteBattery h f c)
  have "f32le (to_le h @ f32_to_le f @ r) 2 = Some f" for r
    using f32le_prefix [of "to_le h" 2 f] by simp
  moreover have "idx (to_le h @ f32_to_le f @ flag c # r) 6 = Some (flag c)" for r
    using idx_prefix [of "to_le h @ f32_to_le f" 6] by simp
  ultimately show ?thesis
    using RemoteBattery by (simp add: parse_payload_def msg_defs)
next
  case (Button h r)
  have "idx (to_le h @ flag (r \<noteq> Yaw) # post) 2 = Some (flag (r \<noteq> Yaw))"
    using idx_prefix [of "to_le h" 2] by simp
  with Button assms(1) show ?thesis
    by (cases r) (simp_all add: parse_payload_def msg_defs)
qed

lemma parse_imu_bound:
  "parse_imu_samples p extra = Some (Some (h, ss)) \<Longrightarrow> 3 + extra + length ss * SAMPLE_LEN \<le> length p"
  using read_samples_total [of "3 + extra" "unat (p ! (2 + extra))" p]
  by (auto simp: parse_imu_samples_def bind_eq_Some_conv split: if_splits)

lemma parse_payload_imu:
  assumes "parse_payload msg p = Some (Some (Imu h q ss))"
  shows "\<exists>extra. parse_imu_samples p extra = Some (Some (h, ss))"
  using assms
  by (auto simp: parse_payload_def parse_hello_def parse_announce_def Let_def bind_eq_Some_conv
      split: if_splits option.splits)

lemma parse_buffer:
  "parse buf = Some r \<Longrightarrow> r = None \<or> HEADER_LEN \<le> length buf
     \<and> parse_payload (buf ! 5) (drop HEADER_LEN buf) = Some r"
  by (auto simp: parse_def HEADER_LEN_def split: if_splits)

subsection \<open>Properties\<close>

text \<open>
  No datagram makes the parser read outside it: it always returns, with a
  message or without, and a message never holds more samples than the datagram has room
  for, whatever its count byte says.
\<close>

theorem remote_parse_in_bounds:
  "\<exists>r. parse buf = Some r
    \<and> (case r of Some (Imu h q ss) \<Rightarrow> HEADER_LEN + 3 + length ss * SAMPLE_LEN \<le> length buf | _ \<Rightarrow> True)"
proof -
  have "\<exists>r. parse buf = Some r"
    using parse_payload_total [of "buf ! 5" "drop HEADER_LEN buf"]
    by (auto simp: parse_def HEADER_LEN_def)
  then obtain r where r: "parse buf = Some r" ..
  have "HEADER_LEN + 3 + length ss * SAMPLE_LEN \<le> length buf" if "r = Some (Imu h q ss)" for h q ss
  proof -
    from parse_buffer [OF r] that
    have len: "HEADER_LEN \<le> length buf"
      and p: "parse_payload (buf ! 5) (drop HEADER_LEN buf) = Some (Some (Imu h q ss))"
      by auto
    from parse_payload_imu [OF p] parse_imu_bound show ?thesis
      using len by fastforce
  qed
  with r show ?thesis
    by (auto split: option.split remote_msg.split)
qed

text \<open>
  Every message, laid out as the protocol document says, is parsed back to
  itself; and, except after a greeting (whose clock is what follows the name), bytes after
  the payload are ignored, so newer senders may append fields.
\<close>

theorem remote_parse_roundtrip:
  assumes "wf_msg m" "is_hello m \<longrightarrow> post = []"
  shows "parse (msg_bytes m @ post) = Some (Some m)"
  using parse_msg [of "msg_id m" "msg_payload m @ post"] parse_payload_msg [OF assms]
  by (simp add: msg_bytes_def)

theorem remote_parse_roundtrip_witness:
  "parse (msg_bytes (Imu 1000 (Some 65535)
      [\<lparr>gyro = (1, 0, 0), accel = (0, 0, 1), mag = None, timestamp_us = 42\<rparr>]) @ [7, 7])
    = Some (Some (Imu 1000 (Some 65535)
      [\<lparr>gyro = (1, 0, 0), accel = (0, 0, 1), mag = None, timestamp_us = 42\<rparr>]))"
  by (rule remote_parse_roundtrip) (simp_all add: is_hello_def)

end
