(* ===== verification/Remote_Hub.thy ===== *)
theory Remote_Hub
  imports Remote_Protocol "HOL-Library.AList"
begin

section \<open>The remote hub\<close>

text \<open>
  \<^verbatim>\<open>crates/device-remote/src/factory.rs\<close> and \<^verbatim>\<open>device.rs\<close>: the listener's table of routes,
  the rumble target each hub's devices share, the handling of every message, the sweep of
  stale routes, the loss statistics, and the device a route feeds. The shared \<^verbatim>\<open>RwLock\<close> cells
  and the per-route channels live in a store, because devices and the listener alias them.
  Hash maps are association lists with one entry per key.
\<close>

subsection \<open>State\<close>

datatype ip_addr = V4 u8 u8 u8 u8

record socket_addr =
  sa_ip :: ip_addr
  sa_port :: u16

fun ip_display :: "ip_addr \<Rightarrow> string" where
  "ip_display (V4 a b c d) =
     dec_digits (unat a) @ ''.'' @ dec_digits (unat b) @ ''.'' @ dec_digits (unat c) @ ''.''
     @ dec_digits (unat d)"

datatype remote_event = EvImu "imu_sample list" | EvBattery battery_state | EvReset reset_kind

type_synonym cell = nat
type_synonym chan = nat
type_synonym route_key = "ip_addr \<times> u16"

record loss_stats =
  ls_last_seq :: "u16 option"
  ls_received :: u64
  ls_lost :: u64
  ls_window_start :: "instant option"

definition loss_default :: loss_stats where
  "loss_default = \<lparr>ls_last_seq = None, ls_received = 0, ls_lost = 0, ls_window_start = None\<rparr>"

record route =
  rt_chan :: chan
  rt_last_seen :: instant
  rt_loss :: loss_stats

record remote_device =
  rd_metadata :: device_metadata
  rd_rx :: "chan option"
  rd_reader :: "chan option"
  rd_peer :: cell
  rd_handle :: u16
  rd_haptics_only :: bool

record channel =
  ch_queue :: "remote_event list"
  ch_open :: bool

record hub =
  routes :: "(route_key \<times> route) list"
  hub_peers :: "(ip_addr \<times> cell) list"
  cells :: "cell \<Rightarrow> socket_addr"
  next_cell :: cell
  chans :: "chan \<Rightarrow> channel"
  next_chan :: chan
  registered :: "(chan \<times> remote_device) list"
  acks :: "(bytes \<times> socket_addr) list"

definition STALE_AFTER :: duration where
  "STALE_AFTER = from_secs 15"

definition CHANNEL_CAP :: nat where
  "CHANNEL_CAP = 256"

definition RECV_CAP :: nat where
  "RECV_CAP = 16384"

subsection \<open>Loss statistics\<close>

text \<open>
  The three instants are the readings for the window's start, its age and its restart. The
  report, if any, is what the log line carries: received, lost and the loss in percent.
\<close>

definition count_gap :: "u16 \<Rightarrow> loss_stats \<Rightarrow> loss_stats" where
  "count_gap seq s =
     (case ls_last_seq s of
        None \<Rightarrow> s
      | Some prev \<Rightarrow>
          let gap = seq - prev in
          if gap > 1 \<and> gap < 1000 then s\<lparr>ls_lost := ls_lost s + (ucast gap - 1)\<rparr> else s)"

definition loss_record ::
  "instant \<times> instant \<times> instant \<Rightarrow> u16 \<Rightarrow> loss_stats \<Rightarrow> (u64 \<times> u64 \<times> f64) option \<times> loss_stats" where
  "loss_record ts seq s =
     (case ts of (t1, t2, t3) \<Rightarrow>
        let s1 = count_gap seq s;
            s2 = s1\<lparr>ls_last_seq := Some seq, ls_received := ls_received s1 + 1\<rparr>;
            start = (case ls_window_start s2 of Some t \<Rightarrow> t | None \<Rightarrow> t1);
            s3 = s2\<lparr>ls_window_start := Some start\<rparr>
        in if from_secs 10 \<le> duration_since t2 start then
             let total = ls_received s3 + ls_lost s3;
                 report = (if total > 0 \<and> ls_lost s3 > 0 then
                     Some (ls_received s3, ls_lost s3,
                       f64_of_int (uint (ls_lost s3)) * f64_lit 100 1 / f64_of_int (uint total))
                   else None)
             in (report, s3\<lparr>ls_received := 0, ls_lost := 0, ls_window_start := Some t3\<rparr>)
           else (None, s3))"

subsection \<open>The device\<close>

definition remote_device_new :: "announce \<Rightarrow> ip_addr \<Rightarrow> cell \<Rightarrow> chan \<Rightarrow> remote_device" where
  "remote_device_new a peer_ip peer rx =
     \<lparr>rd_metadata =
        \<lparr>md_id = \<lparr>id_mac = an_mac a,
           id_serial = ''remote-'' @ ip_display peer_ip @ ''-'' @ dec_digits (unat (an_handle a))\<rparr>,
         md_kind = an_kind a,
         md_firmware = Some (''remote:'' @ an_name a),
         md_caps = \<lparr>has_magnetometer = an_has_mag a, has_battery = an_has_battery a,
           has_rumble = an_has_rumble a, native_rate_hz = max (an_rate_hz a) 1\<rparr>\<rparr>,
      rd_rx = Some rx, rd_reader = None, rd_peer = peer, rd_handle = an_handle a,
      rd_haptics_only = (an_rate_hz a = 0)\<rparr>"

text \<open>A start takes the receiver and hands it to the reader task.\<close>

definition remote_start :: "remote_device \<Rightarrow> device_error + chan \<times> remote_device" where
  "remote_start d =
     (case rd_rx d of
        None \<Rightarrow> Inl (Hid ''remote device already started'')
      | Some rx \<Rightarrow> Inr (rx, d\<lparr>rd_rx := None, rd_reader := Some rx\<rparr>))"

definition remote_stop :: "remote_device \<Rightarrow> remote_device" where
  "remote_stop d = d\<lparr>rd_reader := None\<rparr>"

fun to_channel_info :: "remote_event \<Rightarrow> channel_info" where
  "to_channel_info (EvImu ss) = ImuSamples ss"
| "to_channel_info (EvBattery b) = Battery b"
| "to_channel_info (EvReset r) = ResetRequested r"

text \<open>
  What the reader task sends for the events of its channel, in order; \<open>dropped\<close> says that
  the listener has dropped the sender, after which the task ends.
\<close>

definition reader_output :: "remote_device \<Rightarrow> remote_event list \<Rightarrow> bool \<Rightarrow> channel_info list" where
  "reader_output d evs dropped =
     (if rd_haptics_only d then []
      else [Connected (md_id (rd_metadata d))] @ map to_channel_info evs
        @ (if dropped then [Disconnected] else []))"

definition remote_set_rumble ::
  "(cell \<Rightarrow> socket_addr) \<Rightarrow> remote_device \<Rightarrow> f32 \<Rightarrow> bytes \<times> socket_addr" where
  "remote_set_rumble cs d intensity =
     (encode_rumble (rd_handle d) (f32_clamp intensity 0 1), cs (rd_peer d))"

subsection \<open>The listener\<close>

definition route_touch :: "instant \<Rightarrow> route \<Rightarrow> route" where
  "route_touch now r = r\<lparr>rt_last_seen := now\<rparr>"

definition touch_hub_peer :: "socket_addr \<Rightarrow> hub \<Rightarrow> cell \<times> hub" where
  "touch_hub_peer frm h =
     (case map_of (hub_peers h) (sa_ip frm) of
        Some c \<Rightarrow> (c, h\<lparr>cells := (cells h)(c := frm)\<rparr>)
      | None \<Rightarrow>
          let c = next_cell h in
          (c, h\<lparr>hub_peers := AList.update (sa_ip frm) c (hub_peers h),
                cells := (cells h)(c := frm), next_cell := c + 1\<rparr>))"

text \<open>The non-blocking send: into an open channel with room, dropped if full, or closed.\<close>

datatype try_send = Sent channel | Full | Closed

definition chan_try_send :: "remote_event \<Rightarrow> channel \<Rightarrow> try_send" where
  "chan_try_send e ch =
     (if \<not> ch_open ch then Closed
      else if CHANNEL_CAP \<le> length (ch_queue ch) then Full
      else Sent (ch\<lparr>ch_queue := ch_queue ch @ [e]\<rparr>))"

definition route_event :: "instant \<Rightarrow> socket_addr \<Rightarrow> u16 \<Rightarrow> remote_event \<Rightarrow> hub \<Rightarrow> hub" where
  "route_event now peer handle e h =
     (let key = (sa_ip peer, handle) in
      case map_of (routes h) key of
        None \<Rightarrow> h
      | Some r \<Rightarrow>
          let h1 = h\<lparr>routes := AList.update key (route_touch now r) (routes h)\<rparr>;
              h2 = snd (touch_hub_peer peer h1)
          in case chan_try_send e (chans h2 (rt_chan r)) of
               Sent ch \<Rightarrow> h2\<lparr>chans := (chans h2)(rt_chan r := ch)\<rparr>
             | Full \<Rightarrow> h2
             | Closed \<Rightarrow> h2\<lparr>routes := AList.delete key (routes h2)\<rparr>)"

text \<open>
  \<open>out_open\<close>: whether the registration channel still has a receiver. The instants are the
  clock readings of the loss statistics and of the route.
\<close>

record msg_env =
  me_now :: instant
  me_loss :: "instant \<times> instant \<times> instant"
  me_out_open :: bool

definition register_device :: "msg_env \<Rightarrow> announce \<Rightarrow> socket_addr \<Rightarrow> hub \<Rightarrow> hub" where
  "register_device e a peer h =
     (let (shared, h1) = touch_hub_peer peer h; key = (sa_ip peer, an_handle a) in
      case map_of (routes h1) key of
        Some r \<Rightarrow> h1\<lparr>routes := AList.update key (route_touch (me_now e) r) (routes h1)\<rparr>
      | None \<Rightarrow>
          let c = next_chan h1;
              h2 = h1\<lparr>next_chan := c + 1, chans := (chans h1)(c := \<lparr>ch_queue = [], ch_open = True\<rparr>)\<rparr>;
              dev = remote_device_new a (sa_ip peer) shared c
          in if \<not> me_out_open e then h2
             else h2\<lparr>registered := (c, dev) # registered h2,
                     routes := AList.update key
                       \<lparr>rt_chan = c, rt_last_seen = me_now e, rt_loss = loss_default\<rparr> (routes h2)\<rparr>)"

definition note_loss :: "msg_env \<Rightarrow> route_key \<Rightarrow> u16 option \<Rightarrow> hub \<Rightarrow> hub" where
  "note_loss e key seq h =
     (case seq of
        None \<Rightarrow> h
      | Some q \<Rightarrow>
          (case map_of (routes h) key of
             None \<Rightarrow> h
           | Some r \<Rightarrow>
               h\<lparr>routes := AList.update key (r\<lparr>rt_loss := snd (loss_record (me_loss e) q (rt_loss r))\<rparr>)
                  (routes h)\<rparr>))"

fun handle_msg :: "msg_env \<Rightarrow> socket_addr \<Rightarrow> remote_msg \<Rightarrow> hub \<Rightarrow> hub" where
  "handle_msg e peer (Hello uuid name ts) h =
     (let h1 = (if list_ex (\<lambda>(k, _). fst k = sa_ip peer) (routes h)
                then snd (touch_hub_peer peer h) else h)
      in h1\<lparr>acks := (encode_hello_ack_echo ts, peer) # acks h1\<rparr>)"
| "handle_msg e peer (Announce a) h = register_device e a peer h"
| "handle_msg e peer (Remove handle) h =
     h\<lparr>routes := AList.delete (sa_ip peer, handle) (routes h)\<rparr>"
| "handle_msg e peer (Imu handle seq ss) h =
     route_event (me_now e) peer handle (EvImu ss) (note_loss e (sa_ip peer, handle) seq h)"
| "handle_msg e peer (RemoteBattery handle f c) h =
     route_event (me_now e) peer handle (EvBattery \<lparr>fraction = f, charging = c\<rparr>) h"
| "handle_msg e peer (Button handle r) h = route_event (me_now e) peer handle (EvReset r) h"

definition sweep :: "instant \<Rightarrow> hub \<Rightarrow> hub" where
  "sweep now h =
     (let rs = filter (\<lambda>(k, r). duration_since now (rt_last_seen r) < STALE_AFTER) (routes h)
      in h\<lparr>routes := rs,
           hub_peers := filter (\<lambda>(ip, _). list_ex (\<lambda>(k, _). fst k = ip) rs) (hub_peers h)\<rparr>)"

text \<open>A datagram, cut at the receive buffer; one that does not parse changes nothing.\<close>

definition hub_datagram :: "msg_env \<Rightarrow> socket_addr \<Rightarrow> bytes \<Rightarrow> hub \<Rightarrow> hub" where
  "hub_datagram e peer buf h =
     (case parse (take RECV_CAP buf) of
        Some (Some m) \<Rightarrow> handle_msg e peer m h
      | _ \<Rightarrow> h)"

definition hub_empty :: "socket_addr \<Rightarrow> hub" where
  "hub_empty any =
     \<lparr>routes = [], hub_peers = [], cells = (\<lambda>_. any), next_cell = 0,
      chans = (\<lambda>_. \<lparr>ch_queue = [], ch_open = False\<rparr>), next_chan = 0, registered = [], acks = []\<rparr>"

subsection \<open>Runs\<close>

text \<open>
  A run of the listener: datagrams and sweeps in any order, while the devices take events
  off their channels or close them.
\<close>

inductive hub_step :: "hub \<Rightarrow> hub \<Rightarrow> bool" where
  hub_recv: "hub_step h (hub_datagram e peer buf h)"
| hub_sweep: "hub_step h (sweep now h)"
| hub_take: "ch_queue (chans h c) = ev # evs \<Longrightarrow>
    hub_step h (h\<lparr>chans := (chans h)(c := (chans h c)\<lparr>ch_queue := evs\<rparr>)\<rparr>)"
| hub_close: "hub_step h (h\<lparr>chans := (chans h)(c := (chans h c)\<lparr>ch_open := False\<rparr>)\<rparr>)"

inductive hub_reachable :: "hub \<Rightarrow> bool" where
  hub_start: "hub_reachable (hub_empty any)"
| hub_next: "hub_reachable h \<Longrightarrow> hub_step h h' \<Longrightarrow> hub_reachable h'"

subsection \<open>The invariant of the tables\<close>

text \<open>
  A hub's shared cell holds an address of that hub, and the device behind a route has its
  route's handle and its hub's cell.
\<close>

definition peers_inv :: "hub \<Rightarrow> bool" where
  "peers_inv h \<longleftrightarrow> (\<forall>ip c. map_of (hub_peers h) ip = Some c \<longrightarrow>
     c < next_cell h \<and> sa_ip (cells h c) = ip)"

definition devices_inv :: "hub \<Rightarrow> bool" where
  "devices_inv h \<longleftrightarrow> distinct (map fst (registered h))
     \<and> (\<forall>(c, d) \<in> set (registered h). c < next_chan h)"

definition route_ok :: "hub \<Rightarrow> route_key \<Rightarrow> route \<Rightarrow> bool" where
  "route_ok h k r \<longleftrightarrow> (\<exists>d. (rt_chan r, d) \<in> set (registered h)
     \<and> map_of (hub_peers h) (fst k) = Some (rd_peer d) \<and> rd_handle d = snd k)"

definition hub_inv :: "hub \<Rightarrow> bool" where
  "hub_inv h \<longleftrightarrow> distinct (map fst (routes h)) \<and> distinct (map fst (hub_peers h)) \<and> peers_inv h
     \<and> devices_inv h \<and> (\<forall>k r. map_of (routes h) k = Some r \<longrightarrow> route_ok h k r)"

declare map_of_eq_Some_iff [simp del] Some_eq_map_of_iff [simp del]

lemmas hub_inv_defs = hub_inv_def peers_inv_def devices_inv_def route_ok_def

lemma hub_inv_empty: "hub_inv (hub_empty any)"
  by (simp add: hub_inv_defs hub_empty_def)

text \<open>Routes may be dropped or have their times and statistics changed.\<close>

lemma change_routes_inv:
  assumes "hub_inv h" "distinct (map fst rs)"
    and "\<And>k r. map_of rs k = Some r \<Longrightarrow> \<exists>r'. map_of (routes h) k = Some r' \<and> rt_chan r = rt_chan r'"
  shows "hub_inv (h\<lparr>routes := rs\<rparr>)"
proof -
  have "route_ok h k r" if "map_of rs k = Some r" for k r
    using assms(3) [OF that] assms(1) by (auto simp: hub_inv_def route_ok_def)
  with assms(1,2) show ?thesis
    by (simp add: hub_inv_defs)
qed

lemma update_routes_inv:
  assumes "hub_inv h" "map_of (routes h) k = Some r" "rt_chan r' = rt_chan r"
  shows "hub_inv (h\<lparr>routes := AList.update k r' (routes h)\<rparr>)"
  using assms
  by (intro change_routes_inv) (auto simp: hub_inv_def distinct_update update_conv' split: if_splits)

lemma delete_routes_inv: "hub_inv h \<Longrightarrow> hub_inv (h\<lparr>routes := AList.delete k (routes h)\<rparr>)"
  by (intro change_routes_inv) (auto simp: hub_inv_def distinct_delete delete_conv' split: if_splits)

lemma note_loss_inv: "hub_inv h \<Longrightarrow> hub_inv (note_loss e k seq h)"
  by (auto simp: note_loss_def intro: update_routes_inv split: option.split)

lemma note_loss_fields [simp]:
  "hub_peers (note_loss e k seq h) = hub_peers h" "cells (note_loss e k seq h) = cells h"
  "registered (note_loss e k seq h) = registered h" "chans (note_loss e k seq h) = chans h"
  "dom (map_of (routes (note_loss e k seq h))) = dom (map_of (routes h))"
  by (auto simp: note_loss_def update_conv' split: option.split)

lemma note_loss_route:
  "map_of (routes h) k = Some r \<Longrightarrow>
     \<exists>r1. map_of (routes (note_loss e k q h)) k = Some r1 \<and> rt_chan r1 = rt_chan r"
  by (cases q) (auto simp: note_loss_def update_conv')

lemma touch_fields [simp]:
  "routes (snd (touch_hub_peer p h)) = routes h"
  "registered (snd (touch_hub_peer p h)) = registered h"
  "chans (snd (touch_hub_peer p h)) = chans h"
  "next_chan (snd (touch_hub_peer p h)) = next_chan h"
  by (simp_all add: touch_hub_peer_def Let_def split: option.split)

lemma touch_peer:
  "map_of (hub_peers (snd (touch_hub_peer p h))) (sa_ip p) = Some (fst (touch_hub_peer p h))"
  "cells (snd (touch_hub_peer p h)) (fst (touch_hub_peer p h)) = p"
  by (simp_all add: touch_hub_peer_def Let_def update_conv' split: option.split)

lemma touch_inv:
  assumes "hub_inv h"
  shows "hub_inv (snd (touch_hub_peer p h))"
proof (cases "map_of (hub_peers h) (sa_ip p)")
  case None
  with assms show ?thesis
    by (auto simp: hub_inv_defs touch_hub_peer_def Let_def distinct_update update_conv' less_Suc_eq
        split: if_splits) force+
next
  case (Some c)
  with assms show ?thesis
    by (simp add: hub_inv_defs touch_hub_peer_def) metis
qed

lemma chans_inv: "hub_inv h \<Longrightarrow> hub_inv (h\<lparr>chans := cs\<rparr>)"
  by (simp add: hub_inv_defs)

lemma acks_inv: "hub_inv h \<Longrightarrow> hub_inv (h\<lparr>acks := as\<rparr>)"
  by (simp add: hub_inv_defs)

lemma route_event_inv:
  assumes "hub_inv h"
  shows "hub_inv (route_event now peer handle e h)"
proof (cases "map_of (routes h) (sa_ip peer, handle)")
  case None
  with assms show ?thesis
    by (simp add: route_event_def)
next
  case (Some r)
  define h2 where "h2 = snd (touch_hub_peer peer
    (h\<lparr>routes := AList.update (sa_ip peer, handle) (route_touch now r) (routes h)\<rparr>))"
  have "hub_inv h2"
    unfolding h2_def using assms Some by (intro touch_inv update_routes_inv) (auto simp: route_touch_def)
  with Some show ?thesis
    by (auto simp: route_event_def Let_def h2_def [symmetric] intro: chans_inv delete_routes_inv
        split: try_send.split)
qed

lemma register_inv:
  assumes "hub_inv h"
  shows "hub_inv (register_device e a peer h)"
proof -
  define c where "c = fst (touch_hub_peer peer h)"
  define h1 where "h1 = snd (touch_hub_peer peer h)"
  let ?k = "(sa_ip peer, an_handle a)"
  have inv: "hub_inv h1"
    using touch_inv [OF assms] by (simp add: h1_def)
  have peer: "map_of (hub_peers h1) (sa_ip peer) = Some c"
    using touch_peer(1) [of peer h] by (simp add: h1_def c_def)
  have split: "touch_hub_peer peer h = (c, h1)"
    by (simp add: c_def h1_def)
  show ?thesis
  proof (cases "map_of (routes h1) ?k")
    case (Some r)
    with inv show ?thesis
      by (auto simp: register_device_def split route_touch_def intro: update_routes_inv)
  next
    case None
    let ?ch = "next_chan h1"
    let ?dev = "remote_device_new a (sa_ip peer) c ?ch"
    let ?h2 = "h1\<lparr>next_chan := ?ch + 1, chans := (chans h1)(?ch := \<lparr>ch_queue = [], ch_open = True\<rparr>)\<rparr>"
    have h2: "hub_inv ?h2"
      using inv by (force simp: hub_inv_defs)
    have new: "?ch \<notin> fst ` set (registered h1)"
      using inv by (force simp: hub_inv_defs)
    have "hub_inv (?h2\<lparr>registered := (?ch, ?dev) # registered h1,
       routes := AList.update ?k \<lparr>rt_chan = ?ch, rt_last_seen = me_now e, rt_loss = loss_default\<rparr> (routes h1)\<rparr>)"
      using h2 new peer
      by (auto simp: hub_inv_defs distinct_update update_conv' remote_device_new_def split: if_splits) blast+
    with None h2 show ?thesis
      by (simp add: register_device_def split Let_def)
  qed
qed

lemma handle_msg_inv: "hub_inv h \<Longrightarrow> hub_inv (handle_msg e peer m h)"
  by (cases m)
    (simp_all add: register_inv delete_routes_inv route_event_inv note_loss_inv acks_inv touch_inv Let_def)

lemma map_of_filter_key: "map_of (filter (\<lambda>(k, v). P k) xs) k = (if P k then map_of xs k else None)"
  by (induction xs) auto

lemma map_of_filter_Some:
  "distinct (map fst xs) \<Longrightarrow> map_of (filter P xs) k = Some v \<longleftrightarrow> map_of xs k = Some v \<and> P (k, v)"
proof (induction xs)
  case Nil
  then show ?case by simp
next
  case (Cons x xs)
  have "map_of xs (fst x) = None"
    using Cons.prems by (simp add: map_of_eq_None_iff)
  with Cons show ?case
    by (cases x) auto
qed

lemma map_of_filter_case:
  assumes "distinct (map fst xs)"
  shows "map_of (filter P xs) k =
    (case map_of xs k of Some v \<Rightarrow> if P (k, v) then Some v else None | None \<Rightarrow> None)"
proof (cases "map_of (filter P xs) k")
  case None
  then have "map_of xs k = Some v \<Longrightarrow> \<not> P (k, v)" for v
    using map_of_filter_Some [OF assms, of P k v] by simp
  with None show ?thesis
    by (simp split: option.split)
next
  case (Some v)
  then show ?thesis
    using map_of_filter_Some [OF assms, of P k v] by simp
qed

lemma sweep_inv:
  assumes "hub_inv h"
  shows "hub_inv (sweep now h)"
proof -
  let ?rs = "filter (\<lambda>(k, r). duration_since now (rt_last_seen r) < STALE_AFTER) (routes h)"
  have kept: "map_of (routes h) k = Some r \<and> list_ex (\<lambda>(k', _). fst k' = fst k) ?rs"
    if "map_of ?rs k = Some r" for k r
    using that assms map_of_SomeD [OF that]
    by (cases k) (auto simp: hub_inv_def map_of_filter_Some list_ex_iff)
  have "distinct (map fst ?rs)" "distinct (map fst (filter (\<lambda>(ip, c). P ip) (hub_peers h)))" for P
    using assms by (simp_all add: hub_inv_def distinct_map_filter)
  then show ?thesis
    using assms kept
    by (simp add: hub_inv_defs sweep_def Let_def map_of_filter_key)
qed

lemma hub_step_inv:
  assumes "hub_step h h'" "hub_inv h"
  shows "hub_inv h'"
  using assms
  by cases (auto simp: hub_datagram_def handle_msg_inv sweep_inv chans_inv split: option.split)

lemma hub_reachable_inv: "hub_reachable h \<Longrightarrow> hub_inv h"
  by (induction rule: hub_reachable.induct) (auto simp: hub_inv_empty hub_step_inv)

subsection \<open>Rumble follows the hub\<close>

text \<open>The messages that show where a hub now is, given the routes it has.\<close>

fun refreshes :: "socket_addr \<Rightarrow> hub \<Rightarrow> remote_msg \<Rightarrow> bool" where
  "refreshes p h (Remove _) \<longleftrightarrow> False"
| "refreshes p h (Imu hn _ _) \<longleftrightarrow> map_of (routes h) (sa_ip p, hn) \<noteq> None"
| "refreshes p h (RemoteBattery hn _ _) \<longleftrightarrow> map_of (routes h) (sa_ip p, hn) \<noteq> None"
| "refreshes p h (Button hn _) \<longleftrightarrow> map_of (routes h) (sa_ip p, hn) \<noteq> None"
| "refreshes p h _ \<longleftrightarrow> True"

definition at_peer :: "socket_addr \<Rightarrow> hub \<Rightarrow> bool" where
  "at_peer p h \<longleftrightarrow> (\<exists>c. map_of (hub_peers h) (sa_ip p) = Some c \<and> cells h c = p)"

lemma at_peer_touch: "at_peer p (snd (touch_hub_peer p h))"
  using touch_peer [of p h] by (auto simp: at_peer_def)

lemma at_peer_cong:
  "hub_peers h' = hub_peers h \<Longrightarrow> cells h' = cells h \<Longrightarrow> at_peer p h' \<longleftrightarrow> at_peer p h"
  by (simp add: at_peer_def)

lemma at_peer_updates [simp]:
  "at_peer p (h\<lparr>routes := rs\<rparr>) \<longleftrightarrow> at_peer p h" "at_peer p (h\<lparr>chans := cs\<rparr>) \<longleftrightarrow> at_peer p h"
  "at_peer p (h\<lparr>acks := as\<rparr>) \<longleftrightarrow> at_peer p h" "at_peer p (h\<lparr>next_chan := n\<rparr>) \<longleftrightarrow> at_peer p h"
  "at_peer p (h\<lparr>registered := ds\<rparr>) \<longleftrightarrow> at_peer p h"
  by (simp_all add: at_peer_def)

lemma route_event_at_peer:
  "map_of (routes h) (sa_ip p, hn) \<noteq> None \<Longrightarrow> at_peer p (route_event now p hn e h)"
  by (auto simp: route_event_def Let_def at_peer_touch split: try_send.split)

lemma route_event_routes:
  assumes "map_of (routes (route_event now p hn e h)) k = Some r"
  shows "map_of (routes h) k \<noteq> None"
  using assms
  by (auto simp: route_event_def Let_def update_conv' delete_conv' split: option.splits try_send.splits if_splits)

lemma handle_msg_at_peer:
  assumes "refreshes p h m" "map_of (routes (handle_msg e p m h)) k = Some r" "fst k = sa_ip p"
  shows "at_peer p (handle_msg e p m h)"
proof (cases m)
  case (Hello u n t)
  have "list_ex (\<lambda>(k', _). fst k' = sa_ip p) (routes h)"
    using assms(2,3) Hello map_of_SomeD [of "routes h" k r]
    by (cases k) (auto simp: Let_def list_ex_iff split: if_splits)
  with Hello show ?thesis
    by (simp add: at_peer_touch Let_def)
next
  case (Announce a)
  then show ?thesis
    using at_peer_touch [of p h]
    by (auto simp: register_device_def Let_def split_beta split: option.split)
next
  case (Remove hn)
  with assms(1) show ?thesis by simp
next
  case (Imu hn q ss)
  have "map_of (routes (note_loss e (sa_ip p, hn) q h)) (sa_ip p, hn) \<noteq> None"
    using assms(1) Imu by (auto simp: note_loss_def update_conv' split: option.splits)
  with Imu show ?thesis
    by (simp add: route_event_at_peer)
next
  case (RemoteBattery hn f c)
  with assms(1) show ?thesis
    using route_event_at_peer by simp
next
  case (Button hn b)
  with assms(1) show ?thesis
    using route_event_at_peer by simp
qed

subsection \<open>Loss statistics count gaps\<close>

text \<open>
  A sender that numbers its datagrams 0, 1, 2 and so on, of which those numbered \<open>ns\<close>
  arrive, in order; the receiver sees the numbers modulo 2 to the 16.
\<close>

fun loss_feed :: "loss_stats \<Rightarrow> ((instant \<times> instant \<times> instant) \<times> nat) list \<Rightarrow> loss_stats" where
  "loss_feed s [] = s"
| "loss_feed s ((ts, n) # rest) = loss_feed (snd (loss_record ts (of_nat n) s)) rest"

fun small_gaps :: "nat \<Rightarrow> nat list \<Rightarrow> bool" where
  "small_gaps p [] \<longleftrightarrow> True"
| "small_gaps p (n # ns) \<longleftrightarrow> p < n \<and> n < p + 1000 \<and> small_gaps n ns"

definition in_window :: "instant \<Rightarrow> (instant \<times> instant \<times> instant) \<Rightarrow> bool" where
  "in_window start ts = (duration_since (fst (snd ts)) start < from_secs 10)"

lemma gap_word:
  assumes "p < n" "n < p + 1000"
  shows "unat (of_nat n - of_nat p :: u16) = n - p"
proof -
  have "of_nat n - of_nat p = (of_nat (n - p) :: u16)"
    using assms(1) by (simp add: of_nat_diff)
  then have "unat (of_nat n - of_nat p :: u16) = unat (of_nat (n - p) :: u16)"
    by (rule arg_cong)
  also have "\<dots> = n - p"
    using assms by (simp only: unat_of_nat) simp
  finally show ?thesis .
qed

lemma loss_record_gap:
  assumes "ls_last_seq s = Some (of_nat p)" "p < n" "n < p + 1000" "ls_window_start s = Some t0" "in_window t0 ts"
  shows "snd (loss_record ts (of_nat n) s) =
    s\<lparr>ls_last_seq := Some (of_nat n), ls_received := ls_received s + 1,
      ls_lost := ls_lost s + of_nat (n - p - 1)\<rparr>"
proof -
  define g where "g = (of_nat n - of_nat p :: u16)"
  define l :: u64 where "l = of_nat (n - p - 1)"
  have g: "unat g = n - p"
    unfolding g_def by (rule gap_word [OF assms(2,3)])
  have "ucast g = (of_nat (unat g) :: u64)"
    by simp
  then have "ucast g = (of_nat (n - p) :: u64)"
    by (simp only: g)
  then have lost: "ucast g - 1 = l"
    using assms(2) by (simp add: of_nat_diff l_def)
  have small: "g < 1000" and one: "\<not> g > 1 \<Longrightarrow> l = 0"
    using g assms by (auto simp: word_less_nat_alt l_def)
  obtain t1 t2 t3 where ts: "ts = (t1, t2, t3)"
    by (cases ts)
  have "count_gap (of_nat n) s = s\<lparr>ls_lost := ls_lost s + l\<rparr>"
    using assms(1) small one lost by (auto simp: count_gap_def Let_def g_def [symmetric])
  moreover have "s\<lparr>ls_window_start := Some t0\<rparr> = s"
    using assms(4) by (cases s) simp
  ultimately show ?thesis
    using assms(4,5) unfolding l_def [symmetric]
    by (cases s) (auto simp: loss_record_def in_window_def Let_def ts)
qed

lemma loss_feed_gaps:
  assumes "ls_last_seq s = Some (of_nat p)" "ls_window_start s = Some t0"
    "small_gaps p (map snd xs)" "\<forall>ts \<in> set (map fst xs). in_window t0 ts"
  shows "ls_received (loss_feed s xs) = ls_received s + of_nat (length xs)
    \<and> ls_lost (loss_feed s xs) = ls_lost s + of_nat (last (p # map snd xs) - p - length xs)
    \<and> length xs \<le> last (p # map snd xs) - p"
  using assms
proof (induction xs arbitrary: s p)
  case Nil
  then show ?case by simp
next
  case (Cons x xs)
  obtain ts n where x: "x = (ts, n)"
    by (cases x)
  let ?s = "snd (loss_record ts (of_nat n) s)"
  have step: "?s = s\<lparr>ls_last_seq := Some (of_nat n), ls_received := ls_received s + 1,
      ls_lost := ls_lost s + of_nat (n - p - 1)\<rparr>"
    using Cons.prems x by (intro loss_record_gap) auto
  have ih: "ls_received (loss_feed ?s xs) = ls_received ?s + of_nat (length xs)
    \<and> ls_lost (loss_feed ?s xs) = ls_lost ?s + of_nat (last (n # map snd xs) - n - length xs)
    \<and> length xs \<le> last (n # map snd xs) - n"
    using Cons.prems x step by (intro Cons.IH) auto
  define m where "m = last (n # map snd xs)"
  have "p < n"
    using Cons.prems x by simp
  moreover have "length xs + n \<le> m"
    using ih Cons.prems x by (cases xs) (auto simp: m_def)
  ultimately have nat: "(n - p - 1) + (m - n - length xs) = m - p - length (x # xs)"
    "length (x # xs) \<le> m - p"
    by simp_all
  have "ls_lost (loss_feed ?s xs) = ls_lost s + of_nat (n - p - 1) + of_nat (m - n - length xs)"
    using ih by (simp only: step m_def) simp
  also have "\<dots> = ls_lost s + of_nat (m - p - length (x # xs))"
    by (simp only: add.assoc of_nat_add [symmetric] nat)
  finally have lost: "ls_lost (loss_feed ?s xs) = ls_lost s + of_nat (m - p - length (x # xs))" .
  have recv: "ls_received (loss_feed ?s xs) = ls_received s + of_nat (length (x # xs))"
    using ih by (simp only: step) simp
  have "loss_feed s (x # xs) = loss_feed ?s xs" "last (p # map snd (x # xs)) = m"
    by (simp_all add: x m_def)
  then show ?case
    using lost recv nat(2) by (simp only: simp_thms)
qed

lemma hub_inv_route:
  assumes "hub_inv h" "map_of (routes h) k = Some r"
  obtains d where "(rt_chan r, d) \<in> set (registered h)"
    "map_of (hub_peers h) (fst k) = Some (rd_peer d)" "rd_handle d = snd k"
  using assms unfolding hub_inv_def route_ok_def by blast

text \<open>Different routes feed different channels.\<close>

lemma route_chan_inj:
  assumes "hub_inv h" "map_of (routes h) k = Some r" "map_of (routes h) k' = Some r'" "rt_chan r = rt_chan r'"
  shows "k = k'"
proof -
  obtain d where d: "(rt_chan r, d) \<in> set (registered h)"
    "map_of (hub_peers h) (fst k) = Some (rd_peer d)" "rd_handle d = snd k"
    using hub_inv_route [OF assms(1,2)] .
  obtain d' where d': "(rt_chan r', d') \<in> set (registered h)"
    "map_of (hub_peers h) (fst k') = Some (rd_peer d')" "rd_handle d' = snd k'"
    using hub_inv_route [OF assms(1,3)] .
  have "d = d'"
    using assms(1,4) d(1) d'(1) eq_key_imp_eq_value [of "registered h" "rt_chan r" d d']
    by (simp add: hub_inv_def devices_inv_def)
  moreover have "sa_ip (cells h (rd_peer d)) = fst k" "sa_ip (cells h (rd_peer d')) = fst k'"
    using assms(1) d(2) d'(2) by (auto simp: hub_inv_def peers_inv_def)
  ultimately show ?thesis
    using d(3) d'(3) by (cases k; cases k') auto
qed

interpretation remote: device_lifecycle remote_start remote_stop "\<lambda>d. rd_rx d = None"
  by unfold_locales (auto simp: remote_start_def split: option.splits)

subsection \<open>Properties\<close>

text \<open>
  Rumble follows a hub across reconnects: after any message that shows where
  the hub now is (its greeting, an announcement, or data for a handle it has), every device
  behind one of that hub's routes sends its rumble to the address the message came from,
  whichever handle the message was for, under that device's own handle.
\<close>

theorem rumble_follows_hub:
  assumes "hub_reachable h" "refreshes p h m"
    and "map_of (routes (handle_msg e p m h)) (sa_ip p, n) = Some r"
  shows "\<exists>d. (rt_chan r, d) \<in> set (registered (handle_msg e p m h))
    \<and> remote_set_rumble (cells (handle_msg e p m h)) d x = (encode_rumble n (f32_clamp x 0 1), p)"
proof -
  let ?h = "handle_msg e p m h"
  have "hub_inv ?h"
    using handle_msg_inv hub_reachable_inv [OF assms(1)] by blast
  from hub_inv_route [OF this assms(3)] obtain d where d: "(rt_chan r, d) \<in> set (registered ?h)"
    "map_of (hub_peers ?h) (sa_ip p) = Some (rd_peer d)" "rd_handle d = n"
    by auto
  moreover have "at_peer p ?h"
    using handle_msg_at_peer [OF assms(2,3)] by simp
  ultimately show ?thesis
    by (intro exI [of _ d]) (auto simp: at_peer_def remote_set_rumble_def)
qed

definition sample_announce :: announce where
  "sample_announce = \<lparr>an_handle = 7, an_kind = Phone, an_mac = [2, 0, 0, 0, 0, 9], an_has_mag = True,
     an_has_battery = True, an_has_rumble = True, an_rate_hz = 200, an_name = ''Px''\<rparr>"

definition sample_env :: msg_env where
  "sample_env = \<lparr>me_now = 0, me_loss = (0, 0, 0), me_out_open = True\<rparr>"

definition sample_peer :: "u16 \<Rightarrow> socket_addr" where
  "sample_peer port = \<lparr>sa_ip = V4 10 0 0 2, sa_port = port\<rparr>"

definition sample_hub :: hub where
  "sample_hub = handle_msg sample_env (sample_peer 5000) (Announce sample_announce) (hub_empty (sample_peer 0))"

lemma sample_announce_wf: "wf_msg (Announce sample_announce)"
  by (simp add: sample_announce_def valid_text_def as_bytes_def char_byte_def utf8_conts_def)

lemma length_announce: "length (msg_bytes (Announce sample_announce)) = 23"
  by (simp add: msg_bytes_def MAGIC_def sample_announce_def)

lemma sample_hub_reachable: "hub_reachable sample_hub"
proof -
  have "parse (msg_bytes (Announce sample_announce)) = Some (Some (Announce sample_announce))"
    using parse_msg [of "msg_id (Announce sample_announce)" "msg_payload (Announce sample_announce)"]
      parse_payload_msg [OF sample_announce_wf, of "[]"]
    by (simp add: msg_bytes_def)
  then have eq: "sample_hub = hub_datagram sample_env (sample_peer 5000) (msg_bytes (Announce sample_announce))
      (hub_empty (sample_peer 0))"
    using length_announce by (simp add: sample_hub_def hub_datagram_def RECV_CAP_def)
  show ?thesis
    unfolding eq by (rule hub_next [OF hub_start]) (rule hub_recv)
qed

lemma sample_route: "\<exists>r. map_of (routes sample_hub) (sa_ip (sample_peer port), 7) = Some r"
  by (simp add: sample_hub_def register_device_def touch_hub_peer_def hub_empty_def Let_def
      sample_env_def sample_peer_def sample_announce_def)

theorem rumble_follows_hub_witness:
  "\<exists>(r :: route) d. remote_set_rumble (cells (handle_msg sample_env (sample_peer 6000) (Hello [] [] None) sample_hub)) d 1
     = (encode_rumble 7 (f32_clamp 1 0 1), sample_peer 6000) \<and> (rt_chan r, d) \<in> set (registered sample_hub)"
proof -
  obtain r where r: "map_of (routes sample_hub) (sa_ip (sample_peer 6000), 7) = Some r"
    using sample_route by blast
  let ?h = "handle_msg sample_env (sample_peer 6000) (Hello [] [] None) sample_hub"
  have r': "map_of (routes ?h) (sa_ip (sample_peer 6000), 7) = Some r"
    and reg: "registered ?h = registered sample_hub"
    using r by (simp_all add: Let_def)
  have "refreshes (sample_peer 6000) sample_hub (Hello [] [] None)"
    by simp
  from rumble_follows_hub [OF sample_hub_reachable this r', of 1] obtain d
    where "(rt_chan r, d) \<in> set (registered ?h)"
      "remote_set_rumble (cells ?h) d 1 = (encode_rumble 7 (f32_clamp 1 0 1), sample_peer 6000)"
    by blast
  then show ?thesis
    unfolding reg by blast
qed

text \<open>
  Traffic is kept apart: a sample burst for a known handle is appended to that
  handle's channel when the channel is open and has room (and lost otherwise, without
  blocking), and no other route's channel is touched; a burst for an unknown handle changes
  nothing at all. No device is registered by data.
\<close>

theorem samples_reach_their_route_only:
  assumes "hub_reachable h"
  shows "let h' = handle_msg e p (Imu n q ss) h in
    case map_of (routes h) (sa_ip p, n) of
      None \<Rightarrow> h' = h
    | Some r \<Rightarrow>
        chans h' (rt_chan r) =
          (if ch_open (chans h (rt_chan r)) \<and> length (ch_queue (chans h (rt_chan r))) < CHANNEL_CAP
           then (chans h (rt_chan r))\<lparr>ch_queue := ch_queue (chans h (rt_chan r)) @ [EvImu ss]\<rparr>
           else chans h (rt_chan r))
        \<and> registered h' = registered h
        \<and> list_all (\<lambda>(k', r'). k' = (sa_ip p, n) \<or> chans h' (rt_chan r') = chans h (rt_chan r')) (routes h)"
proof (cases "map_of (routes h) (sa_ip p, n)")
  case None
  then have "note_loss e (sa_ip p, n) q h = h"
    by (simp add: note_loss_def split: option.split)
  with None show ?thesis
    by (simp add: route_event_def)
next
  case (Some r)
  have inv: "hub_inv h"
    by (rule hub_reachable_inv [OF assms])
  obtain r1 where r1: "map_of (routes (note_loss e (sa_ip p, n) q h)) (sa_ip p, n) = Some r1"
    and chan: "rt_chan r1 = rt_chan r"
    using note_loss_route [OF Some] by blast
  have ch: "chans (handle_msg e p (Imu n q ss) h) =
    (if ch_open (chans h (rt_chan r)) \<and> length (ch_queue (chans h (rt_chan r))) < CHANNEL_CAP
     then (chans h)(rt_chan r := (chans h (rt_chan r))\<lparr>ch_queue := ch_queue (chans h (rt_chan r)) @ [EvImu ss]\<rparr>)
     else chans h)" "registered (handle_msg e p (Imu n q ss) h) = registered h"
    using r1 chan by (auto simp: route_event_def Let_def chan_try_send_def)
  have "k' = (sa_ip p, n) \<or> rt_chan r' \<noteq> rt_chan r" if "(k', r') \<in> set (routes h)" for k' r'
  proof -
    have "map_of (routes h) k' = Some r'"
      using that inv by (simp add: hub_inv_def map_of_is_SomeI)
    then show ?thesis
      using route_chan_inj [OF inv _ Some] by blast
  qed
  with Some ch show ?thesis
    by (auto simp: Let_def list_all_iff)
qed

theorem samples_reach_their_route_only_witness:
  "registered (handle_msg sample_env (sample_peer 5000) (Imu 7 None []) sample_hub) = registered sample_hub"
  using samples_reach_their_route_only [OF sample_hub_reachable, of sample_env "sample_peer 5000" 7 None "[]"]
    sample_route [of 5000]
  by (auto simp: Let_def simp del: handle_msg.simps)

text \<open>
  The loss counter is right across the wrap-around of the 16-bit sequence
  number: of a sender that numbers its datagrams consecutively, with gaps below a thousand,
  within one ten-second window, the receiver counts every datagram that arrived and exactly
  those that did not.
\<close>

theorem loss_counts_missing:
  assumes "small_gaps n0 (map snd xs)" "duration_since t2 t1 < from_secs 10"
    and "\<forall>ts \<in> set (map fst xs). in_window t1 ts"
  shows "let s = loss_feed loss_default (((t1, t2, t3), n0) # xs); final = last (n0 # map snd xs) in
    ls_received s = of_nat (Suc (length xs)) \<and> ls_lost s = of_nat (Suc (final - n0) - Suc (length xs))"
proof -
  let ?s = "snd (loss_record (t1, t2, t3) (of_nat n0) loss_default)"
  have s: "?s = \<lparr>ls_last_seq = Some (of_nat n0), ls_received = 1, ls_lost = 0, ls_window_start = Some t1\<rparr>"
    using assms(2) by (simp add: loss_record_def count_gap_def loss_default_def Let_def)
  have "ls_received (loss_feed ?s xs) = ls_received ?s + of_nat (length xs)
    \<and> ls_lost (loss_feed ?s xs) = ls_lost ?s + of_nat (last (n0 # map snd xs) - n0 - length xs)"
    using loss_feed_gaps [of ?s n0 t1 xs] assms(1,3) s by simp
  then show ?thesis
    by (simp add: Let_def s)
qed

theorem loss_counts_missing_witness:
  "ls_lost (loss_feed loss_default
     [((0, 0, 0), 65534), ((0, 1, 1), 65535), ((0, 2, 2), 65540), ((0, 3, 3), 65541)]) = 4"
  using loss_counts_missing [of 65534 "[((0, 1, 1), 65535), ((0, 2, 2), 65540), ((0, 3, 3), 65541)]" 0 0 0]
  by (simp add: Let_def in_window_def duration_since_def from_secs_def del: loss_feed.simps)

text \<open>
  A sweep drops exactly the routes that have been silent for fifteen seconds or
  more, keeps the rumble target of a hub exactly as long as one of its routes remains, and
  touches no device, channel or address.
\<close>

theorem sweep_drops_stale:
  assumes "hub_reachable h"
  shows "map_of (routes (sweep now h)) k =
      (case map_of (routes h) k of
         Some r \<Rightarrow> if duration_since now (rt_last_seen r) < from_secs 15 then Some r else None
       | None \<Rightarrow> None)
    \<and> map_of (hub_peers (sweep now h)) ip =
      (if list_ex (\<lambda>(k, r). fst k = ip) (routes (sweep now h)) then map_of (hub_peers h) ip else None)
    \<and> (cells (sweep now h), chans (sweep now h), registered (sweep now h)) = (cells h, chans h, registered h)"
proof -
  have d: "distinct (map fst (routes h))"
    using hub_reachable_inv [OF assms] by (simp add: hub_inv_def)
  show ?thesis
    by (simp add: sweep_def Let_def map_of_filter_key map_of_filter_case [OF d] STALE_AFTER_def split_beta
        split: option.split)
qed

theorem sweep_drops_stale_witness:
  "map_of (hub_peers (sweep 0 sample_hub)) (V4 10 0 0 2) =
     (if list_ex (\<lambda>(k, r). fst k = V4 10 0 0 2) (routes (sweep 0 sample_hub))
      then map_of (hub_peers sample_hub) (V4 10 0 0 2) else None)"
  using sweep_drops_stale [OF sample_hub_reachable] by blast

text \<open>
  The intensity in a rumble datagram lies between 0 and 1 for every number, but
  a NaN is sent as it is: the clamp lets it through, unlike the shared conversion that maps
  it to 0.
\<close>

theorem rumble_clamps_all_but_nan:
  "let y = f32_clamp x 0 1 in
    fst (remote_set_rumble cs d x) = encode_rumble (rd_handle d) y
    \<and> (if f32_is_nan x then y = x \<and> clamp01 x = 0 else unit_val (f32_val y) \<and> clamp01 x = y)"
proof (cases "f32_is_nan x")
  case True
  then have "f32_clamp x 0 1 = x"
    using f32_not_less_nan [OF True, of 0] f32_not_less_nan [OF True, of 1]
    by (simp add: f32_clamp_def Let_def)
  with True show ?thesis
    by (simp add: remote_set_rumble_def Let_def clamp01_def)
next
  case False
  with f32_clamp_unit [of x] show ?thesis
    by (simp add: remote_set_rumble_def Let_def clamp01_def)
qed

end
