(* ===== verification/Text_Parse.thy ===== *)
theory Text_Parse
  imports Text_Utf8 "HOL-Library.Sublist"
begin

section \<open>String operations of the standard library\<close>

text \<open>
  The methods of \<^verbatim>\<open>str\<close> the drivers and the settings use: \<^verbatim>\<open>trim\<close>, splitting at a character,
  ASCII case, and the parsers of unsigned integers.
\<close>

subsection \<open>Trimming\<close>

text \<open>The UTF-8 encodings of the characters \<^verbatim>\<open>str::trim\<close> removes (Unicode White_Space).\<close>

definition ws_seqs :: "string list" where
  "ws_seqs = map (map byte_char)
     ([[9], [10], [11], [12], [13], [32], [0xC2, 0x85], [0xC2, 0xA0], [0xE1, 0x9A, 0x80]]
      @ map (\<lambda>b. [0xE2, 0x80, b])
          [0x80, 0x81, 0x82, 0x83, 0x84, 0x85, 0x86, 0x87, 0x88, 0x89, 0x8A, 0xA8, 0xA9, 0xAF]
      @ [[0xE2, 0x81, 0x9F], [0xE3, 0x80, 0x80]])"

text \<open>Removing any of \<open>ws\<close> from the front, again and again.\<close>

function strip_front :: "string list \<Rightarrow> string \<Rightarrow> string" where
  "strip_front ws s =
     (case find (\<lambda>w. w \<noteq> [] \<and> prefix w s) ws of
        None \<Rightarrow> s
      | Some w \<Rightarrow> strip_front ws (drop (length w) s))"
  by pat_completeness auto
termination
  by (relation "measure (\<lambda>(ws, s). length s)")
    (auto simp: find_Some_iff prefix_def)

declare strip_front.simps [simp del]

definition trim :: "string \<Rightarrow> string" where
  "trim s = rev (strip_front (map rev ws_seqs) (rev (strip_front ws_seqs s)))"

subsection \<open>ASCII\<close>

definition ascii_lower :: "char \<Rightarrow> char" where
  "ascii_lower c =
     (let n = of_char c :: nat in if 65 \<le> n \<and> n \<le> 90 then char_of (n + 32) else c)"

definition eq_ignore_ascii_case :: "string \<Rightarrow> string \<Rightarrow> bool" where
  "eq_ignore_ascii_case s t \<longleftrightarrow> map ascii_lower s = map ascii_lower t"

definition is_digit :: "char \<Rightarrow> bool" where
  "is_digit c \<longleftrightarrow> (let n = of_char c :: nat in 48 \<le> n \<and> n \<le> 57)"

definition digits_nat :: "string \<Rightarrow> nat" where
  "digits_nat s = foldl (\<lambda>n c. 10 * n + (of_char c - 48)) 0 s"

fun parse_sign :: "string \<Rightarrow> bool \<times> string" where
  "parse_sign (c # cs) =
     (if c = CHR ''-'' then (True, cs) else if c = CHR ''+'' then (False, cs) else (False, c # cs))"
| "parse_sign [] = (False, [])"

subsection \<open>Splitting and unsigned integers\<close>

text \<open>\<^verbatim>\<open>split\<close>: the pieces between the separators, at least one.\<close>

fun split_on :: "(char \<Rightarrow> bool) \<Rightarrow> string \<Rightarrow> string list" where
  "split_on p [] = [[]]"
| "split_on p (c # cs) =
     (if p c then [] # split_on p cs
      else case split_on p cs of w # ws \<Rightarrow> (c # w) # ws | [] \<Rightarrow> [[c]])"

definition contains :: "string \<Rightarrow> string \<Rightarrow> bool" where
  "contains s pat = sublist pat s"

definition digit_of :: "char \<Rightarrow> nat option" where
  "digit_of c =
     (let n = of_char c :: nat in
      if 48 \<le> n \<and> n \<le> 57 then Some (n - 48)
      else if 65 \<le> n \<and> n \<le> 90 then Some (n - 55)
      else if 97 \<le> n \<and> n \<le> 122 then Some (n - 87)
      else None)"

fun digits_radix :: "nat \<Rightarrow> nat \<Rightarrow> string \<Rightarrow> nat option" where
  "digits_radix r acc [] = Some acc"
| "digits_radix r acc (c # cs) =
     (case digit_of c of
        None \<Rightarrow> None
      | Some d \<Rightarrow> if d < r then digits_radix r (r * acc + d) cs else None)"

text \<open>
  \<^verbatim>\<open>from_str_radix\<close> of an unsigned type: an optional plus sign, then at least one digit, the
  value not above \<open>limit\<close>.
\<close>

definition from_str_radix :: "nat \<Rightarrow> nat \<Rightarrow> string \<Rightarrow> nat option" where
  "from_str_radix limit r s =
     (let ds = (if prefix ''+'' s \<and> length s > 1 then tl s else s) in
      if ds = [] then None
      else case digits_radix r 0 ds of
             Some n \<Rightarrow> if n \<le> limit then Some n else None
           | None \<Rightarrow> None)"

end
