(* ===== verification/Float_Ops.thy ===== *)
theory Float_Ops
  imports Ieee_Float
begin

section \<open>Square roots, casts between formats, and durations as floats\<close>

text \<open>
  Further operations of Rust's floating-point types: the correctly rounded \<^verbatim>\<open>sqrt\<close>, the
  casts between \<^verbatim>\<open>f32\<close>, \<^verbatim>\<open>f64\<close> and integers, \<^verbatim>\<open>clamp\<close>, and \<^verbatim>\<open>Duration::as_secs_f64\<close>.
\<close>

subsection \<open>Square root\<close>

text \<open>The integer square root, two bits at a time.\<close>

fun isqrt :: "nat \<Rightarrow> nat" where
  "isqrt n =
     (if n = 0 then 0
      else let r = 2 * isqrt (n div 4) in if Suc r * Suc r \<le> n then Suc r else r)"

declare isqrt.simps [simp del]

lemma isqrt_bounds: "isqrt n * isqrt n \<le> n \<and> n < Suc (isqrt n) * Suc (isqrt n)"
proof (induction n rule: isqrt.induct)
  case (1 n)
  show ?case
  proof (cases "n = 0")
    case True
    then show ?thesis by (simp add: isqrt.simps)
  next
    case False
    let ?s = "isqrt (n div 4)"
    from 1 [OF False] have lo: "?s * ?s \<le> n div 4" and hi: "n div 4 < Suc ?s * Suc ?s" by auto
    from hi have "n div 4 + 1 \<le> Suc ?s * Suc ?s" by simp
    moreover have "n < 4 * (n div 4 + 1)" by presburger
    ultimately have up: "n < 4 * (Suc ?s * Suc ?s)"
      by (meson less_le_trans mult_le_mono2)
    have down: "4 * (?s * ?s) \<le> n"
      using lo by (metis div_times_less_eq_dividend le_trans mult.commute mult_le_mono2)
    show ?thesis
      using up down False by (subst (1 2 3 4) isqrt.simps) (auto simp: Let_def)
  qed
qed

text \<open>
  The root of \<open>k\<close> units is the root of \<open>k * funit\<close> units. The remainder enters as half a
  unit in the last place of the integer root, far below the precision of the format.
\<close>

fun fp_sqrt :: "fmt \<Rightarrow> fp \<Rightarrow> fp" where
  "fp_sqrt F FNaN = FNaN"
| "fp_sqrt F (FInf s) = (if s then FNaN else FInf False)"
| "fp_sqrt F (FFin s k) =
     (if k = 0 then FFin s 0
      else if s then FNaN
      else let n = k * funit F; r = isqrt n
           in fp_make F False (2 * r + (if r * r = n then 0 else 1)) 2)"

definition f32_sqrt :: "f32 \<Rightarrow> f32" where
  "f32_sqrt x = f32_of (fp_sqrt fmt32 (f32_val x))"

definition f64_sqrt :: "f64 \<Rightarrow> f64" where
  "f64_sqrt x = f64_of (fp_sqrt fmt64 (f64_val x))"

lemma fp_ok_sqrt: "fp_ok F v \<Longrightarrow> fp_ok F (fp_sqrt F v)"
  by (cases v) (auto simp: Let_def)

lemma f32_val_sqrt [simp]: "f32_val (f32_sqrt x) = fp_sqrt fmt32 (f32_val x)"
  by (simp add: f32_sqrt_def fp_ok_sqrt)

lemma f64_val_sqrt [simp]: "f64_val (f64_sqrt x) = fp_sqrt fmt64 (f64_val x)"
  by (simp add: f64_sqrt_def fp_ok_sqrt)

subsection \<open>Casts\<close>

definition fp_cast :: "fmt \<Rightarrow> fmt \<Rightarrow> fp \<Rightarrow> fp" where
  "fp_cast F G v =
     (case v of
        FNaN \<Rightarrow> FNaN
      | FInf s \<Rightarrow> FInf s
      | FFin s k \<Rightarrow> fp_make G s (k * funit G) (funit F))"

definition f32_of_f64 :: "f64 \<Rightarrow> f32" where
  "f32_of_f64 d = f32_of (fp_cast fmt64 fmt32 (f64_val d))"

definition f64_of_f32 :: "f32 \<Rightarrow> f64" where
  "f64_of_f32 x = f64_of (fp_cast fmt32 fmt64 (f32_val x))"

definition f64_clamp :: "f64 \<Rightarrow> f64 \<Rightarrow> f64 \<Rightarrow> f64" where
  "f64_clamp x lo hi = (let y = (if x < lo then lo else x) in if hi < y then hi else y)"

definition f32_to_nat :: "nat \<Rightarrow> f32 \<Rightarrow> nat" where
  "f32_to_nat m x = fp_to_nat_sat fmt32 m (f32_val x)"

definition f64_is_nan :: "f64 \<Rightarrow> bool" where
  "f64_is_nan x = (f64_val x = FNaN)"

text \<open>\<^verbatim>\<open>Duration::as_secs_f64\<close>: whole seconds plus nanoseconds over a billion.\<close>

definition as_secs_f64 :: "duration \<Rightarrow> f64" where
  "as_secs_f64 d =
     f64_of_int (int (d div 1000000000)) + f64_of_int (int (d mod 1000000000)) / f64_of_int 1000000000"

definition as_micros :: "duration \<Rightarrow> nat" where
  "as_micros d = d div 1000"

definition as_millis :: "duration \<Rightarrow> nat" where
  "as_millis d = d div 1000000"

lemma fp_ok_cast: "0 < funit F \<Longrightarrow> fp_ok G (fp_cast F G v)"
  by (simp add: fp_cast_def split: fp.split)

lemma f32_val_of_f64 [simp]: "f32_val (f32_of_f64 d) = fp_cast fmt64 fmt32 (f64_val d)"
  by (simp add: f32_of_f64_def fp_ok_cast)

lemma f64_val_of_f32 [simp]: "f64_val (f64_of_f32 x) = fp_cast fmt32 fmt64 (f32_val x)"
  by (simp add: f64_of_f32_def fp_ok_cast)

lemma mbits_simps [simp]: "mbits fmt32 = 23" "mbits fmt64 = 52"
  by (simp_all add: fmt32_def fmt64_def)

subsection \<open>Monotonicity\<close>

lemma fp_round_int_mono: "k \<le> l \<Longrightarrow> (2 * k + u) div (2 * u) * u \<le> (2 * l + u) div (2 * u) * (u :: nat)"
  by (intro mult_le_mono1 div_le_mono) simp

end
