(* ===== verification/Osc_Config.thy ===== *)
theory Osc_Config
  imports Device_Traits Text_Parse Float_Ops "HOL-Library.AList"
begin

section \<open>Haptic rules, their mapping and the parameter sniffer\<close>

text \<open>
  \<^verbatim>\<open>crates/osc-haptics\<close>, the parts without a socket: \<^verbatim>\<open>config.rs\<close> (rules and the normalisation
  of addresses), \<^verbatim>\<open>mapping.rs\<close> (OSC value to rumble command), \<^verbatim>\<open>test_fire.rs\<close> (simulated
  dispatch) and \<^verbatim>\<open>sniffer.rs\<close> (the bounded table of addresses seen). The argument types of
  the \<^verbatim>\<open>rosc\<close> crate are the datatype below; all that is used of them is which variant an
  argument is.
\<close>

subsection \<open>Configuration\<close>

datatype haptic_mode =
    Proximity f32 f32
  | Pulse u32

definition default_mode :: haptic_mode where
  "default_mode = Proximity 1 (f32_lit 5 100)"

record haptic_rule =
  hr_address :: text_string
  hr_mac :: mac
  hr_mode :: haptic_mode

record haptic_config =
  hc_enabled :: bool
  hc_port :: u16
  hc_rules :: "haptic_rule list"

definition default_config :: haptic_config where
  "default_config = \<lparr>hc_enabled = False, hc_port = 9001, hc_rules = []\<rparr>"

definition VRCHAT_PARAM_PREFIX :: text_string where
  "VRCHAT_PARAM_PREFIX = ''/avatar/parameters/''"

definition normalize_address :: "text_string \<Rightarrow> text_string" where
  "normalize_address raw =
     (let trimmed = trim raw in
      if trimmed = [] then []
      else if hd trimmed = CHR ''/'' then trimmed
      else VRCHAT_PARAM_PREFIX @ trimmed)"

definition rule_new :: "text_string \<Rightarrow> mac \<Rightarrow> haptic_mode \<Rightarrow> haptic_rule" where
  "rule_new addr m mode = \<lparr>hr_address = normalize_address addr, hr_mac = m, hr_mode = mode\<rparr>"

definition rule_normalize :: "haptic_rule \<Rightarrow> haptic_rule" where
  "rule_normalize r = r\<lparr>hr_address := normalize_address (hr_address r)\<rparr>"

definition normalize_rules :: "haptic_config \<Rightarrow> haptic_config" where
  "normalize_rules c = c\<lparr>hc_rules := map rule_normalize (hc_rules c)\<rparr>"

subsection \<open>Mapping\<close>

datatype osc_type = OscBool bool | OscInt i32 | OscFloat f32 | OscDouble f64 | OscOther

record haptic_action =
  ha_mac :: mac
  ha_intensity :: f32
  ha_pulse_ms :: "u32 option"

fun osc_value_to_f32 :: "osc_type \<Rightarrow> f32 option" where
  "osc_value_to_f32 (OscBool b) = Some (if b then 1 else 0)"
| "osc_value_to_f32 (OscInt i) = Some (f32_of_int (sint i))"
| "osc_value_to_f32 (OscFloat f) = Some f"
| "osc_value_to_f32 (OscDouble d) = Some (f32_of_f64 d)"
| "osc_value_to_f32 OscOther = None"

fun apply_mode :: "mac \<Rightarrow> haptic_mode \<Rightarrow> f32 \<Rightarrow> haptic_action" where
  "apply_mode m (Proximity gain min_threshold) value =
     \<lparr>ha_mac = m, ha_intensity = (if value < min_threshold then 0 else clamp01 (value * gain)),
      ha_pulse_ms = None\<rparr>"
| "apply_mode m (Pulse ms) value =
     (if f32_lit 1 2 < value then \<lparr>ha_mac = m, ha_intensity = 1, ha_pulse_ms = Some ms\<rparr>
      else \<lparr>ha_mac = m, ha_intensity = 0, ha_pulse_ms = None\<rparr>)"

definition resolve :: "haptic_rule list \<Rightarrow> text_string \<Rightarrow> f32 \<Rightarrow> haptic_action list" where
  "resolve rules address value =
     map (\<lambda>r. apply_mode (hr_mac r) (hr_mode r) value) (filter (\<lambda>r. hr_address r = address) rules)"

subsection \<open>Simulated dispatch\<close>

record test_fire_outcome =
  tf_address :: text_string
  tf_actions :: "haptic_action list"

definition tf_matched :: "test_fire_outcome \<Rightarrow> bool" where
  "tf_matched o' \<longleftrightarrow> tf_actions o' \<noteq> []"

definition simulate_dispatch :: "haptic_rule list \<Rightarrow> text_string \<Rightarrow> f32 \<Rightarrow> test_fire_outcome" where
  "simulate_dispatch rules address value =
     (let normalised = normalize_address address in
      \<lparr>tf_address = normalised,
       tf_actions = (if normalised = [] then [] else resolve rules normalised value)\<rparr>)"

definition simulate_against_config :: "haptic_config \<Rightarrow> text_string \<Rightarrow> f32 \<Rightarrow> test_fire_outcome" where
  "simulate_against_config config = simulate_dispatch (hc_rules config)"

subsection \<open>Sniffer\<close>

record sniffer_entry =
  se_address :: text_string
  se_count :: u64
  se_min :: f32
  se_max :: f32
  se_latest :: f32
  se_last_seen :: instant

text \<open>The hash map is an association list with one entry per address.\<close>

record sniffer =
  sn_entries :: "(text_string \<times> sniffer_entry) list"
  sn_cap :: nat

definition sniffer_new :: "nat \<Rightarrow> sniffer" where
  "sniffer_new cap = \<lparr>sn_entries = [], sn_cap = max cap 1\<rparr>"

definition sniffer_default :: sniffer where
  "sniffer_default = sniffer_new 512"

text \<open>The key whose entry was seen longest ago.\<close>

fun oldest :: "(text_string \<times> sniffer_entry) list \<Rightarrow> (text_string \<times> sniffer_entry) option" where
  "oldest [] = None"
| "oldest (x # xs) =
     (case oldest xs of
        None \<Rightarrow> Some x
      | Some y \<Rightarrow> Some (if se_last_seen (snd y) < se_last_seen (snd x) then y else x))"

definition evict_oldest :: "sniffer \<Rightarrow> sniffer" where
  "evict_oldest s =
     (case oldest (sn_entries s) of
        None \<Rightarrow> s
      | Some (k, _) \<Rightarrow> s\<lparr>sn_entries := AList.delete k (sn_entries s)\<rparr>)"

definition sniffer_update :: "instant \<Rightarrow> f32 \<Rightarrow> sniffer_entry \<Rightarrow> sniffer_entry" where
  "sniffer_update now value e =
     (let e1 = e\<lparr>se_count := saturating_add (se_count e) 1, se_latest := value\<rparr>;
          e2 = (if value < se_min e1 then e1\<lparr>se_min := value\<rparr> else e1);
          e3 = (if se_max e2 < value then e2\<lparr>se_max := value\<rparr> else e2)
      in e3\<lparr>se_last_seen := now\<rparr>)"

definition ingest :: "instant \<Rightarrow> text_string \<Rightarrow> f32 \<Rightarrow> sniffer \<Rightarrow> sniffer" where
  "ingest now address value s =
     (case map_of (sn_entries s) address of
        Some e \<Rightarrow> s\<lparr>sn_entries := AList.update address (sniffer_update now value e) (sn_entries s)\<rparr>
      | None \<Rightarrow>
          let s1 = (if sn_cap s \<le> length (sn_entries s) then evict_oldest s else s)
          in s1\<lparr>sn_entries := AList.update address
               \<lparr>se_address = address, se_count = 1, se_min = value, se_max = value,
                se_latest = value, se_last_seen = now\<rparr> (sn_entries s1)\<rparr>)"

definition snapshot :: "sniffer \<Rightarrow> sniffer_entry list" where
  "snapshot s = rev (sort_key se_last_seen (rev (map snd (sn_entries s))))"

definition sniffer_clear :: "sniffer \<Rightarrow> sniffer" where
  "sniffer_clear s = s\<lparr>sn_entries := []\<rparr>"

subsection \<open>Lemmas: trimming and normalising\<close>

definition no_front :: "string list \<Rightarrow> string \<Rightarrow> bool" where
  "no_front ws s \<longleftrightarrow> (\<forall>w \<in> set ws. w \<noteq> [] \<longrightarrow> \<not> prefix w s)"

lemma find_no_front: "find (\<lambda>w. w \<noteq> [] \<and> prefix w s) ws = None \<longleftrightarrow> no_front ws s"
  by (auto simp: find_None_iff no_front_def)

lemma strip_front_id: "no_front ws s \<Longrightarrow> strip_front ws s = s"
  by (subst strip_front.simps) (simp add: find_no_front [THEN iffD2])

lemma strip_front_spec: "no_front ws (strip_front ws s) \<and> suffix (strip_front ws s) s"
proof (induction ws s rule: strip_front.induct)
  case (1 ws s)
  show ?case
  proof (cases "find (\<lambda>w. w \<noteq> [] \<and> prefix w s) ws")
    case None
    then show ?thesis
      using strip_front_id by (simp add: find_no_front)
  next
    case (Some w)
    then have "strip_front ws s = strip_front ws (drop (length w) s)"
      by (subst strip_front.simps) simp
    with 1 [OF Some] show ?thesis
      by (auto intro: suffix_order.trans [OF _ suffix_drop])
  qed
qed

lemma no_front_prefix: "no_front ws s \<Longrightarrow> prefix t s \<Longrightarrow> no_front ws t"
  using prefix_order.trans by (auto simp: no_front_def)

lemma trim_fronts: "no_front ws_seqs (trim s) \<and> no_front (map rev ws_seqs) (rev (trim s))"
proof -
  let ?a = "strip_front ws_seqs s"
  have "suffix (rev (trim s)) (rev ?a)" and ends: "no_front (map rev ws_seqs) (rev (trim s))"
    using strip_front_spec [of "map rev ws_seqs" "rev ?a"] by (simp_all add: trim_def)
  then have "prefix (trim s) ?a"
    by (simp add: suffix_to_prefix)
  then show ?thesis
    using no_front_prefix strip_front_spec ends by blast
qed

lemma trim_id: "no_front ws_seqs s \<Longrightarrow> no_front (map rev ws_seqs) (rev s) \<Longrightarrow> trim s = s"
  by (simp add: trim_def strip_front_id)

lemma trim_trim: "trim (trim s) = trim s"
  using trim_fronts trim_id by blast

lemma ws_seqs_no_slash: "list_all (\<lambda>w. w \<noteq> [] \<and> CHR ''/'' \<notin> set w) ws_seqs"
  by code_simp

lemma ws_slash: "w \<in> set ws_seqs \<Longrightarrow> w \<noteq> [] \<and> CHR ''/'' \<notin> set w"
  using ws_seqs_no_slash by (auto simp: list_all_iff)

lemma trim_slash:
  assumes "no_front (map rev ws_seqs) (rev t)" "t \<noteq> []" "p \<noteq> []" "hd p = CHR ''/''" "last p = CHR ''/''"
  shows "trim (p @ t) = p @ t"
proof (rule trim_id)
  show "no_front ws_seqs (p @ t)"
    unfolding no_front_def
  proof (intro ballI impI notI)
    fix w assume w: "w \<in> set ws_seqs" "w \<noteq> []" "prefix w (p @ t)"
    then have "hd w = CHR ''/''"
      using assms(3,4) by (auto simp: prefix_def neq_Nil_conv append_eq_Cons_conv)
    with w ws_slash [OF w(1)] show False
      by (metis list.set_sel(1))
  qed
  show "no_front (map rev ws_seqs) (rev (p @ t))"
    unfolding no_front_def
  proof (intro ballI impI notI)
    fix w assume w: "w \<in> set (map rev ws_seqs)" "w \<noteq> []" "prefix w (rev (p @ t))"
    then have slash: "CHR ''/'' \<notin> set w"
      using ws_slash by auto
    from w(3) consider "prefix w (rev t)" | us where "w = rev t @ us" "prefix us (rev p)"
      by (auto simp: prefix_append)
    then show False
    proof cases
      case 1
      with assms(1) w show False by (auto simp: no_front_def)
    next
      case 2
      show False
      proof (cases us)
        case Nil
        with 2 assms(1) w show False by (auto simp: no_front_def)
      next
        case (Cons u us')
        with 2(2) have "u = hd (rev p)"
          using assms(3) by (cases "rev p") auto
        then have "u = CHR ''/''"
          using assms(3,5) by (simp add: hd_rev)
        with 2(1) Cons slash show False by simp
      qed
    qed
  qed
qed

lemma trim_Nil [simp]: "trim [] = []"
  by (rule trim_id) (auto simp: no_front_def)

lemma normalize_idem: "normalize_address (normalize_address raw) = normalize_address raw"
proof -
  let ?t = "trim raw"
  consider "?t = []" | "?t \<noteq> []" "hd ?t = CHR ''/''" | "?t \<noteq> []" "hd ?t \<noteq> CHR ''/''"
    by blast
  then show ?thesis
  proof cases
    case 1
    then show ?thesis by (simp add: normalize_address_def)
  next
    case 2
    then show ?thesis by (simp add: normalize_address_def trim_trim Let_def)
  next
    case 3
    then have "trim (VRCHAT_PARAM_PREFIX @ ?t) = VRCHAT_PARAM_PREFIX @ ?t"
      using trim_fronts [of raw] by (intro trim_slash) (auto simp: VRCHAT_PARAM_PREFIX_def)
    with 3 show ?thesis
      by (simp add: normalize_address_def Let_def) (simp add: VRCHAT_PARAM_PREFIX_def)
  qed
qed

subsection \<open>Lemmas: intensities\<close>

definition unit_f32 :: "f32 \<Rightarrow> bool" where
  "unit_f32 x \<longleftrightarrow> unit_val (f32_val x)"

lemma unit_0_1 [simp]: "unit_f32 0" "unit_f32 1"
  by (auto simp: unit_f32_def unit_val_def sgn_int_def)

lemma unit_clamp01 [simp]: "unit_f32 (clamp01 x)"
  using f32_clamp_unit [of x] by (simp add: clamp01_def) (auto simp: unit_f32_def)

lemma unit_apply_mode: "unit_f32 (ha_intensity (apply_mode m mode v))"
  by (cases mode) simp_all

lemma unit_resolve: "a \<in> set (resolve rules addr v) \<Longrightarrow> unit_f32 (ha_intensity a)"
  by (auto simp: resolve_def unit_apply_mode)

subsection \<open>Lemmas: the sniffer\<close>

declare map_of_eq_Some_iff [simp del] Some_eq_map_of_iff [simp del]

definition sniffer_inv :: "sniffer \<Rightarrow> bool" where
  "sniffer_inv s \<longleftrightarrow> 1 \<le> sn_cap s \<and> length (sn_entries s) \<le> sn_cap s
     \<and> distinct (map fst (sn_entries s))
     \<and> (\<forall>k e. map_of (sn_entries s) k = Some e \<longrightarrow> se_address e = k)"

lemma oldest_in: "oldest xs = Some x \<Longrightarrow> x \<in> set xs"
  by (induction xs arbitrary: x) (auto split: option.splits if_splits)

lemma oldest_None: "oldest xs = None \<longleftrightarrow> xs = []"
  by (cases xs) (auto split: option.splits)

lemma oldest_min: "oldest xs = Some x \<Longrightarrow> y \<in> set xs \<Longrightarrow> se_last_seen (snd x) \<le> se_last_seen (snd y)"
proof (induction xs arbitrary: x y)
  case Nil
  then show ?case by simp
next
  case (Cons a xs)
  show ?case
  proof (cases "oldest xs")
    case None
    with Cons.prems show ?thesis by (auto simp: oldest_None)
  next
    case (Some z)
    from Cons.IH [OF this] Some Cons.prems show ?thesis
      by (fastforce split: if_splits)
  qed
qed

lemma length_delete: "k \<in> fst ` set xs \<Longrightarrow> distinct (map fst xs) \<Longrightarrow> Suc (length (AList.delete k xs)) = length xs"
proof (induction xs)
  case Nil
  then show ?case by simp
next
  case (Cons x xs)
  show ?case
  proof (cases "fst x = k")
    case True
    with Cons.prems have "k \<notin> fst ` set xs" by auto
    with True show ?thesis by (cases x) (simp add: delete_id)
  next
    case False
    with Cons show ?thesis by (cases x) auto
  qed
qed

lemma length_update:
  "length (AList.update k v xs) = (if k \<in> fst ` set xs then length xs else Suc (length xs))"
  by (induction xs) auto

lemma evict_inv:
  assumes "sniffer_inv s"
  shows "sniffer_inv (evict_oldest s)
    \<and> (sn_entries s \<noteq> [] \<longrightarrow> length (sn_entries (evict_oldest s)) < length (sn_entries s))
    \<and> sn_cap (evict_oldest s) = sn_cap s"
proof (cases "oldest (sn_entries s)")
  case None
  with assms show ?thesis
    by (simp add: evict_oldest_def oldest_None)
next
  case (Some x)
  have "fst x \<in> fst ` set (sn_entries s)"
    using oldest_in [OF Some] by auto
  with Some assms length_delete [of "fst x" "sn_entries s"] show ?thesis
    by (auto simp: evict_oldest_def sniffer_inv_def distinct_delete delete_conv' split: if_splits prod.split)
qed

lemma insert_inv:
  assumes "sniffer_inv s" "se_address e = a" "a \<in> fst ` set (sn_entries s) \<or> length (sn_entries s) < sn_cap s"
  shows "sniffer_inv (s\<lparr>sn_entries := AList.update a e (sn_entries s)\<rparr>)"
  using assms
  by (auto simp: sniffer_inv_def distinct_update length_update update_conv' split: if_splits)

lemma update_address [simp]: "se_address (sniffer_update now v e) = se_address e"
  by (simp add: sniffer_update_def Let_def)

lemma ingest_inv:
  assumes "sniffer_inv s"
  shows "sniffer_inv (ingest now a v s)"
proof (cases "map_of (sn_entries s) a")
  case (Some e)
  then have "a \<in> fst ` set (sn_entries s)"
    using map_of_SomeD by force
  with assms Some show ?thesis
    by (simp add: ingest_def) (rule insert_inv, auto simp: sniffer_inv_def)
next
  case None
  let ?s = "if sn_cap s \<le> length (sn_entries s) then evict_oldest s else s"
  have "sniffer_inv ?s"
    using assms evict_inv by simp
  moreover have "length (sn_entries ?s) < sn_cap ?s"
    using assms evict_inv [OF assms] by (auto simp: sniffer_inv_def)
  ultimately show ?thesis
    using None by (simp add: ingest_def Let_def insert_inv split del: if_split)
qed

lemma sniffer_new_inv: "sniffer_inv (sniffer_new cap)"
  by (simp add: sniffer_inv_def sniffer_new_def)

text \<open>The values an address carried, by the entry: the extremes bound every number seen.\<close>

definition bounds_ok :: "sniffer_entry \<Rightarrow> f32 \<Rightarrow> bool" where
  "bounds_ok e v \<longleftrightarrow> \<not> v < se_min e \<and> \<not> se_max e < v"

lemma fp_less_trans2: "\<not> fp_less v a \<Longrightarrow> fp_less b a \<Longrightarrow> \<not> fp_less v b"
  by (cases v; cases a; cases b) (auto split: if_splits)

lemma fp_less_trans3: "\<not> fp_less a v \<Longrightarrow> fp_less a b \<Longrightarrow> \<not> fp_less b v"
  by (cases v; cases a; cases b) (auto split: if_splits)

lemma fp_less_asym: "fp_less a b \<Longrightarrow> \<not> fp_less b a"
  by (cases a; cases b) auto

lemma sniffer_update_bounds:
  assumes "\<not> se_max e < se_min e"
  shows "bounds_ok (sniffer_update now v e) v
    \<and> (bounds_ok e u \<longrightarrow> bounds_ok (sniffer_update now v e) u)
    \<and> \<not> se_max (sniffer_update now v e) < se_min (sniffer_update now v e)"
  using assms fp_less_trans2 [of "f32_val u" "f32_val (se_min e)" "f32_val v"]
    fp_less_trans3 [of "f32_val (se_max e)" "f32_val u" "f32_val v"]
    fp_less_trans2 [of "f32_val (se_max e)" "f32_val (se_min e)" "f32_val v"]
    fp_less_trans3 [of "f32_val (se_max e)" "f32_val (se_min e)" "f32_val v"]
    fp_less_asym [of "f32_val v" "f32_val (se_min e)"] fp_less_asym [of "f32_val v" "f32_val (se_max e)"]
  by (auto simp: bounds_ok_def sniffer_update_def Let_def less_f32_def)

definition ingest_all :: "(instant \<times> text_string \<times> f32) list \<Rightarrow> sniffer \<Rightarrow> sniffer" where
  "ingest_all ops s = fold (\<lambda>(t, a, v). ingest t a v) ops s"

lemma ingest_all_inv: "sniffer_inv s \<Longrightarrow> sniffer_inv (ingest_all ops s)"
  unfolding ingest_all_def by (induction ops arbitrary: s) (auto simp: ingest_inv)

lemma ingest_cap [simp]: "sn_cap (ingest t a v s) = sn_cap s"
  by (simp add: ingest_def evict_oldest_def Let_def split: option.split prod.split)

lemma ingest_all_cap [simp]: "sn_cap (ingest_all ops s) = sn_cap s"
  unfolding ingest_all_def by (induction ops arbitrary: s) auto

lemma ingest_present:
  "\<exists>e. map_of (sn_entries (ingest t a v s)) a = Some e \<and> se_latest e = v \<and> se_last_seen e = t"
  by (auto simp: ingest_def update_conv' sniffer_update_def Let_def split: option.split)

subsection \<open>Properties\<close>

text \<open>
  Normalising an address again changes nothing, and a normalised address is
  empty or absolute: a rule may be normalised when it is made, loaded and edited, and still
  match what the sender sends.
\<close>

theorem normalize_address_idempotent:
  "normalize_address (normalize_address raw) = normalize_address raw
    \<and> (case normalize_address raw of [] \<Rightarrow> trim raw = [] | c # cs \<Rightarrow> c = CHR ''/'')"
proof
  show "case normalize_address raw of [] \<Rightarrow> trim raw = [] | c # cs \<Rightarrow> c = CHR ''/''"
    by (cases "trim raw") (auto simp: normalize_address_def VRCHAT_PARAM_PREFIX_def Let_def)
qed (rule normalize_idem)

text \<open>
  Whatever is sent, the sniffer stays within its capacity with one entry per
  address, filed under that address, and what arrived last is shown with its value and time.
\<close>

theorem sniffer_bounded_and_current:
  "let s = ingest_all (ops @ [(t, a, v)]) (sniffer_new cap) in
    length (sn_entries s) \<le> max cap 1 \<and> distinct (map fst (sn_entries s))
    \<and> list_all (\<lambda>(k, e). se_address e = k) (sn_entries s)
    \<and> (\<exists>e. map_of (sn_entries s) a = Some e \<and> se_latest e = v \<and> se_last_seen e = t)"
proof -
  let ?s = "ingest_all (ops @ [(t, a, v)]) (sniffer_new cap)"
  have inv: "sniffer_inv ?s"
    by (rule ingest_all_inv [OF sniffer_new_inv])
  have last: "?s = ingest t a v (ingest_all ops (sniffer_new cap))"
    by (simp add: ingest_all_def)
  have "se_address e = k" if "(k, e) \<in> set (sn_entries ?s)" for k e
    using inv that by (simp add: sniffer_inv_def map_of_is_SomeI)
  moreover have "sn_cap ?s = max cap 1"
    by (simp add: sniffer_new_def)
  ultimately show ?thesis
    using inv ingest_present [of t a v] last by (auto simp: sniffer_inv_def Let_def list_all_iff)
qed

end
