(* ===== verification/Osc_Listener.thy ===== *)
theory Osc_Listener
  imports Osc_Config
begin

section \<open>The haptic bridge's loop\<close>

text \<open>
  \<^verbatim>\<open>crates/osc-haptics/src/listener.rs\<close>: the state of the serve loop, rate limiting, pulses,
  the idle watchdog, the handling of OSC packets, and the outer loop that binds the socket
  again on every change of the configuration. Decoding a datagram is the \<^verbatim>\<open>rosc\<close> crate's and
  is a parameter. Every reading of the clock takes the next of a sequence of instants that
  is part of the state. Beside the code's state, the state keeps the commands given to the
  rumble sink, newest first, each with its time and whether it bypassed the rate limit.
\<close>

subsection \<open>State\<close>

definition MIN_SEND_GAP :: duration where
  "MIN_SEND_GAP = from_millis 15"

definition INTENSITY_EPSILON :: f32 where
  "INTENSITY_EPSILON = f32_lit 3 100"

definition WATCHDOG_IDLE :: duration where
  "WATCHDOG_IDLE = from_secs 2"

definition MAX_TICK :: duration where
  "MAX_TICK = from_millis 250"

definition MAX_SEEN_ADDRS :: nat where
  "MAX_SEEN_ADDRS = 4096"

definition OSC_BUFFER :: nat where
  "OSC_BUFFER = 8192"

record sink_call =
  sc_intensity :: f32
  sc_time :: instant
  sc_force :: bool

record loop_state =
  last_sent :: "(mac \<times> instant \<times> f32) list"
  pulse_until :: "(mac \<times> instant) list"
  seen_addrs :: "text_string list"
  last_packet :: instant
  idle_silenced :: bool
  calls :: "(mac \<times> sink_call) list"
  discovered :: "text_string list"
  sniffing :: "sniffer option"
  clock :: "nat \<Rightarrow> instant"
  reads :: nat

definition read_clock :: "loop_state \<Rightarrow> instant \<times> loop_state" where
  "read_clock st = (clock st (reads st), st\<lparr>reads := reads st + 1\<rparr>)"

text \<open>
  The hash maps are association lists with one entry per key, so a loop over one runs in
  the order of the list. \<open>discovered\<close> holds the addresses offered to the discovery channel
  (a full channel drops them), \<open>calls\<close> the commands given to the sink.
  A fresh loop state; what the outside world has seen stays.\<close>

definition loop_new :: "loop_state \<Rightarrow> loop_state" where
  "loop_new st0 =
     (let (t, st) = read_clock st0 in
      st\<lparr>last_sent := [], pulse_until := [], seen_addrs := [], last_packet := t,
         idle_silenced := False\<rparr>)"

definition next_wake :: "instant \<Rightarrow> loop_state \<Rightarrow> duration" where
  "next_wake now st =
     (let wake = fold (\<lambda>(m, t) w. min w (duration_since t now)) (pulse_until st) MAX_TICK;
          wake' = (if \<not> idle_silenced st
                   then min wake (duration_since (last_packet st + WATCHDOG_IDLE) now) else wake)
      in max wake' (from_millis 1))"

subsection \<open>Sending\<close>

definition suppressed :: "mac \<Rightarrow> f32 \<Rightarrow> instant \<Rightarrow> loop_state \<Rightarrow> bool" where
  "suppressed m x now st =
     (case map_of (last_sent st) m of
        None \<Rightarrow> False
      | Some (t, prev) \<Rightarrow>
          (duration_since now t < MIN_SEND_GAP \<or> \<bar>x - prev\<bar> < INTENSITY_EPSILON) \<and> 0 < x)"

definition send :: "mac \<Rightarrow> f32 \<Rightarrow> bool \<Rightarrow> instant \<Rightarrow> loop_state \<Rightarrow> loop_state" where
  "send m x force now st =
     (if \<not> force \<and> suppressed m x now st then st
      else st\<lparr>last_sent := AList.update m (now, x) (last_sent st),
              calls := (m, \<lparr>sc_intensity = x, sc_time = now, sc_force = force\<rparr>) # calls st\<rparr>)"

definition pulse_off :: "instant \<Rightarrow> mac \<Rightarrow> loop_state \<Rightarrow> loop_state" where
  "pulse_off now m st = send m 0 True now (st\<lparr>pulse_until := AList.delete m (pulse_until st)\<rparr>)"

definition silence_all :: "loop_state \<Rightarrow> loop_state" where
  "silence_all st0 =
     (let (now, st) = read_clock st0;
          active = map fst (filter (\<lambda>(m, t, v). 0 < v) (last_sent st))
      in fold (pulse_off now) active st)"

definition on_tick :: "instant \<Rightarrow> loop_state \<Rightarrow> loop_state" where
  "on_tick now st =
     (let expired = map fst (filter (\<lambda>(m, t). t \<le> now) (pulse_until st));
          st1 = fold (pulse_off now) expired st
      in if \<not> idle_silenced st1 \<and> WATCHDOG_IDLE \<le> duration_since now (last_packet st1)
         then (silence_all st1)\<lparr>idle_silenced := True\<rparr> else st1)"

definition apply_action :: "instant \<Rightarrow> haptic_action \<Rightarrow> loop_state \<Rightarrow> loop_state" where
  "apply_action now a st =
     (case ha_pulse_ms a of
        Some ms \<Rightarrow>
          send (ha_mac a) (ha_intensity a) True now
            (st\<lparr>pulse_until := AList.update (ha_mac a) (now + from_millis (unat ms)) (pulse_until st)\<rparr>)
      | None \<Rightarrow>
          send (ha_mac a) (ha_intensity a) False now
            (st\<lparr>pulse_until := AList.delete (ha_mac a) (pulse_until st)\<rparr>))"

subsection \<open>OSC packets\<close>

datatype osc_packet = OscMessage text_string "osc_type list" | OscBundle "osc_packet list"

definition discover :: "bool \<Rightarrow> text_string \<Rightarrow> loop_state \<Rightarrow> loop_state" where
  "discover enabled addr st =
     (if enabled \<and> length (seen_addrs st) < MAX_SEEN_ADDRS \<and> addr \<notin> set (seen_addrs st)
      then st\<lparr>seen_addrs := addr # seen_addrs st, discovered := addr # discovered st\<rparr> else st)"

definition sniff :: "text_string \<Rightarrow> f32 \<Rightarrow> loop_state \<Rightarrow> loop_state" where
  "sniff addr v st =
     (case sniffing st of
        None \<Rightarrow> st
      | Some s \<Rightarrow> let (t, st1) = read_clock st in st1\<lparr>sniffing := Some (ingest t addr v s)\<rparr>)"

definition handle_message ::
  "bool \<Rightarrow> haptic_rule list \<Rightarrow> text_string \<Rightarrow> osc_type list \<Rightarrow> loop_state \<Rightarrow> loop_state" where
  "handle_message disc rules addr args st =
     (let st1 = discover disc addr st in
      case args of
        [] \<Rightarrow> st1
      | arg # _ \<Rightarrow>
          (case osc_value_to_f32 arg of
             None \<Rightarrow> st1
           | Some v \<Rightarrow>
               let (now, st2) = read_clock (sniff addr v st1)
               in fold (apply_action now) (resolve rules addr v) st2))"

fun handle_packet :: "bool \<Rightarrow> haptic_rule list \<Rightarrow> osc_packet \<Rightarrow> loop_state \<Rightarrow> loop_state"
  and handle_packets :: "bool \<Rightarrow> haptic_rule list \<Rightarrow> osc_packet list \<Rightarrow> loop_state \<Rightarrow> loop_state" where
  "handle_packet disc rules (OscMessage addr args) st = handle_message disc rules addr args st"
| "handle_packet disc rules (OscBundle content) st = handle_packets disc rules content st"
| "handle_packets disc rules [] st = st"
| "handle_packets disc rules (p # ps) st =
     handle_packets disc rules ps (handle_packet disc rules p st)"

subsection \<open>The loops\<close>

datatype serve_event = ConfigChanged | ConfigGone | Datagram bytes | RecvFailed | Tick

datatype serve_exit = Shutdown | Rebind

definition serve_step ::
  "(bytes \<Rightarrow> osc_packet option) \<Rightarrow> bool \<Rightarrow> haptic_rule list \<Rightarrow> serve_event \<Rightarrow> loop_state
    \<Rightarrow> serve_exit option \<times> loop_state" where
  "serve_step decode disc rules ev st =
     (case ev of
        ConfigGone \<Rightarrow> (Some Shutdown, silence_all st)
      | ConfigChanged \<Rightarrow> (Some Rebind, st)
      | Datagram d \<Rightarrow>
          let (t, st1) = read_clock st;
              st2 = st1\<lparr>last_packet := t, idle_silenced := False\<rparr>
          in (None, case decode (take OSC_BUFFER d) of
                      Some p \<Rightarrow> handle_packet disc rules p st2
                    | None \<Rightarrow> st2)
      | RecvFailed \<Rightarrow> (None, st)
      | Tick \<Rightarrow> let (t, st1) = read_clock st in (None, on_tick t st1))"

text \<open>
  One round reads the clock for the time to sleep (\<open>next_wake\<close>, which bounds when the \<open>Tick\<close>
  comes) and handles the event that comes first. \<open>serve\<close> is the loop over the events of a run.
\<close>

definition serve_round ::
  "(bytes \<Rightarrow> osc_packet option) \<Rightarrow> bool \<Rightarrow> haptic_rule list \<Rightarrow> serve_event \<Rightarrow> loop_state
    \<Rightarrow> serve_exit option \<times> loop_state" where
  "serve_round decode disc rules ev st =
     (let (now, st1) = read_clock st in serve_step decode disc rules ev st1)"

fun serve ::
  "(bytes \<Rightarrow> osc_packet option) \<Rightarrow> bool \<Rightarrow> haptic_rule list \<Rightarrow> serve_event list \<Rightarrow> loop_state
    \<Rightarrow> serve_exit option \<times> loop_state" where
  "serve decode disc rules [] st = (None, st)"
| "serve decode disc rules (e # es) st =
     (case serve_round decode disc rules e st of
        (Some x, st1) \<Rightarrow> (Some x, st1)
      | (None, st1) \<Rightarrow> serve decode disc rules es st1)"

text \<open>
  The outer loop: waiting for a configuration, serving with the rules of one, or ended.
  \<open>bound\<close> says whether the socket could be bound.
\<close>

datatype bridge_mode = Waiting | Serving "haptic_rule list" | Ended

datatype bridge_event = NewConfig haptic_config bool | SenderGone | Serve serve_event

definition enter_config :: "haptic_config \<Rightarrow> bool \<Rightarrow> loop_state \<Rightarrow> bridge_mode \<times> loop_state" where
  "enter_config c bound st =
     (if \<not> hc_enabled c then (Waiting, st)
      else if \<not> bound then (Waiting, st)
      else (Serving (hc_rules c), loop_new st))"

fun bridge_step ::
  "(bytes \<Rightarrow> osc_packet option) \<Rightarrow> bool \<Rightarrow> bridge_event \<Rightarrow> bridge_mode \<times> loop_state
    \<Rightarrow> bridge_mode \<times> loop_state" where
  "bridge_step decode disc ev (Ended, st) = (Ended, st)"
| "bridge_step decode disc (NewConfig c bound) (Waiting, st) = enter_config c bound st"
| "bridge_step decode disc SenderGone (Waiting, st) = (Ended, st)"
| "bridge_step decode disc (Serve e) (Waiting, st) = (Waiting, st)"
| "bridge_step decode disc (NewConfig c bound) (Serving rules, st) =
     enter_config c bound (snd (serve_round decode disc rules ConfigChanged st))"
| "bridge_step decode disc SenderGone (Serving rules, st) =
     (Ended, snd (serve_round decode disc rules ConfigGone st))"
| "bridge_step decode disc (Serve e) (Serving rules, st) =
     (case e of
        ConfigChanged \<Rightarrow> (Serving rules, st)
      | ConfigGone \<Rightarrow> (Serving rules, st)
      | _ \<Rightarrow> (Serving rules, snd (serve_round decode disc rules e st)))"

subsection \<open>Invariants of the serve loop\<close>

declare map_of_eq_Some_iff [simp del] Some_eq_map_of_iff [simp del]

text \<open>
  The commands respect the rate limit: one that did not bypass it and is not a return to
  zero comes at least the minimum gap after the previous one for its device, and differs.
\<close>

fun rate_ok :: "(mac \<times> sink_call) list \<Rightarrow> bool" where
  "rate_ok [] \<longleftrightarrow> True"
| "rate_ok ((m, c) # cs) \<longleftrightarrow>
     (sc_force c \<or> \<not> 0 < sc_intensity c
      \<or> (case map_of cs m of
           None \<Rightarrow> True
         | Some p \<Rightarrow> MIN_SEND_GAP \<le> duration_since (sc_time c) (sc_time p)
             \<and> \<not> \<bar>sc_intensity c - sc_intensity p\<bar> < INTENSITY_EPSILON))
     \<and> rate_ok cs"

definition send_inv :: "loop_state \<Rightarrow> bool" where
  "send_inv st \<longleftrightarrow>
     (\<forall>m. map_of (last_sent st) m = map_option (\<lambda>c. (sc_time c, sc_intensity c)) (map_of (calls st) m))
     \<and> list_all (\<lambda>(m, c). unit_f32 (sc_intensity c)) (calls st) \<and> rate_ok (calls st)"

definition pulse_inv :: "loop_state \<Rightarrow> bool" where
  "pulse_inv st \<longleftrightarrow>
     (\<forall>m e. map_of (pulse_until st) m = Some e \<longrightarrow> (\<exists>t. map_of (last_sent st) m = Some (t, 1)))
     \<and> (idle_silenced st \<longrightarrow> (\<forall>m t v. map_of (last_sent st) m = Some (t, v) \<longrightarrow> \<not> 0 < v))"

lemma f32_0_1 [simp]: "(0 :: f32) < 1" "\<not> (0 :: f32) < 0"
  by (simp_all add: less_f32_def sgn_int_def)

lemma send_inv_send:
  assumes "send_inv st" "unit_f32 x"
  shows "send_inv (send m x force now st)"
  using assms
  by (auto simp: send_inv_def send_def suppressed_def update_conv' split: option.splits prod.splits)

lemma send_inv_cong:
  "send_inv st \<Longrightarrow> last_sent st' = last_sent st \<Longrightarrow> calls st' = calls st \<Longrightarrow> send_inv st'"
  by (simp add: send_inv_def)

lemma send_last:
  "map_of (last_sent (send m x force now st)) k =
     (if k = m \<and> (force \<or> \<not> suppressed m x now st) then Some (now, x) else map_of (last_sent st) k)"
  by (auto simp: send_def update_conv')

lemma send_frame [simp]:
  "pulse_until (send m x force now st) = pulse_until st"
  "idle_silenced (send m x force now st) = idle_silenced st"
  "last_packet (send m x force now st) = last_packet st"
  "clock (send m x force now st) = clock st" "reads (send m x force now st) = reads st"
  by (simp_all add: send_def)

lemma pulse_off_effect:
  "map_of (last_sent (pulse_off now m st)) k = (if k = m then Some (now, 0) else map_of (last_sent st) k)"
  "map_of (pulse_until (pulse_off now m st)) k = (if k = m then None else map_of (pulse_until st) k)"
  "idle_silenced (pulse_off now m st) = idle_silenced st"
  "last_packet (pulse_off now m st) = last_packet st"
  by (auto simp: pulse_off_def send_last delete_conv')

lemma pulse_off_send_inv: "send_inv st \<Longrightarrow> send_inv (pulse_off now m st)"
  unfolding pulse_off_def by (rule send_inv_send [OF send_inv_cong [of st]]) simp_all

lemma pulse_offs_effect:
  "map_of (last_sent (fold (pulse_off now) ms st)) k =
     (if k \<in> set ms then Some (now, 0) else map_of (last_sent st) k)"
  "map_of (pulse_until (fold (pulse_off now) ms st)) k =
     (if k \<in> set ms then None else map_of (pulse_until st) k)"
  "idle_silenced (fold (pulse_off now) ms st) = idle_silenced st"
  "last_packet (fold (pulse_off now) ms st) = last_packet st"
  "send_inv st \<Longrightarrow> send_inv (fold (pulse_off now) ms st)"
  by (induction ms arbitrary: st) (auto simp: pulse_off_effect pulse_off_send_inv)

definition loop_inv :: "loop_state \<Rightarrow> bool" where
  "loop_inv st \<longleftrightarrow> send_inv st \<and> pulse_inv st \<and> distinct (map fst (last_sent st))
     \<and> distinct (map fst (pulse_until st))"

lemma distinct_send: "distinct (map fst (last_sent st)) \<Longrightarrow> distinct (map fst (last_sent (send m x f now st)))"
  by (simp add: send_def distinct_update)

lemma distinct_pulse_offs:
  "distinct (map fst (last_sent st)) \<Longrightarrow> distinct (map fst (last_sent (fold (pulse_off now) ms st)))"
  "distinct (map fst (pulse_until st)) \<Longrightarrow> distinct (map fst (pulse_until (fold (pulse_off now) ms st)))"
  by (induction ms arbitrary: st) (simp_all add: pulse_off_def distinct_send distinct_delete)

lemma pulse_offs_inv:
  assumes "loop_inv st"
  shows "loop_inv (fold (pulse_off now) ms st)"
  using assms
  by (auto simp: loop_inv_def pulse_inv_def pulse_offs_effect distinct_pulse_offs split: if_splits)

lemma loop_inv_cong:
  assumes "loop_inv st" "last_sent st' = last_sent st" "calls st' = calls st"
    "pulse_until st' = pulse_until st" "idle_silenced st' \<longrightarrow> idle_silenced st"
  shows "loop_inv st'"
  using assms by (auto simp: loop_inv_def send_inv_def pulse_inv_def)

lemma map_of_distinct_mem: "distinct (map fst xs) \<Longrightarrow> (k, v) \<in> set xs \<longleftrightarrow> map_of xs k = Some v"
  by (auto intro: map_of_is_SomeI dest: map_of_SomeD)

lemma silence_all_effect:
  assumes "loop_inv st"
  shows "map_of (last_sent (silence_all st)) m = Some (t, v) \<Longrightarrow> \<not> 0 < v"
    and "map_of (pulse_until (silence_all st)) m = None"
    and "map_of (last_sent st) m = Some x \<Longrightarrow> map_of (last_sent (silence_all st)) m \<noteq> None"
    and "loop_inv (silence_all st)"
proof -
  let ?st = "st\<lparr>reads := reads st + 1\<rparr>"
  let ?active = "map fst (filter (\<lambda>(m, t, v). 0 < v) (last_sent ?st))"
  have sil: "silence_all st = fold (pulse_off (clock st (reads st))) ?active ?st"
    by (simp add: silence_all_def read_clock_def)
  have act: "m \<in> set ?active \<longleftrightarrow> (\<exists>t v. map_of (last_sent st) m = Some (t, v) \<and> 0 < v)" for m
    using assms by (force simp: loop_inv_def map_of_distinct_mem [symmetric] image_iff)
  show "map_of (last_sent (silence_all st)) m = Some (t, v) \<Longrightarrow> \<not> 0 < v"
    using act [of m] unfolding sil by (auto simp: pulse_offs_effect split: if_splits)
  show "map_of (last_sent (silence_all st)) m \<noteq> None" if "map_of (last_sent st) m = Some x"
    using that unfolding sil by (simp add: pulse_offs_effect)
  show "map_of (pulse_until (silence_all st)) m = None"
    using assms act [of m] unfolding sil
    by (cases "map_of (pulse_until st) m") (auto simp: pulse_offs_effect loop_inv_def pulse_inv_def)
  show "loop_inv (silence_all st)"
    unfolding sil by (intro pulse_offs_inv loop_inv_cong [OF assms]) simp_all
qed

text \<open>What a packet does.\<close>

lemma apply_action_inv:
  assumes "loop_inv st" "\<not> idle_silenced st" "unit_f32 (ha_intensity a)"
    "ha_pulse_ms a \<noteq> None \<longrightarrow> ha_intensity a = 1"
  shows "loop_inv (apply_action now a st) \<and> \<not> idle_silenced (apply_action now a st)"
proof -
  have "send_inv (apply_action now a st)"
    using assms unfolding apply_action_def
    by (auto simp: loop_inv_def split: option.split intro!: send_inv_send send_inv_cong [of st])
  with assms show ?thesis
    by (auto simp: apply_action_def loop_inv_def pulse_inv_def send_last update_conv' delete_conv'
        distinct_send distinct_update distinct_delete split: option.split if_splits)
qed

lemma apply_mode_pulse: "ha_pulse_ms (apply_mode m mode v) \<noteq> None \<Longrightarrow> ha_intensity (apply_mode m mode v) = 1"
  by (cases mode) (auto split: if_splits)

lemma resolve_pulse: "a \<in> set (resolve rules addr v) \<Longrightarrow> ha_pulse_ms a \<noteq> None \<Longrightarrow> ha_intensity a = 1"
  unfolding resolve_def by (auto simp: apply_mode_pulse)

lemma apply_actions_inv:
  assumes "loop_inv st" "\<not> idle_silenced st"
    "\<forall>a \<in> set as. unit_f32 (ha_intensity a) \<and> (ha_pulse_ms a \<noteq> None \<longrightarrow> ha_intensity a = 1)"
  shows "loop_inv (fold (apply_action now) as st) \<and> \<not> idle_silenced (fold (apply_action now) as st)"
  using assms
proof (induction as arbitrary: st)
  case (Cons a as)
  with apply_action_inv [of st a now] show ?case by simp
qed simp

lemma handle_message_inv:
  assumes "loop_inv st" "\<not> idle_silenced st"
  shows "loop_inv (handle_message disc rules addr args st)
    \<and> \<not> idle_silenced (handle_message disc rules addr args st)"
proof -
  have d: "loop_inv (discover disc addr st)" "\<not> idle_silenced (discover disc addr st)"
    using assms by (auto simp: discover_def intro: loop_inv_cong)
  have s: "loop_inv (sniff addr v st') \<and> \<not> idle_silenced (sniff addr v st')"
    if "loop_inv st'" "\<not> idle_silenced st'" for v st'
    using that by (auto simp: sniff_def read_clock_def split: option.split intro: loop_inv_cong)
  have r: "loop_inv (fold (apply_action now) (resolve rules addr v) (st'\<lparr>reads := n\<rparr>))
      \<and> \<not> idle_silenced (fold (apply_action now) (resolve rules addr v) (st'\<lparr>reads := n\<rparr>))"
    if "loop_inv st' \<and> \<not> idle_silenced st'" for v st' n now
    using that unit_resolve resolve_pulse
    by (intro apply_actions_inv) (auto intro: loop_inv_cong)
  show ?thesis
    using d r [OF s [OF d]]
    by (simp add: handle_message_def read_clock_def Let_def split: list.split option.split)
qed

lemma handle_packet_inv:
  "loop_inv st \<Longrightarrow> \<not> idle_silenced st \<Longrightarrow>
     loop_inv (handle_packet disc rules p st) \<and> \<not> idle_silenced (handle_packet disc rules p st)"
  "loop_inv st \<Longrightarrow> \<not> idle_silenced st \<Longrightarrow>
     loop_inv (handle_packets disc rules ps st) \<and> \<not> idle_silenced (handle_packets disc rules ps st)"
  by (induction disc rules p st and disc rules ps st rule: handle_packet_handle_packets.induct)
    (simp_all add: handle_message_inv)

text \<open>The clock's turn, and the rounds.\<close>

lemma expired_mem:
  "loop_inv st \<Longrightarrow>
   m \<in> set (map fst (filter (\<lambda>(m, t). t \<le> now) (pulse_until st)))
     \<longleftrightarrow> (\<exists>e. map_of (pulse_until st) m = Some e \<and> e \<le> now)"
  by (force simp: loop_inv_def map_of_distinct_mem [symmetric] image_iff)

lemma on_tick_effect:
  assumes "loop_inv st"
  shows "loop_inv (on_tick now st)"
    and "map_of (pulse_until st) m = Some e \<Longrightarrow> e \<le> now \<Longrightarrow>
      map_of (pulse_until (on_tick now st)) m = None
      \<and> (\<exists>t v. map_of (last_sent (on_tick now st)) m = Some (t, v) \<and> \<not> 0 < v)"
    and "map_of (pulse_until (on_tick now st)) m = Some e \<Longrightarrow> now < e"
    and "idle_silenced st \<or> last_packet st + WATCHDOG_IDLE \<le> now \<Longrightarrow> idle_silenced (on_tick now st)"
proof -
  define ms where "ms = map fst (filter (\<lambda>(m, t). t \<le> now) (pulse_until st))"
  define S where "S = fold (pulse_off now) ms st"
  have mem: "m \<in> set ms \<longleftrightarrow> (\<exists>e. map_of (pulse_until st) m = Some e \<and> e \<le> now)" for m
    unfolding ms_def by (rule expired_mem [OF assms])
  note S = pulse_offs_effect [where now = now and ms = ms and st = st, folded S_def]
  have tick: "on_tick now st =
      (if \<not> idle_silenced S \<and> WATCHDOG_IDLE \<le> duration_since now (last_packet S)
       then (silence_all S)\<lparr>idle_silenced := True\<rparr> else S)"
    by (simp add: on_tick_def Let_def S_def ms_def)
  have inv: "loop_inv S"
    unfolding S_def by (rule pulse_offs_inv [OF assms])
  note sil = silence_all_effect [OF inv]
  have "loop_inv ((silence_all S)\<lparr>idle_silenced := True\<rparr>)"
    using sil(1,4) by (fastforce simp: loop_inv_def send_inv_def pulse_inv_def)
  with inv show "loop_inv (on_tick now st)"
    by (simp add: tick)
  show "map_of (pulse_until (on_tick now st)) m = None
      \<and> (\<exists>t v. map_of (last_sent (on_tick now st)) m = Some (t, v) \<and> \<not> 0 < v)"
    if "map_of (pulse_until st) m = Some e" "e \<le> now"
  proof -
    have off: "map_of (last_sent S) m = Some (now, 0)" "map_of (pulse_until S) m = None"
      using that mem [of m] by (auto simp: S)
    obtain t v where "map_of (last_sent (silence_all S)) m = Some (t, v)"
      using sil(3) [OF off(1)] by auto
    then show ?thesis
      using sil(1) [of m t v] sil(2) [of m] off by (simp add: tick)
  qed
  show "now < e" if "map_of (pulse_until (on_tick now st)) m = Some e"
  proof -
    have "map_of (pulse_until S) m = Some e"
      using that sil(2) [of m] by (simp add: tick split: if_splits)
    then have "m \<notin> set ms" "map_of (pulse_until st) m = Some e"
      by (simp_all add: S split: if_splits)
    with mem [of m] show ?thesis by auto
  qed
  show "idle_silenced (on_tick now st)" if "idle_silenced st \<or> last_packet st + WATCHDOG_IDLE \<le> now"
    using that by (auto simp: tick S duration_since_def)
qed

lemma read_clock_inv [simp]:
  "loop_inv (snd (read_clock st)) \<longleftrightarrow> loop_inv st"
  by (auto simp: read_clock_def loop_inv_def send_inv_def pulse_inv_def)

lemma serve_step_inv:
  assumes "loop_inv st"
  shows "loop_inv (snd (serve_step decode disc rules e st))"
proof (cases e)
  case (Datagram d)
  have "loop_inv (st\<lparr>reads := n, last_packet := t, idle_silenced := False\<rparr>)" for n t
    using assms by (auto simp: loop_inv_def send_inv_def pulse_inv_def)
  then show ?thesis
    using Datagram by (simp add: serve_step_def read_clock_def Let_def handle_packet_inv split: option.split)
next
  case Tick
  have "loop_inv (st\<lparr>reads := n\<rparr>)" for n
    using assms by (auto simp: loop_inv_def send_inv_def pulse_inv_def)
  with Tick show ?thesis
    by (simp add: serve_step_def read_clock_def on_tick_effect)
qed (simp_all add: serve_step_def assms silence_all_effect)

lemma serve_round_inv: "loop_inv st \<Longrightarrow> loop_inv (snd (serve_round decode disc rules e st))"
  using read_clock_inv [of st] by (simp add: serve_round_def serve_step_inv split_beta)

lemma serve_inv: "loop_inv st \<Longrightarrow> loop_inv (snd (serve decode disc rules es st))"
proof (induction es arbitrary: st)
  case (Cons e es)
  with serve_round_inv [OF Cons.prems, of decode disc rules e] show ?case
    by (auto split: prod.split option.split)
qed simp

lemma loop_new_inv: "loop_inv (loop_new (st\<lparr>calls := []\<rparr>))"
  by (simp add: loop_new_def read_clock_def loop_inv_def send_inv_def pulse_inv_def)

text \<open>A silenced state: every motor's newest command is off, nothing is pending.\<close>

definition all_off :: "loop_state \<Rightarrow> bool" where
  "all_off st \<longleftrightarrow> pulse_until st = [] \<and> (\<forall>m c. map_of (calls st) m = Some c \<longrightarrow> \<not> 0 < sc_intensity c)"

lemma all_offI:
  assumes inv: "loop_inv st" and none: "\<And>m. map_of (pulse_until st) m = None"
    and off: "\<And>m t v. map_of (last_sent st) m = Some (t, v) \<Longrightarrow> \<not> 0 < v"
  shows "all_off st"
  unfolding all_off_def
proof (intro conjI allI impI)
  from none have "map_of (pulse_until st) = (\<lambda>m. None)"
    by (rule ext)
  then show "pulse_until st = []"
    by (simp add: map_of_eq_empty_iff)
  show "\<not> 0 < sc_intensity c" if "map_of (calls st) m = Some c" for m c
    using inv that by (intro off [of m]) (simp add: loop_inv_def send_inv_def)
qed

lemma silenced_all_off:
  assumes "loop_inv st" "idle_silenced st"
  shows "all_off st"
proof (rule all_offI [OF assms(1)])
  show off: "\<not> 0 < v" if "map_of (last_sent st) m = Some (t, v)" for m t v
    using that assms by (auto simp: loop_inv_def pulse_inv_def)
  show "map_of (pulse_until st) m = None" for m
  proof (rule ccontr)
    assume "map_of (pulse_until st) m \<noteq> None"
    then obtain t where "map_of (last_sent st) m = Some (t, 1)"
      using assms by (auto simp: loop_inv_def pulse_inv_def)
    from off [OF this] show False by simp
  qed
qed

lemma silence_all_off: "loop_inv st \<Longrightarrow> all_off (silence_all st)"
  using silence_all_effect by (intro all_offI) blast+

lemma fold_min_le: "fold (\<lambda>x w. min w (f x)) xs (w :: nat) \<le> w"
  "x \<in> set xs \<Longrightarrow> fold (\<lambda>x w. min w (f x)) xs (w :: nat) \<le> f x"
proof (induction xs arbitrary: w)
  case Nil
  { case 1 then show ?case by simp }
  { case 2 then show ?case by simp }
next
  case (Cons y ys)
  { case 1 then show ?case using Cons.IH(1) [of "min w (f y)"] by simp }
  { case 2
    then show ?case using Cons.IH(1) [of "min w (f y)"] Cons.IH(2) [of "min w (f y)"] by auto }
qed

lemma next_wake_bounds:
  "next_wake now st \<le> MAX_TICK"
  "map_of (pulse_until st) m = Some e \<Longrightarrow> next_wake now st \<le> max (e - now) (from_millis 1)"
  "\<not> idle_silenced st \<Longrightarrow>
     next_wake now st \<le> max (last_packet st + WATCHDOG_IDLE - now) (from_millis 1)"
proof -
  let ?w = "fold (\<lambda>(m, t) w. min w (duration_since t now)) (pulse_until st) MAX_TICK"
  have w: "?w = fold (\<lambda>x w. min w (duration_since (snd x) now)) (pulse_until st) MAX_TICK"
    by (intro fold_cong) auto
  have le: "?w \<le> MAX_TICK"
    unfolding w by (rule fold_min_le)
  have ms: "from_millis 1 \<le> MAX_TICK"
    by (simp add: MAX_TICK_def from_millis_def)
  show "next_wake now st \<le> MAX_TICK"
    using le ms by (auto simp: next_wake_def Let_def)
  show "next_wake now st \<le> max (e - now) (from_millis 1)" if "map_of (pulse_until st) m = Some e"
  proof -
    have "?w \<le> duration_since (snd (m, e)) now"
      unfolding w by (rule fold_min_le(2) [OF map_of_SomeD [OF that]])
    then show ?thesis
      by (auto simp: next_wake_def Let_def duration_since_def)
  qed
  show "next_wake now st \<le> max (last_packet st + WATCHDOG_IDLE - now) (from_millis 1)"
    if "\<not> idle_silenced st"
    using that by (auto simp: next_wake_def Let_def duration_since_def)
qed

text \<open>Nothing has been sent since, and a serving loop knows of no motor that is on.\<close>

definition quiet :: "(mac \<times> sink_call) list \<Rightarrow> bridge_mode \<times> loop_state \<Rightarrow> bool" where
  "quiet cs ms \<longleftrightarrow> calls (snd ms) = cs
     \<and> (case fst ms of Serving r \<Rightarrow> last_sent (snd ms) = [] \<and> pulse_until (snd ms) = [] | _ \<Rightarrow> True)"

definition not_datagram :: "bridge_event \<Rightarrow> bool" where
  "not_datagram e = (case e of Serve (Datagram d) \<Rightarrow> False | _ \<Rightarrow> True)"

lemma enter_quiet: "quiet (calls st) (enter_config c bound st)"
  by (simp add: quiet_def enter_config_def loop_new_def read_clock_def)

lemma quiet_step: "quiet cs ms \<Longrightarrow> not_datagram e \<Longrightarrow> quiet cs (bridge_step decode disc e ms)"
  using enter_quiet
  by (induction decode disc e ms rule: bridge_step.induct)
    (auto simp: quiet_def not_datagram_def enter_config_def loop_new_def serve_round_def serve_step_def read_clock_def
      on_tick_def silence_all_def Let_def split: serve_event.splits)

lemma quiet_run: "quiet cs ms \<Longrightarrow> calls (snd (fold (bridge_step decode disc) (filter not_datagram es) ms)) = cs"
proof (induction es arbitrary: ms)
  case Nil
  then show ?case by (simp add: quiet_def)
next
  case (Cons e es)
  with quiet_step show ?case by simp
qed

text \<open>A run for the witnesses: one pulse rule, one packet, a second between clock readings.\<close>

definition demo_decode :: "bytes \<Rightarrow> osc_packet option" where
  "demo_decode d = Some (OscMessage ''/hit'' [OscBool True])"

definition demo_rules :: "haptic_rule list" where
  "demo_rules = [\<lparr>hr_address = ''/hit'', hr_mac = [1, 2, 3, 4, 5, 6], hr_mode = Pulse 100\<rparr>]"

definition demo_start :: loop_state where
  "demo_start = \<lparr>last_sent = [], pulse_until = [], seen_addrs = [], last_packet = 0,
     idle_silenced = False, calls = [], discovered = [], sniffing = None,
     clock = (\<lambda>n. n * 1000000000), reads = 0\<rparr>"

definition demo_state :: loop_state where
  "demo_state = snd (serve demo_decode True demo_rules [Datagram []] (loop_new demo_start))"

lemma half_less_1: "f32_lit 1 2 < 1"
proof -
  have "fp_make fmt32 False (2 ^ 148 * 2) 2 = FFin False (2 ^ 148)"
    using repr_mult_pow [of 1 23 148] by (intro fp_make_exact) (simp_all add: fmt32_def)
  then have "fp_make fmt32 False (1 * funit fmt32) 2 = FFin False (2 ^ 148)"
    by (simp add: fmt32_def)
  moreover have "fp_ok fmt32 (fp_make fmt32 False (1 * funit fmt32) 2)"
    by (rule fp_ok_make) simp
  ultimately have "f32_val (f32_lit 1 2) = FFin False (2 ^ 148)"
    by (metis f32_lit_def f32_val_of)
  then show ?thesis
    by (simp add: less_f32_def sgn_int_def fmt32_def)
qed

lemma demo_serve:
  "serve demo_decode True demo_rules [Datagram []] (loop_new (demo_start\<lparr>calls := []\<rparr>)) = (None, demo_state)"
  "last_packet demo_state = 2000000000"
  "map_of (pulse_until demo_state) [1, 2, 3, 4, 5, 6] = Some 3100000000"
  "map_option sc_intensity (map_of (calls demo_state) [1, 2, 3, 4, 5, 6]) = Some 1"
  by (simp_all add: demo_state_def demo_start_def loop_new_def read_clock_def serve_round_def
      serve_step_def demo_decode_def handle_message_def discover_def MAX_SEEN_ADDRS_def sniff_def
      resolve_def demo_rules_def half_less_1 [unfolded One_nat_def] apply_action_def send_def Let_def from_millis_def)

subsection \<open>Properties\<close>

text \<open>
  However the packets of a run of the serve loop are decoded and whatever the
  rules and the clock are, every command to the motors is an intensity within 0 and 1, and
  the commands to one device respect the rate limit: one that is not a pulse, the end of a
  pulse or a return to zero comes at least 15 ms after the one before and differs from it.
\<close>

theorem commands_bounded_and_limited:
  "let st = snd (serve decode disc rules es (loop_new (st0\<lparr>calls := []\<rparr>))) in
    list_all (\<lambda>(m, c). unit_f32 (sc_intensity c)) (calls st) \<and> rate_ok (calls st)"
  using serve_inv [OF loop_new_inv, of decode disc rules es st0]
  by (simp add: Let_def loop_inv_def send_inv_def)



text \<open>
  Pulses end in time. After any run, the loop sleeps no longer than to the end
  of the first pulse (or 1 ms) and never more than 250 ms; and a tick turns off every device
  whose pulse is over, and leaves pending only pulses that end later.
\<close>

theorem pulses_end_in_time:
  assumes "serve decode disc rules es (loop_new (st0\<lparr>calls := []\<rparr>)) = (None, st)"
    "map_of (pulse_until st) m = Some e"
  shows "next_wake now st \<le> max (e - now) (from_millis 1) \<and> next_wake now st \<le> MAX_TICK
    \<and> (now < e
       \<or> map_of (pulse_until (on_tick now st)) m = None
         \<and> (case map_of (calls (on_tick now st)) m of
              Some c \<Rightarrow> \<not> 0 < sc_intensity c | None \<Rightarrow> False))
    \<and> list_all (\<lambda>(k, e'). now < e') (pulse_until (on_tick now st))"
proof -
  have inv: "loop_inv st"
    using serve_inv [OF loop_new_inv, of decode disc rules es st0] assms(1) by simp
  note tick = on_tick_effect [OF inv]
  have "now < e'" if "(k, e') \<in> set (pulse_until (on_tick now st))" for k e'
  proof (rule tick(3))
    show "map_of (pulse_until (on_tick now st)) k = Some e'"
      using that tick(1) [of now] by (intro map_of_is_SomeI) (simp_all only: loop_inv_def)
  qed
  then have later: "list_all (\<lambda>(k, e'). now < e') (pulse_until (on_tick now st))"
    by (auto simp: list_all_iff)
  have off: "map_of (pulse_until (on_tick now st)) m = None
      \<and> (case map_of (calls (on_tick now st)) m of Some c \<Rightarrow> \<not> 0 < sc_intensity c | None \<Rightarrow> False)"
    if le: "e \<le> now"
  proof -
    obtain t v where v: "map_of (last_sent (on_tick now st)) m = Some (t, v)" "\<not> 0 < v"
      and none: "map_of (pulse_until (on_tick now st)) m = None"
      using tick(2) [OF assms(2) le] by blast
    then obtain c where "map_of (calls (on_tick now st)) m = Some c" "sc_intensity c = v"
      using tick(1) [of now] by (auto simp: loop_inv_def send_inv_def)
    with v none show ?thesis by simp
  qed
  show ?thesis
    using next_wake_bounds(1) next_wake_bounds(2) [OF assms(2)] later off
    by (cases "now < e") (simp_all only: not_less simp_thms)
qed

theorem pulses_end_in_time_witness:
  "next_wake 3050000000 demo_state \<le> 50000000
    \<and> list_all (\<lambda>(k, e'). 3050000000 < e') (pulse_until (on_tick 3050000000 demo_state))"
  using pulses_end_in_time [OF demo_serve(1,3), of 3050000000] by (simp add: from_millis_def)

text \<open>
  Property C33. A change of the configuration is not followed by any command: the loop is left
  without turning the motors off and the new one has forgotten them, so whatever happens
  next, except a datagram, no further command is sent. A motor that was on stays on, also
  when the change switched the bridge off, and also when the bridge ends.
\<close>

theorem config_change_leaves_motors_on:
  "calls (snd (fold (bridge_step decode disc)
      (filter not_datagram es)
      (bridge_step decode disc (NewConfig c bound) (Serving rules, st)))) = calls st"
proof (rule quiet_run)
  let ?st = "st\<lparr>reads := reads st + 1\<rparr>"
  show "quiet (calls st) (bridge_step decode disc (NewConfig c bound) (Serving rules, st))"
    using enter_quiet [of ?st c bound] by (simp add: serve_round_def serve_step_def read_clock_def)
qed

text \<open>
  A pulse follows the level of its parameter, not its edge: every message above
  one half starts the pulse again, and one that is not ends it at once, before its time.
\<close>

theorem pulse_follows_level:
  "let st' = apply_action now (apply_mode m (Pulse ms) v) st in
    if f32_lit 1 2 < v
    then map_of (pulse_until st') m = Some (now + from_millis (unat ms))
      \<and> map_of (calls st') m = Some \<lparr>sc_intensity = 1, sc_time = now, sc_force = True\<rparr>
    else map_of (pulse_until st') m = None
      \<and> map_of (calls st') m = Some \<lparr>sc_intensity = 0, sc_time = now, sc_force = False\<rparr>"
  by (simp add: Let_def apply_action_def send_def suppressed_def update_conv' delete_conv' split: option.split)

end
