(* ===== verification/Latency.thy ===== *)
theory Latency
  imports Float_Ops
begin

section \<open>Latency windows\<close>

text \<open>
  \<^verbatim>\<open>crates/core/src/latency.rs\<close>: the rolling window of a device's inter-batch intervals and
  send times, the statistics computed from it, and the bounded history of snapshots.
\<close>

subsection \<open>The tracker\<close>

definition WINDOW :: nat where
  "WINDOW = 256"

definition DEFAULT_HISTORY_LEN :: nat where
  "DEFAULT_HISTORY_LEN = 120"

record latency_snapshot =
  interval_us_p50 :: f32
  interval_us_p95 :: f32
  interval_us_p99 :: f32
  jitter_us :: f32
  send_us_p50 :: f32
  send_us_p95 :: f32
  dropped_estimate :: u32
  samples_window :: u32

definition snapshot_default :: latency_snapshot where
  "snapshot_default = \<lparr>interval_us_p50 = 0, interval_us_p95 = 0, interval_us_p99 = 0,
     jitter_us = 0, send_us_p50 = 0, send_us_p95 = 0, dropped_estimate = 0, samples_window = 0\<rparr>"

record latency_tracker =
  intervals_us :: "u32 list"
  sends_us :: "u32 list"
  prev_arrival :: "instant option"

definition tracker_new :: latency_tracker where
  "tracker_new = \<lparr>intervals_us = [], sends_us = [], prev_arrival = None\<rparr>"

definition push_capped :: "'a list \<Rightarrow> 'a \<Rightarrow> 'a list" where
  "push_capped q v = (if length q = WINDOW then tl q else q) @ [v]"

definition micros_u32 :: "duration \<Rightarrow> u32" where
  "micros_u32 d = of_nat (min (as_micros d) (2 ^ 32 - 1))"

definition record_arrival :: "instant \<Rightarrow> latency_tracker \<Rightarrow> duration option \<times> latency_tracker" where
  "record_arrival now t =
     (let t1 = t\<lparr>prev_arrival := Some now\<rparr> in
      case prev_arrival t of
        None \<Rightarrow> (None, t1)
      | Some prev \<Rightarrow>
          let dt = duration_since now prev
          in (Some dt, t1\<lparr>intervals_us := push_capped (intervals_us t1) (micros_u32 dt)\<rparr>))"

definition record_send :: "duration \<Rightarrow> latency_tracker \<Rightarrow> latency_tracker" where
  "record_send d t = t\<lparr>sends_us := push_capped (sends_us t) (micros_u32 d)\<rparr>"

text \<open>
  The index of a percentile is computed in \<^verbatim>\<open>f32\<close>, rounded to the nearest integer and cast
  to \<^verbatim>\<open>usize\<close>.
\<close>

definition percentile_index :: "nat \<Rightarrow> f32 \<Rightarrow> nat" where
  "percentile_index n p =
     f32_to_nat (2 ^ 64 - 1) (f32_round ((f32_of_int (int n) - 1) * p))"

definition percentile :: "u32 list \<Rightarrow> f32 \<Rightarrow> u32" where
  "percentile xs p =
     (if xs = [] then 0
      else xs ! min (percentile_index (length xs) p) (length xs - 1))"

definition stddev_us :: "u32 list \<Rightarrow> f32" where
  "stddev_us values =
     (let n = f64_of_int (int (length values)) in
      if n < f64_of_int 2 then 0
      else
        let fs = map (\<lambda>v. f64_of_int (int (unat v))) values;
            mean = foldl (+) (- 0) fs / n;
            var = foldl (+) (- 0) (map (\<lambda>v. let d = v - mean in d * d) fs) / (n - 1)
        in f32_of_f64 (f64_sqrt var))"

definition saturating_mul2 :: "u32 \<Rightarrow> u32" where
  "saturating_mul2 v = of_nat (min (2 * unat v) (2 ^ 32 - 1))"

definition tracker_snapshot :: "latency_tracker \<Rightarrow> latency_snapshot" where
  "tracker_snapshot t =
     (let iv = sort (intervals_us t);
          (p50, p95, p99, jitter, dropped, n) =
            (if intervals_us t = [] then (0, 0, 0, 0, 0, 0)
             else let p50 = percentile iv (f32_lit 50 100) in
               (p50, percentile iv (f32_lit 95 100), percentile iv (f32_lit 99 100), stddev_us iv,
                of_nat (length (filter (\<lambda>v. saturating_mul2 p50 < v) iv)), of_nat (length iv)));
          (s50, s95) =
            (if sends_us t = [] then (0, 0)
             else let sv = sort (sends_us t)
               in (percentile sv (f32_lit 50 100), percentile sv (f32_lit 95 100)))
      in \<lparr>interval_us_p50 = f32_of_int (int (unat p50)), interval_us_p95 = f32_of_int (int (unat p95)),
          interval_us_p99 = f32_of_int (int (unat p99)), jitter_us = jitter,
          send_us_p50 = f32_of_int (int (unat s50)), send_us_p95 = f32_of_int (int (unat s95)),
          dropped_estimate = dropped, samples_window = n\<rparr>)"

subsection \<open>The history\<close>

record latency_history =
  lh_samples :: "latency_snapshot list"
  lh_cap :: nat

definition history_new :: "nat \<Rightarrow> latency_history" where
  "history_new cap = \<lparr>lh_samples = [], lh_cap = max cap 1\<rparr>"

definition history_push :: "latency_snapshot \<Rightarrow> latency_history \<Rightarrow> latency_history" where
  "history_push s h =
     h\<lparr>lh_samples := (if length (lh_samples h) = lh_cap h then tl (lh_samples h) else lh_samples h) @ [s]\<rparr>"

definition history_latest :: "latency_history \<Rightarrow> latency_snapshot option" where
  "history_latest h = (if lh_samples h = [] then None else Some (last (lh_samples h)))"

definition history_clear :: "latency_history \<Rightarrow> latency_history" where
  "history_clear h = h\<lparr>lh_samples := []\<rparr>"

definition history_default :: latency_history where
  "history_default = history_new DEFAULT_HISTORY_LEN"

subsection \<open>Lemmas: windows\<close>

text \<open>A capped queue holds the newest entries of everything pushed.\<close>

definition newest :: "nat \<Rightarrow> 'a list \<Rightarrow> 'a list" where
  "newest n xs = drop (length xs - n) xs"

lemma newest_snoc:
  assumes "0 < n"
  shows "(if length (newest n xs) = n then tl (newest n xs) else newest n xs) @ [x] = newest n (xs @ [x])"
proof (cases "n \<le> length xs")
  case True
  then have "Suc (length xs) - n = Suc (length xs - n)" by simp
  with True assms show ?thesis
    by (simp add: newest_def tl_drop drop_Suc)
next
  case False
  then show ?thesis by (simp add: newest_def)
qed

lemma newest_Nil [simp]: "newest n [] = []"
  by (simp add: newest_def)

lemma push_capped_newest: "push_capped (newest WINDOW xs) x = newest WINDOW (xs @ [x])"
  unfolding push_capped_def by (rule newest_snoc) (simp add: WINDOW_def)

lemma history_push_fields:
  "lh_cap (history_push s h) = lh_cap h"
  "lh_samples (history_push s h) =
     (if length (lh_samples h) = lh_cap h then tl (lh_samples h) else lh_samples h) @ [s]"
  by (simp_all add: history_push_def)

lemma history_pushes:
  "lh_samples (fold history_push ss (history_new cap)) = newest (max cap 1) ss
     \<and> lh_cap (fold history_push ss (history_new cap)) = max cap 1"
proof (induction ss rule: rev_induct)
  case Nil
  then show ?case by (simp add: history_new_def)
next
  case (snoc s ss)
  let ?h = "fold history_push ss (history_new cap)" and ?n = "max cap 1"
  have "lh_samples (history_push s ?h)
      = (if length (newest ?n ss) = ?n then tl (newest ?n ss) else newest ?n ss) @ [s]"
    using snoc by (simp add: history_push_fields)
  also have "\<dots> = newest ?n (ss @ [s])"
    by (rule newest_snoc) simp
  finally show ?case
    using snoc by (simp add: history_push_fields)
qed

text \<open>A run of the tracker, and what its windows hold.\<close>

datatype latency_op = Arrival instant | Sent duration

fun latency_step :: "latency_op \<Rightarrow> latency_tracker \<Rightarrow> latency_tracker" where
  "latency_step (Arrival now) t = snd (record_arrival now t)"
| "latency_step (Sent d) t = record_send d t"

definition latency_run :: "latency_op list \<Rightarrow> latency_tracker" where
  "latency_run ops = fold latency_step ops tracker_new"

fun arrivals :: "latency_op list \<Rightarrow> instant list" where
  "arrivals [] = []"
| "arrivals (Arrival now # ops) = now # arrivals ops"
| "arrivals (Sent d # ops) = arrivals ops"

fun sent :: "latency_op list \<Rightarrow> duration list" where
  "sent [] = []"
| "sent (Arrival now # ops) = sent ops"
| "sent (Sent d # ops) = d # sent ops"

fun gaps :: "instant list \<Rightarrow> duration list" where
  "gaps (a # b # ts) = duration_since b a # gaps (b # ts)"
| "gaps _ = []"

lemma arrivals_append [simp]: "arrivals (xs @ ys) = arrivals xs @ arrivals ys"
  by (induction xs rule: arrivals.induct) auto

lemma sent_append [simp]: "sent (xs @ ys) = sent xs @ sent ys"
  by (induction xs rule: sent.induct) auto

lemma gaps_snoc: "gaps (ts @ [b]) = gaps ts @ (if ts = [] then [] else [duration_since b (last ts)])"
  by (induction ts rule: gaps.induct) auto

lemma latency_run_windows:
  "intervals_us (latency_run ops) = newest WINDOW (map micros_u32 (gaps (arrivals ops)))
     \<and> sends_us (latency_run ops) = newest WINDOW (map micros_u32 (sent ops))
     \<and> prev_arrival (latency_run ops) = (if arrivals ops = [] then None else Some (last (arrivals ops)))"
proof (induction ops rule: rev_induct)
  case Nil
  then show ?case by (simp add: latency_run_def tracker_new_def)
next
  case (snoc x ops)
  then show ?case
    by (cases x)
      (auto simp: latency_run_def record_arrival_def record_send_def gaps_snoc push_capped_newest Let_def)
qed

subsection \<open>Lemmas: percentiles\<close>

lemma f32_val_pred:
  assumes "0 < n" "n < 2 ^ 24"
  shows "f32_val (f32_of_int (int n) - 1) = FFin False ((n - 1) * funit fmt32)"
proof (cases "n = 1")
  case True
  have "f32_val (f32_of_int 1) = FFin False (funit fmt32)"
    using f32_val_of_int [of 1] by simp
  with True show ?thesis
    by (simp add: fp_sub_def sgn_int_def)
next
  case False
  let ?U = "funit fmt32"
  have U: "0 < ?U" by simp
  have val: "f32_val (f32_of_int (int n)) = FFin False (n * ?U)"
    using assms f32_val_of_int [of "int n"] by simp
  have nU: "n * ?U = (n - 1) * ?U + ?U"
    using assms(1) by (cases n) simp_all
  have z: "sgn_int False (n * ?U) + sgn_int True ?U = int ((n - 1) * ?U)"
    unfolding sgn_int_def nU by simp
  have "(n - 1) * ?U \<noteq> 0"
    using False assms U by simp
  moreover have "fp_make fmt32 False ((n - 1) * ?U * 1) 1 = FFin False ((n - 1) * ?U)"
  proof (rule fp_make_exact)
    have "n - 1 < 2 ^ Suc 23" using assms by simp
    from repr_mult_pow [OF this, of 149] show "repr (mbits fmt32) ((n - 1) * ?U)"
      by (simp add: fmt32_def)
    have "(n - 1) * 2 ^ 149 < 2 ^ 24 * (2 :: nat) ^ 149"
      using assms by (intro mult_strict_right_mono) simp_all
    also have "\<dots> \<le> 2 ^ 277" by simp
    finally show "(n - 1) * ?U < flimit fmt32"
      by (simp add: fmt32_def)
  qed simp
  ultimately show ?thesis
    unfolding f32_ops_val fp_sub_def val f32_val_1 fp_neg.simps not_False_eq_True fp_add.simps z Let_def
    by (simp del: of_nat_mult)
qed

text \<open>The index of a percentile, without floating point around the rounding.\<close>

definition rank :: "nat \<Rightarrow> nat \<Rightarrow> nat" where
  "rank n k =
     (2 * fp_round 23 ((n - 1) * funit fmt32 * k) (funit fmt32) + funit fmt32) div (2 * funit fmt32)"

lemma rank_mono: "k \<le> l \<Longrightarrow> rank n k \<le> rank n l"
  unfolding rank_def
  by (intro div_le_mono add_le_mono1 mult_le_mono2 fp_round_mono) simp_all

lemma product_bound:
  assumes "0 < n" "n < 2 ^ 24" "k \<le> funit fmt32"
  shows "fp_round 23 ((n - 1) * funit fmt32 * k) (funit fmt32) \<le> (n - 1) * funit fmt32"
proof -
  let ?U = "funit fmt32"
  have "fp_round 23 ((n - 1) * ?U * k) ?U \<le> fp_round 23 ((n - 1) * ?U * 1) 1"
    using assms(3) by (intro fp_round_mono) simp_all
  also have "\<dots> = (n - 1) * ?U"
    using assms repr_mult_pow [of "n - 1" 23 149] by (intro fp_round_exact) (simp_all add: fmt32_def)
  finally show ?thesis .
qed

lemma half_up: "0 < u \<Longrightarrow> (2 * (m * u) + u) div (2 * u) = (m :: nat)"
  by (rule div_nat_eqI) (simp_all add: algebra_simps)

lemma rank_le:
  assumes "0 < n" "n < 2 ^ 24" "k \<le> funit fmt32"
  shows "rank n k \<le> n - 1"
proof -
  let ?U = "funit fmt32"
  have "rank n k \<le> (2 * ((n - 1) * ?U) + ?U) div (2 * ?U)"
    unfolding rank_def using product_bound [OF assms] by (intro div_le_mono) simp
  also have "\<dots> = n - 1"
    by (rule half_up) simp
  finally show ?thesis .
qed

lemma percentile_index_rank:
  assumes n: "0 < n" "n < 2 ^ 24" and p: "f32_val p = FFin False k" "k \<le> funit fmt32"
  shows "percentile_index n p = rank n k"
proof -
  let ?U = "funit fmt32" and ?m = "fp_round 23 ((n - 1) * funit fmt32 * k) (funit fmt32)"
  have "(n - 1) * 2 ^ 149 < 2 ^ 24 * (2 :: nat) ^ 149"
    using n by (intro mult_strict_right_mono) simp_all
  also have "\<dots> \<le> 2 ^ 277" by simp
  finally have lim: "(n - 1) * ?U < flimit fmt32" by (simp add: fmt32_def)
  with product_bound [OF n p(2)] have "?m < flimit fmt32" by linarith
  then have prod: "f32_val ((f32_of_int (int n) - 1) * p) = FFin False ?m"
    unfolding f32_ops_val(3) f32_val_pred [OF n] p(1) by (simp add: fp_make_def Let_def)
  have r: "fp_round_int fmt32 (FFin False ?m) = FFin False (rank n k * ?U)"
    by (simp add: rank_def)
  have rn: "rank n k < 2 ^ Suc 23"
    using rank_le [OF n p(2)] n by simp
  have "rank n k * ?U \<le> (n - 1) * ?U"
    using rank_le [OF n p(2)] by (rule mult_le_mono1)
  with lim rn have "fp_ok fmt32 (FFin False (rank n k * ?U))"
    using repr_mult_pow [OF rn, of 149] by (simp add: fmt32_def)
  then have "f32_val (f32_round ((f32_of_int (int n) - 1) * p)) = FFin False (rank n k * ?U)"
    unfolding f32_round_def prod r by (rule f32_val_of)
  moreover have "rank n k \<le> 2 ^ 64 - 1"
    using rn by simp
  ultimately show ?thesis
    by (simp add: percentile_index_def f32_to_nat_def)
qed

text \<open>The literals 0.50, 0.95 and 0.99.\<close>

definition lit_units :: "nat \<Rightarrow> nat" where
  "lit_units a = fp_round 23 (a * funit fmt32) 100"

lemma lit_units_mono: "a \<le> b \<Longrightarrow> lit_units a \<le> lit_units b"
  unfolding lit_units_def by (intro fp_round_mono) simp_all

lemma lit_units_100: "lit_units 100 = funit fmt32"
proof -
  have "fp_round 23 (funit fmt32 * 100) 100 = funit fmt32"
    using repr_mult_pow [of 1 23 149] by (intro fp_round_exact) (simp_all add: fmt32_def)
  then show ?thesis by (simp add: lit_units_def mult.commute)
qed

lemma lit_units_le: "a \<le> 100 \<Longrightarrow> lit_units a \<le> funit fmt32"
  using lit_units_mono [of a 100] lit_units_100 by simp

lemma f32_val_lit: "a \<le> 100 \<Longrightarrow> f32_val (f32_lit a 100) = FFin False (lit_units a)"
proof -
  assume a: "a \<le> 100"
  have "funit fmt32 < flimit fmt32" by (simp add: fmt32_def)
  with lit_units_le [OF a] have "lit_units a < flimit fmt32" by linarith
  then have "fp_make fmt32 False (a * funit fmt32) 100 = FFin False (lit_units a)"
    by (simp add: fp_make_def Let_def lit_units_def)
  moreover have "fp_ok fmt32 (fp_make fmt32 False (a * funit fmt32) 100)"
    by (rule fp_ok_make) simp
  ultimately show ?thesis
    by (metis f32_lit_def f32_val_of)
qed

lemma percentile_lit:
  assumes "xs \<noteq> []" "length xs < 2 ^ 24" "a \<le> 100"
  shows "percentile xs (f32_lit a 100) = xs ! rank (length xs) (lit_units a)"
    and "rank (length xs) (lit_units a) < length xs"
proof -
  have n: "0 < length xs" using assms by simp
  note le = rank_le [OF n assms(2) lit_units_le [OF assms(3)]]
  have "percentile_index (length xs) (f32_lit a 100) = rank (length xs) (lit_units a)"
    using n assms by (intro percentile_index_rank) (simp_all add: f32_val_lit lit_units_le)
  with le assms(1) show "percentile xs (f32_lit a 100) = xs ! rank (length xs) (lit_units a)"
    by (simp add: percentile_def)
  show "rank (length xs) (lit_units a) < length xs"
    using le n by linarith
qed

lemma percentile_mono:
  assumes "sorted xs" "xs \<noteq> []" "length xs < 2 ^ 24" "a \<le> b" "b \<le> 100"
  shows "percentile xs (f32_lit a 100) \<le> percentile xs (f32_lit b 100)"
  using assms percentile_lit [of xs a] percentile_lit [of xs b]
    sorted_nth_mono [OF assms(1) rank_mono [OF lit_units_mono [OF assms(4)]]]
  by simp

lemma f32_of_nat_mono: "a \<le> b \<Longrightarrow> \<not> f32_of_int (int b) < f32_of_int (int a)"
proof -
  assume "a \<le> b"
  have ok: "fp_ok fmt32 (fp_of_int fmt32 i)" for i
    by (simp add: fp_of_int_def)
  have "\<not> fp_less (fp_make fmt32 False (b * funit fmt32) 1) (fp_make fmt32 False (a * funit fmt32) 1)"
    using \<open>a \<le> b\<close> by (intro fp_make_mono) simp_all
  then show ?thesis
    by (simp add: less_f32_def f32_of_int_def ok) (simp add: fp_of_int_def)
qed

lemma length_newest [simp]: "length (newest n xs) = min n (length xs)"
  by (auto simp: newest_def)

lemma percentiles_sorted_window:
  assumes "length q \<le> WINDOW" "a \<le> b" "b \<le> 100" "q \<noteq> []"
  shows "unat (percentile (sort q) (f32_lit a 100)) \<le> unat (percentile (sort q) (f32_lit b 100))"
    and "percentile (sort q) (f32_lit a 100) \<in> set q"
proof -
  have q: "sort q \<noteq> []" "length (sort q) < 2 ^ 24"
    using assms by (auto simp: WINDOW_def dest: arg_cong [of _ _ length])
  show "unat (percentile (sort q) (f32_lit a 100)) \<le> unat (percentile (sort q) (f32_lit b 100))"
    using percentile_mono [OF _ q assms(2,3)] by (simp add: word_le_nat_alt)
  have "percentile (sort q) (f32_lit a 100) \<in> set (sort q)"
    using assms percentile_lit [OF q, of a] nth_mem [of "rank (length q) (lit_units a)" "sort q"] by simp
  then show "percentile (sort q) (f32_lit a 100) \<in> set q"
    by simp
qed

text \<open>The percentiles of a snapshot, an empty window counting as zero.\<close>

definition pct :: "u32 list \<Rightarrow> nat \<Rightarrow> nat" where
  "pct q a = (if q = [] then 0 else unat (percentile (sort q) (f32_lit a 100)))"

lemma pct_mono: "length q \<le> WINDOW \<Longrightarrow> a \<le> b \<Longrightarrow> b \<le> 100 \<Longrightarrow> pct q a \<le> pct q b"
  by (simp add: pct_def percentiles_sorted_window)

lemma snapshot_fields:
  "interval_us_p50 (tracker_snapshot t) = f32_of_int (int (pct (intervals_us t) 50))"
  "interval_us_p95 (tracker_snapshot t) = f32_of_int (int (pct (intervals_us t) 95))"
  "interval_us_p99 (tracker_snapshot t) = f32_of_int (int (pct (intervals_us t) 99))"
  "send_us_p50 (tracker_snapshot t) = f32_of_int (int (pct (sends_us t) 50))"
  "send_us_p95 (tracker_snapshot t) = f32_of_int (int (pct (sends_us t) 95))"
  "samples_window (tracker_snapshot t) = of_nat (length (intervals_us t))"
  "dropped_estimate (tracker_snapshot t) =
     (if intervals_us t = [] then 0
      else of_nat (length (filter (\<lambda>v. saturating_mul2 (percentile (sort (intervals_us t)) (f32_lit 50 100)) < v)
        (sort (intervals_us t)))))"
  by (simp_all add: tracker_snapshot_def pct_def Let_def)

lemma dropped_less:
  assumes "q \<noteq> []" "length q \<le> WINDOW"
  shows "length (filter (\<lambda>v. saturating_mul2 (percentile (sort q) (f32_lit 50 100)) < v) (sort q)) < length q"
proof -
  let ?p = "percentile (sort q) (f32_lit 50 100)"
  have "unat ?p \<le> unat (saturating_mul2 ?p)"
    using unsigned_less [of ?p, where ?'a = nat]
    by (auto simp: saturating_mul2_def unat_of_nat min_def)
  then have "\<not> saturating_mul2 ?p < ?p"
    by (simp add: word_less_nat_alt)
  moreover have "?p \<in> set (sort q)"
    using percentiles_sorted_window(2) [OF assms(2), of 50 50] assms(1) by simp
  ultimately have "length (filter (\<lambda>v. saturating_mul2 ?p < v) (sort q)) < length (sort q)"
    by (intro length_filter_less)
  then show ?thesis by simp
qed

subsection \<open>Properties\<close>

text \<open>
  After any sequence of batches and sends the tracker's windows hold exactly the
  newest 256 gaps between consecutive batches and the newest 256 send times, in microseconds
  saturated to 32 bits; the history holds the newest snapshots up to its capacity, the last
  one pushed as its latest.
\<close>

theorem latency_windows_newest:
  "intervals_us (latency_run ops) = newest WINDOW (map micros_u32 (gaps (arrivals ops)))
     \<and> sends_us (latency_run ops) = newest WINDOW (map micros_u32 (sent ops))
     \<and> lh_samples (fold history_push (ss @ [s]) (history_new cap)) = newest (max cap 1) (ss @ [s])
     \<and> history_latest (fold history_push (ss @ [s]) (history_new cap)) = Some s"
  using latency_run_windows [of ops] history_pushes [of "ss @ [s]" cap]
  by (simp add: history_latest_def newest_def)

text \<open>
  In the snapshot after any run the percentiles are in order, with the rank
  computed in single precision as the code does; the number of samples is the number of gaps,
  at most 256, and not all of them count as dropped.
\<close>

theorem snapshot_percentiles_ordered:
  "let s = tracker_snapshot (latency_run ops) in
     \<not> interval_us_p95 s < interval_us_p50 s \<and> \<not> interval_us_p99 s < interval_us_p95 s
     \<and> \<not> send_us_p95 s < send_us_p50 s
     \<and> unat (samples_window s) = min WINDOW (length (gaps (arrivals ops)))
     \<and> (samples_window s = 0 \<or> dropped_estimate s < samples_window s)"
proof -
  let ?t = "latency_run ops"
  have len: "length (intervals_us ?t) = min WINDOW (length (gaps (arrivals ops)))"
    "length (sends_us ?t) \<le> WINDOW"
    by (simp_all add: latency_run_windows)
  have small: "unat (of_nat k :: u32) = k" if "k \<le> WINDOW" for k
    using that by (simp add: unat_of_nat WINDOW_def)
  have dropped: "dropped_estimate (tracker_snapshot ?t) < samples_window (tracker_snapshot ?t)"
    if q: "intervals_us ?t \<noteq> []"
  proof -
    have le: "length (intervals_us ?t) \<le> WINDOW" using len by simp
    note less = dropped_less [OF q le]
    show ?thesis
      using q less le unfolding snapshot_fields word_less_nat_alt by (simp add: small)
  qed
  have iv: "pct (intervals_us ?t) a \<le> pct (intervals_us ?t) b" if "a \<le> b" "b \<le> 100" for a b
    using that len by (intro pct_mono) simp_all
  have sv: "pct (sends_us ?t) 50 \<le> pct (sends_us ?t) 95"
    using len by (intro pct_mono) simp_all
  have n: "unat (samples_window (tracker_snapshot ?t)) = min WINDOW (length (gaps (arrivals ops)))"
    using len small [of "length (intervals_us ?t)"] by (simp add: snapshot_fields)
  have empty: "samples_window (tracker_snapshot ?t) = 0" if "intervals_us ?t = []"
    using that by (simp add: snapshot_fields)
  show ?thesis
    unfolding Let_def
    using n dropped empty iv [of 50 95] iv [of 95 99] sv
    by (intro conjI) (simp_all add: snapshot_fields(1-5) f32_of_nat_mono, blast)
qed

end
