(* ===== verification/Mag_Cal.thy ===== *)
theory Mag_Cal
  imports Float_Ops
begin

section \<open>Magnetometer calibration and body frames\<close>

text \<open>
  \<^verbatim>\<open>crates/imu-math\<close>: the frame change \<^verbatim>\<open>coord::jsl_to_vqf_body\<close>, the hard-iron sphere fit of
  \<^verbatim>\<open>mag_cal.rs\<close> and the calibration wizard of \<^verbatim>\<open>mag_cal_wizard.rs\<close>. The linear solver is
  nalgebra's and is the parameter \<open>solve\<close>, from the normal equations to their solution, if
  the matrix is not singular. Sums and products are those of the code, in its order.
\<close>

type_synonym 'a vec3 = "'a \<times> 'a \<times> 'a"

subsection \<open>Frames\<close>

definition jsl_to_vqf_body :: "f32 vec3 \<Rightarrow> f64 vec3" where
  "jsl_to_vqf_body v = (case v of (x, y, z) \<Rightarrow> (f64_of_f32 x, f64_of_f32 (- z), f64_of_f32 y))"

subsection \<open>Sphere fit\<close>

record sphere_fit =
  sf_center :: "f32 vec3"
  sf_radius :: f32
  sf_residual :: f32

record mag_calibration =
  mc_offset :: "f32 vec3"
  mc_field_strength :: f32
  mc_residual :: f32
  mc_coverage :: f32

definition COVERAGE_BINS :: nat where
  "COVERAGE_BINS = 26"

definition MIN_FIT_SAMPLES :: nat where
  "MIN_FIT_SAMPLES = 12"

type_synonym solver = "f64 list list \<Rightarrow> f64 list \<Rightarrow> (f64 \<times> f64 \<times> f64 \<times> f64) option"

definition vec3_f64 :: "f32 vec3 \<Rightarrow> f64 vec3" where
  "vec3_f64 p = (case p of (x, y, z) \<Rightarrow> (f64_of_f32 x, f64_of_f32 y, f64_of_f32 z))"

text \<open>One sample's contribution to the normal equations.\<close>

definition accumulate ::
  "f32 vec3 \<Rightarrow> f64 list list \<times> f64 list \<Rightarrow> f64 list list \<times> f64 list" where
  "accumulate p acc =
     (case acc of (ata, atf) \<Rightarrow> case vec3_f64 p of (x, y, z) \<Rightarrow>
        let two = f64_of_int 2; row = [two * x, two * y, two * z, 1]; f = x * x + y * y + z * z
        in (map2 (\<lambda>r ri. map2 (\<lambda>m rj. m + ri * rj) r row) ata row,
            map2 (\<lambda>b ri. b + ri * f) atf row))"

definition normal_equations :: "f32 vec3 list \<Rightarrow> f64 list list \<times> f64 list" where
  "normal_equations points = fold accumulate points (replicate 4 (replicate 4 0), replicate 4 0)"

definition residual_step :: "f64 vec3 \<Rightarrow> f64 \<Rightarrow> f64 \<Rightarrow> f32 vec3 \<Rightarrow> f64" where
  "residual_step c radius sum_sq p =
     (case c of (a, b, c) \<Rightarrow> case vec3_f64 p of (x, y, z) \<Rightarrow>
        let dx = x - a; dy = y - b; dz = z - c;
            dist = f64_sqrt (dx * dx + dy * dy + dz * dz)
        in sum_sq + (dist - radius) * (dist - radius))"

definition fit_sphere :: "solver \<Rightarrow> f32 vec3 list \<Rightarrow> sphere_fit option" where
  "fit_sphere solve points =
     (if length points < MIN_FIT_SAMPLES then None
      else
        case normal_equations points of (ata, atf) \<Rightarrow>
        case solve ata atf of
          None \<Rightarrow> None
        | Some (a, b, c, d) \<Rightarrow>
            let r_sq = d + a * a + b * b + c * c in
            if \<not> (f64_is_finite r_sq \<and> 0 < r_sq) then None
            else
              let radius = f64_sqrt r_sq;
                  sum_sq = foldl (residual_step (a, b, c) radius) 0 points;
                  residual = f64_sqrt (sum_sq / f64_of_int (int (length points)))
              in Some \<lparr>sf_center = (f32_of_f64 a, f32_of_f64 b, f32_of_f64 c),
                       sf_radius = f32_of_f64 radius, sf_residual = f32_of_f64 residual\<rparr>)"

subsection \<open>Coverage\<close>

definition axis_bin :: "f32 \<Rightarrow> nat" where
  "axis_bin v =
     (if v < - 1 / f32_of_int 3 then 0 else if v < 1 / f32_of_int 3 then 1 else 2)"

definition F32_EPSILON :: f32 where
  "F32_EPSILON = f32_lit 1 8388608"

text \<open>The cell a sample falls in, if it is not at the centre.\<close>

definition sample_cell :: "f32 vec3 \<Rightarrow> f32 vec3 \<Rightarrow> nat option" where
  "sample_cell center p =
     (case (p, center) of ((px, py, pz), (cx, cy, cz)) \<Rightarrow>
        let dx = px - cx; dy = py - cy; dz = pz - cz;
            norm = f32_sqrt (dx * dx + dy * dy + dz * dz)
        in if norm < F32_EPSILON then None
           else Some (axis_bin (dx / norm) * 9 + axis_bin (dy / norm) * 3 + axis_bin (dz / norm)))"

definition mark_cell :: "f32 vec3 \<Rightarrow> f32 vec3 \<Rightarrow> bool list \<Rightarrow> bool list" where
  "mark_cell center p seen =
     (case sample_cell center p of None \<Rightarrow> seen | Some cell \<Rightarrow> seen[cell := True])"

definition touched :: "f32 vec3 list \<Rightarrow> f32 vec3 \<Rightarrow> nat" where
  "touched points center =
     (let seen = fold (mark_cell center) points (replicate 27 False)
      in length (filter (\<lambda>(i, s). i \<noteq> 13 \<and> s) (enumerate 0 seen)))"

definition coverage :: "f32 vec3 list \<Rightarrow> f32 vec3 \<Rightarrow> f32" where
  "coverage points center =
     f32_of_int (int (touched points center)) / f32_of_int (int COVERAGE_BINS)"

definition calibrate :: "solver \<Rightarrow> f32 vec3 list \<Rightarrow> mag_calibration option" where
  "calibrate solve points =
     (case fit_sphere solve points of
        None \<Rightarrow> None
      | Some fit \<Rightarrow>
          Some \<lparr>mc_offset = sf_center fit, mc_field_strength = sf_radius fit,
                mc_residual = sf_residual fit, mc_coverage = coverage points (sf_center fit)\<rparr>)"

subsection \<open>The wizard\<close>

definition DEFAULT_SAMPLE_CAP :: nat where
  "DEFAULT_SAMPLE_CAP = 4096"

definition MIN_ACCEPTABLE_COVERAGE :: f32 where
  "MIN_ACCEPTABLE_COVERAGE = f32_lit 70 100"

definition MAX_ACCEPTABLE_RESIDUAL :: f32 where
  "MAX_ACCEPTABLE_RESIDUAL = f32_lit 8 1"

datatype failure_reason = TooFewSamples | InsufficientCoverage | FitFailed | ResidualTooLarge

datatype wizard_state =
    WIdle
  | WCollecting nat f32
  | WReady mag_calibration
  | WFailed failure_reason

record wizard_progress =
  wp_samples :: u32
  wp_coverage :: f32
  wp_target :: f32

record wizard =
  wz_samples :: "f32 vec3 list"
  wz_cap :: nat
  wz_state :: wizard_state
  wz_refresh_every :: nat
  wz_last_refresh :: nat

definition wizard_with_capacity :: "nat \<Rightarrow> wizard" where
  "wizard_with_capacity cap =
     \<lparr>wz_samples = [], wz_cap = max cap 16, wz_state = WIdle, wz_refresh_every = 16, wz_last_refresh = 0\<rparr>"

definition wizard_new :: wizard where
  "wizard_new = wizard_with_capacity DEFAULT_SAMPLE_CAP"

definition wizard_start :: "wizard \<Rightarrow> wizard" where
  "wizard_start w = w\<lparr>wz_samples := [], wz_last_refresh := 0, wz_state := WCollecting 0 0\<rparr>"

definition mean_centre :: "f32 vec3 list \<Rightarrow> f32 vec3" where
  "mean_centre points =
     (if points = [] then (0, 0, 0)
      else
        case foldl (\<lambda>(sx, sy, sz) p. case vec3_f64 p of (x, y, z) \<Rightarrow> (sx + x, sy + y, sz + z))
          (0, 0, 0) points of (sx, sy, sz) \<Rightarrow>
        let n = f64_of_int (int (length points))
        in (f32_of_f64 (sx / n), f32_of_f64 (sy / n), f32_of_f64 (sz / n)))"

definition maybe_refresh_progress :: "wizard \<Rightarrow> wizard" where
  "maybe_refresh_progress w =
     (let n = length (wz_samples w) in
      if \<not> (wz_refresh_every w \<le> n - wz_last_refresh w \<or> n < 32)
      then (case wz_state w of
              WCollecting t c \<Rightarrow> w\<lparr>wz_state := WCollecting n c\<rparr>
            | _ \<Rightarrow> w)
      else w\<lparr>wz_last_refresh := n,
             wz_state := WCollecting n (coverage (wz_samples w) (mean_centre (wz_samples w)))\<rparr>)"

definition vec3_finite :: "f32 vec3 \<Rightarrow> bool" where
  "vec3_finite p = (case p of (x, y, z) \<Rightarrow> f32_is_finite x \<and> f32_is_finite y \<and> f32_is_finite z)"

definition wizard_ingest :: "f32 vec3 \<Rightarrow> wizard \<Rightarrow> wizard" where
  "wizard_ingest p w =
     (case wz_state w of
        WCollecting t c \<Rightarrow>
          if wz_cap w \<le> length (wz_samples w) then w
          else if \<not> vec3_finite p then w
          else maybe_refresh_progress (w\<lparr>wz_samples := wz_samples w @ [p]\<rparr>)
      | _ \<Rightarrow> w)"

definition wizard_progress_of :: "wizard \<Rightarrow> wizard_progress" where
  "wizard_progress_of w =
     (case wz_state w of
        WCollecting t c \<Rightarrow>
          \<lparr>wp_samples = of_nat t, wp_coverage = c, wp_target = MIN_ACCEPTABLE_COVERAGE\<rparr>
      | _ \<Rightarrow>
          \<lparr>wp_samples = of_nat (length (wz_samples w)), wp_coverage = 0,
           wp_target = MIN_ACCEPTABLE_COVERAGE\<rparr>)"

definition wizard_finalize :: "solver \<Rightarrow> wizard \<Rightarrow> wizard" where
  "wizard_finalize solve w =
     (if length (wz_samples w) < 12 then w\<lparr>wz_state := WFailed TooFewSamples\<rparr>
      else
        case calibrate solve (wz_samples w) of
          None \<Rightarrow> w\<lparr>wz_state := WFailed FitFailed\<rparr>
        | Some cal \<Rightarrow>
            if mc_coverage cal < MIN_ACCEPTABLE_COVERAGE
            then w\<lparr>wz_state := WFailed InsufficientCoverage\<rparr>
            else if MAX_ACCEPTABLE_RESIDUAL < mc_residual cal
            then w\<lparr>wz_state := WFailed ResidualTooLarge\<rparr>
            else w\<lparr>wz_state := WReady cal\<rparr>)"

definition wizard_reset :: "wizard \<Rightarrow> wizard" where
  "wizard_reset w = w\<lparr>wz_samples := [], wz_last_refresh := 0, wz_state := WIdle\<rparr>"

subsection \<open>Lemmas: coverage\<close>

lemma axis_bin_le: "axis_bin v \<le> 2"
  by (simp add: axis_bin_def)

lemma cell_less: "axis_bin a * 9 + axis_bin b * 3 + axis_bin c < 27"
  using axis_bin_le [of a] axis_bin_le [of b] axis_bin_le [of c] by linarith

lemma sample_cell_less: "sample_cell c p = Some i \<Longrightarrow> i < 27"
  by (auto simp: sample_cell_def Let_def cell_less split: prod.splits if_splits)

lemma length_mark [simp]: "length (mark_cell c p seen) = length seen"
  by (simp add: mark_cell_def split: option.split)

lemma length_marks [simp]: "length (fold (mark_cell c) ps seen) = length seen"
  by (induction ps arbitrary: seen) simp_all

lemma touched_le: "touched points center \<le> 26"
proof -
  let ?seen = "fold (mark_cell center) points (replicate 27 False)"
  let ?xs = "enumerate 0 ?seen"
  have "(13, ?seen ! 13) \<in> set ?xs"
    by (simp add: in_set_enumerate_eq)
  then have "length (filter (\<lambda>(i, s). i \<noteq> 13 \<and> s) ?xs) < length ?xs"
    by (intro length_filter_less) auto
  then show ?thesis
    by (simp add: touched_def Let_def)
qed

text \<open>Quotients of small numbers, and the bound 0.70 between 18 and 19 cells of 26.\<close>

definition quot_units :: "nat \<Rightarrow> nat \<Rightarrow> nat" where
  "quot_units t b = fp_round 23 (t * funit fmt32 * funit fmt32) (b * funit fmt32)"

lemma fp_round_scale:
  assumes "0 < u" "0 < b"
  shows "fp_round mb (t * u * u) (b * u) = fp_round mb (t * u) b"
  using assms by (intro antisym fp_round_mono) (simp_all add: ac_simps)

lemma quot_units_mono:
  assumes "0 < b" "0 < d" "t * d \<le> r * b"
  shows "quot_units t b \<le> quot_units r d"
proof -
  have "t * funit fmt32 * d \<le> r * funit fmt32 * b"
    using assms(3) mult_le_mono1 [of "t * d" "r * b" "funit fmt32"] by (simp add: ac_simps)
  then show ?thesis
    unfolding quot_units_def using assms by (simp add: fp_round_scale fp_round_mono)
qed

lemma quot_units_256: "a < 256 \<Longrightarrow> quot_units a 256 = a * 2 ^ 141"
proof -
  assume "a < 256"
  then have "repr 23 (a * 2 ^ 141)"
    by (intro repr_mult_pow) simp
  then have "fp_round 23 (a * 2 ^ 141 * 256) 256 = a * 2 ^ 141"
    by (rule fp_round_exact) simp
  then show ?thesis
    by (simp add: quot_units_def fp_round_scale) (simp add: fmt32_def mult.commute)
qed

lemma quot_units_limit: "a \<le> b \<Longrightarrow> 0 < b \<Longrightarrow> quot_units a b < flimit fmt32"
proof -
  assume "a \<le> b" "0 < b"
  then have "quot_units a b \<le> quot_units 255 1"
    by (intro quot_units_mono) simp_all
  also have "\<dots> = fp_round 23 (255 * funit fmt32 * 1) 1"
    unfolding quot_units_def by (subst fp_round_scale) simp_all
  also have "\<dots> = 255 * funit fmt32"
    using repr_mult_pow [of 255 23 149] by (intro fp_round_exact) (simp_all add: fmt32_def)
  also have "\<dots> < flimit fmt32"
    by (simp add: fmt32_def)
  finally show ?thesis .
qed

lemma f32_quot_val:
  assumes "a \<le> b" "0 < b" "b < 256"
  shows "f32_val (f32_of_int (int a) / f32_of_int (int b)) = FFin False (quot_units a b)"
proof -
  have "f32_val (f32_of_int (int a)) = FFin False (a * funit fmt32)"
    "f32_val (f32_of_int (int b)) = FFin False (b * funit fmt32)"
    using assms f32_val_of_int [of "int a"] f32_val_of_int [of "int b"] by simp_all
  with assms quot_units_limit [OF assms(1,2)] show ?thesis
    by (simp add: fp_make_def Let_def quot_units_def)
qed

lemma min_coverage_val: "f32_val MIN_ACCEPTABLE_COVERAGE = FFin False (quot_units 70 100)"
proof -
  have q: "fp_round 23 (70 * funit fmt32) 100 = quot_units 70 100"
    unfolding quot_units_def by (subst fp_round_scale) simp_all
  have "fp_make fmt32 False (70 * funit fmt32) 100 = FFin False (quot_units 70 100)"
    using quot_units_limit [of 70 100] by (simp add: fp_make_def Let_def q)
  moreover have "fp_ok fmt32 (fp_make fmt32 False (70 * funit fmt32) 100)"
    by (rule fp_ok_make) simp
  ultimately show ?thesis
    unfolding MIN_ACCEPTABLE_COVERAGE_def f32_lit_def by (simp only: f32_val_of)
qed

lemma coverage_val: "f32_val (coverage points center) = FFin False (quot_units (touched points center) 26)"
  unfolding coverage_def COVERAGE_BINS_def using touched_le by (intro f32_quot_val) simp_all

lemma coverage_threshold:
  "coverage points center < MIN_ACCEPTABLE_COVERAGE \<longleftrightarrow> touched points center \<le> 18"
proof -
  let ?t = "touched points center"
  have "quot_units ?t 26 < quot_units 70 100" if "?t \<le> 18"
  proof -
    have "quot_units ?t 26 \<le> quot_units 178 256"
      using that by (intro quot_units_mono) simp_all
    also have "\<dots> < quot_units 179 256"
      by (simp add: quot_units_256)
    also have "\<dots> \<le> quot_units 70 100"
      by (rule quot_units_mono) simp_all
    finally show ?thesis .
  qed
  moreover have "quot_units 70 100 \<le> quot_units ?t 26" if "\<not> ?t \<le> 18"
    using that by (intro quot_units_mono) simp_all
  ultimately show ?thesis
    by (cases "?t \<le> 18") (simp_all add: less_f32_def coverage_val min_coverage_val sgn_int_def)
qed

subsection \<open>Lemmas: the wizard\<close>

datatype wizard_op = Start | Ingest "f32 vec3" | Finalize | Reset

fun wizard_step :: "solver \<Rightarrow> wizard_op \<Rightarrow> wizard \<Rightarrow> wizard" where
  "wizard_step solve Start w = wizard_start w"
| "wizard_step solve (Ingest p) w = wizard_ingest p w"
| "wizard_step solve Finalize w = wizard_finalize solve w"
| "wizard_step solve Reset w = wizard_reset w"

definition wizard_inv :: "nat \<Rightarrow> wizard \<Rightarrow> bool" where
  "wizard_inv cap w \<longleftrightarrow> wz_cap w = cap \<and> wz_refresh_every w = 16
     \<and> length (wz_samples w) \<le> cap \<and> list_all vec3_finite (wz_samples w)
     \<and> (case wz_state w of
          WIdle \<Rightarrow> wz_samples w = []
        | WCollecting n c \<Rightarrow> n = length (wz_samples w)
            \<and> wz_last_refresh w \<le> n \<and> n - wz_last_refresh w < 16
        | WReady cal \<Rightarrow> 12 \<le> length (wz_samples w)
        | WFailed r \<Rightarrow> True)"

lemma wizard_inv_init: "wizard_inv (max cap 16) (wizard_with_capacity cap)"
  by (simp add: wizard_inv_def wizard_with_capacity_def)

lemma wizard_inv_start: "wizard_inv cap w \<Longrightarrow> wizard_inv cap (wizard_start w)"
  by (simp add: wizard_inv_def wizard_start_def)

lemma wizard_inv_reset: "wizard_inv cap w \<Longrightarrow> wizard_inv cap (wizard_reset w)"
  by (simp add: wizard_inv_def wizard_reset_def)

lemma wizard_inv_ingest: "wizard_inv cap w \<Longrightarrow> wizard_inv cap (wizard_ingest p w)"
  by (cases "wz_state w")
    (auto simp: wizard_inv_def wizard_ingest_def maybe_refresh_progress_def Let_def)

lemma wizard_inv_finalize: "wizard_inv cap w \<Longrightarrow> wizard_inv cap (wizard_finalize solve w)"
  by (auto simp: wizard_inv_def wizard_finalize_def Let_def split: option.split)

lemma wizard_inv_step: "wizard_inv cap w \<Longrightarrow> wizard_inv cap (wizard_step solve op w)"
  by (cases op) (simp_all add: wizard_inv_start wizard_inv_reset wizard_inv_ingest wizard_inv_finalize)

lemma wizard_inv_run: "wizard_inv cap w \<Longrightarrow> wizard_inv cap (fold (wizard_step solve) ops w)"
  by (induction ops arbitrary: w) (simp_all add: wizard_inv_step)

subsection \<open>Properties\<close>

text \<open>
  In every run of the wizard the buffer stays within its capacity and holds only
  finite samples, an idle wizard holds none, the sample count shown while collecting is that
  of the buffer, and the coverage shown is never more than 15 samples behind.
\<close>

theorem wizard_buffer_and_progress:
  "let w = fold (wizard_step solve) ops (wizard_with_capacity cap) in
     length (wz_samples w) \<le> max cap 16 \<and> list_all vec3_finite (wz_samples w)
     \<and> (case wz_state w of
          WIdle \<Rightarrow> wz_samples w = []
        | WCollecting n c \<Rightarrow> n = length (wz_samples w) \<and> n - wz_last_refresh w < 16
        | WReady cal \<Rightarrow> 12 \<le> length (wz_samples w)
        | WFailed r \<Rightarrow> True)"
  using wizard_inv_run [OF wizard_inv_init [of cap], of solve ops]
  by (simp add: Let_def wizard_inv_def split: wizard_state.splits)

text \<open>
  The coverage of a sample set is the number of its direction cells out of 26,
  and finalising decides by it as follows, in this order: too few samples, no fit, at most 18
  cells (so that the bound 0.70 asks for 19), residual too large, accepted.
\<close>

theorem finalize_decision:
  "touched points center \<le> 26 \<and>
   wz_state (wizard_finalize solve w) =
     (if length (wz_samples w) < 12 then WFailed TooFewSamples
      else case fit_sphere solve (wz_samples w) of
        None \<Rightarrow> WFailed FitFailed
      | Some fit \<Rightarrow>
          if touched (wz_samples w) (sf_center fit) \<le> 18 then WFailed InsufficientCoverage
          else if MAX_ACCEPTABLE_RESIDUAL < sf_residual fit then WFailed ResidualTooLarge
          else WReady \<lparr>mc_offset = sf_center fit, mc_field_strength = sf_radius fit,
            mc_residual = sf_residual fit,
            mc_coverage = f32_of_int (int (touched (wz_samples w) (sf_center fit))) / f32_of_int 26\<rparr>)"
  using touched_le
  by (simp add: wizard_finalize_def calibrate_def coverage_threshold split: option.split)
    (simp add: coverage_def COVERAGE_BINS_def)

end
