(* ===== verification/Pipeline.thy ===== *)
theory Pipeline
  imports Slime_Client Device_Traits Latency Mag_Cal
begin

section \<open>The per-device pipeline\<close>

text \<open>
  \<^verbatim>\<open>crates/core/src/pipeline.rs\<close>, with \<^verbatim>\<open>lazy_slime.rs\<close> and \<^verbatim>\<open>quat.rs\<close>: the task that turns
  the events of one device into packets of its SlimeVR client.

  The orientation filters of \<^verbatim>\<open>imu-fusion\<close> are deterministic, so a filter is the history of
  the calls made on it, and what is read from it (its quaternion, its bias estimate, whether
  it has seen a magnetometer) is a function of that history; these functions, the sine and
  cosine of the platform and nalgebra's linear solver are the fields of the record \<open>platform\<close>.
  The outcome and the clock readings of every socket call and every reading of the
  monotonic clock are arguments (\<open>event_env\<close>). A \<^verbatim>\<open>watch\<close> channel is the value last sent.
  Handling an event is one step: the receive loop and the watchdog of the client run between
  events (\<open>Pipeline_Run\<close> interleaves them). Calls to the bias store are recorded.
\<close>

subsection \<open>Settings\<close>

datatype fusion_algo = AlgoVqf | AlgoMadgwick | AlgoBasicVqf

definition algo_from_setting :: "text_string \<Rightarrow> fusion_algo" where
  "algo_from_setting s =
     (if s = ''madgwick'' then AlgoMadgwick
      else if s = ''basic_vqf'' then AlgoBasicVqf else AlgoVqf)"

fun algo_to_setting :: "fusion_algo \<Rightarrow> text_string" where
  "algo_to_setting AlgoVqf = ''vqf''"
| "algo_to_setting AlgoMadgwick = ''madgwick''"
| "algo_to_setting AlgoBasicVqf = ''basic_vqf''"

datatype mounting = MountIdentity | LeftSide | RightSide | UpsideDown | FacingForward | FacingBack

definition mounting_from_setting :: "text_string \<Rightarrow> mounting" where
  "mounting_from_setting s =
     (if s = ''left_side'' then LeftSide
      else if s = ''right_side'' then RightSide
      else if s = ''upside_down'' then UpsideDown
      else if s = ''facing_forward'' then FacingForward
      else if s = ''facing_back'' then FacingBack else MountIdentity)"

fun mounting_to_setting :: "mounting \<Rightarrow> text_string" where
  "mounting_to_setting MountIdentity = ''identity''"
| "mounting_to_setting LeftSide = ''left_side''"
| "mounting_to_setting RightSide = ''right_side''"
| "mounting_to_setting UpsideDown = ''upside_down''"
| "mounting_to_setting FacingForward = ''facing_forward''"
| "mounting_to_setting FacingBack = ''facing_back''"

record pipeline_config =
  pc_fusion :: fusion_algo
  pc_mounting :: mounting
  pc_mag_enabled :: bool
  pc_rotation_offset :: f32
  pc_gyro_scale :: f32
  pc_mag_cal :: "mag_calibration option"

definition pipeline_config_default :: pipeline_config where
  "pipeline_config_default =
     \<lparr>pc_fusion = AlgoVqf, pc_mounting = MountIdentity, pc_mag_enabled = False,
      pc_rotation_offset = 0, pc_gyro_scale = 1, pc_mag_cal = None\<rparr>"

datatype mag_cal_cmd = CmdIdle | CmdStart | CmdFinish | CmdCancel

record mag_cal_progress =
  mp_active :: bool
  mp_samples :: u32
  mp_coverage :: f32
  mp_field :: f32

definition progress_default :: mag_cal_progress where
  "progress_default = \<lparr>mp_active = False, mp_samples = 0, mp_coverage = 0, mp_field = 0\<rparr>"

definition MAG_CAL_BUFFER_CAP :: nat where
  "MAG_CAL_BUFFER_CAP = 4000"

subsection \<open>The filter\<close>

type_synonym 'a quat = "'a \<times> 'a \<times> 'a \<times> 'a"

datatype filter_call =
    CallSetBias bias
  | CallVqf "f64 vec3" "f64 vec3" "f64 vec3 option"
  | CallMarg "f32 vec3" "f32 vec3" "f32 vec3"
  | CallImu "f32 vec3" "f32 vec3"
  | CallBasic "f64 vec3" "f64 vec3"
  | CallTimestep f64
  | CallPeriod f32

record filter =
  fl_algo :: fusion_algo
  fl_ts :: f64
  fl_motion_bias :: bool
  fl_calls :: "filter_call list"

record platform =
  pf_sin :: "f32 \<Rightarrow> f32"
  pf_cos :: "f32 \<Rightarrow> f32"
  pf_solve :: solver
  rd_vqf_6d :: "filter \<Rightarrow> f64 quat"
  rd_vqf_9d :: "filter \<Rightarrow> f64 quat"
  rd_vqf_mag_seen :: "filter \<Rightarrow> bool"
  rd_vqf_bias :: "filter \<Rightarrow> bias"
  rd_madgwick :: "filter \<Rightarrow> f32 quat"
  rd_basic_6d :: "filter \<Rightarrow> f64 quat"

definition vec3_f32 :: "f64 vec3 \<Rightarrow> f32 vec3" where
  "vec3_f32 v = (case v of (x, y, z) \<Rightarrow> (f32_of_f64 x, f32_of_f64 y, f32_of_f64 z))"

definition filter_call :: "filter_call \<Rightarrow> filter \<Rightarrow> filter" where
  "filter_call c f = f\<lparr>fl_calls := c # fl_calls f\<rparr>"

text \<open>The motion path of the bias estimator is on only with a magnetometer.\<close>

definition filter_new :: "fusion_algo \<Rightarrow> f64 \<Rightarrow> bool \<Rightarrow> filter" where
  "filter_new algo ts has_mag =
     \<lparr>fl_algo = algo, fl_ts = ts, fl_motion_bias = (algo = AlgoVqf \<and> has_mag), fl_calls = []\<rparr>"

definition filter_set_bias :: "bias \<Rightarrow> filter \<Rightarrow> filter" where
  "filter_set_bias b f = (if fl_algo f = AlgoVqf then filter_call (CallSetBias b) f else f)"

definition filter_update :: "f64 vec3 \<Rightarrow> f64 vec3 \<Rightarrow> f64 vec3 option \<Rightarrow> filter \<Rightarrow> filter" where
  "filter_update g a m f =
     filter_call
       (case fl_algo f of
          AlgoVqf \<Rightarrow> CallVqf g a m
        | AlgoMadgwick \<Rightarrow>
            (case m of
               Some b \<Rightarrow> CallMarg (vec3_f32 g) (vec3_f32 a) (vec3_f32 b)
             | None \<Rightarrow> CallImu (vec3_f32 g) (vec3_f32 a))
        | AlgoBasicVqf \<Rightarrow> CallBasic g a) f"

definition quat_f64 :: "f32 quat \<Rightarrow> f64 quat" where
  "quat_f64 q = (case q of (a, b, c, d) \<Rightarrow> (f64_of_f32 a, f64_of_f32 b, f64_of_f32 c, f64_of_f32 d))"

definition filter_quat :: "platform \<Rightarrow> bool \<Rightarrow> filter \<Rightarrow> f64 quat" where
  "filter_quat pf use_mag f =
     (case fl_algo f of
        AlgoVqf \<Rightarrow> if use_mag \<and> rd_vqf_mag_seen pf f then rd_vqf_9d pf f else rd_vqf_6d pf f
      | AlgoMadgwick \<Rightarrow> quat_f64 (rd_madgwick pf f)
      | AlgoBasicVqf \<Rightarrow> rd_basic_6d pf f)"

definition filter_bias :: "platform \<Rightarrow> filter \<Rightarrow> bias" where
  "filter_bias pf f = (case fl_algo f of AlgoVqf \<Rightarrow> rd_vqf_bias pf f | _ \<Rightarrow> (0, 0, 0))"

definition filter_set_timestep :: "f64 \<Rightarrow> filter \<Rightarrow> filter" where
  "filter_set_timestep ts f =
     filter_call
       (case fl_algo f of
          AlgoVqf \<Rightarrow> CallTimestep ts
        | AlgoMadgwick \<Rightarrow> CallPeriod (f32_of_f64 ts)
        | AlgoBasicVqf \<Rightarrow> CallTimestep ts) f"

subsection \<open>Quaternions\<close>

text \<open>\<^verbatim>\<open>consts::PI\<close> and \<^verbatim>\<open>FRAC_PI_2\<close> of \<^verbatim>\<open>f32\<close> are 13176795 / 2^22 and half of it.\<close>

definition F32_PI :: f32 where
  "F32_PI = f32_lit 13176795 4194304"

definition F32_FRAC_PI_2 :: f32 where
  "F32_FRAC_PI_2 = f32_lit 13176795 8388608"

definition mounting_quat :: "platform \<Rightarrow> mounting \<Rightarrow> f32 quat" where
  "mounting_quat pf m =
     (let half = F32_FRAC_PI_2;
          rot = (\<lambda>(x, y, z) angle.
            let s = pf_sin pf (angle * f32_lit 1 2); c = pf_cos pf (angle * f32_lit 1 2)
            in (x * s, y * s, z * s, c))
      in case m of
           MountIdentity \<Rightarrow> (0, 0, 0, 1)
         | LeftSide \<Rightarrow> rot (0, 1, 0) half
         | RightSide \<Rightarrow> rot (0, 1, 0) (- half)
         | UpsideDown \<Rightarrow> rot (0, 1, 0) F32_PI
         | FacingForward \<Rightarrow> rot (1, 0, 0) half
         | FacingBack \<Rightarrow> rot (1, 0, 0) (- half))"

definition yaw_offset_quat :: "platform \<Rightarrow> f32 \<Rightarrow> f32 quat" where
  "yaw_offset_quat pf deg =
     (let half = (deg * F32_PI / f32_of_int 180) * f32_lit 1 2
      in (0, pf_sin pf half, 0, pf_cos pf half))"

definition quat_mul_xyzw :: "f32 quat \<Rightarrow> f32 quat \<Rightarrow> f32 quat" where
  "quat_mul_xyzw a b =
     (case (a, b) of ((ax, ay, az, aw), (bx, by', bz, bw)) \<Rightarrow>
        (aw * bx + ax * bw + ay * bz - az * by',
         aw * by' - ax * bz + ay * bw + az * bx,
         aw * bz + ax * by' - ay * bx + az * bw,
         aw * bw - ax * bx - ay * by' - az * bz))"

definition quat_identity :: "f32 quat" where
  "quat_identity = (0, 0, 0, 1)"

definition from_vqf_wijk :: "f64 quat \<Rightarrow> f32 quat" where
  "from_vqf_wijk q =
     (case q of (w, i, j, k) \<Rightarrow> (f32_of_f64 i, f32_of_f64 j, f32_of_f64 k, f32_of_f64 w))"

definition renormalize :: "f32 quat \<Rightarrow> f32 quat" where
  "renormalize q =
     (case q of (x, y, z, w) \<Rightarrow>
        let n2 = x * x + y * y + z * z + w * w in
        if 0 < n2 then let inv = 1 / f32_sqrt n2 in (x * inv, y * inv, z * inv, w * inv)
        else (x, y, z, w))"

text \<open>Mounting preset first, then the yaw offset, normalised only when one applied.\<close>

definition output_quat :: "platform \<Rightarrow> pipeline_config \<Rightarrow> filter \<Rightarrow> f32 quat" where
  "output_quat pf cfg f =
     (let q0 = from_vqf_wijk (filter_quat pf (pc_mag_enabled cfg) f);
          mounted = pc_mounting cfg \<noteq> MountIdentity;
          q1 = (if mounted then quat_mul_xyzw (mounting_quat pf (pc_mounting cfg)) q0 else q0);
          offset = f32_lit 1 10000 < \<bar>pc_rotation_offset cfg\<bar>;
          q2 = (if offset then quat_mul_xyzw (yaw_offset_quat pf (pc_rotation_offset cfg)) q1 else q1)
      in if mounted \<or> offset then renormalize q2 else q2)"

subsection \<open>State\<close>

record sample_snapshot =
  ss_gyr :: "f32 vec3"
  ss_acc :: "f32 vec3"
  ss_mag :: "f32 vec3 option"
  ss_elapsed_ms :: u64

definition sample_snapshot_default :: sample_snapshot where
  "sample_snapshot_default = \<lparr>ss_gyr = (0, 0, 0), ss_acc = (0, 0, 0), ss_mag = None, ss_elapsed_ms = 0\<rparr>"

record pipeline =
  pl_meta :: device_metadata
  pl_info :: handshake_info
  pl_cell :: "client option"
  pl_sensor_id :: u8
  pl_cfg :: pipeline_config
  pl_fusion :: filter
  pl_last_persist :: instant
  pl_started_at :: instant
  pl_quat :: "f32 quat"
  pl_sample :: sample_snapshot
  pl_bias :: bias
  pl_rate :: f32
  pl_battery :: f32
  pl_latency_out :: latency_snapshot
  pl_latency :: latency_tracker
  pl_rate_counter :: "instant list"
  pl_sensor_info_sent :: bool
  pl_last_mag_config :: "u16 option"
  pl_feature_flags_sent :: bool
  pl_progress :: mag_cal_progress
  pl_results :: "mag_calibration option list"
  pl_mag_buffer :: "f32 vec3 list"
  pl_mag_active :: bool
  pl_gyr_ts :: f64
  pl_first_batch :: "instant option"
  pl_window_start :: "instant option"
  pl_window_samples :: u64
  pl_ema_hz :: "f64 option"
  pl_last_hw_ts :: "u32 option"
  pl_hw_dt :: f64
  pl_stored :: "bias list"

datatype app_error = SlimeFailed client_error | DeviceGone

text \<open>Degrees, and the test for a bias estimate at the filter's clip.\<close>

definition f64_to_degrees :: "f64 \<Rightarrow> f64" where
  "f64_to_degrees x = x * (f64_of_int 180 / f64_lit 884279719003555 281474976710656)"

definition bias_saturated :: "bias \<Rightarrow> bool" where
  "bias_saturated b =
     (case b of (x, y, z) \<Rightarrow>
        list_ex (\<lambda>v. 1 \<le> \<bar>f64_to_degrees v\<bar>) [x, y, z])"

text \<open>
  A new pipeline; \<open>loaded\<close> is what the bias store has for the device, \<open>t1\<close> and \<open>t2\<close> are the
  two readings of the clock. The initial battery value is a NaN.
\<close>

definition initial_fusion :: "device_metadata \<Rightarrow> pipeline_config \<Rightarrow> bias option \<Rightarrow> filter" where
  "initial_fusion meta cfg loaded =
     (let f = filter_new (pc_fusion cfg) (1 / f64_of_int (int (unat (native_rate_hz (md_caps meta)))))
                (has_magnetometer (md_caps meta))
      in case loaded of
           Some b \<Rightarrow> if bias_saturated b then f else filter_set_bias b f
         | None \<Rightarrow> f)"

definition pipeline_new ::
  "device_metadata \<Rightarrow> handshake_info \<Rightarrow> bias option \<Rightarrow> u8 \<Rightarrow> pipeline_config \<Rightarrow> instant \<Rightarrow> instant
    \<Rightarrow> pipeline" where
  "pipeline_new meta info loaded sid cfg t1 t2 =
     \<lparr>pl_meta = meta, pl_info = info, pl_cell = None, pl_sensor_id = sid, pl_cfg = cfg,
      pl_fusion = initial_fusion meta cfg loaded,
      pl_last_persist = t1, pl_started_at = t2, pl_quat = quat_identity,
      pl_sample = sample_snapshot_default, pl_bias = (0, 0, 0), pl_rate = 0, pl_battery = f32_nan,
      pl_latency_out = snapshot_default, pl_latency = tracker_new, pl_rate_counter = [],
      pl_sensor_info_sent = False, pl_last_mag_config = None, pl_feature_flags_sent = False,
      pl_progress = progress_default, pl_results = [], pl_mag_buffer = [], pl_mag_active = False,
      pl_gyr_ts = 1 / f64_of_int (int (unat (native_rate_hz (md_caps meta)))),
      pl_first_batch = None, pl_window_start = None, pl_window_samples = 0, pl_ema_hz = None,
      pl_last_hw_ts = None, pl_hw_dt = 0, pl_stored = []\<rparr>"

definition persist_bias :: "platform \<Rightarrow> pipeline \<Rightarrow> pipeline" where
  "persist_bias pf p =
     (let b = filter_bias pf (pl_fusion p) in
      if bias_saturated b then p else p\<lparr>pl_stored := b # pl_stored p\<rparr>)"

subsection \<open>Timestep calibration\<close>

definition corrected_timestep :: "f64 \<Rightarrow> f64 \<Rightarrow> f64 \<Rightarrow> f64 option" where
  "corrected_timestep measured current threshold =
     (if measured \<le> 0 \<or> current \<le> 0 then None
      else if threshold < \<bar>measured - current\<bar> / current then Some measured else None)"

definition apply_timestep :: "f64 \<Rightarrow> pipeline \<Rightarrow> pipeline" where
  "apply_timestep measured p =
     (case corrected_timestep measured (pl_gyr_ts p) (f64_lit 5 100) of
        Some ts \<Rightarrow> p\<lparr>pl_fusion := filter_set_timestep ts (pl_fusion p), pl_gyr_ts := ts\<rparr>
      | None \<Rightarrow> p)"

definition hw_clock_step :: "imu_sample \<Rightarrow> u32 option \<times> f64 \<Rightarrow> u32 option \<times> f64" where
  "hw_clock_step s st =
     (case st of (before, ema) \<Rightarrow>
        if timestamp_us s \<noteq> 0 then
          let cur = ucast (timestamp_us s) in
          (Some cur,
           case before of
             None \<Rightarrow> ema
           | Some prev \<Rightarrow>
               let dt = f64_of_int (int (unat (cur - prev))) / f64_of_int 1000000 in
               if 0 < dt \<and> dt < f64_lit 1 10 then
                 (if ema \<le> 0 then dt else f64_lit 1 10 * dt + f64_lit 9 10 * ema)
               else ema)
        else (before, ema))"

definition MIN_TS :: f64 where
  "MIN_TS = 1 / f64_of_int 1250"

definition MAX_TS :: f64 where
  "MAX_TS = 1 / f64_of_int 40"

definition smooth_hz :: "f64 option \<Rightarrow> f64 \<Rightarrow> f64" where
  "smooth_hz ema rate =
     (case ema of
        Some prev \<Rightarrow> f64_lit 25 100 * rate + (1 - f64_lit 25 100) * prev
      | None \<Rightarrow> rate)"

definition calibrate_rate :: "nat \<Rightarrow> instant \<Rightarrow> pipeline \<Rightarrow> pipeline" where
  "calibrate_rate n arrival p0 =
     (if n = 0 then p0
      else
        let first = (case pl_first_batch p0 of Some t \<Rightarrow> t | None \<Rightarrow> arrival);
            p = p0\<lparr>pl_first_batch := Some first\<rparr>
        in
        if as_secs_f64 (duration_since arrival first) < f64_lit 15 10 then p
        else
          let window = (case pl_window_start p of Some t \<Rightarrow> t | None \<Rightarrow> arrival);
              p1 = p\<lparr>pl_window_start := Some window,
                     pl_window_samples := pl_window_samples p + of_nat n\<rparr>;
              elapsed = as_secs_f64 (duration_since arrival window)
          in
          if elapsed < f64_of_int 4 then p1
          else
            let rate = f64_of_int (int (unat (pl_window_samples p1))) / elapsed;
                hz = smooth_hz (pl_ema_hz p1) rate;
                p2 = p1\<lparr>pl_window_start := Some arrival, pl_window_samples := 0, pl_ema_hz := Some hz\<rparr>
            in apply_timestep (f64_clamp (1 / hz) MIN_TS MAX_TS) p2)"

definition drive_timestep :: "imu_sample list \<Rightarrow> instant \<Rightarrow> pipeline \<Rightarrow> pipeline" where
  "drive_timestep batch arrival p =
     (let (before, ema) = fold hw_clock_step batch (pl_last_hw_ts p, pl_hw_dt p);
          p1 = p\<lparr>pl_last_hw_ts := before, pl_hw_dt := ema\<rparr>
      in if 0 < ema then apply_timestep ema p1 else calibrate_rate (length batch) arrival p1)"

subsection \<open>Magnetometer calibration sessions\<close>

definition handle_mag_cal_cmd :: "platform \<Rightarrow> mag_cal_cmd \<Rightarrow> pipeline \<Rightarrow> pipeline" where
  "handle_mag_cal_cmd pf cmd p =
     (case cmd of
        CmdIdle \<Rightarrow> p
      | CmdStart \<Rightarrow>
          p\<lparr>pl_mag_buffer := [], pl_mag_active := True,
            pl_progress := progress_default\<lparr>mp_active := True\<rparr>\<rparr>
      | CmdCancel \<Rightarrow>
          p\<lparr>pl_mag_active := False, pl_mag_buffer := [], pl_progress := progress_default\<rparr>
      | CmdFinish \<Rightarrow>
          p\<lparr>pl_mag_active := False, pl_mag_buffer := [], pl_progress := progress_default,
            pl_results := calibrate (pf_solve pf) (pl_mag_buffer p) # pl_results p\<rparr>)"

definition publish_progress :: "platform \<Rightarrow> pipeline \<Rightarrow> pipeline" where
  "publish_progress pf p =
     (if \<not> pl_mag_active p then p
      else
        let buf = pl_mag_buffer p;
            (cov, field) = (case fit_sphere (pf_solve pf) buf of
               Some fit \<Rightarrow> (coverage buf (sf_center fit), sf_radius fit)
             | None \<Rightarrow> (0, 0))
        in p\<lparr>pl_progress := \<lparr>mp_active = True, mp_samples = of_nat (length buf),
               mp_coverage = cov, mp_field = field\<rparr>\<rparr>)"

subsection \<open>Handling an event\<close>

record connect_env =
  cn_bind_err :: "io_kind option"
  cn_connect_err :: "io_kind option"
  cn_out :: send_outcome
  cn_now1 :: u64
  cn_now2 :: u64

record event_env =
  ee_connect :: connect_env
  ee_paused :: bool
  ee_sensor_info :: "send_outcome \<times> u64"
  ee_flags :: "send_outcome \<times> u64"
  ee_send1 :: "send_outcome \<times> u64"
  ee_send2 :: "send_outcome \<times> u64"
  ee_mag :: "send_outcome \<times> u64"
  ee_arrival :: instant
  ee_elapsed_at :: instant
  ee_now :: instant
  ee_send_start :: instant
  ee_send_end :: instant
  ee_persist_check :: instant
  ee_persist_at :: instant

text \<open>
  \<^verbatim>\<open>LazySlime::get\<close>: connect on first use; a failure is not kept. \<^verbatim>\<open>peek\<close> never connects.
\<close>

definition lazy_get :: "connect_env \<Rightarrow> pipeline \<Rightarrow> client_error + (client \<times> pipeline)" where
  "lazy_get e p =
     (case pl_cell p of
        Some c \<Rightarrow> Inr (c, p)
      | None \<Rightarrow>
          (case connect (cn_bind_err e) (cn_connect_err e) (cn_out e) (cn_now1 e) (cn_now2 e) (pl_info p) of
             Inl err \<Rightarrow> Inl err
           | Inr c \<Rightarrow> Inr (c, p\<lparr>pl_cell := Some c\<rparr>)))"

definition sensor_mag_config :: "pipeline \<Rightarrow> u16" where
  "sensor_mag_config p =
     (if \<not> has_magnetometer (md_caps (pl_meta p)) then 0
      else if pc_mag_enabled (pl_cfg p) then 3 else 2)"

definition sensor_desc :: "u16 \<Rightarrow> pipeline \<Rightarrow> sensor_descriptor" where
  "sensor_desc m p =
     \<lparr>sd_sensor_id = pl_sensor_id p, sd_imu_type = ImuBno085, sd_mag_config = m,
      sd_position = PosNone, sd_data_type = TDataRotation\<rparr>"

definition announce_sensor :: "event_env \<Rightarrow> client \<Rightarrow> pipeline \<Rightarrow> client \<times> pipeline" where
  "announce_sensor e c p =
     (let m = sensor_mag_config p in
      if \<not> pl_sensor_info_sent p \<or> pl_last_mag_config p \<noteq> Some m then
        (case send_sensor_info (fst (ee_sensor_info e)) (snd (ee_sensor_info e)) (sensor_desc m p) c of
           (Inl _, c1) \<Rightarrow> (c1, p)
         | (Inr _, c1) \<Rightarrow> (c1, p\<lparr>pl_sensor_info_sent := True, pl_last_mag_config := Some m\<rparr>))
      else (c, p))"

definition announce_flags :: "event_env \<Rightarrow> client \<Rightarrow> pipeline \<Rightarrow> client \<times> pipeline" where
  "announce_flags e c p =
     (if pl_sensor_info_sent p \<and> \<not> pl_feature_flags_sent p then
        (case send_feature_flags (fst (ee_flags e)) (snd (ee_flags e)) [0] c of
           (Inl _, c1) \<Rightarrow> (c1, p)
         | (Inr _, c1) \<Rightarrow> (c1, p\<lparr>pl_feature_flags_sent := True\<rparr>))
      else (c, p))"

definition announce_tracker :: "event_env \<Rightarrow> client \<Rightarrow> pipeline \<Rightarrow> client \<times> pipeline" where
  "announce_tracker e c p =
     (if \<not> confirmed c then
        (c, p\<lparr>pl_sensor_info_sent := False, pl_last_mag_config := None, pl_feature_flags_sent := False\<rparr>)
      else let (c1, p1) = announce_sensor e c p in announce_flags e c1 p1)"

text \<open>One sample: into a running calibration session, then scaled and remapped into the filter.\<close>

definition vec3_scale :: "f32 \<Rightarrow> f32 vec3 \<Rightarrow> f32 vec3" where
  "vec3_scale s v = (case v of (x, y, z) \<Rightarrow> (x * s, y * s, z * s))"

definition vec3_sub :: "f32 vec3 \<Rightarrow> f32 vec3 \<Rightarrow> f32 vec3" where
  "vec3_sub v w = (case (v, w) of ((x, y, z), (a, b, c)) \<Rightarrow> (x - a, y - b, z - c))"

definition fusion_mag :: "pipeline_config \<Rightarrow> imu_sample \<Rightarrow> f64 vec3 option" where
  "fusion_mag cfg s =
     (case (pc_mag_enabled cfg, pc_mag_cal cfg) of
        (True, Some cal) \<Rightarrow> map_option (\<lambda>m. jsl_to_vqf_body (vec3_sub m (mc_offset cal))) (mag s)
      | _ \<Rightarrow> None)"

definition collect_mag :: "imu_sample \<Rightarrow> pipeline \<Rightarrow> pipeline" where
  "collect_mag s p =
     (if pl_mag_active p then
        (case mag s of
           Some m \<Rightarrow>
             if length (pl_mag_buffer p) < MAG_CAL_BUFFER_CAP
             then p\<lparr>pl_mag_buffer := pl_mag_buffer p @ [m]\<rparr> else p
         | None \<Rightarrow> p)
      else p)"

definition take_sample :: "pipeline_config \<Rightarrow> imu_sample \<Rightarrow> pipeline \<Rightarrow> pipeline" where
  "take_sample cfg s p =
     (let p1 = collect_mag s p in
      p1\<lparr>pl_fusion :=
           filter_update (jsl_to_vqf_body (vec3_scale (pc_gyro_scale cfg) (gyro s)))
             (jsl_to_vqf_body (accel s)) (fusion_mag cfg s) (pl_fusion p1)\<rparr>)"

definition count_rate :: "instant \<Rightarrow> nat \<Rightarrow> pipeline \<Rightarrow> pipeline" where
  "count_rate now n p =
     (let q = dropWhile (\<lambda>t. from_secs 1 < duration_since now t) (pl_rate_counter p @ replicate n now)
      in p\<lparr>pl_rate_counter := q, pl_rate := f32_of_int (int (length q))\<rparr>)"

text \<open>Everything of a batch but the sending.\<close>

definition process_batch :: "platform \<Rightarrow> event_env \<Rightarrow> imu_sample list \<Rightarrow> pipeline \<Rightarrow> pipeline" where
  "process_batch pf e batch p0 =
     (let p1 = p0\<lparr>pl_latency := snd (record_arrival (ee_arrival e) (pl_latency p0))\<rparr>;
          p2 = drive_timestep batch (ee_arrival e) p1;
          cfg = pl_cfg p2;
          p3 = publish_progress pf (fold (take_sample cfg) batch p2);
          raw = last batch;
          p4 = p3\<lparr>pl_quat := output_quat pf cfg (pl_fusion p3),
                  pl_sample := \<lparr>ss_gyr = gyro raw, ss_acc = accel raw, ss_mag = mag raw,
                    ss_elapsed_ms =
                      of_nat (as_millis (duration_since (ee_elapsed_at e) (pl_started_at p3)))\<rparr>,
                  pl_bias := filter_bias pf (pl_fusion p3)\<rparr>
      in count_rate (ee_now e) (length batch) p4)"

definition slime_quat :: "f32 quat \<Rightarrow> slime_quaternion" where
  "slime_quat q = (case q of (x, y, z, w) \<Rightarrow> \<lparr>quat_i = x, quat_j = y, quat_k = z, quat_w = w\<rparr>)"

definition wire_accel :: "imu_sample \<Rightarrow> f32 vec3" where
  "wire_accel s = vec3_f32 (jsl_to_vqf_body (accel s))"

definition wire_mag :: "pipeline_config \<Rightarrow> f32 vec3 \<Rightarrow> f32 vec3" where
  "wire_mag cfg m = (case pc_mag_cal cfg of Some cal \<Rightarrow> vec3_sub m (mc_offset cal) | None \<Rightarrow> m)"

definition send_mag_sample ::
  "event_env \<Rightarrow> imu_sample \<Rightarrow> pipeline \<Rightarrow> client \<Rightarrow> (client_error + unit) \<times> client" where
  "send_mag_sample e raw p c =
     (case (pc_mag_enabled (pl_cfg p), mag raw) of
        (True, Some m) \<Rightarrow>
          send_magnetometer (fst (ee_mag e)) (snd (ee_mag e)) (pl_sensor_id p) (wire_mag (pl_cfg p) m) c
      | _ \<Rightarrow> (Inr (), c))"

definition send_batch ::
  "event_env \<Rightarrow> imu_sample \<Rightarrow> pipeline \<Rightarrow> client \<Rightarrow> (client_error + unit) \<times> client" where
  "send_batch e raw p c =
     (case send_rotation_and_accel (ee_send1 e) (ee_send2 e) (pl_sensor_id p) (slime_quat (pl_quat p))
             (wire_accel raw) c of
        (Inl err, c1) \<Rightarrow> (Inl err, c1)
      | (Inr _, c1) \<Rightarrow> send_mag_sample e raw p c1)"

text \<open>After the sending: the snapshot of the latencies and, every ten seconds, the bias.\<close>

definition finish_batch :: "platform \<Rightarrow> event_env \<Rightarrow> pipeline \<Rightarrow> pipeline" where
  "finish_batch pf e p =
     (let p1 = p\<lparr>pl_latency_out := tracker_snapshot (pl_latency p)\<rparr> in
      if from_secs 10 \<le> duration_since (ee_persist_check e) (pl_last_persist p1)
      then (persist_bias pf p1)\<lparr>pl_last_persist := ee_persist_at e\<rparr> else p1)"

definition handle_imu ::
  "platform \<Rightarrow> event_env \<Rightarrow> imu_sample list \<Rightarrow> client \<Rightarrow> pipeline \<Rightarrow> (app_error + unit) \<times> pipeline" where
  "handle_imu pf e batch c p0 =
     (if batch = [] then (Inr (), p0)
      else
        let p = process_batch pf e batch p0 in
        if ee_paused e then (Inr (), finish_batch pf e p)
        else
          case send_batch e (last batch) p c of
            (Inl err, c1) \<Rightarrow> (Inl (SlimeFailed err), p\<lparr>pl_cell := Some c1\<rparr>)
          | (Inr _, c1) \<Rightarrow>
              (Inr (), finish_batch pf e
                 (p\<lparr>pl_cell := Some c1,
                    pl_latency :=
                      record_send (duration_since (ee_send_end e) (ee_send_start e)) (pl_latency p)\<rparr>)))"

definition sent_by :: "(client_error + unit) \<times> client \<Rightarrow> pipeline \<Rightarrow> (app_error + unit) \<times> pipeline" where
  "sent_by r p =
     (case r of (res, c) \<Rightarrow>
        (case res of Inl err \<Rightarrow> Inl (SlimeFailed err) | Inr _ \<Rightarrow> Inr (), p\<lparr>pl_cell := Some c\<rparr>))"

definition reset_action :: "reset_kind \<Rightarrow> action_type" where
  "reset_action k =
     (case k of Yaw \<Rightarrow> ActResetYaw | Full \<Rightarrow> ActResetFull | Mounting \<Rightarrow> ActResetMounting)"

definition dispatch ::
  "platform \<Rightarrow> event_env \<Rightarrow> channel_info \<Rightarrow> client \<Rightarrow> pipeline \<Rightarrow> (app_error + unit) \<times> pipeline" where
  "dispatch pf e ev c p =
     (case ev of
        Connected _ \<Rightarrow> (Inr (), p)
      | ImuSamples batch \<Rightarrow> handle_imu pf e batch c p
      | Battery b \<Rightarrow>
          let p1 = p\<lparr>pl_battery := fraction b\<rparr> in
          if ee_paused e then (Inr (), p1)
          else sent_by (send_battery (fst (ee_send1 e)) (snd (ee_send1 e)) 0 (fraction b) c) p1
      | ResetRequested k \<Rightarrow>
          sent_by (send_user_action (fst (ee_send1 e)) (snd (ee_send1 e)) (reset_action k) c) p
      | Disconnected \<Rightarrow> (Inl DeviceGone, persist_bias pf p))"

definition handle_event ::
  "platform \<Rightarrow> event_env \<Rightarrow> channel_info \<Rightarrow> pipeline \<Rightarrow> (app_error + unit) \<times> pipeline" where
  "handle_event pf e ev p =
     (case lazy_get (ee_connect e) p of
        Inl _ \<Rightarrow> (Inr (), p)
      | Inr (c, p1) \<Rightarrow>
          let (c1, p2) = announce_tracker e c p1 in dispatch pf e ev c1 (p2\<lparr>pl_cell := Some c1\<rparr>))"

subsection \<open>The task\<close>

text \<open>
  What wakes the task: the stop channel changes or is dropped, a calibration command, an
  event, or the closing of the event channel, on which \<^verbatim>\<open>select!\<close> disables the branch whose
  pattern does not match and waits for the others (so its \<^verbatim>\<open>else\<close> is never taken).
\<close>

datatype task_event = TaskStop | TaskMagCal mag_cal_cmd | TaskEvent event_env channel_info | TaskClosed

definition task_step ::
  "platform \<Rightarrow> task_event \<Rightarrow> pipeline \<Rightarrow> (app_error + unit) option \<times> pipeline" where
  "task_step pf t p =
     (case t of
        TaskStop \<Rightarrow> (Some (Inr ()), persist_bias pf p)
      | TaskMagCal cmd \<Rightarrow> (None, handle_mag_cal_cmd pf cmd p)
      | TaskEvent e ev \<Rightarrow>
          (case handle_event pf e ev p of
             (Inl err, p1) \<Rightarrow> (Some (Inl err), persist_bias pf p1)
           | (Inr _, p1) \<Rightarrow> (None, p1))
      | TaskClosed \<Rightarrow> (None, p))"

end
