(* ===== verification/Pipeline_Run.thy ===== *)
theory Pipeline_Run
  imports Pipeline
begin

section \<open>Properties of the pipeline\<close>

text \<open>
  What the pipeline of \<open>Pipeline\<close> promises: what it stores of the bias estimate, the timestep
  of its filter, its calibration sessions, the packets it sends, and how it interacts with
  the receive loop and the watchdog of its client, which run between two events.
\<close>

subsection \<open>Runs\<close>

text \<open>
  A run interleaves the steps of the task with datagrams received by the client, rounds of
  its watchdog, and changes of the configuration.
\<close>

datatype world_event =
    Task task_event
  | Receive u64 send_outcome instant instant recv_outcome receiver
  | Watch tick_env
  | SetConfig pipeline_config

definition on_client :: "(client \<Rightarrow> client) \<Rightarrow> pipeline \<Rightarrow> pipeline" where
  "on_client f p = p\<lparr>pl_cell := map_option f (pl_cell p)\<rparr>"

definition world_step ::
  "platform \<Rightarrow> world_event \<Rightarrow> pipeline \<Rightarrow> (app_error + unit) option \<times> pipeline" where
  "world_step pf w p =
     (case w of
        Task t \<Rightarrow> task_step pf t p
      | Receive now out t1 t2 rcv r \<Rightarrow>
          (None, on_client (\<lambda>c. snd (snd (receive_step now out t1 t2 rcv (r, c)))) p)
      | Watch e \<Rightarrow> (None, on_client (watchdog_tick e (pl_info p)) p)
      | SetConfig cfg \<Rightarrow> (None, p\<lparr>pl_cfg := cfg\<rparr>))"

fun world_run ::
  "platform \<Rightarrow> world_event list \<Rightarrow> pipeline \<Rightarrow> (app_error + unit) option \<times> pipeline" where
  "world_run pf [] p = (None, p)"
| "world_run pf (w # ws) p =
     (case world_step pf w p of
        (Some r, p1) \<Rightarrow> (Some r, p1)
      | (None, p1) \<Rightarrow> world_run pf ws p1)"

text \<open>An invariant of every operation is one of every run.\<close>

locale pipeline_invariant =
  fixes pf :: platform and inv :: "pipeline \<Rightarrow> bool"
  assumes inv_persist: "inv p \<Longrightarrow> inv (persist_bias pf p)"
    and inv_mag: "inv p \<Longrightarrow> inv (handle_mag_cal_cmd pf cmd p)"
    and inv_cell: "inv p \<Longrightarrow> inv (p\<lparr>pl_cell := c\<rparr>)"
    and inv_cfg: "inv p \<Longrightarrow> inv (p\<lparr>pl_cfg := cfg\<rparr>)"
    and inv_announced: "inv p \<Longrightarrow>
      inv (p\<lparr>pl_sensor_info_sent := b, pl_last_mag_config := m, pl_feature_flags_sent := f\<rparr>)"
    and inv_battery: "inv p \<Longrightarrow> inv (p\<lparr>pl_battery := x\<rparr>)"
    and inv_latency: "inv p \<Longrightarrow> inv (p\<lparr>pl_latency := l, pl_latency_out := s, pl_last_persist := t\<rparr>)"
    and inv_batch: "inv p \<Longrightarrow> batch \<noteq> [] \<Longrightarrow> inv (process_batch pf e batch p)"
begin

lemma inv_latency_only: "inv p \<Longrightarrow> inv (p\<lparr>pl_latency := l\<rparr>)"
  using inv_latency [where p = p and l = l and s = "pl_latency_out p" and t = "pl_last_persist p"] by simp

lemma inv_latency_out: "inv p \<Longrightarrow> inv (p\<lparr>pl_latency_out := s\<rparr>)"
  using inv_latency [where p = p and l = "pl_latency p" and s = s and t = "pl_last_persist p"] by simp

lemma inv_persist_time: "inv p \<Longrightarrow> inv (p\<lparr>pl_last_persist := t\<rparr>)"
  using inv_latency [where p = p and l = "pl_latency p" and s = "pl_latency_out p" and t = t] by simp

lemma inv_announce: "inv p \<Longrightarrow> inv (snd (announce_tracker e c p))"
proof -
  assume p: "inv p"
  have sent: "inv (q\<lparr>pl_sensor_info_sent := True, pl_last_mag_config := m\<rparr>)" if "inv q" for q m
    using inv_announced [OF that, where b = True and m = m and f = "pl_feature_flags_sent q"] by simp
  have flags: "inv (q\<lparr>pl_feature_flags_sent := True\<rparr>)" if "inv q" for q
    using inv_announced [OF that, where b = "pl_sensor_info_sent q" and m = "pl_last_mag_config q" and f = True] by simp
  have "inv (snd (announce_sensor e c p))"
    using p sent by (simp add: announce_sensor_def Let_def split: sum.split prod.split)
  moreover have "inv (snd (announce_flags e c' q))" if "inv q" for c' q
    using that flags by (simp add: announce_flags_def split: sum.split prod.split)
  ultimately show ?thesis
    using p inv_announced by (simp add: announce_tracker_def split_beta)
qed

lemma inv_finish: "inv p \<Longrightarrow> inv (finish_batch pf e p)"
  by (simp add: finish_batch_def Let_def inv_persist inv_latency_out inv_persist_time)

lemma inv_imu: "inv p \<Longrightarrow> inv (snd (handle_imu pf e batch c p))"
  using inv_batch [of p batch e]
  by (auto simp: handle_imu_def Let_def inv_finish inv_cell inv_latency_only
      split: sum.split prod.split)

lemma inv_dispatch: "inv p \<Longrightarrow> inv (snd (dispatch pf e ev c p))"
  by (auto simp: dispatch_def sent_by_def Let_def inv_imu inv_battery inv_cell inv_persist
      split: channel_info.split sum.split prod.split)

lemma inv_event: "inv p \<Longrightarrow> inv (snd (handle_event pf e ev p))"
  by (auto simp: handle_event_def lazy_get_def split_beta inv_dispatch inv_cell inv_announce
      split: sum.split option.split)

lemma inv_task: "inv p \<Longrightarrow> inv (snd (task_step pf t p))"
proof (cases t)
  case (TaskEvent e ev)
  assume p: "inv p"
  obtain r p1 where h: "handle_event pf e ev p = (r, p1)" by fastforce
  then have "inv p1"
    using inv_event [OF p, of e ev] by simp
  with TaskEvent h show ?thesis
    by (cases r) (simp_all add: task_step_def inv_persist)
qed (simp_all add: task_step_def inv_persist inv_mag)

lemma inv_world: "inv p \<Longrightarrow> inv (snd (world_step pf w p))"
  by (cases w) (simp_all add: world_step_def on_client_def inv_task inv_cell inv_cfg)

lemma inv_run: "inv p \<Longrightarrow> inv (snd (world_run pf ws p))"
proof (induction ws arbitrary: p)
  case (Cons w ws)
  from inv_world [OF Cons.prems, of w] Cons.IH show ?case
    by (auto split: prod.split option.split)
qed simp

end

subsection \<open>What a batch leaves alone\<close>

lemma apply_timestep_fields [simp]:
  "pl_stored (apply_timestep ts p) = pl_stored p"
  "pl_cfg (apply_timestep ts p) = pl_cfg p"
  "pl_cell (apply_timestep ts p) = pl_cell p"
  "pl_mag_active (apply_timestep ts p) = pl_mag_active p"
  "pl_mag_buffer (apply_timestep ts p) = pl_mag_buffer p"
  "pl_results (apply_timestep ts p) = pl_results p"
  "pl_sensor_id (apply_timestep ts p) = pl_sensor_id p"
  "pl_meta (apply_timestep ts p) = pl_meta p"
  by (simp_all add: apply_timestep_def split: option.split)

lemma calibrate_rate_fields [simp]:
  "pl_stored (calibrate_rate n t p) = pl_stored p"
  "pl_cfg (calibrate_rate n t p) = pl_cfg p"
  "pl_cell (calibrate_rate n t p) = pl_cell p"
  "pl_mag_active (calibrate_rate n t p) = pl_mag_active p"
  "pl_mag_buffer (calibrate_rate n t p) = pl_mag_buffer p"
  "pl_results (calibrate_rate n t p) = pl_results p"
  "pl_sensor_id (calibrate_rate n t p) = pl_sensor_id p"
  "pl_meta (calibrate_rate n t p) = pl_meta p"
  by (simp_all add: calibrate_rate_def Let_def)

lemma drive_timestep_fields [simp]:
  "pl_stored (drive_timestep batch t p) = pl_stored p"
  "pl_cfg (drive_timestep batch t p) = pl_cfg p"
  "pl_cell (drive_timestep batch t p) = pl_cell p"
  "pl_mag_active (drive_timestep batch t p) = pl_mag_active p"
  "pl_mag_buffer (drive_timestep batch t p) = pl_mag_buffer p"
  "pl_results (drive_timestep batch t p) = pl_results p"
  "pl_sensor_id (drive_timestep batch t p) = pl_sensor_id p"
  "pl_meta (drive_timestep batch t p) = pl_meta p"
  by (simp_all add: drive_timestep_def Let_def split_beta)

lemma take_sample_fields [simp]:
  "pl_stored (take_sample cfg s p) = pl_stored p"
  "pl_cfg (take_sample cfg s p) = pl_cfg p"
  "pl_cell (take_sample cfg s p) = pl_cell p"
  "pl_mag_active (take_sample cfg s p) = pl_mag_active p"
  "pl_results (take_sample cfg s p) = pl_results p"
  "pl_sensor_id (take_sample cfg s p) = pl_sensor_id p"
  "pl_meta (take_sample cfg s p) = pl_meta p"
  "pl_gyr_ts (take_sample cfg s p) = pl_gyr_ts p"
  by (simp_all add: take_sample_def collect_mag_def Let_def split: option.split)

lemma take_samples_fields [simp]:
  "pl_stored (fold (take_sample cfg) batch p) = pl_stored p"
  "pl_cfg (fold (take_sample cfg) batch p) = pl_cfg p"
  "pl_cell (fold (take_sample cfg) batch p) = pl_cell p"
  "pl_mag_active (fold (take_sample cfg) batch p) = pl_mag_active p"
  "pl_results (fold (take_sample cfg) batch p) = pl_results p"
  "pl_sensor_id (fold (take_sample cfg) batch p) = pl_sensor_id p"
  "pl_meta (fold (take_sample cfg) batch p) = pl_meta p"
  "pl_gyr_ts (fold (take_sample cfg) batch p) = pl_gyr_ts p"
  by (induction batch arbitrary: p) simp_all

lemma publish_progress_fields [simp]:
  "pl_stored (publish_progress pf p) = pl_stored p"
  "pl_cfg (publish_progress pf p) = pl_cfg p"
  "pl_cell (publish_progress pf p) = pl_cell p"
  "pl_mag_active (publish_progress pf p) = pl_mag_active p"
  "pl_mag_buffer (publish_progress pf p) = pl_mag_buffer p"
  "pl_results (publish_progress pf p) = pl_results p"
  "pl_sensor_id (publish_progress pf p) = pl_sensor_id p"
  "pl_meta (publish_progress pf p) = pl_meta p"
  "pl_fusion (publish_progress pf p) = pl_fusion p"
  "pl_gyr_ts (publish_progress pf p) = pl_gyr_ts p"
  by (simp_all add: publish_progress_def Let_def split: prod.split)

lemma count_rate_fields [simp]:
  "pl_stored (count_rate t n p) = pl_stored p"
  "pl_cfg (count_rate t n p) = pl_cfg p"
  "pl_cell (count_rate t n p) = pl_cell p"
  "pl_mag_active (count_rate t n p) = pl_mag_active p"
  "pl_mag_buffer (count_rate t n p) = pl_mag_buffer p"
  "pl_results (count_rate t n p) = pl_results p"
  "pl_sensor_id (count_rate t n p) = pl_sensor_id p"
  "pl_meta (count_rate t n p) = pl_meta p"
  "pl_fusion (count_rate t n p) = pl_fusion p"
  "pl_gyr_ts (count_rate t n p) = pl_gyr_ts p"
  "pl_quat (count_rate t n p) = pl_quat p"
  by (simp_all add: count_rate_def Let_def)

lemma process_batch_fields [simp]:
  "pl_stored (process_batch pf e batch p) = pl_stored p"
  "pl_cfg (process_batch pf e batch p) = pl_cfg p"
  "pl_cell (process_batch pf e batch p) = pl_cell p"
  "pl_mag_active (process_batch pf e batch p) = pl_mag_active p"
  "pl_results (process_batch pf e batch p) = pl_results p"
  "pl_sensor_id (process_batch pf e batch p) = pl_sensor_id p"
  "pl_meta (process_batch pf e batch p) = pl_meta p"
  by (simp_all add: process_batch_def Let_def)

lemma persist_bias_fields [simp]:
  "pl_cell (persist_bias pf p) = pl_cell p"
  "pl_cfg (persist_bias pf p) = pl_cfg p"
  "pl_quat (persist_bias pf p) = pl_quat p"
  "pl_fusion (persist_bias pf p) = pl_fusion p"
  "pl_gyr_ts (persist_bias pf p) = pl_gyr_ts p"
  "pl_mag_active (persist_bias pf p) = pl_mag_active p"
  "pl_mag_buffer (persist_bias pf p) = pl_mag_buffer p"
  "pl_results (persist_bias pf p) = pl_results p"
  "pl_sensor_id (persist_bias pf p) = pl_sensor_id p"
  "pl_meta (persist_bias pf p) = pl_meta p"
  by (simp_all add: persist_bias_def Let_def)

lemma finish_batch_fields [simp]:
  "pl_cell (finish_batch pf e p) = pl_cell p"
  "pl_cfg (finish_batch pf e p) = pl_cfg p"
  "pl_quat (finish_batch pf e p) = pl_quat p"
  "pl_mag_active (finish_batch pf e p) = pl_mag_active p"
  "pl_mag_buffer (finish_batch pf e p) = pl_mag_buffer p"
  "pl_results (finish_batch pf e p) = pl_results p"
  "pl_sensor_id (finish_batch pf e p) = pl_sensor_id p"
  by (simp_all add: finish_batch_def Let_def)

lemma mag_cmd_fields [simp]:
  "pl_stored (handle_mag_cal_cmd pf cmd p) = pl_stored p"
  "pl_fusion (handle_mag_cal_cmd pf cmd p) = pl_fusion p"
  "pl_gyr_ts (handle_mag_cal_cmd pf cmd p) = pl_gyr_ts p"
  "pl_cell (handle_mag_cal_cmd pf cmd p) = pl_cell p"
  by (simp_all add: handle_mag_cal_cmd_def split: mag_cal_cmd.split)

subsection \<open>The stored bias\<close>

definition bias_inv :: "pipeline \<Rightarrow> bool" where
  "bias_inv p \<longleftrightarrow> list_all (\<lambda>b. \<not> bias_saturated b) (pl_stored p)"

interpretation stored_bias: pipeline_invariant pf bias_inv for pf
  by unfold_locales (simp_all add: bias_inv_def persist_bias_def Let_def)

subsection \<open>The timestep\<close>

text \<open>The timestep a filter runs at: the last one set, else the one it was made with.\<close>

fun calls_ts :: "filter_call list \<Rightarrow> f64 option" where
  "calls_ts [] = None"
| "calls_ts (CallTimestep ts # cs) = Some ts"
| "calls_ts (CallPeriod ts # cs) = Some (f64_of_f32 ts)"
| "calls_ts (c # cs) = calls_ts cs"

text \<open>Madgwick's is in single precision.\<close>

definition runs_at :: "filter \<Rightarrow> f64 \<Rightarrow> bool" where
  "runs_at f ts \<longleftrightarrow>
     (case calls_ts (fl_calls f) of
        None \<Rightarrow> fl_ts f = ts
      | Some u \<Rightarrow> u = (if fl_algo f = AlgoMadgwick then f64_of_f32 (f32_of_f64 ts) else ts))"

definition timestep_inv :: "pipeline \<Rightarrow> bool" where
  "timestep_inv p \<longleftrightarrow> runs_at (pl_fusion p) (pl_gyr_ts p)"

lemma calls_ts_update [simp]: "calls_ts (fl_calls (filter_update g a m f)) = calls_ts (fl_calls f)"
  by (simp add: filter_update_def filter_call_def split: fusion_algo.split option.split)

lemma filter_update_fields [simp]:
  "fl_ts (filter_update g a m f) = fl_ts f" "fl_algo (filter_update g a m f) = fl_algo f"
  by (simp_all add: filter_update_def filter_call_def)

lemma runs_at_update [simp]: "runs_at (filter_update g a m f) ts = runs_at f ts"
  by (simp add: runs_at_def split: option.split)

lemma runs_at_take [simp]:
  "runs_at (pl_fusion (take_sample cfg s p)) ts = runs_at (pl_fusion p) ts"
  by (simp add: take_sample_def collect_mag_def Let_def split: option.split)

lemma runs_at_takes [simp]:
  "runs_at (pl_fusion (fold (take_sample cfg) batch p)) ts = runs_at (pl_fusion p) ts"
  by (induction batch arbitrary: p) simp_all

lemma runs_at_set [simp]: "runs_at (filter_set_timestep ts f) ts"
  by (cases "fl_algo f") (simp_all add: runs_at_def filter_set_timestep_def filter_call_def)

lemma timestep_apply: "timestep_inv p \<Longrightarrow> timestep_inv (apply_timestep ts p)"
  by (simp add: timestep_inv_def apply_timestep_def split: option.split)

lemma timestep_calibrate: "timestep_inv p \<Longrightarrow> timestep_inv (calibrate_rate n t p)"
  by (auto simp: calibrate_rate_def Let_def intro!: timestep_apply) (simp_all add: timestep_inv_def)

lemma timestep_drive: "timestep_inv p \<Longrightarrow> timestep_inv (drive_timestep batch t p)"
  by (auto simp: drive_timestep_def split_beta Let_def intro!: timestep_apply timestep_calibrate)
    (simp_all add: timestep_inv_def)

interpretation timestep: pipeline_invariant pf timestep_inv for pf
proof unfold_locales
  show "timestep_inv (process_batch pf e batch p)" if "timestep_inv p" for p e batch
  proof -
    have "timestep_inv (p\<lparr>pl_latency := l\<rparr>)" for l
      using that by (simp add: timestep_inv_def)
    from timestep_drive [OF this] show ?thesis
      by (simp add: process_batch_def Let_def timestep_inv_def)
  qed
qed (simp_all add: timestep_inv_def)

lemma timestep_new: "timestep_inv (pipeline_new meta info loaded sid cfg t1 t2)"
  by (simp add: timestep_inv_def pipeline_new_def initial_fusion_def runs_at_def filter_new_def
      filter_set_bias_def filter_call_def Let_def split: option.split)

text \<open>An infinite timestep, that of a device announced with rate 0, is never corrected.\<close>

definition f64_infinite :: "f64 \<Rightarrow> bool" where
  "f64_infinite x \<longleftrightarrow> f64_val x = FInf False"

lemma corrected_infinite: "f64_infinite current \<Longrightarrow> corrected_timestep m current th = None"
  by (cases "f64_val m"; cases "f64_val th")
    (auto simp: corrected_timestep_def f64_infinite_def less_f64_def less_eq_f64_def fp_le_def fp_sub_def)

lemma apply_infinite: "f64_infinite (pl_gyr_ts p) \<Longrightarrow> apply_timestep ts p = p"
  by (simp add: apply_timestep_def corrected_infinite)

definition stuck_inv :: "pipeline \<Rightarrow> bool" where
  "stuck_inv p \<longleftrightarrow> f64_infinite (pl_gyr_ts p) \<and> calls_ts (fl_calls (pl_fusion p)) = None"

lemma stuck_calibrate: "stuck_inv p \<Longrightarrow> stuck_inv (calibrate_rate n t p)"
  by (simp add: calibrate_rate_def Let_def apply_infinite stuck_inv_def)

lemma stuck_drive: "stuck_inv p \<Longrightarrow> stuck_inv (drive_timestep batch t p)"
proof -
  assume p: "stuck_inv p"
  have "stuck_inv (p\<lparr>pl_last_hw_ts := b, pl_hw_dt := x\<rparr>)" for b x
    using p by (simp add: stuck_inv_def)
  with stuck_calibrate show ?thesis
    by (simp add: drive_timestep_def split_beta Let_def) (simp add: stuck_inv_def apply_infinite)
qed

lemma stuck_take: "stuck_inv (fold (take_sample cfg) batch p) = stuck_inv p"
proof (induction batch arbitrary: p)
  case (Cons s batch)
  have "stuck_inv (take_sample cfg s p) = stuck_inv p"
    by (simp add: stuck_inv_def take_sample_def collect_mag_def Let_def split: option.split)
  with Cons show ?case by simp
qed simp

interpretation stuck: pipeline_invariant pf stuck_inv for pf
proof unfold_locales
  show "stuck_inv (process_batch pf e batch p)" if "stuck_inv p" for p e batch
  proof -
    let ?q = "drive_timestep batch (ee_arrival e)
      (p\<lparr>pl_latency := snd (record_arrival (ee_arrival e) (pl_latency p))\<rparr>)"
    have "stuck_inv (p\<lparr>pl_latency := l\<rparr>)" for l
      using that by (simp add: stuck_inv_def)
    from stuck_drive [OF this] have "stuck_inv (fold (take_sample (pl_cfg ?q)) batch ?q)"
      by (simp only: stuck_take)
    then show ?thesis
      by (simp add: process_batch_def Let_def stuck_inv_def)
  qed
qed (simp_all add: stuck_inv_def)

lemma stuck_new:
  assumes "native_rate_hz (md_caps meta) = 0"
  shows "stuck_inv (pipeline_new meta info loaded sid cfg t1 t2)"
proof -
  have "f64_val (f64_of_int 0) = FFin False 0"
    by (simp add: f64_of_int_def fp_of_int_def fp_make_def) (simp add: fmt64_def)
  moreover have "f64_val 1 = FFin False (funit fmt64)"
    by (simp add: one_f64_def f64_val_def fp_decode_def fmt64_def Let_def)
  ultimately show ?thesis
    using assms
    by (simp add: stuck_inv_def pipeline_new_def f64_infinite_def initial_fusion_def filter_new_def
        filter_set_bias_def filter_call_def Let_def split: option.split)
qed

subsection \<open>Packets\<close>

lemma tag_packet: "u32_be_at (packet_bytes did body s p) 0 = did p"
  by (simp add: packet_bytes_def bundle_header)

definition wire_ids :: "(origin \<times> bytes \<times> send_outcome) list \<Rightarrow> u32 list" where
  "wire_ids w = map (\<lambda>(org, bs, out). u32_be_at bs 0) w"

text \<open>Only datagrams with identifiers in a set were added to the wire.\<close>

definition wire_adds :: "u32 set \<Rightarrow> client \<Rightarrow> client \<Rightarrow> bool" where
  "wire_adds S c c' \<longleftrightarrow> (\<exists>new. wire c' = new @ wire c \<and> set (wire_ids new) \<subseteq> S)"

lemma wire_adds_refl [simp]: "wire_adds S c c"
  by (auto simp: wire_adds_def wire_ids_def)

lemma wire_ids_append [simp]: "wire_ids (a @ b) = wire_ids a @ wire_ids b"
  by (simp add: wire_ids_def)

lemma wire_adds_trans:
  assumes "wire_adds S c c'" "wire_adds S c' c''"
  shows "wire_adds S c c''"
proof -
  obtain a b where "wire c' = a @ wire c" "set (wire_ids a) \<subseteq> S"
    "wire c'' = b @ wire c'" "set (wire_ids b) \<subseteq> S"
    using assms by (auto simp: wire_adds_def)
  then show ?thesis
    unfolding wire_adds_def by (intro exI [of _ "b @ a"]) simp
qed

lemma wire_adds_send: "sb_id p \<in> S \<Longrightarrow> wire_adds S c (snd (send_sb out now p c))"
  by (simp add: wire_adds_def wire_ids_def tag_packet)

lemma announce_sensor_client:
  "fst (announce_sensor e c p) =
     (if \<not> pl_sensor_info_sent p \<or> pl_last_mag_config p \<noteq> Some (sensor_mag_config p)
      then snd (send_sb (fst (ee_sensor_info e)) (snd (ee_sensor_info e))
             (sensor_info_packet (sensor_desc (sensor_mag_config p) p)) c)
      else c)"
  by (auto simp: announce_sensor_def send_sensor_info_def Let_def split: sum.split prod.split)

lemma announce_flags_client:
  "fst (announce_flags e c p) =
     (if pl_sensor_info_sent p \<and> \<not> pl_feature_flags_sent p
      then snd (send_sb (fst (ee_flags e)) (snd (ee_flags e)) (SbFeatureFlags [0]) c) else c)"
  by (auto simp: announce_flags_def send_feature_flags_def split: sum.split prod.split)

lemma announce_client:
  "fst (announce_tracker e c p) =
     (if confirmed c then fst (announce_flags e (fst (announce_sensor e c p)) (snd (announce_sensor e c p)))
      else c)"
  by (simp add: announce_tracker_def split_beta)

lemma announce_adds: "wire_adds {15, 22} c (fst (announce_tracker e c p))"
proof -
  have "wire_adds {15, 22} c (fst (announce_sensor e c p))"
    by (auto simp: announce_sensor_client sensor_info_packet_def intro!: wire_adds_send)
  moreover have "wire_adds {15, 22} c' (fst (announce_flags e c' q))" for c' q
    by (auto simp: announce_flags_client intro!: wire_adds_send)
  ultimately show ?thesis
    using wire_adds_trans by (auto simp: announce_client)
qed

lemma announce_sensor_fields [simp]:
  "pl_cfg (snd (announce_sensor e c p)) = pl_cfg p"
  "pl_sensor_id (snd (announce_sensor e c p)) = pl_sensor_id p"
  "pl_meta (snd (announce_sensor e c p)) = pl_meta p"
  "pl_mag_active (snd (announce_sensor e c p)) = pl_mag_active p"
  "pl_mag_buffer (snd (announce_sensor e c p)) = pl_mag_buffer p"
  "pl_results (snd (announce_sensor e c p)) = pl_results p"
  by (simp_all add: announce_sensor_def Let_def split: sum.split prod.split)

lemma announce_flags_fields [simp]:
  "pl_cfg (snd (announce_flags e c p)) = pl_cfg p"
  "pl_sensor_id (snd (announce_flags e c p)) = pl_sensor_id p"
  "pl_meta (snd (announce_flags e c p)) = pl_meta p"
  "pl_mag_active (snd (announce_flags e c p)) = pl_mag_active p"
  "pl_mag_buffer (snd (announce_flags e c p)) = pl_mag_buffer p"
  "pl_results (snd (announce_flags e c p)) = pl_results p"
  by (simp_all add: announce_flags_def split: sum.split prod.split)

lemma announce_fields [simp]:
  "pl_cfg (snd (announce_tracker e c p)) = pl_cfg p"
  "pl_sensor_id (snd (announce_tracker e c p)) = pl_sensor_id p"
  "pl_meta (snd (announce_tracker e c p)) = pl_meta p"
  "pl_mag_active (snd (announce_tracker e c p)) = pl_mag_active p"
  "pl_mag_buffer (snd (announce_tracker e c p)) = pl_mag_buffer p"
  "pl_results (snd (announce_tracker e c p)) = pl_results p"
  by (simp_all add: announce_tracker_def split_beta)

lemma event_connected:
  "handle_event pf e ev (p\<lparr>pl_cell := Some c\<rparr>) =
     (let (c1, p2) = announce_tracker e c (p\<lparr>pl_cell := Some c\<rparr>) in dispatch pf e ev c1 (p2\<lparr>pl_cell := Some c1\<rparr>))"
  by (simp add: handle_event_def lazy_get_def)

lemma dispatch_paused:
  assumes "ee_paused e" "pl_cell p = Some c"
  shows "\<exists>c'. pl_cell (snd (dispatch pf e ev c p)) = Some c' \<and> wire_adds {15, 21, 22} c c'"
  using assms
  by (cases ev)
    (auto simp: dispatch_def handle_imu_def sent_by_def send_user_action_def Let_def split_beta intro: wire_adds_send)

text \<open>What a successful batch puts on the wire, as the server sees it.\<close>

definition mag_inners :: "pipeline_config \<Rightarrow> u8 \<Rightarrow> imu_sample \<Rightarrow> (u32 \<times> bytes) list" where
  "mag_inners cfg sid s =
     (case (pc_mag_enabled cfg, mag s) of
        (True, Some m) \<Rightarrow> [(5, sb_body (SbMagnetometer sid DataNormal (wire_mag cfg m) 0))]
      | _ \<Rightarrow> [])"

lemma delivered_send_sb:
  "sb_id p \<noteq> BUNDLE_TAG \<Longrightarrow>
   delivered (wire (snd (send_sb SendOk now p c))) = delivered (wire c) @ [(sb_id p, sb_body p)]"
  by (simp add: server_view_packet)

lemma delivered_motion:
  "delivered (wire (snd (send_rotation_and_accel (SendOk, a) (SendOk, b) sid q v c)))
     = delivered (wire c) @ motion_inners sid q v"
  using server_view_motion_bundle [of "seq_ctr c" sid q v]
  by (simp add: motion_wire server_view_motion motion_inners_def)

lemma send_mag_ok:
  assumes "ee_mag e = (SendOk, n)"
  shows "fst (send_mag_sample e raw p c) = Inr ()
   \<and> delivered (wire (snd (send_mag_sample e raw p c)))
     = delivered (wire c) @ mag_inners (pl_cfg p) (pl_sensor_id p) raw"
  using assms delivered_send_sb
  by (auto simp: send_mag_sample_def mag_inners_def send_magnetometer_def send_sb_result BUNDLE_TAG_def
      split: option.split bool.split)

lemma send_batch_ok:
  assumes "ee_send1 e = (SendOk, a)" "ee_send2 e = (SendOk, b)" "ee_mag e = (SendOk, n)"
  shows "\<exists>c'. send_batch e raw p c = (Inr (), c')
    \<and> delivered (wire c') = delivered (wire c)
        @ motion_inners (pl_sensor_id p) (slime_quat (pl_quat p)) (wire_accel raw)
        @ mag_inners (pl_cfg p) (pl_sensor_id p) raw"
proof -
  let ?r = "send_rotation_and_accel (SendOk, a) (SendOk, b) (pl_sensor_id p) (slime_quat (pl_quat p)) (wire_accel raw) c"
  obtain c1 where c1: "?r = (Inr (), c1)"
    using motion_result [of "(SendOk, a)" "(SendOk, b)"] by (metis fails.simps(1) fst_conv prod.collapse)
  obtain c2 where c2: "send_mag_sample e raw p c1 = (Inr (), c2)"
    using send_mag_ok [OF assms(3)] by (metis prod.collapse)
  have "delivered (wire c1) = delivered (wire c)
      @ motion_inners (pl_sensor_id p) (slime_quat (pl_quat p)) (wire_accel raw)"
    using delivered_motion [of a b "pl_sensor_id p" "slime_quat (pl_quat p)" "wire_accel raw" c] c1 by simp
  with send_mag_ok [OF assms(3), of raw p c1] c1 c2 assms show ?thesis
    by (simp add: send_batch_def)
qed

subsection \<open>Calibration sessions\<close>

definition mags :: "imu_sample list \<Rightarrow> f32 vec3 list" where
  "mags batch = List.map_filter mag batch"

lemma mags_simps [simp]:
  "mags [] = []" "mags (xs @ ys) = mags xs @ mags ys"
  "mags (s # ss) = (case mag s of None \<Rightarrow> mags ss | Some m \<Rightarrow> m # mags ss)"
  by (simp_all add: mags_def List.map_filter_def split: option.split)

lemma collect_buffer:
  assumes "pl_mag_active p" "pl_mag_buffer p = take MAG_CAL_BUFFER_CAP ms"
  shows "pl_mag_buffer (take_sample cfg s p)
    = take MAG_CAL_BUFFER_CAP (ms @ (case mag s of None \<Rightarrow> [] | Some m \<Rightarrow> [m]))"
proof (cases "length ms < MAG_CAL_BUFFER_CAP")
  case True
  with assms show ?thesis
    by (simp add: take_sample_def collect_mag_def Let_def split: option.split)
next
  case False
  with assms show ?thesis
    by (simp add: take_sample_def collect_mag_def Let_def split: option.split)
qed

lemma collects_buffer:
  assumes "pl_mag_active p" "pl_mag_buffer p = take MAG_CAL_BUFFER_CAP ms"
  shows "pl_mag_buffer (fold (take_sample cfg) batch p) = take MAG_CAL_BUFFER_CAP (ms @ mags batch)"
  using assms
proof (induction batch arbitrary: p ms)
  case (Cons s batch)
  have "mags (s # batch) = (case mag s of None \<Rightarrow> [] | Some m \<Rightarrow> [m]) @ mags batch"
    by (simp split: option.split)
  with Cons.IH [OF _ collect_buffer [OF Cons.prems]] Cons.prems(1) show ?case
    by (simp del: take_append mags_simps(3))
qed simp

definition session :: "pipeline \<Rightarrow> f32 vec3 list \<Rightarrow> pipeline \<Rightarrow> bool" where
  "session p0 ms p \<longleftrightarrow> pl_mag_active p \<and> pl_mag_buffer p = take MAG_CAL_BUFFER_CAP ms
     \<and> pl_results p = pl_results p0 \<and> pl_cell p \<noteq> None"

lemma session_cong:
  "session p0 ms p \<Longrightarrow> pl_mag_active q = pl_mag_active p \<Longrightarrow> pl_mag_buffer q = pl_mag_buffer p \<Longrightarrow>
   pl_results q = pl_results p \<Longrightarrow> pl_cell q \<noteq> None \<Longrightarrow> session p0 ms q"
  by (simp add: session_def)

lemma session_process: "session p0 ms p \<Longrightarrow> session p0 (ms @ mags batch) (process_batch pf e batch p)"
  by (simp add: session_def process_batch_def Let_def collects_buffer)

lemma session_imu:
  assumes "session p0 ms p"
  shows "session p0 (ms @ mags batch) (snd (handle_imu pf e batch c p))"
proof (cases "batch = []")
  case True
  with assms show ?thesis by (simp add: handle_imu_def)
next
  case False
  note s = session_process [OF assms, of batch pf e]
  show ?thesis
    using False s
    by (auto simp: handle_imu_def Let_def split: sum.split prod.split intro!: session_cong [OF s])
      (simp_all add: session_def)
qed

lemma session_event:
  assumes "session p0 ms p"
  shows "session p0 (ms @ mags batch) (snd (handle_event pf e (ImuSamples batch) p))"
proof -
  obtain c where c: "pl_cell p = Some c"
    using assms by (auto simp: session_def)
  have "session p0 ms ((snd (announce_tracker e c p))\<lparr>pl_cell := Some c1\<rparr>)" for c1
    using assms by (rule session_cong) simp_all
  then show ?thesis
    using c by (simp add: handle_event_def lazy_get_def split_beta dispatch_def session_imu)
qed

lemma session_events:
  "session p0 ms p \<Longrightarrow>
   session p0 (ms @ mags (concat (map snd bs))) (fold (\<lambda>(e, batch) q. snd (handle_event pf e (ImuSamples batch) q)) bs p)"
proof (induction bs arbitrary: ms p)
  case (Cons b bs)
  from Cons.IH [OF session_event [OF Cons.prems, of "snd b" pf "fst b"]] show ?case
    by (simp add: split_beta)
qed simp

subsection \<open>Properties\<close>

text \<open>
  Property C22. Whatever the filter, the events, the client's own tasks and the configuration
  do, no run of a pipeline stores a saturated bias estimate, and an estimate that was stored
  is accepted and seeded into the filter when the pipeline of the device is made again: the
  guards on both sides agree, so a stored bias is never silently discarded.
\<close>

theorem stored_bias_is_reloaded:
  "let p = snd (world_run pf ws (pipeline_new meta info loaded sid cfg t1 t2)) in
     list_all (\<lambda>b. fl_calls (initial_fusion meta (cfg\<lparr>pc_fusion := AlgoVqf\<rparr>) (Some b)) = [CallSetBias b])
       (pl_stored p)"
proof -
  have "bias_inv (pipeline_new meta info loaded sid cfg t1 t2)"
    by (simp add: bias_inv_def pipeline_new_def)
  from stored_bias.inv_run [OF this, of pf ws] show ?thesis
    by (simp add: bias_inv_def Let_def initial_fusion_def filter_new_def filter_set_bias_def filter_call_def)
qed

text \<open>
  In every run the filter runs at exactly the timestep the pipeline believes it
  runs at and compares new measurements with (in single precision for Madgwick).
\<close>

theorem timestep_in_sync:
  "let p = snd (world_run pf ws (pipeline_new meta info loaded sid cfg t1 t2)) in
     runs_at (pl_fusion p) (pl_gyr_ts p)"
  using timestep.inv_run [OF timestep_new, of pf ws meta info loaded sid cfg t1 t2]
  by (simp add: timestep_inv_def Let_def)

text \<open>
  A device announced with a sampling rate of zero (a phone in the gamepad role)
  gets an infinite timestep, and no run ever corrects it, neither from hardware timestamps nor
  from the delivery rate: should it send samples, they are integrated over an infinite time.
\<close>

theorem rate_zero_never_calibrated:
  "let p = snd (world_run pf ws
      (pipeline_new (meta\<lparr>md_caps := (md_caps meta)\<lparr>native_rate_hz := 0\<rparr>\<rparr>) info loaded sid cfg t1 t2)) in
     f64_infinite (pl_gyr_ts p) \<and> calls_ts (fl_calls (pl_fusion p)) = None"
  using stuck.inv_run [OF stuck_new, of _ pf ws info loaded sid cfg t1 t2]
  by (simp add: stuck_inv_def Let_def)

text \<open>
  Property C14. While emission is paused no event puts anything on the wire but the sensor's
  description (15), the feature flags (22) and user actions (21): no rotation, acceleration,
  magnetometer or battery packet.
\<close>

theorem paused_sends_no_motion:
  "\<exists>c' new. pl_cell (snd (handle_event pf (e\<lparr>ee_paused := True\<rparr>) ev (p\<lparr>pl_cell := Some c\<rparr>))) = Some c'
     \<and> wire c' = new @ wire c \<and> set (wire_ids new) \<subseteq> {15, 21, 22}"
proof -
  let ?e = "e\<lparr>ee_paused := True\<rparr>" and ?p = "p\<lparr>pl_cell := Some c\<rparr>"
  let ?c1 = "fst (announce_tracker ?e c ?p)" and ?p1 = "(snd (announce_tracker ?e c ?p))\<lparr>pl_cell := Some (fst (announce_tracker ?e c ?p))\<rparr>"
  obtain c' where c': "pl_cell (snd (dispatch pf ?e ev ?c1 ?p1)) = Some c'" "wire_adds {15, 21, 22} ?c1 c'"
    using dispatch_paused [of ?e ?p1 ?c1 pf ev] by auto
  have "wire_adds {15, 21, 22} c ?c1"
    using announce_adds [of c ?e ?p] by (auto simp: wire_adds_def)
  from wire_adds_trans [OF this c'(2)] c'(1) show ?thesis
    by (simp add: event_connected split_beta wire_adds_def)
qed

text \<open>
  Property C5. After a batch of samples whose datagrams were sent, the server has received,
  after what was announced, exactly the rotation the pipeline publishes, the acceleration of
  the last sample in the frame of that rotation, and its magnetometer reading when enabled,
  once each and in this order, whether the client bundles or not.
\<close>

theorem batch_delivered:
  "let e' = e\<lparr>ee_paused := False, ee_send1 := (SendOk, n1), ee_send2 := (SendOk, n2), ee_mag := (SendOk, n3)\<rparr>;
       q = p\<lparr>pl_cell := Some c\<rparr>;
       (r, p') = handle_event pf e' (ImuSamples (batch @ [s])) q
   in r = Inr () \<and> (\<exists>c'. pl_cell p' = Some c' \<and>
        delivered (wire c') = delivered (wire (fst (announce_tracker e' c q)))
          @ motion_inners (pl_sensor_id p) (slime_quat (pl_quat p')) (wire_accel s)
          @ mag_inners (pl_cfg p) (pl_sensor_id p) s)"
proof -
  define e' where
    "e' = e\<lparr>ee_paused := False, ee_send1 := (SendOk, n1), ee_send2 := (SendOk, n2), ee_mag := (SendOk, n3)\<rparr>"
  obtain c1 p1 where a: "announce_tracker e' c (p\<lparr>pl_cell := Some c\<rparr>) = (c1, p1)"
    by fastforce
  have p1: "pl_cfg p1 = pl_cfg p" "pl_sensor_id p1 = pl_sensor_id p"
    using announce_fields [of e' c "p\<lparr>pl_cell := Some c\<rparr>"] a by simp_all
  let ?q = "process_batch pf e' (batch @ [s]) (p1\<lparr>pl_cell := Some c1\<rparr>)"
  obtain c' where c': "send_batch e' s ?q c1 = (Inr (), c')"
    "delivered (wire c') = delivered (wire c1) @ motion_inners (pl_sensor_id ?q) (slime_quat (pl_quat ?q)) (wire_accel s)
       @ mag_inners (pl_cfg ?q) (pl_sensor_id ?q) s"
    using send_batch_ok [of e' n1 n2 n3 s ?q c1] by (auto simp: e'_def)
  show ?thesis
    using a p1 c' unfolding e'_def [symmetric] Let_def
    by (simp add: event_connected dispatch_def handle_imu_def Let_def) (simp add: e'_def)
qed

text \<open>
  A calibration session collects the magnetometer readings of every sample that
  arrives between its start and its end, in order and at most 4000 of them, from a cleared
  buffer; finishing publishes the fit of exactly these and ends the session.
\<close>

theorem mag_session_collects:
  "let p1 = fold (\<lambda>(e, batch) q. snd (handle_event pf e (ImuSamples batch) q)) bs
              (handle_mag_cal_cmd pf CmdStart (p\<lparr>pl_cell := Some c\<rparr>));
       ms = take 4000 (mags (concat (map snd bs)));
       p2 = handle_mag_cal_cmd pf CmdFinish p1
   in pl_mag_active p1 \<and> pl_mag_buffer p1 = ms
      \<and> pl_results p2 = calibrate (pf_solve pf) ms # pl_results p
      \<and> \<not> pl_mag_active p2 \<and> pl_mag_buffer p2 = [] \<and> pl_progress p2 = progress_default"
proof -
  have "session p [] (handle_mag_cal_cmd pf CmdStart (p\<lparr>pl_cell := Some c\<rparr>))"
    by (simp add: session_def handle_mag_cal_cmd_def)
  from session_events [OF this, of bs pf] show ?thesis
    by (simp add: session_def Let_def handle_mag_cal_cmd_def MAG_CAL_BUFFER_CAP_def)
qed

text \<open>
  A connection that the watchdog resets and a datagram confirms again before the
  next event of the device leaves the pipeline unaware: it announces nothing, so the feature
  flags that make the server advertise bundling are not sent again, and bundling, which the
  reset turned off, stays off.
\<close>

theorem fast_reconnect_keeps_bundling_off:
  assumes "timed_out (tk_now te) c"
    and "pl_sensor_info_sent p" "pl_feature_flags_sent p" "pl_last_mag_config p = Some (sensor_mag_config p)"
    and "4 \<le> length d" "length d \<le> 1500" "u32_be_at d 0 \<noteq> 22"
  shows "let c1 = watchdog_tick te info c;
             c2 = snd (snd (receive_step now out t1 t2 (RecvOk d) (r, c1)))
         in confirmed c2 \<and> \<not> supports_bundle c2 \<and> announce_tracker e c2 p = (c2, p)"
proof -
  let ?c1 = "watchdog_tick te info c"
  let ?c2 = "snd (snd (receive_step now out t1 t2 (RecvOk d) (r, ?c1)))"
  have c2: "?c2 = received now out d ?c1"
    using assms(5,6) by (simp only: receive_client recv_outcome.simps if_True take_all)
  have "confirmed ?c2"
    unfolding c2 by simp
  moreover have "supports_bundle ?c2 = supports_bundle ?c1"
    unfolding c2 using assms(7) by (simp add: handle_inbound_def socket_send_def)
  then have "\<not> supports_bundle ?c2"
    using assms(1) by (simp add: watchdog_fields)
  ultimately show ?thesis
    using assms(2-4) by (simp add: Let_def announce_tracker_def announce_sensor_def announce_flags_def)
qed

definition sample_meta :: device_metadata where
  "sample_meta = \<lparr>md_id = \<lparr>id_mac = [1, 2, 3, 4, 5, 6], id_serial = ''pad''\<rparr>, md_kind = DualSense,
     md_firmware = None,
     md_caps = \<lparr>has_magnetometer = False, has_battery = True, has_rumble = True, native_rate_hz = 250\<rparr>\<rparr>"

definition sample_pipeline :: pipeline where
  "sample_pipeline =
     (pipeline_new sample_meta sample_info None 0 pipeline_config_default 0 0)
       \<lparr>pl_sensor_info_sent := True, pl_feature_flags_sent := True, pl_last_mag_config := Some 0\<rparr>"

definition bundling_client :: client where
  "bundling_client = initial_client\<lparr>confirmed := True, supports_bundle := True, last_inbound := 1000\<rparr>"

definition late_tick :: tick_env where
  "late_tick = \<lparr>tk_now = 5000, tk_reset_now = 5000, tk_out = SendOk, tk_handshake_now = 5000, tk_send_now = 5000\<rparr>"

theorem fast_reconnect_keeps_bundling_off_witness:
  "supports_bundle bundling_client \<and>
   (let c2 = snd (snd (receive_step 5010 SendOk 0 0 (RecvOk [1, 1, 1, 1])
       (\<lparr>last_reset_log = 0, reset_seen = 0, reset_logged = []\<rparr>, watchdog_tick late_tick sample_info bundling_client)))
    in confirmed c2 \<and> \<not> supports_bundle c2 \<and> (\<forall>e. announce_tracker e c2 sample_pipeline = (c2, sample_pipeline)))"
proof
  show "supports_bundle bundling_client"
    by (simp add: bundling_client_def)
  have "timed_out (tk_now late_tick) bundling_client"
    by (simp add: timed_out_def late_tick_def bundling_client_def saturating_sub_def word_le_nat_alt)
  moreover have "pl_last_mag_config sample_pipeline = Some (sensor_mag_config sample_pipeline)"
    by (simp add: sample_pipeline_def sensor_mag_config_def pipeline_new_def sample_meta_def)
  moreover have "u32_be_at [1, 1, 1, 1] 0 \<noteq> 22"
    by (simp add: at_defs from_be_def from_le_def)
  moreover have "pl_sensor_info_sent sample_pipeline" "pl_feature_flags_sent sample_pipeline"
    by (simp_all add: sample_pipeline_def)
  ultimately show "let c2 = snd (snd (receive_step 5010 SendOk 0 0 (RecvOk [1, 1, 1, 1])
       (\<lparr>last_reset_log = 0, reset_seen = 0, reset_logged = []\<rparr>, watchdog_tick late_tick sample_info bundling_client)))
    in confirmed c2 \<and> \<not> supports_bundle c2 \<and> (\<forall>e. announce_tracker e c2 sample_pipeline = (c2, sample_pipeline))"
    using fast_reconnect_keeps_bundling_off [of late_tick bundling_client sample_pipeline "[1, 1, 1, 1]" sample_info
        5010 SendOk 0 0 "\<lparr>last_reset_log = 0, reset_seen = 0, reset_logged = []\<rparr>"]
    by (simp add: Let_def)
qed

end
