(* ===== verification/App_State.thy ===== *)
theory App_State
  imports Pipeline_Run Text_Parse "HOL-Library.AList" "HOL-Library.Multiset"
begin

section \<open>The device registry\<close>

text \<open>
  \<^verbatim>\<open>crates/core/src/app_state.rs\<close> and \<^verbatim>\<open>supervisor.rs\<close>: the registry of devices with one
  pipeline task each, the live updates and the commands sent to a device, aggregated
  statistics, and the settings a pipeline starts from.

  A handle holds the pipeline of its task, of which it reads the \<^verbatim>\<open>watch\<close> values and the lazy
  client, and whether the task is still there to receive. The result channel of the
  calibration is the list \<open>pl_results\<close>: its length is the version of the channel. The hash map
  of devices is an association list in the order of iteration. Registering takes the lock
  twice, with the spawned task running in between, and is therefore two steps. Parsing JSON is
  the \<^verbatim>\<open>serde_json\<close> crate's and is the parameter \<open>parse_cal\<close>.
\<close>

subsection \<open>Settings of a device\<close>

text \<open>Two lower-case hexadecimal digits, as \<^verbatim>\<open>{:02x}\<close>.\<close>

definition hex02_lower :: "u8 \<Rightarrow> string" where
  "hex02_lower b = (let d = (\<lambda>n. ''0123456789abcdef'' ! n) in [d (unat b div 16), d (unat b mod 16)])"

definition mac_key :: "mac \<Rightarrow> string" where
  "mac_key m = concat (map hex02_lower m)"

text \<open>
  \<^verbatim>\<open>str::parse::<f32>\<close>: a sign, then \<^verbatim>\<open>inf\<close>, \<^verbatim>\<open>infinity\<close> or \<^verbatim>\<open>nan\<close> in any case, or digits with a
  point and an exponent, of which there is at least one digit; correctly rounded.
\<close>

definition parse_exp :: "string \<Rightarrow> int option" where
  "parse_exp s =
     (case s of
        [] \<Rightarrow> Some 0
      | c # cs \<Rightarrow>
          if ascii_lower c = CHR ''e'' then
            (case parse_sign cs of (neg, ds) \<Rightarrow>
               if ds \<noteq> [] \<and> list_all is_digit ds
               then Some (if neg then - int (digits_nat ds) else int (digits_nat ds)) else None)
          else None)"

definition parse_number :: "fmt \<Rightarrow> bool \<Rightarrow> string \<Rightarrow> fp option" where
  "parse_number F neg s =
     (let whole = takeWhile is_digit s; r1 = dropWhile is_digit s;
          (frac, r2) = (case r1 of
             c # cs \<Rightarrow> if c = CHR ''.'' then (takeWhile is_digit cs, dropWhile is_digit cs) else ([], r1)
           | [] \<Rightarrow> ([], []))
      in if whole = [] \<and> frac = [] then None
         else
           case parse_exp r2 of
             None \<Rightarrow> None
           | Some ex \<Rightarrow>
               let n = digits_nat (whole @ frac); k = ex - int (length frac)
               in Some (fp_make F neg (n * funit F * 10 ^ nat k) (10 ^ nat (- k))))"

definition parse_fp :: "fmt \<Rightarrow> string \<Rightarrow> fp option" where
  "parse_fp F s =
     (case parse_sign s of (neg, r) \<Rightarrow>
        let l = map ascii_lower r in
        if l = ''inf'' \<or> l = ''infinity'' then Some (FInf neg)
        else if l = ''nan'' then Some FNaN
        else parse_number F neg r)"

definition parse_f32 :: "string \<Rightarrow> f32 option" where
  "parse_f32 s = map_option f32_of (parse_fp fmt32 s)"

definition parse_f64 :: "string \<Rightarrow> f64 option" where
  "parse_f64 s = map_option f64_of (parse_fp fmt64 s)"

definition positive_finite :: "f32 \<Rightarrow> bool" where
  "positive_finite x \<longleftrightarrow> f32_is_finite x \<and> 0 < x"

text \<open>The settings store is read through \<open>get\<close> and, for the rotation, \<open>rotation\<close>.\<close>

definition pipeline_config_from_settings ::
  "(text_string \<Rightarrow> mag_calibration option) \<Rightarrow> (text_string \<Rightarrow> text_string option)
    \<Rightarrow> (device_id \<Rightarrow> f32) \<Rightarrow> device_id \<Rightarrow> pipeline_config" where
  "pipeline_config_from_settings parse_cal get rotation i =
     (let key = mac_key (id_mac i);
          cal = Option.bind (get (''mag_cal:'' @ key)) parse_cal
      in \<lparr>pc_fusion = (case get (''fusion_algo:'' @ key) of
            Some s \<Rightarrow> algo_from_setting s | None \<Rightarrow> AlgoVqf),
          pc_mounting = (case get (''mounting_orientation:'' @ key) of
            Some s \<Rightarrow> mounting_from_setting s | None \<Rightarrow> MountIdentity),
          pc_mag_enabled = (case get (''magnetometer_enabled:'' @ key) of
            Some s \<Rightarrow> s = ''1'' \<or> eq_ignore_ascii_case s ''true'' | None \<Rightarrow> cal \<noteq> None),
          pc_rotation_offset = rotation i,
          pc_gyro_scale =
            (case Option.bind (get (''gyro_scale:'' @ key)) parse_f32 of
               Some v \<Rightarrow> if positive_finite v then v else 1 | None \<Rightarrow> 1),
          pc_mag_cal = cal\<rparr>)"

subsection \<open>State\<close>

datatype device_control = SetLedMask u8 | SetRumble f32

record device_handle =
  dh_meta :: device_metadata
  dh_task :: nat
  dh_pipe :: pipeline
  dh_running :: bool
  dh_control_open :: bool
  dh_controls :: "device_control list"

record app_state =
  as_devices :: "(device_id \<times> device_handle) list"
  as_paused :: bool
  as_pending :: "device_handle option"
  as_tasks :: "(nat \<times> device_id) list"
  as_next_task :: nat
  as_stopped :: "nat list"
  as_announced :: "device_metadata list"

definition app_new :: app_state where
  "app_new = \<lparr>as_devices = [], as_paused = False, as_pending = None, as_tasks = [],
     as_next_task = 0, as_stopped = [], as_announced = []\<rparr>"

definition set_paused :: "bool \<Rightarrow> app_state \<Rightarrow> app_state" where
  "set_paused b st = st\<lparr>as_paused := b\<rparr>"

definition find_mac :: "mac \<Rightarrow> app_state \<Rightarrow> (device_id \<times> device_handle) option" where
  "find_mac m st = find (\<lambda>(i, h). id_mac (md_id (dh_meta h)) = m) (as_devices st)"

subsection \<open>Registering and removing\<close>

definition mag_status :: "device_metadata \<Rightarrow> pipeline_config \<Rightarrow> i32" where
  "mag_status meta cfg =
     (if \<not> has_magnetometer (md_caps meta) then 0 else if pc_mag_enabled cfg then 2 else 1)"

definition tracker_info :: "bytes \<Rightarrow> device_metadata \<Rightarrow> pipeline_config \<Rightarrow> handshake_info" where
  "tracker_info firmware meta cfg =
     \<lparr>hi_board = BoardCustom, hi_imu = ImuBno085, hi_mcu = McuUnknown,
      hi_mag_status = mag_status meta cfg, hi_firmware = firmware, hi_mac = id_mac (md_id meta)\<rparr>"

text \<open>
  First step: entries with the same address under another identity are stopped and removed,
  the pipeline is made and its task spawned.
\<close>

definition register_prepare ::
  "bytes \<Rightarrow> pipeline_config \<Rightarrow> bias option \<Rightarrow> instant \<Rightarrow> instant \<Rightarrow> device_metadata \<Rightarrow> app_state
    \<Rightarrow> app_state" where
  "register_prepare firmware cfg loaded t1 t2 meta st =
     (let stale = (\<lambda>(i, h). i \<noteq> md_id meta \<and> id_mac (md_id (dh_meta h)) = id_mac (md_id meta));
          n = as_next_task st
      in st\<lparr>as_devices := filter (\<lambda>e. \<not> stale e) (as_devices st),
            as_stopped := map (\<lambda>(i, h). dh_task h) (filter stale (as_devices st)) @ as_stopped st,
            as_tasks := (n, md_id meta) # as_tasks st,
            as_next_task := Suc n,
            as_pending := Some
              \<lparr>dh_meta = meta, dh_task = n,
               dh_pipe = pipeline_new meta (tracker_info firmware meta cfg) loaded 0 cfg t1 t2,
               dh_running = True, dh_control_open = True, dh_controls = []\<rparr>\<rparr>)"

text \<open>Second step: the handle is entered, replacing one of the same identity, and announced.\<close>

definition register_insert :: "app_state \<Rightarrow> app_state" where
  "register_insert st =
     (case as_pending st of
        None \<Rightarrow> st
      | Some h \<Rightarrow>
          st\<lparr>as_devices := AList.update (md_id (dh_meta h)) h (as_devices st),
             as_stopped := (case map_of (as_devices st) (md_id (dh_meta h)) of
                Some old \<Rightarrow> [dh_task old] | None \<Rightarrow> []) @ as_stopped st,
             as_pending := None, as_announced := dh_meta h # as_announced st\<rparr>)"

text \<open>The end of a task that saw its device go: the entry under its identity is removed.\<close>

definition task_disconnected :: "nat \<Rightarrow> app_state \<Rightarrow> app_state" where
  "task_disconnected n st =
     (case map_of (as_tasks st) n of
        None \<Rightarrow> st
      | Some i \<Rightarrow>
          st\<lparr>as_tasks := AList.delete n (as_tasks st),
             as_devices := AList.delete i (as_devices st),
             as_stopped := (case map_of (as_devices st) i of Some h \<Rightarrow> [dh_task h] | None \<Rightarrow> []) @ as_stopped st\<rparr>)"

definition shutdown :: "app_state \<Rightarrow> app_state" where
  "shutdown st =
     st\<lparr>as_devices := [],
        as_stopped := map (\<lambda>(i, h). dh_task h) (as_devices st) @ as_stopped st\<rparr>"

subsection \<open>Live updates and commands\<close>

definition update_handle :: "device_id \<Rightarrow> (device_handle \<Rightarrow> device_handle) \<Rightarrow> app_state \<Rightarrow> app_state" where
  "update_handle i f st =
     st\<lparr>as_devices := map (\<lambda>(j, h). (j, if j = i then f h else h)) (as_devices st)\<rparr>"

definition update_config ::
  "mac \<Rightarrow> (pipeline_config \<Rightarrow> pipeline_config) \<Rightarrow> app_state \<Rightarrow> bool \<times> app_state" where
  "update_config m f st =
     (case find_mac m st of
        None \<Rightarrow> (False, st)
      | Some (i, h) \<Rightarrow>
          (True, update_handle i
             (\<lambda>h. h\<lparr>dh_pipe := (dh_pipe h)\<lparr>pl_cfg := f (pl_cfg (dh_pipe h))\<rparr>\<rparr>) st))"

definition set_mounting_orientation :: "mac \<Rightarrow> mounting \<Rightarrow> app_state \<Rightarrow> bool \<times> app_state" where
  "set_mounting_orientation m x = update_config m (\<lambda>c. c\<lparr>pc_mounting := x\<rparr>)"

definition set_magnetometer_enabled :: "mac \<Rightarrow> bool \<Rightarrow> app_state \<Rightarrow> bool \<times> app_state" where
  "set_magnetometer_enabled m x = update_config m (\<lambda>c. c\<lparr>pc_mag_enabled := x\<rparr>)"

definition set_gyro_scale :: "mac \<Rightarrow> f32 \<Rightarrow> app_state \<Rightarrow> bool \<times> app_state" where
  "set_gyro_scale m x st =
     (if \<not> f32_is_finite x \<or> x \<le> 0 then (False, st)
      else update_config m (\<lambda>c. c\<lparr>pc_gyro_scale := x\<rparr>) st)"

definition set_rotation_offset :: "mac \<Rightarrow> f32 \<Rightarrow> app_state \<Rightarrow> bool \<times> app_state" where
  "set_rotation_offset m x st =
     (if \<not> f32_is_finite x then (False, st)
      else update_config m (\<lambda>c. c\<lparr>pc_rotation_offset := x\<rparr>) st)"

definition set_mag_calibration :: "mac \<Rightarrow> mag_calibration option \<Rightarrow> app_state \<Rightarrow> bool \<times> app_state" where
  "set_mag_calibration m x = update_config m (\<lambda>c. c\<lparr>pc_mag_cal := x\<rparr>)"

definition send_control :: "mac \<Rightarrow> device_control \<Rightarrow> app_state \<Rightarrow> bool \<times> app_state" where
  "send_control m cmd st =
     (case find_mac m st of
        None \<Rightarrow> (False, st)
      | Some (i, h) \<Rightarrow>
          if dh_control_open h
          then (True, update_handle i (\<lambda>h. h\<lparr>dh_controls := cmd # dh_controls h\<rparr>) st)
          else (False, st))"

definition set_led_mask :: "mac \<Rightarrow> u8 \<Rightarrow> app_state \<Rightarrow> bool \<times> app_state" where
  "set_led_mask m leds = send_control m (SetLedMask leds)"

definition set_device_rumble :: "mac \<Rightarrow> f32 \<Rightarrow> app_state \<Rightarrow> bool \<times> app_state" where
  "set_device_rumble m x = send_control m (SetRumble x)"

subsection \<open>Magnetometer calibration\<close>

text \<open>Sending a command fails only when the task is gone.\<close>

definition send_mag_cmd :: "platform \<Rightarrow> mag_cal_cmd \<Rightarrow> mac \<Rightarrow> app_state \<Rightarrow> bool \<times> app_state" where
  "send_mag_cmd pf cmd m st =
     (case find_mac m st of
        None \<Rightarrow> (False, st)
      | Some (i, h) \<Rightarrow>
          if dh_running h
          then (True, update_handle i (\<lambda>h. h\<lparr>dh_pipe := handle_mag_cal_cmd pf cmd (dh_pipe h)\<rparr>) st)
          else (False, st))"

definition start_mag_calibration :: "platform \<Rightarrow> mac \<Rightarrow> app_state \<Rightarrow> bool \<times> app_state" where
  "start_mag_calibration pf = send_mag_cmd pf CmdStart"

definition cancel_mag_calibration :: "platform \<Rightarrow> mac \<Rightarrow> app_state \<Rightarrow> bool \<times> app_state" where
  "cancel_mag_calibration pf = send_mag_cmd pf CmdCancel"

text \<open>
  The handle's result receiver is never marked as seen, and its clone inherits that, so the
  wait returns at once when any result was ever published. \<open>race\<close> says whether the task has
  handled the command by the time the value is read, \<open>timely\<close> whether it does so within the
  two seconds waited for.
\<close>

definition current_result :: "pipeline \<Rightarrow> mag_calibration option" where
  "current_result p = (case pl_results p of [] \<Rightarrow> None | r # _ \<Rightarrow> r)"

definition finish_mag_calibration ::
  "platform \<Rightarrow> bool \<Rightarrow> bool \<Rightarrow> mac \<Rightarrow> app_state \<Rightarrow> mag_calibration option \<times> app_state" where
  "finish_mag_calibration pf race timely m st =
     (case find_mac m st of
        None \<Rightarrow> (None, st)
      | Some (i, h) \<Rightarrow>
          if \<not> dh_running h then (None, st)
          else
            let p = dh_pipe h; p1 = handle_mag_cal_cmd pf CmdFinish p;
                st1 = update_handle i (\<lambda>h. h\<lparr>dh_pipe := p1\<rparr>) st
            in if pl_results p \<noteq> [] then (if race then current_result p1 else current_result p, st1)
               else (if timely then current_result p1 else None, st1))"

definition mag_cal_progress_of :: "mac \<Rightarrow> app_state \<Rightarrow> mag_cal_progress option" where
  "mag_cal_progress_of m st = map_option (\<lambda>(i, h). pl_progress (dh_pipe h)) (find_mac m st)"

subsection \<open>Statistics, snapshots and resets\<close>

definition stats_zero :: client_stats where
  "stats_zero = \<lparr>st_packets_sent = 0, st_last_send = 0, st_last_handshake = 0,
     st_supports_bundle = False, st_confirmed = False, st_last_inbound = 0, st_reset_count = 0,
     st_last_reset = 0\<rparr>"

definition add_stats :: "client_stats \<Rightarrow> client_stats \<Rightarrow> client_stats" where
  "add_stats s a =
     \<lparr>st_packets_sent = st_packets_sent a + st_packets_sent s,
      st_last_send = max (st_last_send a) (st_last_send s),
      st_last_handshake = max (st_last_handshake a) (st_last_handshake s),
      st_supports_bundle = (st_supports_bundle a \<or> st_supports_bundle s),
      st_confirmed = (st_confirmed a \<or> st_confirmed s),
      st_last_inbound = max (st_last_inbound a) (st_last_inbound s),
      st_reset_count = saturating_add (st_reset_count a) (st_reset_count s),
      st_last_reset = max (st_last_reset a) (st_last_reset s)\<rparr>"

definition connected_clients :: "app_state \<Rightarrow> client list" where
  "connected_clients st = List.map_filter (\<lambda>(i, h). pl_cell (dh_pipe h)) (as_devices st)"

definition aggregated_stats :: "app_state \<Rightarrow> client_stats" where
  "aggregated_stats st = fold (\<lambda>c. add_stats (stats c)) (connected_clients st) stats_zero"

definition device_metadata_snapshot :: "app_state \<Rightarrow> device_metadata list" where
  "device_metadata_snapshot st = map (\<lambda>(i, h). dh_meta h) (as_devices st)"

definition snapshot_of :: "(pipeline \<Rightarrow> 'a) \<Rightarrow> app_state \<Rightarrow> (device_id \<times> 'a) list" where
  "snapshot_of f st = map (\<lambda>(i, h). (i, f (dh_pipe h))) (as_devices st)"

definition latest_quat_snapshot :: "app_state \<Rightarrow> (device_id \<times> f32 quat) list" where
  "latest_quat_snapshot = snapshot_of pl_quat"

definition latest_sample_snapshot :: "app_state \<Rightarrow> (device_id \<times> sample_snapshot) list" where
  "latest_sample_snapshot = snapshot_of pl_sample"

definition latest_bias_snapshot :: "app_state \<Rightarrow> (device_id \<times> bias) list" where
  "latest_bias_snapshot = snapshot_of pl_bias"

definition latest_rate_snapshot :: "app_state \<Rightarrow> (device_id \<times> f32) list" where
  "latest_rate_snapshot = snapshot_of pl_rate"

definition latest_latency_snapshot :: "app_state \<Rightarrow> (device_id \<times> latency_snapshot) list" where
  "latest_latency_snapshot = snapshot_of pl_latency_out"

definition latest_battery_snapshot :: "app_state \<Rightarrow> (device_id \<times> f32) list" where
  "latest_battery_snapshot = snapshot_of pl_battery"

text \<open>A reset goes to every connected device; \<open>out\<close> gives the outcome and time of each send.\<close>

definition request_reset ::
  "(device_id \<Rightarrow> send_outcome \<times> u64) \<Rightarrow> reset_kind \<Rightarrow> app_state \<Rightarrow> app_state" where
  "request_reset out k st =
     st\<lparr>as_devices := map (\<lambda>(i, h).
          (i, case pl_cell (dh_pipe h) of
                None \<Rightarrow> h
              | Some c \<Rightarrow> h\<lparr>dh_pipe := (dh_pipe h)\<lparr>pl_cell :=
                  Some (snd (send_user_action (fst (out i)) (snd (out i)) (reset_action k) c))\<rparr>\<rparr>))
        (as_devices st)\<rparr>"

subsection \<open>Runs of the registry\<close>

datatype app_event =
    Prepare bytes pipeline_config "bias option" instant instant device_metadata
  | Insert
  | TaskGone nat
  | Shutdown
  | UpdatePipe device_id "pipeline \<Rightarrow> pipeline"

fun app_step :: "app_event \<Rightarrow> app_state \<Rightarrow> app_state" where
  "app_step (Prepare fw cfg b t1 t2 meta) st =
     (case as_pending st of None \<Rightarrow> register_prepare fw cfg b t1 t2 meta st | Some _ \<Rightarrow> st)"
| "app_step Insert st = register_insert st"
| "app_step (TaskGone n) st = task_disconnected n st"
| "app_step Shutdown st = shutdown st"
| "app_step (UpdatePipe i f) st = update_handle i (\<lambda>h. h\<lparr>dh_pipe := f (dh_pipe h)\<rparr>) st"

definition app_run :: "app_event list \<Rightarrow> app_state" where
  "app_run es = fold app_step es app_new"

subsection \<open>Supervisor\<close>

text \<open>
  A driver is its five operations on its own state. The metadata registered is that read after
  the start; a driver that fails to start is dropped. The task of a started driver passes on
  the commands and stops it when the handle is gone.
\<close>

record 'd driver =
  dr_start :: "'d \<Rightarrow> bool \<times> 'd"
  dr_metadata :: "'d \<Rightarrow> device_metadata"
  dr_led :: "u8 \<Rightarrow> 'd \<Rightarrow> bool \<times> 'd"
  dr_rumble :: "f32 \<Rightarrow> 'd \<Rightarrow> bool \<times> 'd"
  dr_stop :: "'d \<Rightarrow> bool \<times> 'd"

definition forward_control :: "'d driver \<Rightarrow> device_control \<Rightarrow> 'd \<Rightarrow> 'd" where
  "forward_control dr cmd d =
     snd (case cmd of SetLedMask leds \<Rightarrow> dr_led dr leds d | SetRumble x \<Rightarrow> dr_rumble dr x d)"

definition control_task :: "'d driver \<Rightarrow> device_control list \<Rightarrow> 'd \<Rightarrow> 'd" where
  "control_task dr cmds d = snd (dr_stop dr (fold (forward_control dr) cmds d))"

definition supervise_one ::
  "(device_metadata \<Rightarrow> app_event) \<Rightarrow> 'd driver \<Rightarrow> 'd \<Rightarrow> app_event list \<times> 'd option" where
  "supervise_one prepare dr d =
     (case dr_start dr d of
        (False, _) \<Rightarrow> ([], None)
      | (True, d') \<Rightarrow> ([prepare (dr_metadata dr d'), Insert], Some d'))"

definition supervisor_run ::
  "(device_metadata \<Rightarrow> app_event) \<Rightarrow> ('d driver \<times> 'd) list \<Rightarrow> app_event list" where
  "supervisor_run prepare found = concat (map (\<lambda>(dr, d). fst (supervise_one prepare dr d)) found)"

subsection \<open>Lemmas\<close>

declare map_of_eq_Some_iff [simp del] Some_eq_map_of_iff [simp del]

text \<open>
  One entry per identity, filed under it, and one per address; the pending device clashes
  with none of another identity.
\<close>

definition entry_mac :: "device_id \<times> device_handle \<Rightarrow> mac" where
  "entry_mac e = id_mac (fst e)"

definition registry_inv :: "app_state \<Rightarrow> bool" where
  "registry_inv st \<longleftrightarrow>
     (\<forall>e \<in> set (as_devices st). md_id (dh_meta (snd e)) = fst e)
     \<and> distinct (map entry_mac (as_devices st))
     \<and> (\<forall>h. as_pending st = Some h \<longrightarrow>
          (\<forall>e \<in> set (as_devices st). entry_mac e = id_mac (md_id (dh_meta h)) \<longrightarrow> fst e = md_id (dh_meta h)))"

lemma update_set: "e \<in> set (AList.update k v xs) \<Longrightarrow> e = (k, v) \<or> e \<in> set xs"
  by (induction xs) (auto split: if_splits)

lemma update_macs:
  assumes "distinct (map entry_mac xs)" "\<forall>e \<in> set xs. entry_mac e = id_mac i \<longrightarrow> fst e = i"
  shows "distinct (map entry_mac (AList.update i h xs))"
  using assms
proof (induction xs)
  case (Cons e xs)
  show ?case
  proof (cases "fst e = i")
    case True
    with Cons.prems show ?thesis
      by (cases e) (simp add: entry_mac_def)
  next
    case False
    moreover have "entry_mac e \<notin> entry_mac ` set (AList.update i h xs)"
    proof
      assume "entry_mac e \<in> entry_mac ` set (AList.update i h xs)"
      then obtain e' where "e' \<in> set (AList.update i h xs)" "entry_mac e' = entry_mac e" by auto
      then have "entry_mac e = id_mac i \<or> entry_mac e \<in> entry_mac ` set xs"
        by (metis entry_mac_def fst_conv image_eqI update_set)
      then show False
        using Cons.prems False by auto
    qed
    ultimately show ?thesis
      using Cons by (cases e) auto
  qed
qed (simp add: entry_mac_def)

lemma registry_new: "registry_inv app_new"
  by (simp add: registry_inv_def app_new_def)

lemma registry_prepare: "registry_inv st \<Longrightarrow> registry_inv (register_prepare fw cfg b t1 t2 meta st)"
  by (auto simp: registry_inv_def register_prepare_def Let_def entry_mac_def
      intro: distinct_map_filter)

lemma registry_insert:
  assumes "registry_inv st"
  shows "registry_inv (register_insert st)"
proof (cases "as_pending st")
  case None
  with assms show ?thesis by (simp add: register_insert_def)
next
  case (Some h)
  with assms have "distinct (map entry_mac (AList.update (md_id (dh_meta h)) h (as_devices st)))"
    by (intro update_macs) (simp_all add: registry_inv_def)
  with Some assms show ?thesis
    by (auto simp: registry_inv_def register_insert_def dest: update_set)
qed

lemma registry_delete:
  assumes "registry_inv st" "as_devices st' = filter P (as_devices st)" "as_pending st' = as_pending st"
  shows "registry_inv st'"
  using assms by (auto simp: registry_inv_def intro: distinct_map_filter)

lemma registry_gone: "registry_inv st \<Longrightarrow> registry_inv (task_disconnected n st)"
  by (cases "map_of (as_tasks st) n")
    (auto simp: task_disconnected_def AList.delete_eq elim!: registry_delete)

lemma registry_shutdown: "registry_inv st \<Longrightarrow> registry_inv (shutdown st)"
  by (simp add: registry_inv_def shutdown_def)

lemma registry_step: "registry_inv st \<Longrightarrow> registry_inv (app_step e st)"
proof (cases e)
  case (UpdatePipe i f)
  assume inv: "registry_inv st"
  define g where "g = (\<lambda>(j :: device_id, h :: device_handle). (j, if j = i then h\<lparr>dh_pipe := f (dh_pipe h)\<rparr> else h))"
  have new: "app_step e st = st\<lparr>as_devices := map g (as_devices st)\<rparr>"
    by (simp add: UpdatePipe update_handle_def g_def)
  have keep: "fst (g x) = fst x" "dh_meta (snd (g x)) = dh_meta (snd x)" for x
    by (cases x, simp add: g_def)+
  have "map entry_mac (as_devices (app_step e st)) = map entry_mac (as_devices st)"
    by (simp add: new entry_mac_def keep)
  with inv show ?thesis
    unfolding registry_inv_def by (auto simp: new keep entry_mac_def simp del: map_map)
qed (simp_all add: registry_prepare registry_insert registry_gone registry_shutdown split: option.split)

lemma registry_run: "registry_inv (app_run es)"
proof -
  have "registry_inv st \<Longrightarrow> registry_inv (fold app_step es st)" for st
    by (induction es arbitrary: st) (simp_all add: registry_step)
  then show ?thesis
    by (simp add: app_run_def registry_new)
qed

lemma find_mac_head:
  "id_mac (md_id (dh_meta h)) = m \<Longrightarrow> find_mac m (st\<lparr>as_devices := (i, h) # ds\<rparr>) = Some (i, h)"
  by (simp add: find_mac_def)

lemma saturating_add_swap:
  "saturating_add (saturating_add a b) c = saturating_add (saturating_add a c) (b :: ('a::len) word)"
  by (simp add: word_unat_eq_iff unat_saturating_add)

lemma add_stats_commute: "add_stats a \<circ> add_stats b = add_stats b \<circ> add_stats a"
  by (rule ext) (simp add: add_stats_def saturating_add_swap ac_simps max.left_commute disj_left_commute)

text \<open>The parts of the state the two steps of registering and the end of a task touch.\<close>

lemma prepare_parts:
  "as_tasks (register_prepare fw cfg b t1 t2 meta st) = (as_next_task st, md_id meta) # as_tasks st"
  "as_next_task (register_prepare fw cfg b t1 t2 meta st) = Suc (as_next_task st)"
  "\<exists>h. as_pending (register_prepare fw cfg b t1 t2 meta st) = Some h
    \<and> dh_task h = as_next_task st \<and> dh_meta h = meta"
  by (simp_all add: register_prepare_def Let_def)

lemma insert_parts:
  assumes "as_pending st = Some h"
  shows "map_of (as_devices (register_insert st)) (md_id (dh_meta h)) = Some h"
    "as_tasks (register_insert st) = as_tasks st"
    "as_next_task (register_insert st) = as_next_task st"
  using assms by (simp_all add: register_insert_def update_conv')

lemma gone_parts:
  "as_pending (task_disconnected n st) = as_pending st"
  "map_of (as_tasks (task_disconnected n st)) n = None"
  "map_of (as_tasks st) n = Some i \<Longrightarrow> map_of (as_devices (task_disconnected n st)) i = None"
  "n \<noteq> k \<Longrightarrow> map_of (as_tasks (task_disconnected n st)) k = map_of (as_tasks st) k"
  "map_of (as_tasks st) n = Some i \<Longrightarrow> map_of (as_devices st) i = Some h
    \<Longrightarrow> hd (as_stopped (task_disconnected n st)) = dh_task h"
  by (simp_all add: task_disconnected_def delete_conv' split: option.split)

text \<open>Batches fed to the pipeline of a device.\<close>

definition feed :: "platform \<Rightarrow> (event_env \<times> imu_sample list) list \<Rightarrow> pipeline \<Rightarrow> pipeline" where
  "feed pf bs p = fold (\<lambda>(e, batch) q. snd (handle_event pf e (ImuSamples batch) q)) bs p"

lemma feed_session:
  "pl_results (handle_mag_cal_cmd pf CmdFinish
      (feed pf bs (handle_mag_cal_cmd pf CmdStart (p\<lparr>pl_cell := Some c\<rparr>))))
     = calibrate (pf_solve pf) (take MAG_CAL_BUFFER_CAP (mags (concat (map snd bs)))) # pl_results p"
  "pl_results (feed pf bs (handle_mag_cal_cmd pf CmdStart (p\<lparr>pl_cell := Some c\<rparr>))) = pl_results p"
proof -
  have "session p [] (handle_mag_cal_cmd pf CmdStart (p\<lparr>pl_cell := Some c\<rparr>))"
    by (simp add: session_def handle_mag_cal_cmd_def)
  from session_events [OF this, of bs pf]
  have "session p (mags (concat (map snd bs))) (feed pf bs (handle_mag_cal_cmd pf CmdStart (p\<lparr>pl_cell := Some c\<rparr>)))"
    by (simp add: feed_def)
  then show "pl_results (handle_mag_cal_cmd pf CmdFinish
      (feed pf bs (handle_mag_cal_cmd pf CmdStart (p\<lparr>pl_cell := Some c\<rparr>))))
     = calibrate (pf_solve pf) (take MAG_CAL_BUFFER_CAP (mags (concat (map snd bs)))) # pl_results p"
    "pl_results (feed pf bs (handle_mag_cal_cmd pf CmdStart (p\<lparr>pl_cell := Some c\<rparr>))) = pl_results p"
    by (simp_all add: session_def handle_mag_cal_cmd_def)
qed

subsection \<open>Properties\<close>


text \<open>
  Removing a disconnected device by its identity alone races with registering.
  A device whose task ends before its handle is entered stays in the registry with no task;
  and the end of a task whose device has registered again removes the entry of its successor,
  whose running task is thereby told to stop.
\<close>

theorem reaper_races:
  "(let st1 = task_disconnected (as_next_task st) (register_prepare fw cfg b t1 t2 meta st);
        st2 = register_insert st1
    in map_option dh_task (map_of (as_devices st2) (md_id meta)) = Some (as_next_task st)
       \<and> map_of (as_tasks st2) (as_next_task st) = None)
   \<and> (let n = as_next_task st;
          st1 = register_insert (register_prepare fw cfg b t1 t2 meta st);
          st2 = register_insert (register_prepare fw cfg' b' t3 t4 meta st1);
          st3 = task_disconnected n st2
      in map_option dh_task (map_of (as_devices st2) (md_id meta)) = Some (Suc n)
         \<and> map_of (as_devices st3) (md_id meta) = None
         \<and> map_of (as_tasks st3) (Suc n) = Some (md_id meta) \<and> hd (as_stopped st3) = Suc n)"
proof -
  define n where "n = as_next_task st"
  define s1 where "s1 = register_prepare fw cfg b t1 t2 meta st"
  define s2 where "s2 = register_prepare fw cfg' b' t3 t4 meta (register_insert s1)"
  obtain h where h: "as_pending s1 = Some h" "dh_task h = n" "dh_meta h = meta"
    using prepare_parts(3) [of fw cfg b t1 t2 meta st] by (auto simp: s1_def n_def)
  have tasks: "as_tasks s1 = (n, md_id meta) # as_tasks st" "as_next_task (register_insert s1) = Suc n"
    using insert_parts [OF h(1)] by (simp_all add: s1_def n_def prepare_parts)
  obtain h' where h': "as_pending s2 = Some h'" "dh_task h' = Suc n" "dh_meta h' = meta"
    using prepare_parts(3) [of fw cfg' b' t3 t4 meta "register_insert s1"] tasks by (auto simp: s2_def)
  have tasks2: "as_tasks (register_insert s2) = (Suc n, md_id meta) # (n, md_id meta) # as_tasks st"
    using insert_parts(2) [OF h(1)] insert_parts(2) [OF h'(1)] tasks by (simp add: s2_def prepare_parts)
  have early: "as_pending (task_disconnected n s1) = Some h"
    "as_tasks (register_insert (task_disconnected n s1)) = as_tasks (task_disconnected n s1)"
    using h(1) insert_parts(2) gone_parts(1) by auto
  have first: "map_of (as_devices (register_insert (task_disconnected n s1))) (md_id meta) = Some h"
    using insert_parts(1) [OF early(1)] h by simp
  have entry: "map_of (as_devices (register_insert s2)) (md_id meta) = Some h'"
    using insert_parts(1) [OF h'(1)] h' by simp
  have mine: "map_of (as_tasks (register_insert s2)) n = Some (md_id meta)"
    by (simp add: tasks2)
  show ?thesis
    unfolding Let_def n_def [symmetric] s1_def [symmetric] s2_def [symmetric]
    using first early(2) entry gone_parts(3) [OF mine] gone_parts(5) [OF mine entry] h h'
    by (simp add: gone_parts(2, 4) tasks2)
qed

text \<open>
  From the second calibration of a device on, finishing returns the result of
  the one before: the handle's receiver has never been marked as having seen a result, so the
  wait ends at once, while the fit of the new session is published afterwards.
\<close>

theorem second_calibration_returns_previous:
  "let d = h\<lparr>dh_running := True, dh_pipe := (dh_pipe h)\<lparr>pl_results := r # rs, pl_cell := Some c\<rparr>\<rparr>;
       m = id_mac (md_id (dh_meta h));
       (started, st1) = start_mag_calibration pf m (st\<lparr>as_devices := (i, d) # ds\<rparr>);
       (r', st2) = finish_mag_calibration pf False timely m
          (update_handle i (\<lambda>h. h\<lparr>dh_pipe := feed pf bs (dh_pipe h)\<rparr>) st1)
   in started \<and> r' = r
      \<and> map_option (\<lambda>h. pl_results (dh_pipe h)) (map_of (as_devices st2) i)
        = Some (calibrate (pf_solve pf) (take 4000 (mags (concat (map snd bs)))) # r # rs)"
  using feed_session [where pf = pf and bs = bs and p = "(dh_pipe h)\<lparr>pl_results := r # rs\<rparr>" and c = c]
  by (simp add: start_mag_calibration_def send_mag_cmd_def finish_mag_calibration_def find_mac_def
      update_handle_def current_result_def Let_def MAG_CAL_BUFFER_CAP_def)

text \<open>
  The aggregated statistics do not depend on the order in which the hash map
  yields the devices.
\<close>

theorem aggregated_stats_order_free:
  assumes "mset (as_devices a) = mset (as_devices b)"
  shows "aggregated_stats a = aggregated_stats b"
proof -
  have "mset (connected_clients a) = mset (connected_clients b)"
    using assms by (simp add: connected_clients_def List.map_filter_def)
  then have "fold (\<lambda>c. add_stats (stats c)) (connected_clients a) =
      fold (\<lambda>c. add_stats (stats c)) (connected_clients b)"
    by (intro fold_multiset_equiv) (simp_all add: add_stats_commute)
  then show ?thesis
    by (simp add: aggregated_stats_def)
qed

theorem aggregated_stats_order_free_witness:
  "\<forall>i h j k. aggregated_stats (app_new\<lparr>as_devices := [(i, h), (j, k)]\<rparr>) =
     aggregated_stats (app_new\<lparr>as_devices := [(j, k), (i, h)]\<rparr>)"
  by (intro allI aggregated_stats_order_free) simp

end
