(* ===== verification/Float_Int.thy ===== *)
theory Float_Int
  imports Float_Ops
begin

section \<open>Exact integers and clamps in single precision\<close>

text \<open>
  Raw sensor words become \<^verbatim>\<open>f32\<close> before they are scaled: sums, differences and absolute values
  of such integers are exact, and a clamp of any number lies within its bounds.
\<close>

text \<open>\<^verbatim>\<open>f32::max\<close> and \<^verbatim>\<open>f32::min\<close> ignore a NaN.\<close>

definition f32_max :: "f32 \<Rightarrow> f32 \<Rightarrow> f32" where
  "f32_max x y = (if f32_is_nan x then y else if f32_is_nan y then x else if x < y then y else x)"

definition f32_min :: "f32 \<Rightarrow> f32 \<Rightarrow> f32" where
  "f32_min x y = (if f32_is_nan x then y else if f32_is_nan y then x else if y < x then y else x)"

definition int_valued :: "f32 \<Rightarrow> int \<Rightarrow> bool" where
  "int_valued x i \<longleftrightarrow> f32_val x = FFin (i < 0) (nat \<bar>i\<bar> * funit fmt32)"

lemma sgn_int_units: "sgn_int (i < 0) (nat \<bar>i\<bar> * u) = i * int u"
  by (auto simp: sgn_int_def)

lemma int_valued_of_int: "\<bar>i\<bar> < 2 ^ 24 \<Longrightarrow> int_valued (f32_of_int i) i"
  unfolding int_valued_def by (rule f32_val_of_int)

lemma nat_abs_units: "nat \<bar>i * int u\<bar> = nat \<bar>i\<bar> * u"
  by (simp add: abs_mult nat_mult_distrib)

lemma int_valued_make: "\<bar>i\<bar> < 2 ^ 24 \<Longrightarrow> 
    fp_make fmt32 (i * int (funit fmt32) < 0) (nat \<bar>i * int (funit fmt32)\<bar>) 1 = FFin (i < 0) (nat \<bar>i\<bar> * funit fmt32)"
proof -
  assume "\<bar>i\<bar> < 2 ^ 24"
  moreover have "i * int (funit fmt32) < 0 \<longleftrightarrow> i < 0"
    using funit_pos(1) by (simp only: mult_less_0_iff) simp
  ultimately show ?thesis
    using fp_of_int_32 [of i] by (simp only: fp_of_int_def nat_abs_units)
qed

lemma int_valued_add:
  assumes "int_valued x i" "int_valued y j" "\<bar>i + j\<bar> < 2 ^ 24"
  shows "int_valued (x + y) (i + j)"
proof -
  let ?u = "int (funit fmt32)"
  have z: "i * ?u + j * ?u = (i + j) * ?u" by (simp only: distrib_right)
  have "f32_val (x + y) = (if (i + j) * ?u = 0 then FFin (i < 0 \<and> j < 0) 0
      else fp_make fmt32 ((i + j) * ?u < 0) (nat \<bar>(i + j) * ?u\<bar>) 1)"
    using assms(1,2) by (simp only: f32_ops_val int_valued_def fp_add.simps Let_def sgn_int_units z)
  also have "\<dots> = FFin (i + j < 0) (nat \<bar>i + j\<bar> * funit fmt32)"
  proof (cases "i + j = 0")
    case False
    then have "(i + j) * ?u \<noteq> 0" using funit_pos(1) by (simp only: mult_eq_0_iff) simp
    with int_valued_make [OF assms(3)] show ?thesis by (simp only: if_False)
  qed auto
  finally show ?thesis by (simp only: int_valued_def)
qed

lemma int_valued_sub:
  assumes "int_valued x i" "int_valued y j" "\<bar>i - j\<bar> < 2 ^ 24"
  shows "int_valued (x - y) (i - j)"
proof -
  let ?u = "int (funit fmt32)"
  have neg: "sgn_int (\<not> j < 0) (nat \<bar>j\<bar> * funit fmt32) = - (j * ?u)"
    by (auto simp: sgn_int_def)
  have z: "i * ?u + - (j * ?u) = (i - j) * ?u" by (simp add: left_diff_distrib)
  have "f32_val (x - y) = (if (i - j) * ?u = 0 then FFin (i < 0 \<and> \<not> j < 0) 0
      else fp_make fmt32 ((i - j) * ?u < 0) (nat \<bar>(i - j) * ?u\<bar>) 1)"
    using assms(1,2)
    by (simp only: f32_ops_val int_valued_def fp_sub_def fp_neg.simps fp_add.simps Let_def sgn_int_units neg z)
  also have "\<dots> = FFin (i - j < 0) (nat \<bar>i - j\<bar> * funit fmt32)"
  proof (cases "i - j = 0")
    case False
    then have "(i - j) * ?u \<noteq> 0" using funit_pos(1) by (simp only: mult_eq_0_iff) simp
    with int_valued_make [OF assms(3)] show ?thesis by (simp only: if_False)
  qed auto
  finally show ?thesis by (simp only: int_valued_def)
qed

lemma int_valued_abs: "int_valued x i \<Longrightarrow> int_valued \<bar>x\<bar> \<bar>i\<bar>"
  by (simp add: int_valued_def)

lemma int_valued_pos: "int_valued x i \<Longrightarrow> 0 < x \<longleftrightarrow> 0 < i"
proof -
  assume "int_valued x i"
  then have "0 < x \<longleftrightarrow> 0 < i * int (funit fmt32)"
    by (simp only: int_valued_def less_f32_def f32_val_0 fp_less.simps sgn_int_units) (simp add: sgn_int_def)
  also have "\<dots> \<longleftrightarrow> 0 < i"
    using funit_pos(1) by (simp only: zero_less_mult_iff) auto
  finally show ?thesis .
qed

lemma not_nan_le: "\<not> f32_is_nan x \<Longrightarrow> \<not> f32_is_nan y \<Longrightarrow> x \<le> y \<longleftrightarrow> \<not> y < x"
  by (cases "f32_val x"; cases "f32_val y")
    (auto simp: f32_is_nan_def less_f32_def less_eq_f32_def fp_le_def)

lemma f32_clamp_within:
  assumes "\<not> f32_is_nan x" "\<not> f32_is_nan lo" "\<not> f32_is_nan hi" "lo \<le> hi"
  shows "lo \<le> f32_clamp x lo hi" "f32_clamp x lo hi \<le> hi"
proof -
  have irrefl: "\<not> y < y" for y :: f32
    by (simp add: less_f32_def)
  show "lo \<le> f32_clamp x lo hi" "f32_clamp x lo hi \<le> hi"
    using assms by (auto simp: f32_clamp_def Let_def not_nan_le irrefl)
qed

lemma fp_make_not_nan [simp]: "fp_make F s n d \<noteq> FNaN"
  by (simp add: fp_make_def Let_def)

lemma f32_lit_val: "0 < d \<Longrightarrow> f32_val (f32_lit n d) = fp_make fmt32 False (n * funit fmt32) d"
  by (simp add: f32_lit_def)

lemma f32_lit_not_nan: "0 < d \<Longrightarrow> \<not> f32_is_nan (f32_lit n d)"
  by (simp add: f32_is_nan_def f32_lit_val)

lemma f32_lit_mono:
  assumes "0 < b" "0 < d" "a * d \<le> c * b"
  shows "f32_lit a b \<le> f32_lit c d"
proof -
  from assms(3) have "a * funit fmt32 * d \<le> c * funit fmt32 * b"
    by (metis mult.assoc mult.commute mult_le_mono1)
  from fp_make_mono [OF assms(1,2) this] assms(1,2) show ?thesis
    by (simp add: not_nan_le f32_lit_not_nan less_f32_def f32_lit_val)
qed

lemma f32_lit_int: "n < 2 ^ 24 \<Longrightarrow> f32_val (f32_lit n 1) = FFin False (n * funit fmt32)"
proof -
  assume "n < 2 ^ 24"
  then have "\<bar>int n\<bar> < 2 ^ 24" by (simp add: nat_less_iff)
  from fp_of_int_32 [OF this] show ?thesis
    by (simp add: f32_lit_val fp_of_int_def)
qed

lemmas f32_lit_Suc = f32_lit_int [unfolded One_nat_def]

lemma f32_lit_1: "f32_val (f32_lit 1 1) = f32_val 1"
  using f32_lit_int [of 1] by simp

text \<open>Closed terms are evaluated on their values.\<close>

lemma f32_lit_eval: "0 < d \<Longrightarrow> f32_val (f32_lit n d) = fp_make fmt32 False (n * 2 ^ 149) d"
  by (simp add: f32_lit_val fmt32_def)

lemmas f32_eval = f32_ops_val fp_sub_def f32_lit_eval fp_make_def fp_round_def fp_exp_def rne_def
  blen_numeral blen_1 fmt32_def Let_def sgn_int_def less_f32_def

text \<open>Dividing by a positive number gives no NaN unless the dividend is one.\<close>

lemma int_valued_div_not_nan:
  "\<not> f32_is_nan x \<Longrightarrow> f32_val y = FFin s k \<Longrightarrow> 0 < k \<Longrightarrow> \<not> f32_is_nan (x / y)"
  by (cases "f32_val x") (auto simp: f32_is_nan_def)

lemma int_valued_div_not_nan':
  assumes "\<not> f32_is_nan x" "int_valued y j" "0 < j"
  shows "\<not> f32_is_nan (x / y)"
proof (rule int_valued_div_not_nan [OF assms(1)])
  show "f32_val y = FFin (j < 0) (nat \<bar>j\<bar> * funit fmt32)"
    using assms(2) by (simp add: int_valued_def)
  show "0 < nat \<bar>j\<bar> * funit fmt32"
    using assms(3) funit_pos(1) by simp
qed

lemma int_valued_not_nan: "int_valued x i \<Longrightarrow> \<not> f32_is_nan x"
  by (simp add: int_valued_def f32_is_nan_def)

text \<open>A quotient of positive numbers that neither vanishes nor overflows is positive and finite.\<close>

lemma f32_quotient_pos_gen:
  assumes "f32_val x = FFin False a" "f32_val y = FFin False b" "0 < b"
    "b \<le> a * funit fmt32" "a * funit fmt32 \<le> 2 ^ 276 * b"
  shows "\<exists>k. f32_val (x / y) = FFin False k \<and> 0 < k"
proof -
  let ?q = "fp_round 23 (a * funit fmt32) b"
  have one: "fp_round 23 1 1 = 1"
    using fp_round_exact [of 23 1 1] repr_small [of 1 23] by simp
  have low: "1 \<le> ?q"
    using fp_round_mono [of 1 b 1 "a * funit fmt32" 23] one assms(3,4) by simp
  have top: "fp_round 23 (2 ^ 276 * 1) 1 = 2 ^ 276"
    using repr_mult_pow [of 1 23 276] by (intro fp_round_exact) simp_all
  have "?q \<le> 2 ^ 276"
    using fp_round_mono [of b 1 "a * funit fmt32" "2 ^ 276 * 1" 23] top assms(3,5) by simp
  also have "(2::nat) ^ 276 < flimit fmt32"
    by (simp add: fmt32_def)
  finally have "f32_val (x / y) = FFin False ?q"
    using assms by (simp add: fp_make_def Let_def)
  with low show ?thesis by auto
qed

text \<open>A quotient of two positive integers below \<open>2^24\<close> is one.\<close>

lemma f32_quotient_pos:
  assumes "f32_val x = FFin False (a * funit fmt32)" "f32_val y = FFin False (b * funit fmt32)"
    "0 < a" "a < 2 ^ 24" "0 < b" "b < 2 ^ 24"
  shows "\<exists>k. f32_val (x / y) = FFin False k \<and> 0 < k"
proof (rule f32_quotient_pos_gen [OF assms(1,2)])
  have u: "0 < funit fmt32" "2 ^ 24 \<le> funit fmt32" by (simp_all add: fmt32_def)
  show "0 < b * funit fmt32" using assms(5) u by simp
  have "b \<le> a * funit fmt32"
    using assms(3,6) u(2) by (cases a) (auto intro: order.trans less_imp_le)
  then show "b * funit fmt32 \<le> a * funit fmt32 * funit fmt32" by simp
  have "a * funit fmt32 \<le> 2 ^ 24 * funit fmt32" using assms(4) by simp
  also have "\<dots> \<le> 2 ^ 276 * b" using assms(5) by (cases b) (simp_all add: fmt32_def)
  finally show "a * funit fmt32 * funit fmt32 \<le> 2 ^ 276 * (b * funit fmt32)"
    by (metis mult.assoc mult_le_mono1)
qed

lemma f32_max_1_pos: "1 \<le> m \<Longrightarrow> 1 \<le> f32_to_nat m (f32_max x 1)"
proof -
  assume m: "1 \<le> m"
  have u: "0 < funit fmt32" by (simp add: fmt32_def)
  show ?thesis
  proof (cases "f32_val x")
    case FNaN
    with m u show ?thesis by (simp add: f32_max_def f32_is_nan_def f32_to_nat_def)
  next
    case (FInf s)
    with m u show ?thesis by (simp add: f32_max_def f32_is_nan_def f32_to_nat_def less_f32_def)
  next
    case (FFin s k)
    have "\<not> int (funit fmt32) \<le> - int k" using u by linarith
    with FFin m u show ?thesis
      by (auto simp: f32_max_def f32_is_nan_def f32_to_nat_def less_f32_def sgn_int_def not_less Suc_le_eq
          div_greater_zero_iff split: if_splits)
  qed
qed

end
