(* ===== verification/Hid_Common.thy ===== *)
theory Hid_Common
  imports Device_Traits Text_Parse Float_Int
begin

section \<open>What the controller drivers share\<close>

text \<open>
  The HID drivers each carry their own copy of the same code: an address derived from the
  serial, the loop that polls the HID bus for controllers (\<^verbatim>\<open>factory.rs\<close>) and the thread that
  reads one (\<^verbatim>\<open>hid.rs\<close>). They are modelled once, with what differs between the drivers as
  arguments. The answers of the \<^verbatim>\<open>hidapi\<close> crate (the devices listed, whether one opens, what a
  read returns) are inputs.
\<close>

subsection \<open>Addresses\<close>

definition FNV_OFFSET :: u64 where
  "FNV_OFFSET = 0xcbf29ce484222325"

definition FNV_PRIME :: u64 where
  "FNV_PRIME = 0x00000100000001b3"

definition fnv1a_64 :: "bytes \<Rightarrow> u64" where
  "fnv1a_64 bs = fold (\<lambda>b hash. (hash XOR ucast b) * FNV_PRIME) bs FNV_OFFSET"

definition hash_to_mac :: "text_string \<Rightarrow> mac" where
  "hash_to_mac seed = 2 # take 5 (to_le (fnv1a_64 (as_bytes seed)))"

text \<open>A Bluetooth address such as \<^verbatim>\<open>E4:CE:DB:06:D6:87\<close>.\<close>

fun mac_parts :: "nat \<Rightarrow> string list \<Rightarrow> mac option" where
  "mac_parts idx [] = Some []"
| "mac_parts idx (p # ps) =
     (if 6 \<le> idx then None
      else case from_str_radix 255 16 p of
             None \<Rightarrow> None
           | Some n \<Rightarrow> map_option ((#) (of_nat n)) (mac_parts (Suc idx) ps))"

definition mac_from_addr :: "text_string \<Rightarrow> mac option" where
  "mac_from_addr addr =
     (case mac_parts 0 (split_on (\<lambda>c. c = CHR '':'') addr) of
        None \<Rightarrow> None
      | Some m \<Rightarrow> if length m = 6 then Some m else None)"

subsection \<open>Polling the HID bus\<close>

record hid_info =
  hi_path :: text_string
  hi_vendor :: u16
  hi_pid :: u16
  hi_serial :: text_string
  hi_iface :: int
  hi_usage_page :: u16
  hi_usage :: u16

text \<open>The key is the text \<^verbatim>\<open>path#interface\<close>, of which each pair has its own.\<close>

datatype hid_key = HidKey text_string int

definition hid_key :: "hid_info \<Rightarrow> hid_key" where
  "hid_key i = HidKey (hi_path i) (hi_iface i)"

text \<open>
  One round over the listed devices, each with whether opening it and handing it to the
  supervisor succeeds. The last result says whether the loop goes on.
\<close>

fun hid_scan ::
  "(hid_info \<Rightarrow> 'k option) \<Rightarrow> (hid_info \<times> bool \<times> bool) list \<Rightarrow> hid_key set
    \<Rightarrow> (hid_info \<times> 'k) list \<times> hid_key set \<times> bool" where
  "hid_scan kind [] known = ([], known, True)"
| "hid_scan kind ((i, opens, sends) # rest) known =
     (if hid_key i \<in> known then hid_scan kind rest known
      else
        case kind i of
          None \<Rightarrow> hid_scan kind rest (insert (hid_key i) known)
        | Some k \<Rightarrow>
            if \<not> opens then hid_scan kind rest (insert (hid_key i) known - {hid_key i})
            else if \<not> sends then ([], insert (hid_key i) known, False)
            else case hid_scan kind rest (insert (hid_key i) known) of
                   (es, known', go) \<Rightarrow> ((i, k) # es, known', go))"

definition hid_present :: "(hid_info \<times> bool \<times> bool) list \<Rightarrow> hid_key set" where
  "hid_present listed = (\<lambda>(i, _). hid_key i) ` set listed"

definition hid_tick ::
  "(hid_info \<Rightarrow> 'k option) \<Rightarrow> (hid_info \<times> bool \<times> bool) list \<Rightarrow> hid_key set
    \<Rightarrow> (hid_info \<times> 'k) list \<times> hid_key set \<times> bool" where
  "hid_tick kind listed known = hid_scan kind listed (known \<inter> hid_present listed)"

text \<open>The loop: what each round emits. A round whose refresh fails (None) ends it.\<close>

fun hid_rounds ::
  "(hid_info \<Rightarrow> 'k option) \<Rightarrow> hid_key set \<Rightarrow> (hid_info \<times> bool \<times> bool) list option list
    \<Rightarrow> (hid_info \<times> 'k) list list" where
  "hid_rounds kind known [] = []"
| "hid_rounds kind known (None # rounds) = []"
| "hid_rounds kind known (Some listed # rounds) =
     (case hid_tick kind listed known of
        (es, known', go) \<Rightarrow> es # (if go then hid_rounds kind known' rounds else []))"

subsection \<open>Reading a controller\<close>

text \<open>What the reading thread meets in each round, the shutdown flag checked first.\<close>

datatype read_result = ReadNothing | ReadReport bytes instant | ReadFailed | ReadStopped

fun reader_loop ::
  "(bytes \<Rightarrow> instant \<Rightarrow> 's \<Rightarrow> channel_info list \<times> 's) \<Rightarrow> 's \<Rightarrow> read_result list \<Rightarrow> channel_info list" where
  "reader_loop parse s [] = []"
| "reader_loop parse s (ReadStopped # rs) = []"
| "reader_loop parse s (ReadNothing # rs) = reader_loop parse s rs"
| "reader_loop parse s (ReadFailed # rs) = [Disconnected]"
| "reader_loop parse s (ReadReport buf now # rs) =
     (case parse buf now s of (evs, s') \<Rightarrow> evs @ reader_loop parse s' rs)"

subsection \<open>Raw samples\<close>

text \<open>A 16-bit two's complement value at an offset, and the text of a usage pair.\<close>

definition i16_le_at :: "bytes \<Rightarrow> nat \<Rightarrow> int" where
  "i16_le_at buf off = i16_of (u16_le_at buf off)"

definition gamepad_usage :: "hid_info \<Rightarrow> bool" where
  "gamepad_usage i \<longleftrightarrow>
     hi_usage_page i = 0 \<and> hi_usage i = 0 \<or> hi_usage_page i = 1 \<and> hi_usage i = 5"

definition deg_to_rad :: f32 where
  "deg_to_rad = f32_lit 3141592653589793 1000000000000000 / f32_lit 180 1"

definition GRAVITY :: f32 where
  "GRAVITY = f32_lit 980665 100000"

text \<open>Operations on the three axes of a vector.\<close>

fun map3 :: "('a \<Rightarrow> 'b) \<Rightarrow> 'a \<times> 'a \<times> 'a \<Rightarrow> 'b \<times> 'b \<times> 'b" where
  "map3 f (x, y, z) = (f x, f y, f z)"

fun zip3 :: "('a \<Rightarrow> 'b \<Rightarrow> 'c) \<Rightarrow> 'a \<times> 'a \<times> 'a \<Rightarrow> 'b \<times> 'b \<times> 'b \<Rightarrow> 'c \<times> 'c \<times> 'c" where
  "zip3 f (x, y, z) (a, b, c) = (f x a, f y b, f z c)"

fun any3 :: "('a \<Rightarrow> bool) \<Rightarrow> 'a \<times> 'a \<times> 'a \<Rightarrow> bool" where
  "any3 p (x, y, z) \<longleftrightarrow> p x \<or> p y \<or> p z"

fun all3 :: "('a \<Rightarrow> bool) \<Rightarrow> 'a \<times> 'a \<times> 'a \<Rightarrow> bool" where
  "all3 p (x, y, z) \<longleftrightarrow> p x \<and> p y \<and> p z"

definition read_i16_le :: "bytes \<Rightarrow> nat \<Rightarrow> int option" where
  "read_i16_le buf off = map_option (\<lambda>bs. i16_of (from_le bs)) (slice_at buf off 2)"

text \<open>Three consecutive values.\<close>

definition i16_triple_at :: "bytes \<Rightarrow> nat \<Rightarrow> int \<times> int \<times> int" where
  "i16_triple_at buf off = (i16_le_at buf off, i16_le_at buf (off + 2), i16_le_at buf (off + 4))"

text \<open>\<^verbatim>\<open>u8::count_ones\<close>.\<close>

definition count_ones :: "u8 \<Rightarrow> nat" where
  "count_ones w = length (filter (bit w) [0..<8])"

subsection \<open>Lemmas\<close>

abbreviation emitted_keys :: "(hid_info \<times> 'k) list \<Rightarrow> hid_key list" where
  "emitted_keys es \<equiv> map (\<lambda>e. hid_key (fst e)) es"

text \<open>A key that is known is not emitted again and stays known; what is emitted is known after.\<close>

lemma hid_scan_known:
  "hid_scan kind listed known = (es, known', go) \<Longrightarrow>
     known \<subseteq> known' \<and> set (emitted_keys es) \<subseteq> known' - known \<and> distinct (emitted_keys es)"
proof (induction kind listed known arbitrary: es rule: hid_scan.induct)
  case (2 kind i opens sends rest known)
  show ?case
  proof (cases "hid_key i \<in> known")
    case True
    with 2 show ?thesis by simp
  next
    case False
    consider "kind i = None" | k where "kind i = Some k" "\<not> opens"
      | k where "kind i = Some k" "opens" "\<not> sends" | k where "kind i = Some k" "opens" "sends"
      by fastforce
    then show ?thesis
    proof cases
      case 1
      with 2 False show ?thesis by fastforce
    next
      case (2 k)
      with "2.IH"(3) "2.prems" False show ?thesis by simp
    next
      case (3 k)
      with "2.prems" False show ?thesis by auto
    next
      case (4 k)
      with "2.prems" False obtain es1 where
        r: "hid_scan kind rest (insert (hid_key i) known) = (es1, known', go)" "es = (i, k) # es1"
        by (auto split: prod.splits)
      with "2.IH"(4) [OF False 4(1)] 4 False show ?thesis by auto
    qed
  qed
qed simp

lemma hid_scan_complete:
  "hid_scan kind listed known = (es, known', True) \<Longrightarrow> (i, True, s) \<in> set listed \<Longrightarrow> hid_key i \<in> known'"
proof (induction kind listed known arbitrary: es rule: hid_scan.induct)
  case (2 kind j opens sends rest known)
  have known: "known \<subseteq> known'"
    using hid_scan_known [OF "2.prems"(1)] by simp
  show ?case
  proof (cases "hid_key j \<in> known")
    case True
    with 2 known show ?thesis by auto
  next
    case False
    have here: "hid_key j \<in> known'" if "opens"
      using that False "2.prems"(1) by (auto split: option.splits if_splits prod.splits dest!: hid_scan_known)
    have "hid_key i \<in> known'" if "(i, True, s) \<in> set rest"
      using that False 2 by (auto split: option.splits if_splits prod.splits)
    with here "2.prems"(2) show ?thesis by auto
  qed
qed simp

lemma hid_present_Cons: "hid_present ((i, r) # rest) = insert (hid_key i) (hid_present rest)"
  by (simp add: hid_present_def)

lemma hid_scan_listed:
  "hid_scan kind listed known = (es, known', go) \<Longrightarrow> set (emitted_keys es) \<subseteq> hid_present listed"
proof (induction kind listed known arbitrary: es rule: hid_scan.induct)
  case (2 kind i opens sends rest known)
  then show ?case
    unfolding hid_present_Cons
    by (auto split: option.splits if_splits prod.splits simp: image_subset_iff)
qed simp

lemma hid_emitted_present:
  "hid_tick kind listed known = (es, known', go) \<Longrightarrow> set (emitted_keys es) \<subseteq> hid_present listed"
  unfolding hid_tick_def by (rule hid_scan_listed)

lemma hid_tick_known:
  "hid_tick kind listed known = (es, known', go) \<Longrightarrow> k \<in> hid_present listed \<Longrightarrow>
     (k \<in> known \<longrightarrow> k \<in> known' \<and> k \<notin> set (emitted_keys es))
     \<and> (k \<in> set (emitted_keys es) \<longrightarrow> k \<in> known')"
  using hid_scan_known [of kind listed "known \<inter> hid_present listed" es known' go]
  by (auto simp: hid_tick_def)

lemma hid_known_quiet:
  assumes "k \<in> known" "n < length (hid_rounds kind known rounds)"
    "\<forall>j \<le> n. \<forall>listed. rounds ! j = Some listed \<longrightarrow> k \<in> hid_present listed"
  shows "k \<notin> set (emitted_keys (hid_rounds kind known rounds ! n))"
  using assms
proof (induction kind known rounds arbitrary: n rule: hid_rounds.induct)
  case (3 kind known listed rounds)
  obtain es known' go where t: "hid_tick kind listed known = (es, known', go)"
    by (metis prod_cases3)
  from 3(4) have "k \<in> hid_present listed"
    by (auto dest: spec [of _ 0])
  with t 3(2) have k: "k \<in> known'" "k \<notin> set (emitted_keys es)"
    using hid_tick_known [of kind listed known es known' go k] by blast+
  show ?case
  proof (cases n)
    case 0
    with k t show ?thesis by simp
  next
    case (Suc m)
    with 3(3) t have go: "go" and m: "m < length (hid_rounds kind known' rounds)"
      by (auto split: if_splits)
    have "\<forall>j \<le> m. \<forall>l. rounds ! j = Some l \<longrightarrow> k \<in> hid_present l"
      using 3(4) Suc by (metis Suc_le_mono nth_Cons_Suc)
    from "3.IH" [OF t [symmetric] refl go k(1) m this] show ?thesis
      by (simp add: t go Suc)
  qed
qed simp_all

lemma less_16_cases:
  "n < 16 \<Longrightarrow> n \<in> {0, 1, 2, 3, 4, 5, 6, 7, 8, 9, 10, 11, 12, 13, 14, 15 :: nat}"
  by (simp, arith)

lemma hex_digit_props:
  assumes "n < 16"
  shows "digit_of (hex_digit n) = Some n" "hex_digit n \<noteq> CHR '':''" "CHR ''+'' \<noteq> hex_digit n"
  using less_16_cases [OF assms] by (auto simp: hex_digit_def digit_of_def)

lemma from_hex02: "from_str_radix 255 16 (hex02 b) = Some (unat b)"
proof -
  have b: "unat b < 256" by (rule unat_u8_less)
  then have "unat b div 16 < 16" "unat b mod 16 < 16" by auto
  then show ?thesis
    using b by (simp add: from_str_radix_def hex02_def hex_digit_props)
qed

lemma split_join_hex:
  "bs \<noteq> [] \<Longrightarrow> split_on (\<lambda>c. c = CHR '':'') (join_colon (map hex02 bs)) = map hex02 bs"
proof (induction bs)
  case (Cons b bs)
  have b: "unat b < 256" by (rule unat_u8_less)
  then have d: "unat b div 16 < 16" "unat b mod 16 < 16" by auto
  show ?case
  proof (cases bs)
    case Nil
    with d show ?thesis by (simp add: hex02_def hex_digit_props)
  next
    case (Cons c cs)
    with Cons.IH d show ?thesis by (simp add: hex02_def hex_digit_props)
  qed
qed simp

lemma mac_parts_hex: "idx + length bs \<le> 6 \<Longrightarrow> mac_parts idx (map hex02 bs) = Some bs"
  by (induction bs arbitrary: idx) (simp_all add: from_hex02)

text \<open>Raw words are exact integers in single precision.\<close>

lemma i16_le_at_bound: "\<bar>i16_le_at buf off\<bar> \<le> 32768"
  using i16_of_range [of "u16_le_at buf off"] unfolding i16_le_at_def by linarith

lemma i16_sum_bound: "\<bar>i16_le_at buf a + i16_le_at buf b\<bar> < 2 ^ 24"
  using i16_le_at_bound [of buf a] i16_le_at_bound [of buf b] by simp

lemma i16_diff_bound: "\<bar>i16_le_at buf a - i16_le_at buf b\<bar> < 2 ^ 24"
  using i16_le_at_bound [of buf a] i16_le_at_bound [of buf b] by simp

lemma int_valued_i16: "int_valued (f32_of_int (i16_le_at buf off)) (i16_le_at buf off)"
  using i16_le_at_bound [of buf off] by (intro int_valued_of_int) simp

subsection \<open>Properties\<close>

text \<open>
  The polling loop of the HID drivers hands a controller to the supervisor once
  for each time it is plugged in: between two rounds that emit the same path and interface
  lies a round in which it was missing from the bus.
\<close>

theorem emitted_once_per_presence:
  assumes "m < n" "n < length (hid_rounds kind known rounds)"
    "k \<in> set (emitted_keys (hid_rounds kind known rounds ! m))"
    "k \<in> set (emitted_keys (hid_rounds kind known rounds ! n))"
  shows "\<exists>j listed. m < j \<and> j \<le> n \<and> rounds ! j = Some listed \<and> k \<notin> hid_present listed"
  using assms
proof (induction kind known rounds arbitrary: m n rule: hid_rounds.induct)
  case (3 kind known listed rounds)
  obtain es known' go where t: "hid_tick kind listed known = (es, known', go)"
    by (metis prod_cases3)
  from 3(2,3) t obtain n' where n: "n = Suc n'" and go: "go" and n': "n' < length (hid_rounds kind known' rounds)"
    by (cases n) (auto split: if_splits)
  show ?case
  proof (cases m)
    case 0
    with 3(4) t have "k \<in> set (emitted_keys es)" by simp
    moreover from this t have "k \<in> hid_present listed"
      using hid_emitted_present by fastforce
    ultimately have "k \<in> known'"
      using hid_tick_known [OF t] by blast
    moreover have "k \<in> set (emitted_keys (hid_rounds kind known' rounds ! n'))"
      using 3(5) t n go by simp
    ultimately have "\<exists>j \<le> n'. \<exists>l. rounds ! j = Some l \<and> k \<notin> hid_present l"
      using hid_known_quiet [OF _ n', of k] by blast
    then show ?thesis
      using 0 n by (metis Suc_le_mono nth_Cons_Suc zero_less_Suc)
  next
    case (Suc m')
    with 3 t go n n' have "\<exists>j l. m' < j \<and> j \<le> n' \<and> rounds ! j = Some l \<and> k \<notin> hid_present l"
      by simp
    then show ?thesis
      using Suc n by (metis Suc_le_mono Suc_less_eq nth_Cons_Suc)
  qed
qed simp_all

theorem emitted_once_per_presence_witness:
  "\<forall>i. \<exists>j listed. 0 < j \<and> j \<le> 2
     \<and> [Some [(i, True, True)], Some [], Some [(i, True, True)]] ! j = Some listed
     \<and> hid_key i \<notin> hid_present listed"
  by (intro allI, rule emitted_once_per_presence [where kind = "\<lambda>_. Some ()" and known = "{}"])
    (simp_all add: hid_tick_def hid_present_def)

text \<open>
  Reading back the text form of a hardware address, six pairs of hexadecimal
  digits between colons, gives the address.
\<close>

theorem mac_addr_roundtrip:
  assumes "length m = 6"
  shows "mac_from_addr (join_colon (map hex02 m)) = Some m"
proof -
  have "m \<noteq> []" using assms by auto
  with assms show ?thesis
    by (simp add: mac_from_addr_def split_join_hex mac_parts_hex)
qed

theorem mac_addr_roundtrip_witness:
  "mac_from_addr (join_colon (map hex02 [1, 2, 0xAB, 4, 5, 0xFF])) = Some [1, 2, 0xAB, 4, 5, 0xFF]"
  by (rule mac_addr_roundtrip) simp

end
