(* ===== verification/Hopx.thy ===== *)
theory Hopx
  imports Hid_Common
begin

section \<open>The Bluetooth tracker\<close>

text \<open>
  \<^verbatim>\<open>crates/device-hopx\<close>: reassembling the records of the notification stream, the scaling of a
  record, starting and stopping a tracker, its notification loop, the discovery by name and the
  command lists of the diagnostics. The answers of the \<^verbatim>\<open>btleplug\<close> crate are inputs.
\<close>

subsection \<open>Protocol\<close>

definition START_CMD :: bytes where
  "START_CMD = [0x20, 0x10, 0x00, 0xD0, 0x07, 0x34, 0x00, 0x03]"

definition STOP_CMD :: bytes where
  "STOP_CMD = [0x20, 0x00, 0x00, 0x00, 0x00, 0x00, 0x00]"

definition NAME_PREFIX :: text_string where
  "NAME_PREFIX = ''Triki''"

definition ACCEL_M_S2_PER_LSB :: f32 where
  "ACCEL_M_S2_PER_LSB = GRAVITY / f32_lit 2048 1"

definition GYRO_RAD_S_PER_LSB :: f32 where
  "GYRO_RAD_S_PER_LSB = f32_lit 70 1000 * deg_to_rad"

definition FRAME_MARKER :: u8 where
  "FRAME_MARKER = 0x22"

definition ALT_MARKER :: u8 where
  "ALT_MARKER = 0x25"

definition RECORD_LEN :: nat where
  "RECORD_LEN = 14"

record parsed_record =
  pr_seq :: u8
  pr_accel :: "f32 \<times> f32 \<times> f32"
  pr_gyro :: "f32 \<times> f32 \<times> f32"

record raw_record =
  rr_seq :: u8
  rr_channels :: "int list"

definition name_matches :: "text_string \<Rightarrow> bool" where
  "name_matches name = prefix NAME_PREFIX name"

definition serial_from_name :: "text_string \<Rightarrow> text_string option" where
  "serial_from_name name =
     (if \<not> prefix NAME_PREFIX name then None
      else let rest = trim (drop (length NAME_PREFIX) name) in if rest = [] then None else Some rest)"

definition hopx_remap :: "f32 \<times> f32 \<times> f32 \<Rightarrow> f32 \<times> f32 \<times> f32" where
  "hopx_remap v = v"

text \<open>The loop over the buffer: the records found, and what stays in the buffer.\<close>

function drain_buf :: "bytes \<Rightarrow> bytes list \<times> bytes" where
  "drain_buf buf =
     (let b = dropWhile (\<lambda>x. x \<noteq> FRAME_MARKER) buf in
      if b = [] then ([], [])
      else if length b < RECORD_LEN then ([], b)
      else if RECORD_LEN < length b \<and> b ! RECORD_LEN \<noteq> FRAME_MARKER \<and> b ! RECORD_LEN \<noteq> ALT_MARKER
      then drain_buf (tl b)
      else case drain_buf (drop RECORD_LEN b) of (chunks, left) \<Rightarrow> (take RECORD_LEN b # chunks, left))"
  by pat_completeness auto
termination
proof (relation "measure length")
  fix buf b :: bytes
  assume b: "b = dropWhile (\<lambda>x. x \<noteq> FRAME_MARKER) buf" "b \<noteq> []" "\<not> length b < RECORD_LEN"
  have "length b \<le> length buf"
    by (simp add: b(1) length_dropWhile_le)
  with b show "(tl b, buf) \<in> measure length" "(drop RECORD_LEN b, buf) \<in> measure length"
    by (cases b; simp add: RECORD_LEN_def)+
qed simp

declare drain_buf.simps [simp del]

definition drain_chunks :: "bytes \<Rightarrow> bytes \<Rightarrow> bytes list \<times> bytes" where
  "drain_chunks buf data = drain_buf (buf @ data)"

definition parse_raw :: "bytes \<Rightarrow> raw_record" where
  "parse_raw c = \<lparr>rr_seq = c ! 1, rr_channels = map (i16_le_at c) [2, 4, 6, 8, 10, 12]\<rparr>"

definition parse_record :: "bytes \<Rightarrow> parsed_record" where
  "parse_record c =
     (let rd = (\<lambda>off. f32_of_int (i16_le_at c off));
          g = hopx_remap (rd 2 * GYRO_RAD_S_PER_LSB, rd 4 * GYRO_RAD_S_PER_LSB, rd 6 * GYRO_RAD_S_PER_LSB);
          a = hopx_remap (rd 8 * ACCEL_M_S2_PER_LSB, rd 10 * ACCEL_M_S2_PER_LSB, rd 12 * ACCEL_M_S2_PER_LSB)
      in \<lparr>pr_seq = c ! 1, pr_accel = a, pr_gyro = g\<rparr>)"

definition feed_records :: "bytes \<Rightarrow> bytes \<Rightarrow> parsed_record list \<times> bytes" where
  "feed_records buf data = map_prod (map parse_record) id (drain_chunks buf data)"

definition feed_raw :: "bytes \<Rightarrow> bytes \<Rightarrow> raw_record list \<times> bytes" where
  "feed_raw buf data = map_prod (map parse_raw) id (drain_chunks buf data)"

text \<open>The records of a sequence of notifications.\<close>

fun drain_all :: "bytes \<Rightarrow> bytes list \<Rightarrow> bytes list \<times> bytes" where
  "drain_all buf [] = ([], buf)"
| "drain_all buf (d # ds) =
     (case drain_chunks buf d of (rs, buf1) \<Rightarrow>
        case drain_all buf1 ds of (rs', buf2) \<Rightarrow> (rs @ rs', buf2))"

subsection \<open>The device\<close>

record hopx_device =
  hx_meta :: device_metadata
  hx_rx_char :: "bool option"
  hx_task :: bool
  hx_written :: "(bytes \<times> bool) list"

definition hopx_new :: "text_string \<Rightarrow> mac \<Rightarrow> hopx_device" where
  "hopx_new serial m =
     \<lparr>hx_meta =
        \<lparr>md_id = \<lparr>id_mac = m, id_serial = serial\<rparr>, md_kind = Hopx, md_firmware = None,
         md_caps = \<lparr>has_magnetometer = False, has_battery = False, has_rumble = False,
           native_rate_hz = 52\<rparr>\<rparr>,
      hx_rx_char = None, hx_task = False, hx_written = []\<rparr>"

text \<open>
  What the adapter answers, an error with its text. A characteristic is described by the
  property looked at: notify, and write without response.
\<close>

record hopx_answers =
  ha_connected :: "text_string + bool"
  ha_connect :: "text_string + unit"
  ha_discover :: "text_string + unit"
  ha_tx_char :: "bool option"
  ha_rx_char :: "bool option"
  ha_subscribe :: "text_string + unit"
  ha_write :: "text_string + unit"
  ha_notifications :: "text_string + unit"

definition ensure_connected :: "hopx_answers \<Rightarrow> device_error + unit" where
  "ensure_connected a =
     (case ha_connected a of
        Inl e \<Rightarrow> Inl (Hid (''hopx is_connected failed: '' @ e))
      | Inr connected \<Rightarrow>
          (case (if connected then Inr () else ha_connect a) of
             Inl e \<Rightarrow> Inl (Hid (''hopx connect failed: '' @ e))
           | Inr _ \<Rightarrow>
               (case ha_discover a of
                  Inl e \<Rightarrow> Inl (Hid (''hopx discover_services failed: '' @ e))
                | Inr _ \<Rightarrow> Inr ())))"

text \<open>A command is written without response when the characteristic allows it.\<close>

definition write_command ::
  "text_string + unit \<Rightarrow> bool \<Rightarrow> bytes \<Rightarrow> hopx_device \<Rightarrow> (device_error + unit) \<times> hopx_device" where
  "write_command answer no_response data d =
     (case answer of
        Inl e \<Rightarrow> (Inl (Hid (''hopx command write failed: '' @ e)), d)
      | Inr _ \<Rightarrow> (Inr (), d\<lparr>hx_written := (data, no_response) # hx_written d\<rparr>))"

definition hopx_start :: "hopx_answers \<Rightarrow> hopx_device \<Rightarrow> (device_error + unit) \<times> hopx_device" where
  "hopx_start a d =
     (if hx_task d then (Inl (Hid ''hopx device already started''), d)
      else
        case ensure_connected a of
          Inl e \<Rightarrow> (Inl e, d)
        | Inr _ \<Rightarrow>
            (case (ha_tx_char a, ha_rx_char a) of
               (None, _) \<Rightarrow> (Inl (Hid ''hopx NUS TX characteristic not found''), d)
             | (Some notify, None) \<Rightarrow> (Inl (Hid ''hopx NUS RX characteristic not found''), d)
             | (Some notify, Some no_response) \<Rightarrow>
                 if \<not> notify then (Inl (Hid ''hopx TX characteristic lacks notify property''), d)
                 else
                   let d1 = d\<lparr>hx_rx_char := Some no_response\<rparr> in
                   case ha_subscribe a of
                     Inl e \<Rightarrow> (Inl (Hid (''hopx subscribe failed: '' @ e)), d1)
                   | Inr _ \<Rightarrow>
                       (case write_command (ha_write a) no_response START_CMD d1 of
                          (Inl e, d2) \<Rightarrow> (Inl e, d2)
                        | (Inr _, d2) \<Rightarrow>
                            (case ha_notifications a of
                               Inl e \<Rightarrow> (Inl (Hid (''hopx notifications stream failed: '' @ e)), d2)
                             | Inr _ \<Rightarrow> (Inr (), d2\<lparr>hx_task := True\<rparr>)))))"

definition hopx_stop :: "text_string + unit \<Rightarrow> hopx_device \<Rightarrow> hopx_device" where
  "hopx_stop answer d =
     (let d1 = d\<lparr>hx_task := False, hx_rx_char := None\<rparr> in
      case hx_rx_char d of
        None \<Rightarrow> d1
      | Some no_response \<Rightarrow> snd (write_command answer no_response STOP_CMD d1))"

text \<open>
  The loop of the task: the stop signal, the end of the stream, or a notification with whether
  it is of the TX characteristic and whether the receiver of the events is still there.
\<close>

datatype hopx_input = HopxStop | HopxStreamEnd | Notified bool bytes bool

definition record_sample_of :: "parsed_record \<Rightarrow> imu_sample" where
  "record_sample_of r = \<lparr>gyro = pr_gyro r, accel = pr_accel r, mag = None, timestamp_us = 0\<rparr>"

fun hopx_loop :: "bytes \<Rightarrow> hopx_input list \<Rightarrow> channel_info list" where
  "hopx_loop buf [] = []"
| "hopx_loop buf (HopxStop # ins) = []"
| "hopx_loop buf (HopxStreamEnd # ins) = [Disconnected]"
| "hopx_loop buf (Notified is_tx data receiving # ins) =
     (if \<not> is_tx then hopx_loop buf ins
      else case feed_records buf data of (records, buf1) \<Rightarrow>
        if records = [] then hopx_loop buf1 ins
        else if receiving then ImuSamples (map record_sample_of records) # hopx_loop buf1 ins
        else [])"

definition hopx_task :: "hopx_device \<Rightarrow> hopx_input list \<Rightarrow> channel_info list" where
  "hopx_task d ins = Connected (md_id (hx_meta d)) # hopx_loop [] ins"

subsection \<open>Discovery\<close>

record peripheral_info =
  pi_name :: "text_string option"
  pi_addr :: text_string
  pi_connected :: bool

definition hopx_mac :: "text_string \<Rightarrow> mac" where
  "hopx_mac addr = (case mac_from_addr addr of Some m \<Rightarrow> m | None \<Rightarrow> hash_to_mac addr)"

text \<open>A round over the peripherals seen: what is emitted, and the addresses known after.\<close>

fun hopx_discover ::
  "peripheral_info list \<Rightarrow> text_string set \<Rightarrow> hopx_device list \<times> text_string set" where
  "hopx_discover [] known = ([], known)"
| "hopx_discover (p # ps) known =
     (case pi_name p of
        None \<Rightarrow> hopx_discover ps known
      | Some name \<Rightarrow>
          if \<not> name_matches name \<or> pi_addr p \<in> known then hopx_discover ps known
          else if pi_connected p then hopx_discover ps (insert (pi_addr p) known)
          else
            let serial = (case serial_from_name name of Some s \<Rightarrow> s | None \<Rightarrow> pi_addr p);
                d = hopx_new serial (hopx_mac (pi_addr p))
            in map_prod ((#) d) id (hopx_discover ps (insert (pi_addr p) known)))"

subsection \<open>Command lists of the diagnostics\<close>

definition parse_byte :: "string \<Rightarrow> u8 option" where
  "parse_byte s =
     (case (if prefix ''0x'' s \<or> prefix ''0X'' s then from_str_radix (2 ^ 32 - 1) 16 (drop 2 s)
            else from_str_radix (2 ^ 32 - 1) 10 s) of
        None \<Rightarrow> None
      | Some n \<Rightarrow> if n < 256 then Some (of_nat n) else None)"

definition probe_token :: "string \<Rightarrow> bytes option" where
  "probe_token tok =
     (if tok = [] then Some []
      else if CHR ''-'' \<in> set tok then
        (case (parse_byte (trim (takeWhile (\<lambda>c. c \<noteq> CHR ''-'') tok)),
               parse_byte (trim (tl (dropWhile (\<lambda>c. c \<noteq> CHR ''-'') tok)))) of
           (Some lo, Some hi) \<Rightarrow>
             if hi < lo then None else Some (map of_nat [unat lo..<Suc (unat hi)])
         | _ \<Rightarrow> None)
      else map_option (\<lambda>b. [b]) (parse_byte tok))"

definition parse_probe_spec :: "string \<Rightarrow> bytes option" where
  "parse_probe_spec spec =
     (case those (map (\<lambda>t. probe_token (trim t)) (split_on (\<lambda>c. c = CHR '','') spec)) of
        None \<Rightarrow> None
      | Some bs \<Rightarrow> if concat bs = [] then None else Some (concat bs))"

subsection \<open>Lemmas\<close>

text \<open>A record on the wire, and what a buffer holds between notifications.\<close>

definition wire_record :: "bytes \<Rightarrow> bool" where
  "wire_record r \<longleftrightarrow> length r = RECORD_LEN \<and> r ! 0 = FRAME_MARKER"

definition partial_record :: "bytes \<Rightarrow> bool" where
  "partial_record p \<longleftrightarrow> length p < RECORD_LEN \<and> (p = [] \<or> p ! 0 = FRAME_MARKER)"

lemma drain_buf_partial: "partial_record (snd (drain_buf buf))"
proof (induction buf rule: drain_buf.induct)
  case (1 buf)
  have start: "dropWhile (\<lambda>x. x \<noteq> FRAME_MARKER) buf \<noteq> [] \<Longrightarrow>
      dropWhile (\<lambda>x. x \<noteq> FRAME_MARKER) buf ! 0 = FRAME_MARKER"
    using hd_dropWhile [of "\<lambda>x. x \<noteq> FRAME_MARKER" buf] by (simp add: hd_conv_nth)
  show ?case
    by (subst drain_buf.simps)
      (use 1 start in \<open>auto simp: Let_def partial_record_def RECORD_LEN_def split: prod.split\<close>)
qed

lemma drain_buf_short: "partial_record p \<Longrightarrow> drain_buf p = ([], p)"
  by (cases p) (simp_all add: drain_buf.simps partial_record_def Let_def)

lemma drain_buf_step:
  assumes "wire_record r" "rest = [] \<or> rest ! 0 = FRAME_MARKER"
  shows "drain_buf (r @ rest) = map_prod ((#) r) id (drain_buf rest)"
proof -
  from assms(1) have r: "length r = RECORD_LEN" "r \<noteq> []" "r ! 0 = FRAME_MARKER"
    by (auto simp: wire_record_def RECORD_LEN_def)
  then have front: "dropWhile (\<lambda>x. x \<noteq> FRAME_MARKER) (r @ rest) = r @ rest"
    by (cases r) simp_all
  have "(r @ rest) ! RECORD_LEN = rest ! 0"
    using r(1) by (metis add.right_neutral nth_append_length_plus)
  with assms(2) r front show ?thesis
    by (subst drain_buf.simps) (auto simp: Let_def split: prod.split)
qed

lemma concat_head: "\<forall>r \<in> set rs. wire_record r \<Longrightarrow> partial_record p \<Longrightarrow>
    concat rs @ p = [] \<or> (concat rs @ p) ! 0 = FRAME_MARKER"
  by (cases rs) (auto simp: wire_record_def partial_record_def RECORD_LEN_def nth_append)

lemma drain_aligned:
  "\<forall>r \<in> set rs. wire_record r \<Longrightarrow> partial_record p \<Longrightarrow> drain_buf (concat rs @ p) = (rs, p)"
proof (induction rs)
  case Nil
  then show ?case by (simp add: drain_buf_short)
next
  case (Cons r rs)
  have rec: "wire_record r" "\<forall>r \<in> set rs. wire_record r"
    using Cons.prems(1) by auto
  with drain_buf_step [OF rec(1) concat_head [OF rec(2) Cons.prems(2)]] Cons.IH Cons.prems(2)
  show ?case by simp
qed

text \<open>Any front part of a stream of records is some of the records and part of the next.\<close>

lemma front_of_records:
  "xs @ ys = concat rs \<Longrightarrow> \<forall>r \<in> set rs. wire_record r \<Longrightarrow>
    \<exists>rs1 rs2 p. rs = rs1 @ rs2 \<and> xs = concat rs1 @ p \<and> partial_record p \<and> p @ ys = concat rs2"
proof (induction rs arbitrary: xs)
  case Nil
  then show ?case by (simp add: partial_record_def RECORD_LEN_def)
next
  case (Cons r rs)
  have r: "length r = RECORD_LEN" "r ! 0 = FRAME_MARKER"
    using Cons.prems(2) by (auto simp: wire_record_def)
  show ?case
  proof (cases "length xs < RECORD_LEN")
    case True
    with r(1) Cons.prems(1) have "xs = take (length xs) r"
      by (metis append_eq_append_conv_if concat.simps(2) less_imp_le_nat)
    then have "xs = [] \<or> xs ! 0 = FRAME_MARKER"
      using r(2) by (metis length_greater_0_conv nth_take)
    with True Cons.prems(1) show ?thesis
      by (intro exI [of _ "[]"] exI [of _ "r # rs"] exI [of _ xs]) (simp add: partial_record_def)
  next
    case False
    then have "take (length r) (xs @ ys) = take (length r) xs"
      using r(1) by simp
    with Cons.prems(1) have xs: "xs = r @ drop (length r) xs"
      by (metis append_eq_conv_conj append_take_drop_id concat.simps(2))
    with Cons.prems(1) have "drop (length r) xs @ ys = concat rs"
      by (metis append.assoc concat.simps(2) same_append_eq)
    then obtain zs where zs: "xs = r @ zs" "zs @ ys = concat rs"
      using xs by blast
    with Cons.IH [OF zs(2)] Cons.prems(2) obtain rs1 rs2 p where
      "rs = rs1 @ rs2" "zs = concat rs1 @ p" "partial_record p" "p @ ys = concat rs2" by auto
    with zs(1) show ?thesis
      by (intro exI [of _ "r # rs1"] exI [of _ rs2] exI [of _ p]) simp
  qed
qed

lemma drain_all_aligned:
  "buf @ concat chunks = concat rs \<Longrightarrow> \<forall>r \<in> set rs. wire_record r \<Longrightarrow> partial_record buf \<Longrightarrow>
    drain_all buf chunks = (rs, [])"
proof (induction chunks arbitrary: buf rs)
  case Nil
  then have "drain_buf (concat rs @ []) = (rs, [])"
    by (intro drain_aligned) (simp_all add: partial_record_def RECORD_LEN_def)
  with Nil drain_buf_short [of buf] show ?case by simp
next
  case (Cons c chunks)
  from front_of_records [of "buf @ c" "concat chunks" rs] Cons.prems obtain rs1 rs2 p where
    split: "rs = rs1 @ rs2" "buf @ c = concat rs1 @ p" "partial_record p" "p @ concat chunks = concat rs2"
    by auto
  have "drain_chunks buf c = (rs1, p)"
    using drain_aligned [of rs1 p] split Cons.prems(2) by (simp add: drain_chunks_def)
  moreover have "drain_all p chunks = (rs2, [])"
    using Cons.IH [OF split(4)] split Cons.prems(2) by simp
  ultimately show ?case
    by (simp add: split(1))
qed

subsection \<open>Properties\<close>

text \<open>
  Property C29. Whatever notifications carry it, a stream of records is reassembled exactly:
  each record comes out once, in order and unchanged, however many bytes of it arrive at a
  time, and nothing is left over.
\<close>

theorem records_survive_any_split:
  assumes "\<forall>r \<in> set rs. length r = 14 \<and> r ! 0 = 0x22" "concat chunks = concat rs"
  shows "drain_all [] chunks = (rs, [])"
  using assms
  by (intro drain_all_aligned)
    (simp_all add: wire_record_def partial_record_def RECORD_LEN_def FRAME_MARKER_def)

theorem records_survive_any_split_witness:
  "drain_all [] [[0x22], [], [1, 2, 3, 4, 5, 6, 7, 8], [9, 10, 11, 12, 13, 0x22, 14, 0x22],
      [15, 16, 17, 18, 19, 20, 21, 22, 23, 24, 25]]
   = ([[0x22, 1, 2, 3, 4, 5, 6, 7, 8, 9, 10, 11, 12, 13],
       [0x22, 14, 0x22, 15, 16, 17, 18, 19, 20, 21, 22, 23, 24, 25]], [])"
  by (rule records_survive_any_split) simp_all

text \<open>
  Whatever a tracker sends, fewer than 14 bytes stay in the buffer after a
  notification, and they start with a frame marker.
\<close>

theorem reassembly_buffer_bounded:
  "length (snd (drain_chunks buf data)) < 14
   \<and> (snd (drain_chunks buf data) = [] \<or> snd (drain_chunks buf data) ! 0 = 0x22)"
  using drain_buf_partial [of "buf @ data"]
  by (simp add: drain_chunks_def partial_record_def RECORD_LEN_def FRAME_MARKER_def)

text \<open>
  The check of the byte after a record is only made when that byte is there: payload that
  looks like a marker is taken for a record if the notification ends 14 bytes later.
\<close>

lemma resync_depends_on_the_split:
  "fst (drain_all [] [[0x22, 0, 0, 0, 0, 0, 0, 0, 0, 0, 0, 0, 0, 0], [0]])
     = [[0x22, 0, 0, 0, 0, 0, 0, 0, 0, 0, 0, 0, 0, 0]]
   \<and> fst (drain_all [] [[0x22, 0, 0, 0, 0, 0, 0, 0, 0, 0, 0, 0, 0, 0, 0]]) = []"
  by (simp add: drain_chunks_def drain_buf.simps RECORD_LEN_def FRAME_MARKER_def ALT_MARKER_def Let_def)

end
