(* ===== verification/Sony.thy ===== *)
theory Sony
  imports Hid_Common
begin

unbundle bit_operations_syntax

section \<open>DualSense and DualShock 4\<close>

text \<open>
  \<^verbatim>\<open>crates/device-dualsense\<close>: the input reports of the Sony controllers (\<^verbatim>\<open>report.rs\<close>), their
  factory calibration, the output reports with their checksum and the device itself
  (\<^verbatim>\<open>device.rs\<close>), and the discovery (\<^verbatim>\<open>factory.rs\<close>). The answers of \<^verbatim>\<open>hidapi\<close> are inputs.
\<close>

subsection \<open>Identity\<close>

datatype sony_kind = KindDualSense | KindDualSenseEdge | KindDualShock4

definition SONY_VID :: u16 where
  "SONY_VID = 0x054C"

definition sony_from_pid :: "u16 \<Rightarrow> sony_kind option" where
  "sony_from_pid pid =
     (if pid = 0x0CE6 then Some KindDualSense
      else if pid = 0x0DF2 then Some KindDualSenseEdge
      else if pid = 0x05C4 \<or> pid = 0x09CC then Some KindDualShock4
      else None)"

fun sony_device_kind :: "sony_kind \<Rightarrow> device_kind" where
  "sony_device_kind KindDualSense = DualSense"
| "sony_device_kind KindDualSenseEdge = DualSenseEdge"
| "sony_device_kind KindDualShock4 = DualShock4"

fun sony_remap :: "sony_kind \<Rightarrow> f32 \<times> f32 \<times> f32 \<Rightarrow> f32 \<times> f32 \<times> f32" where
  "sony_remap KindDualSense v = v"
| "sony_remap KindDualSenseEdge v = v"
| "sony_remap KindDualShock4 v = v"

subsection \<open>Input reports\<close>

definition DEG_PER_LSB :: f32 where
  "DEG_PER_LSB = f32_lit 2000 1 / f32_lit 32767 1"

definition ACCEL_SCALE_G :: f32 where
  "ACCEL_SCALE_G = f32_lit 4 1 / f32_lit 32767 1"

record sony_cal =
  sc_gyro_bias :: "f32 \<times> f32 \<times> f32"
  sc_gyro_scale :: "f32 \<times> f32 \<times> f32"
  sc_accel_bias :: "f32 \<times> f32 \<times> f32"
  sc_accel_scale :: "f32 \<times> f32 \<times> f32"

record imu_offsets =
  io_gyro :: nat
  io_accel :: nat
  io_battery :: "nat option"
  io_buttons_2 :: "nat option"

definition for_report :: "sony_kind \<Rightarrow> nat \<Rightarrow> imu_offsets option" where
  "for_report kind len =
     (if kind = KindDualShock4 then
        if len = 64 then
          Some \<lparr>io_gyro = 13, io_accel = 19, io_battery = Some 30, io_buttons_2 = Some 7\<rparr>
        else if 78 \<le> len then
          Some \<lparr>io_gyro = 15, io_accel = 21, io_battery = Some 32, io_buttons_2 = Some 9\<rparr>
        else None
      else
        if len = 64 then
          Some \<lparr>io_gyro = 16, io_accel = 22, io_battery = Some 53, io_buttons_2 = Some 10\<rparr>
        else if 78 \<le> len then
          Some \<lparr>io_gyro = 17, io_accel = 23, io_battery = Some 54, io_buttons_2 = Some 11\<rparr>
        else None)"

definition read_u32_le :: "bytes \<Rightarrow> nat \<Rightarrow> u32 option" where
  "read_u32_le buf off = map_option from_le (slice_at buf off 4)"

definition sensor_timestamp_us :: "sony_kind \<Rightarrow> bytes \<Rightarrow> imu_offsets \<Rightarrow> u64" where
  "sensor_timestamp_us kind buf offs =
     (if kind = KindDualShock4 then 0
      else case read_u32_le buf (io_accel offs + 6) of
             Some ticks \<Rightarrow> (ucast ticks + 1) div 3
           | None \<Rightarrow> 0)"

definition byte_at :: "bytes \<Rightarrow> nat \<Rightarrow> u8 option" where
  "byte_at buf off = (if off < length buf then Some (buf ! off) else None)"

definition parse_ps_button :: "sony_kind \<Rightarrow> bytes \<Rightarrow> bool option" where
  "parse_ps_button kind buf =
     Option.bind (for_report kind (length buf)) (\<lambda>offs.
     Option.bind (io_buttons_2 offs) (\<lambda>off.
     Option.bind (byte_at buf off) (\<lambda>b. Some (b AND 1 \<noteq> 0))))"

definition read_triple :: "bytes \<Rightarrow> nat \<Rightarrow> (int \<times> int \<times> int) option" where
  "read_triple buf off =
     Option.bind (read_i16_le buf off) (\<lambda>x.
     Option.bind (read_i16_le buf (off + 2)) (\<lambda>y.
     Option.bind (read_i16_le buf (off + 4)) (\<lambda>z. Some (x, y, z))))"

text \<open>A raw triple to degrees per second or g, calibrated, and on to SI units.\<close>

definition sony_scaled ::
  "f32 \<Rightarrow> ((f32 \<times> f32 \<times> f32) \<times> (f32 \<times> f32 \<times> f32)) option \<Rightarrow> int \<times> int \<times> int \<Rightarrow> f32 \<times> f32 \<times> f32" where
  "sony_scaled lsb cal raw =
     (let v = map3 (\<lambda>i. f32_of_int i * lsb) raw in
      case cal of None \<Rightarrow> v | Some (bias, sc) \<Rightarrow> zip3 (*) (zip3 (-) v bias) sc)"

definition sony_sample :: "sony_kind \<Rightarrow> bytes \<Rightarrow> sony_cal option \<Rightarrow> imu_offsets
    \<Rightarrow> int \<times> int \<times> int \<Rightarrow> int \<times> int \<times> int \<Rightarrow> imu_sample" where
  "sony_sample kind buf cal offs g a =
     (let gyro_dps = sony_scaled DEG_PER_LSB (map_option (\<lambda>c. (sc_gyro_bias c, sc_gyro_scale c)) cal) g;
          accel_g = sony_scaled ACCEL_SCALE_G (map_option (\<lambda>c. (sc_accel_bias c, sc_accel_scale c)) cal) a
      in \<lparr>gyro = sony_remap kind (map3 (\<lambda>x. x * deg_to_rad) gyro_dps),
          accel = sony_remap kind (map3 (\<lambda>x. x * GRAVITY) accel_g),
          mag = None, timestamp_us = sensor_timestamp_us kind buf offs\<rparr>)"

definition sony_battery :: "u8 \<Rightarrow> battery_state" where
  "sony_battery b =
     \<lparr>fraction = f32_clamp (f32_of_int (int (unat (b AND 0x0F))) / f32_lit 10 1) 0 1,
      charging = (b AND 0x10 \<noteq> 0)\<rparr>"

text \<open>The events offered to the channel; None is the result \<^verbatim>\<open>false\<close>.\<close>

definition sony_parse_report :: "sony_kind \<Rightarrow> bytes \<Rightarrow> sony_cal option \<Rightarrow> channel_info list option" where
  "sony_parse_report kind buf cal =
     Option.bind (for_report kind (length buf)) (\<lambda>offs.
     Option.bind (read_triple buf (io_gyro offs)) (\<lambda>g.
     Option.bind (read_triple buf (io_accel offs)) (\<lambda>a.
       Some (ImuSamples [sony_sample kind buf cal offs g a] #
         (case Option.bind (io_battery offs) (byte_at buf) of
            Some b \<Rightarrow> [Battery (sony_battery b)]
          | None \<Rightarrow> [])))))"

subsection \<open>Factory calibration\<close>

definition cal_clamp :: "f32 \<Rightarrow> f32" where
  "cal_clamp x = f32_clamp x (f32_lit 9 10) (f32_lit 11 10)"

definition gyro_scale_axis :: "f32 \<Rightarrow> f32 \<Rightarrow> f32 \<Rightarrow> f32 \<Rightarrow> f32" where
  "gyro_scale_axis speed_2x fwd bwd bias =
     (let denom = \<bar>fwd - bias\<bar> + \<bar>bwd - bias\<bar> in
      if 0 < speed_2x \<and> 0 < denom then cal_clamp ((speed_2x / denom) / DEG_PER_LSB) else 1)"

definition parse_feature_calibration :: "sony_kind \<Rightarrow> u8 \<Rightarrow> bytes \<Rightarrow> sony_cal option" where
  "parse_feature_calibration kind report_id buf =
     (let interleaved = (kind = KindDualShock4 \<and> report_id = 0x05);
          sequential = (kind \<noteq> KindDualShock4 \<or> report_id = 0x02);
          s16 = (\<lambda>off. f32_of_int (i16_le_at buf off));
          bias = (s16 1, s16 3, s16 5);
          fwd = (if interleaved then (s16 7, s16 9, s16 11) else (s16 7, s16 11, s16 15));
          bwd = (if interleaved then (s16 13, s16 15, s16 17) else (s16 9, s16 13, s16 17));
          speed_2x = s16 19 + s16 21;
          gbias = map3 (\<lambda>x. x * DEG_PER_LSB) bias;
          gscale = zip3 (\<lambda>(p, m) b. gyro_scale_axis speed_2x p m b) (zip3 Pair fwd bwd) bias;
          aplus = (s16 23, s16 27, s16 31); aminus = (s16 25, s16 29, s16 33);
          rng = zip3 (-) aplus aminus
      in if \<not> interleaved \<and> \<not> sequential then None
         else if length buf < 35 then None
         else if any3 (\<lambda>v. f32_lit 4096 1 < \<bar>v\<bar>) bias then None
         else if any3 (\<lambda>v. v \<le> 0) rng then
           Some \<lparr>sc_gyro_bias = gbias, sc_gyro_scale = gscale, sc_accel_bias = (0, 0, 0),
             sc_accel_scale = (1, 1, 1)\<rparr>
         else
           Some \<lparr>sc_gyro_bias = gbias, sc_gyro_scale = gscale,
             sc_accel_bias = map3 (\<lambda>m. m * ACCEL_SCALE_G) (zip3 (\<lambda>p r. p - r / f32_lit 2 1) aplus rng),
             sc_accel_scale = map3 (\<lambda>r. cal_clamp (f32_lit 2 1 * f32_lit 8192 1 / r)) rng\<rparr>)"

text \<open>
  Reading the calibration: the buffer each feature report leaves, or None when it fails. The
  buffers have 41 and 37 bytes.
\<close>

definition read_feature_calibration :: "sony_kind \<Rightarrow> bytes option \<Rightarrow> bytes option \<Rightarrow> sony_cal option" where
  "read_feature_calibration kind report_05 report_02 =
     (case Option.bind report_05 (parse_feature_calibration kind 0x05) of
        Some cal \<Rightarrow> Some cal
      | None \<Rightarrow>
          if kind = KindDualShock4 then Option.bind report_02 (parse_feature_calibration kind 0x02)
          else None)"

subsection \<open>Output reports\<close>

record output_state =
  os_led4 :: u8
  os_led5 :: u8
  os_rumble :: u8

definition map_led_mask :: "u8 \<Rightarrow> u8" where
  "map_led_mask leds =
     (let n = count_ones (leds AND 0x0F) in
      if n = 0 then 0 else if n = 1 then 0b00100 else if n = 2 then 0b01010
      else if n = 3 then 0b10101 else 0b11111)"

definition ds4_led_rgb :: "u8 \<Rightarrow> u8 \<times> u8 \<times> u8" where
  "ds4_led_rgb leds =
     (let n = count_ones (leds AND 0x0F) in
      if n = 0 then (0, 0, 0) else if n = 1 then (0, 0, 0xFF) else if n = 2 then (0, 0xFF, 0xFF)
      else if n = 3 then (0xFF, 0, 0xFF) else (0xFF, 0xFF, 0xFF))"

definition crc32_step :: "u32 \<Rightarrow> u32" where
  "crc32_step crc = drop_bit 1 crc XOR ((- (crc AND 1)) AND 0xEDB88320)"

definition crc32_update :: "u32 \<Rightarrow> u8 \<Rightarrow> u32" where
  "crc32_update crc b = (crc32_step ^^ 8) (crc XOR ucast b)"

definition crc32_with_seed :: "u8 \<Rightarrow> bytes \<Rightarrow> u32" where
  "crc32_with_seed seed payload = NOT (fold (\<lambda>b crc. crc32_update crc b) payload (crc32_update (- 1) seed))"

text \<open>The four bytes at the end of a Bluetooth report.\<close>

definition with_crc :: "bytes \<Rightarrow> bytes" where
  "with_crc r =
     (let crc = crc32_with_seed 0xA2 (take 74 r) in
      r[74 := ucast (crc AND 0xFF), 75 := ucast (drop_bit 8 crc AND 0xFF),
        76 := ucast (drop_bit 16 crc AND 0xFF), 77 := ucast (drop_bit 24 crc AND 0xFF)])"

definition fill_ds5_payload :: "nat \<Rightarrow> output_state \<Rightarrow> bytes \<Rightarrow> bytes" where
  "fill_ds5_payload off st r =
     (case ds4_led_rgb (os_led4 st) of (red, green, blue) \<Rightarrow>
        r[off := 0xFF, off + 1 := 0xF7, off + 2 := os_rumble st, off + 3 := os_rumble st,
          off + 38 := 0, off + 43 := os_led5 st AND 0x1F,
          off + 44 := red, off + 45 := green, off + 46 := blue])"

definition build_ds5_usb_report :: "output_state \<Rightarrow> bytes" where
  "build_ds5_usb_report st = fill_ds5_payload 1 st ((replicate 48 0)[0 := 0x02])"

definition build_ds5_bt_report :: "output_state \<Rightarrow> bytes" where
  "build_ds5_bt_report st = with_crc (fill_ds5_payload 2 st ((replicate 78 0)[0 := 0x31, 1 := 0x02]))"

definition build_ds4_usb_report :: "output_state \<Rightarrow> bytes" where
  "build_ds4_usb_report st =
     (case ds4_led_rgb (os_led4 st) of (red, green, blue) \<Rightarrow>
        (replicate 32 0)[0 := 0x05, 1 := 0x07, 4 := os_rumble st, 5 := os_rumble st,
          6 := red, 7 := green, 8 := blue])"

definition build_ds4_bt_report :: "output_state \<Rightarrow> bytes" where
  "build_ds4_bt_report st =
     (case ds4_led_rgb (os_led4 st) of (red, green, blue) \<Rightarrow>
        with_crc ((replicate 78 0)[0 := 0x11, 1 := 0xC0, 2 := 0x20, 3 := 0x07,
          6 := os_rumble st, 7 := os_rumble st, 8 := red, 9 := green, 10 := blue]))"

definition build_output_report :: "sony_kind \<Rightarrow> output_state \<Rightarrow> bool \<Rightarrow> bytes" where
  "build_output_report kind st bt =
     (if kind = KindDualShock4 then (if bt then build_ds4_bt_report st else build_ds4_usb_report st)
      else (if bt then build_ds5_bt_report st else build_ds5_usb_report st))"

subsection \<open>The device\<close>

record sony_device =
  sd_meta :: device_metadata
  sd_kind :: sony_kind
  sd_handle :: bool
  sd_io :: bool
  sd_cal :: "sony_cal option"
  sd_output :: output_state
  sd_last_len :: nat
  sd_reader :: bool
  sd_written :: "bytes list"

definition sony_new :: "sony_kind \<Rightarrow> text_string \<Rightarrow> mac \<Rightarrow> sony_device" where
  "sony_new kind serial m =
     \<lparr>sd_meta =
        \<lparr>md_id = \<lparr>id_mac = m, id_serial = serial\<rparr>, md_kind = sony_device_kind kind,
         md_firmware = None,
         md_caps = \<lparr>has_magnetometer = False, has_battery = True, has_rumble = True,
           native_rate_hz = 250\<rparr>\<rparr>,
      sd_kind = kind, sd_handle = True, sd_io = False, sd_cal = None,
      sd_output = \<lparr>os_led4 = 0, os_led5 = 0, os_rumble = 0\<rparr>, sd_last_len = 0, sd_reader = False,
      sd_written = []\<rparr>"

definition sony_start ::
  "bytes option \<Rightarrow> bytes option \<Rightarrow> sony_device \<Rightarrow> (device_error + unit) \<times> sony_device" where
  "sony_start report_05 report_02 d =
     (if \<not> sd_handle d then (Inl (Hid ''device handle already taken''), d)
      else (Inr (), d\<lparr>sd_handle := False, sd_io := True, sd_reader := True,
        sd_cal := read_feature_calibration (sd_kind d) report_05 report_02\<rparr>))"

definition sony_stop :: "sony_device \<Rightarrow> sony_device" where
  "sony_stop d = d\<lparr>sd_reader := False, sd_io := False\<rparr>"

text \<open>
  Writing an output report. Without an input report the transport is unknown and nothing is
  sent; \<open>answer\<close> is what the write returns.
\<close>

definition sony_write_output :: "text_string + unit \<Rightarrow> sony_device \<Rightarrow> (device_error + unit) \<times> sony_device" where
  "sony_write_output answer d =
     (if sd_last_len d = 0 then (Inr (), d)
      else
        let report = build_output_report (sd_kind d) (sd_output d) (78 \<le> sd_last_len d) in
        if report = [] then (Inr (), d)
        else case answer of
               Inl e \<Rightarrow> (Inl (Hid (''dualsense write output failed: '' @ e)), d)
             | Inr _ \<Rightarrow> (Inr (), d\<lparr>sd_written := report # sd_written d\<rparr>))"

definition sony_set_output ::
  "text_string + unit \<Rightarrow> (output_state \<Rightarrow> output_state) \<Rightarrow> sony_device \<Rightarrow> (device_error + unit) \<times> sony_device" where
  "sony_set_output answer f d =
     (let d1 = d\<lparr>sd_output := f (sd_output d)\<rparr> in
      if \<not> sd_io d1 then (Inl (Hid ''dualsense not started''), d1) else sony_write_output answer d1)"

definition sony_set_led_mask :: "text_string + unit \<Rightarrow> u8 \<Rightarrow> sony_device \<Rightarrow> (device_error + unit) \<times> sony_device" where
  "sony_set_led_mask answer leds =
     sony_set_output answer (\<lambda>st. st\<lparr>os_led4 := leds AND 0x0F, os_led5 := map_led_mask leds\<rparr>)"

definition sony_set_rumble :: "text_string + unit \<Rightarrow> f32 \<Rightarrow> sony_device \<Rightarrow> (device_error + unit) \<times> sony_device" where
  "sony_set_rumble answer x = sony_set_output answer (\<lambda>st. st\<lparr>os_rumble := rumble_to_u8 x\<rparr>)"

text \<open>
  What the reading thread does with a report: the state is the connected flag, the length of
  the last report and the detector of resets.
\<close>

definition sony_on_report ::
  "sony_kind \<Rightarrow> sony_cal option \<Rightarrow> device_id \<Rightarrow> bytes \<Rightarrow> instant \<Rightarrow> bool \<times> nat \<times> detector
    \<Rightarrow> channel_info list \<times> bool \<times> nat \<times> detector" where
  "sony_on_report kind cal i buf now st =
     (case st of (connected, len, det) \<Rightarrow>
        let greet = (if connected then [] else [Connected i]) in
        case sony_parse_report kind buf cal of
          None \<Rightarrow> (greet, True, length buf, det)
        | Some evs \<Rightarrow>
            (case parse_ps_button kind buf of
               None \<Rightarrow> (greet @ evs, True, length buf, det)
             | Some ps \<Rightarrow>
                 (case observe det (HomeOrCapture ps False) now of
                    (det1, None) \<Rightarrow> (greet @ evs, True, length buf, det1)
                  | (det1, Some k) \<Rightarrow> (greet @ evs @ [ResetRequested k], True, length buf, det1))))"

definition sony_read :: "sony_device \<Rightarrow> read_result list \<Rightarrow> channel_info list" where
  "sony_read d rs =
     reader_loop (sony_on_report (sd_kind d) (sd_cal d) (md_id (sd_meta d)))
       (False, sd_last_len d, detector_new) rs"

subsection \<open>Discovery\<close>

definition sony_listed :: "hid_info \<Rightarrow> bool" where
  "sony_listed i \<longleftrightarrow> hi_vendor i = SONY_VID \<and> gamepad_usage i"

definition sony_mac :: "text_string \<Rightarrow> mac" where
  "sony_mac serial = hash_to_mac serial"

definition sony_emit :: "hid_info \<times> sony_kind \<Rightarrow> sony_device" where
  "sony_emit e = (case e of (i, kind) \<Rightarrow> sony_new kind (hi_serial i) (sony_mac (hi_serial i)))"

definition sony_enumerate :: "(hid_info \<times> bool \<times> bool) list option list \<Rightarrow> sony_device list list" where
  "sony_enumerate rounds =
     map (map sony_emit)
       (hid_rounds (\<lambda>i. sony_from_pid (hi_pid i)) {} (map (map_option (filter (\<lambda>(i, _). sony_listed i))) rounds))"

definition sony_list_paired :: "hid_info list \<Rightarrow> (hid_info \<times> sony_kind \<times> mac) list" where
  "sony_list_paired infos =
     List.map_filter (\<lambda>i.
       if \<not> sony_listed i then None
       else map_option (\<lambda>k. (i, k, sony_mac (hi_serial i))) (sony_from_pid (hi_pid i))) infos"

end
