(* ===== verification/Sony_Props.thy ===== *)
theory Sony_Props
  imports Sony
begin

unbundle bit_operations_syntax

section \<open>Properties of the Sony controllers\<close>

text \<open>
  The checksum of the output reports is linear in its input, so its residue and its reaction to
  a changed byte can be computed for all reports at once; and what the parsers accept.
\<close>

subsection \<open>The checksum\<close>

lemma xor_zero_eq: "x XOR y = 0 \<Longrightarrow> x = (y :: 'a::len word)"
proof (rule bit_word_eqI)
  fix n assume "x XOR y = 0"
  then have "bit (x XOR y) n = False" by simp
  then show "bit x n = bit y n" by (simp add: bit_xor_iff)
qed

lemma and_1_mask: "(- (x AND 1)) AND m = (if bit (x :: u32) 0 then m else 0)"
  by (simp add: and_one_eq mod2_eq_if bit_0)

lemma crc_step_alt: "crc32_step x = drop_bit 1 x XOR (if bit x 0 then 0xEDB88320 else 0)"
  by (simp add: crc32_step_def and_1_mask)

lemma crc_step_xor: "crc32_step (x XOR y) = crc32_step x XOR crc32_step y"
  by (rule bit_word_eqI) (auto simp: crc_step_alt bit_simps)

lemma crc_step_inj: "crc32_step x = 0 \<Longrightarrow> x = 0"
proof -
  assume "crc32_step x = 0"
  then have all: "bit (crc32_step x) n = False" for n by simp
  have top: "\<not> bit (drop_bit 1 x) 31"
    using bit_imp_le_length [of x 32] by (auto simp: bit_simps)
  have x0: "\<not> bit x 0"
    using all [of 31] top by (auto simp: crc_step_alt bit_simps split: if_splits)
  show ?thesis
  proof (rule bit_word_eqI)
    fix n assume "n < LENGTH(32)"
    show "bit x n \<longleftrightarrow> bit (0 :: u32) n"
    proof (cases n)
      case 0
      with x0 show ?thesis by simp
    next
      case (Suc m)
      with all [of m] x0 show ?thesis by (simp add: crc_step_alt bit_simps)
    qed
  qed
qed

abbreviation crc_byte :: "u32 \<Rightarrow> u32" where
  "crc_byte \<equiv> crc32_step ^^ 8"

lemma crc_steps_xor: "(crc32_step ^^ n) (x XOR y) = (crc32_step ^^ n) x XOR (crc32_step ^^ n) y"
  by (induction n arbitrary: x y) (simp_all add: crc_step_xor)

lemma crc_steps_zero: "(crc32_step ^^ n) x = 0 \<Longrightarrow> x = 0"
  by (induction n arbitrary: x) (auto dest: crc_step_inj)

lemma crc_steps_low: "\<forall>i < n. \<not> bit x i \<Longrightarrow> (crc32_step ^^ n) x = drop_bit n x"
proof (induction n arbitrary: x)
  case (Suc n)
  then have "(crc32_step ^^ Suc n) x = crc32_step (drop_bit n x)" by simp
  also have "\<dots> = drop_bit 1 (drop_bit n x)"
    using Suc.prems by (simp add: crc_step_alt bit_simps)
  finally show ?case by simp
qed simp

lemma crc_update_inj: "crc32_update x b = crc32_update y c \<Longrightarrow> x XOR y = ucast b XOR ucast c"
proof -
  assume "crc32_update x b = crc32_update y c"
  then have "crc_byte ((x XOR ucast b) XOR (y XOR ucast c)) = 0"
    by (simp add: crc32_update_def crc_steps_xor)
  then have zero: "(x XOR ucast b) XOR (y XOR ucast c) = 0"
    by (rule crc_steps_zero)
  have "x XOR y = ((x XOR ucast b) XOR (y XOR ucast c)) XOR (ucast b XOR ucast c)"
    by (rule bit_word_eqI) (auto simp: bit_simps)
  then show ?thesis by (simp add: zero)
qed

lemma ucast_u8_eq: "(ucast (b :: u8) :: u32) = ucast c \<longleftrightarrow> b = c"
proof
  assume "(ucast b :: u32) = ucast c"
  then have "unat (ucast b :: u32) = unat (ucast c :: u32)" by simp
  moreover have "unat (ucast x :: u32) = unat x" for x :: u8
    using unat_u8_less [of x] by (simp add: unsigned_ucast_eq take_bit_nat_eq_self)
  ultimately show "b = c" by (simp add: word_unat_eq_iff)
qed simp

text \<open>A changed byte changes the checksum.\<close>

lemma crc_fold_inj: "fold (\<lambda>b crc. crc32_update crc b) bs x = fold (\<lambda>b crc. crc32_update crc b) bs y \<Longrightarrow> x = y"
proof (induction bs arbitrary: x y)
  case (Cons b bs)
  then have "crc32_update x b = crc32_update y b" by simp
  from crc_update_inj [OF this] have "x XOR y = 0" by simp
  then show ?case by (rule xor_zero_eq)
qed simp

lemma crc_changed_byte:
  assumes "k < length bs" "b \<noteq> bs ! k"
  shows "crc32_with_seed seed (bs[k := b]) \<noteq> crc32_with_seed seed bs"
proof
  let ?upd = "fold (\<lambda>b crc. crc32_update crc b)"
  let ?x = "?upd (take k bs) (crc32_update (- 1) seed)"
  assume eq: "crc32_with_seed seed (bs[k := b]) = crc32_with_seed seed bs"
  have upd: "take k bs @ b # drop (Suc k) bs = bs[k := b]"
    using assms(1) by (simp add: upd_conv_take_nth_drop)
  have old: "take k bs @ bs ! k # drop (Suc k) bs = bs"
    using assms(1) by (simp add: id_take_nth_drop [symmetric])
  have "?upd (take k bs @ b # drop (Suc k) bs) (crc32_update (- 1) seed)
      = ?upd (take k bs @ bs ! k # drop (Suc k) bs) (crc32_update (- 1) seed)"
    using eq by (simp only: upd old) (simp add: crc32_with_seed_def)
  then have "?upd (drop (Suc k) bs) (crc32_update ?x b) = ?upd (drop (Suc k) bs) (crc32_update ?x (bs ! k))"
    by (simp only: fold_append fold_Cons comp_apply)
  then have "crc32_update ?x b = crc32_update ?x (bs ! k)"
    by (rule crc_fold_inj)
  from crc_update_inj [OF this] have "(ucast b :: u32) XOR ucast (bs ! k) = 0" by simp
  then have "(ucast b :: u32) = ucast (bs ! k)"
    by (rule xor_zero_eq)
  then show False
    using assms(2) by (simp add: ucast_u8_eq)
qed

text \<open>Feeding the complement of the state byte by byte cancels the state.\<close>

lemma crc_cancel:
  "crc32_update (w XOR k) (ucast (NOT w)) = drop_bit 8 w XOR crc_byte (0xFF XOR k)"
proof -
  have FF: "(0xFF :: u32) = mask 8"
    by (simp add: mask_eq_exp_minus_1)
  have "(w XOR k) XOR ucast (ucast (NOT w) :: u8) = (w AND NOT 0xFF) XOR (0xFF XOR k)"
    unfolding FF by (rule bit_word_eqI) (auto simp: bit_simps)
  moreover have "crc_byte (w AND NOT 0xFF) = drop_bit 8 (w AND NOT 0xFF)"
    unfolding FF by (rule crc_steps_low) (auto simp: bit_simps)
  moreover have "drop_bit 8 (w AND NOT 0xFF) = drop_bit 8 w"
    unfolding FF by (rule bit_word_eqI) (auto simp: bit_simps dest: bit_imp_le_length)
  ultimately show ?thesis
    by (simp add: crc32_update_def crc_steps_xor)
qed

lemma crc_bytes:
  "[ucast (c AND 0xFF), ucast (drop_bit 8 c AND 0xFF), ucast (drop_bit 16 c AND 0xFF),
      ucast (drop_bit 24 c AND 0xFF)]
    = [ucast c, ucast (drop_bit 8 c), ucast (drop_bit 16 c), (ucast (drop_bit 24 (c :: u32)) :: u8)]"
proof -
  have FF: "(0xFF :: u32) = mask 8"
    by (simp add: mask_eq_exp_minus_1)
  have "(ucast (x AND 0xFF) :: u8) = ucast x" for x :: u32
    unfolding FF by (rule bit_word_eqI) (auto simp: bit_simps)
  then show ?thesis by simp
qed

lemma ucast_drop_not:
  "n + 8 \<le> 32 \<Longrightarrow> (ucast (drop_bit n (NOT s)) :: u8) = ucast (NOT (drop_bit n (s :: u32)))"
  by (rule bit_word_eqI) (auto simp: bit_simps)

text \<open>Evaluation of the steps on numerals.\<close>

lemma unat_numeral_u32: "(numeral m :: nat) < 2 ^ 32 \<Longrightarrow> unat (numeral m :: u32) = numeral m"
proof -
  assume a: "(numeral m :: nat) < 2 ^ 32"
  have "unat (of_nat (numeral m) :: u32) = numeral m mod 2 ^ LENGTH(32)"
    by (rule unat_of_nat)
  also have "\<dots> = numeral m"
  proof (rule mod_less)
    have "LENGTH(32) = 32" by simp
    with a show "(numeral m :: nat) < 2 ^ LENGTH(32)" by (simp only:)
  qed
  finally show ?thesis by (simp only: of_nat_numeral)
qed

lemma drop_1_numeral:
  assumes a: "(numeral m :: nat) < 2 ^ 32" and k: "numeral m div 2 = (numeral k :: nat)"
  shows "drop_bit 1 (numeral m :: u32) = numeral k"
proof -
  have "(numeral k :: nat) \<le> numeral m" unfolding k [symmetric] by (rule div_le_dividend)
  with a have b: "(numeral k :: nat) < 2 ^ 32" by (rule le_less_trans [rotated])
  have "unat (drop_bit 1 (numeral m :: u32)) = unat (numeral k :: u32)"
    by (simp only: unat_drop_bit_eq unat_numeral_u32 [OF a] unat_numeral_u32 [OF b]) (simp only: drop_bit_eq_div power_one_right k)
  then show ?thesis by (simp only: word_unat_eq_iff)
qed

lemma crc_step_even: "(numeral (Num.Bit0 n) :: nat) < 2 ^ 32 \<Longrightarrow> crc32_step (numeral (Num.Bit0 n)) = numeral n"
  unfolding crc_step_alt using drop_1_numeral [of "Num.Bit0 n" n] by simp

lemma crc_step_odd: "(numeral (Num.Bit1 n) :: nat) < 2 ^ 32 \<Longrightarrow> crc32_step (numeral (Num.Bit1 n)) = numeral n XOR 0xEDB88320"
proof -
  assume a: "(numeral (Num.Bit1 n) :: nat) < 2 ^ 32"
  have "drop_bit 1 (numeral (Num.Bit1 n)) = (numeral n :: u32)"
    by (rule drop_1_numeral [OF a]) simp
  moreover have "bit (numeral (Num.Bit1 n) :: u32) 0"
    by (simp add: bit_0)
  ultimately show ?thesis by (simp only: crc_step_alt if_True)
qed

lemma crc_byte_unfold: "(crc32_step ^^ 8) x = crc32_step (crc32_step (crc32_step (crc32_step (crc32_step (crc32_step (crc32_step (crc32_step x)))))))"
  by (simp add: numeral_eq_Suc del: One_nat_def)

lemma crc_residue:
  "fold (\<lambda>b crc. crc32_update crc b)
     [ucast (NOT s), ucast (drop_bit 8 (NOT s)), ucast (drop_bit 16 (NOT s)), ucast (drop_bit 24 (NOT s))] s
   = 0xDEBB20E3"
proof -
  define k1 :: u32 where "k1 = crc_byte (0xFF XOR 0)"
  define k2 where "k2 = crc_byte (0xFF XOR k1)"
  define k3 where "k3 = crc_byte (0xFF XOR k2)"
  have "crc32_update s (ucast (NOT s)) = drop_bit 8 s XOR k1"
    using crc_cancel [of s 0] by (simp add: k1_def)
  moreover have "crc32_update (drop_bit 8 s XOR k1) (ucast (drop_bit 8 (NOT s))) = drop_bit 16 s XOR k2"
    using crc_cancel [of "drop_bit 8 s" k1] by (simp add: k2_def ucast_drop_not)
  moreover have "crc32_update (drop_bit 16 s XOR k2) (ucast (drop_bit 16 (NOT s))) = drop_bit 24 s XOR k3"
    using crc_cancel [of "drop_bit 16 s" k2] by (simp add: k3_def ucast_drop_not)
  moreover have "crc32_update (drop_bit 24 s XOR k3) (ucast (drop_bit 24 (NOT s))) = crc_byte (0xFF XOR k3)"
  proof -
    have "drop_bit 32 s = 0"
      by (rule bit_word_eqI) (auto simp: bit_simps dest: bit_imp_le_length)
    then show ?thesis
      using crc_cancel [of "drop_bit 24 s" k3] by (simp add: ucast_drop_not)
  qed
  moreover have "crc_byte (0xFF XOR k3) = 0xDEBB20E3"
    unfolding k3_def k2_def k1_def crc_byte_unfold by (simp add: crc_step_even crc_step_odd)
  ultimately show ?thesis
    by simp
qed

lemma length_4_list: "length xs = 4 \<Longrightarrow> \<exists>a b c d. xs = [a, b, c, d]"
  by (auto simp: numeral_eq_Suc length_Suc_conv)

lemma with_crc_append:
  assumes "length r = 78"
  shows "with_crc r = take 74 r @ (let c = crc32_with_seed 0xA2 (take 74 r) in
    [ucast c, ucast (drop_bit 8 c), ucast (drop_bit 16 c), ucast (drop_bit 24 c)])"
proof -
  from assms have "length (drop 74 r) = 4" by simp
  then obtain a b c d where d: "drop 74 r = [a, b, c, d]"
    using length_4_list by blast
  have r: "r = take 74 r @ [a, b, c, d]"
    by (metis append_take_drop_id d)
  have len: "length (take 74 r) = 74" using assms by simp
  have upd: "(take 74 r @ [a, b, c, d])[74 := w, 75 := x, 76 := y, 77 := z] = take 74 r @ [w, x, y, z]"
    for w x y z
    using len by (simp add: list_update_append)
  show ?thesis
    unfolding with_crc_def Let_def crc_bytes [symmetric]
    by (subst r, subst upd) simp
qed

lemma with_crc_residue:
  assumes "length r = 78"
  shows "length (with_crc r) = 78 \<and> crc32_with_seed 0xA2 (with_crc r) = 0x2144DF1C"
proof -
  let ?s = "fold (\<lambda>b crc. crc32_update crc b) (take 74 r) (crc32_update (- 1) 0xA2)"
  have "crc32_with_seed 0xA2 (take 74 r) = NOT ?s"
    by (simp add: crc32_with_seed_def)
  then have "crc32_with_seed 0xA2 (with_crc r) = NOT (fold (\<lambda>b crc. crc32_update crc b)
      [ucast (NOT ?s), ucast (drop_bit 8 (NOT ?s)), ucast (drop_bit 16 (NOT ?s)), ucast (drop_bit 24 (NOT ?s))] ?s)"
    by (simp only: with_crc_append [OF assms] Let_def) (simp add: crc32_with_seed_def)
  also have "\<dots> = 0x2144DF1C"
    unfolding crc_residue by simp
  finally show ?thesis
    using assms by (simp add: with_crc_append Let_def)
qed

lemma length_fill_ds5 [simp]: "length (fill_ds5_payload off st r) = length r"
  by (simp add: fill_ds5_payload_def split: prod.split)

subsection \<open>Input reports\<close>

lemma read_i16_within: "off + 2 \<le> length buf \<Longrightarrow> read_i16_le buf off = Some (i16_of (from_le (sub_slice buf off 2)))"
  by (simp add: read_i16_le_def)

lemma read_triple_within:
  "off + 6 \<le> length buf \<Longrightarrow> \<exists>t. read_triple buf off = Some t"
  by (simp add: read_triple_def read_i16_within)

lemma sony_battery_unit: "unit_val (f32_val (fraction (sony_battery b)))"
proof -
  let ?x = "f32_of_int (int (unat (b AND 0x0F))) / f32_lit 10 1"
  have "\<bar>int n\<bar> < 2 ^ 24 \<Longrightarrow> f32_val (f32_of_int (int n)) = FFin False (n * funit fmt32)" for n
    by (subst f32_val_of_int) simp_all
  moreover have "\<bar>int (unat (b AND 0x0F))\<bar> < 2 ^ 24"
  proof -
    have "int n < 256 \<Longrightarrow> \<bar>int n\<bar> < 2 ^ 24" for n by simp
    then show ?thesis
      using unat_u8_less [of "b AND 0x0F"] by (metis of_nat_less_iff of_nat_numeral)
  qed
  ultimately have "f32_val (f32_of_int (int (unat (b AND 0x0F))))
      = FFin False (unat (b AND 0x0F) * funit fmt32)"
    by blast
  then have "\<not> f32_is_nan ?x"
    using funit_pos(1)
    by (intro int_valued_div_not_nan [OF _ f32_lit_int]) (simp_all add: f32_is_nan_def)
  with f32_clamp_unit [of ?x] show ?thesis
    by (simp add: sony_battery_def)
qed

subsection \<open>Properties\<close>

text \<open>
  Property C27. Every output report for Bluetooth has 78 bytes and passes the receiver's check:
  the checksum over the report with its own last four bytes is the fixed CRC-32 residue,
  whatever the controller, the LEDs and the rumble; and no report in which one byte was changed
  passes it.
\<close>

theorem bluetooth_report_checksum:
  "let r = build_output_report kind st True in
     length r = 78 \<and> crc32_with_seed 0xA2 r = 0x2144DF1C
     \<and> {(k, b). k < 78 \<and> b \<noteq> r ! k \<and> crc32_with_seed 0xA2 (r[k := b]) = 0x2144DF1C} = {}"
proof -
  define r where "r = build_output_report kind st True"
  have "length r = 78 \<and> crc32_with_seed 0xA2 r = 0x2144DF1C"
    unfolding r_def build_output_report_def build_ds4_bt_report_def build_ds5_bt_report_def
    by (auto split: prod.split simp del: list_update.simps intro!: with_crc_residue
        with_crc_residue [THEN conjunct1] with_crc_residue [THEN conjunct2])
  then show ?thesis
    using crc_changed_byte [where bs = r and seed = "0xA2"] by (auto simp: Let_def r_def [symmetric])
qed

text \<open>
  A report is refused exactly when its length is neither 64 nor at least 78, and
  then nothing is read. Any other report, whatever its bytes, is read within its bounds and
  gives one sample and one battery level between 0 and 1.
\<close>

theorem sony_report_accepted:
  "case sony_parse_report kind buf cal of
     None \<Rightarrow> length buf \<noteq> 64 \<and> length buf < 78
   | Some evs \<Rightarrow> (length buf = 64 \<or> 78 \<le> length buf)
       \<and> (\<exists>s b. evs = [ImuSamples [s], Battery b] \<and> unit_val (f32_val (fraction b)))"
proof (cases "for_report kind (length buf)")
  case None
  then show ?thesis
    by (auto simp: sony_parse_report_def for_report_def split: if_splits)
next
  case (Some offs)
  then have len: "length buf = 64 \<or> 78 \<le> length buf"
    and offs: "io_gyro offs + 6 \<le> length buf" "io_accel offs + 6 \<le> length buf"
      "\<exists>n. io_battery offs = Some n \<and> n < length buf"
    by (auto simp: for_report_def split: if_splits)
  obtain g where g: "read_triple buf (io_gyro offs) = Some g"
    using read_triple_within [OF offs(1)] by blast
  obtain a where a: "read_triple buf (io_accel offs) = Some a"
    using read_triple_within [OF offs(2)] by blast
  obtain n where n: "io_battery offs = Some n" "n < length buf"
    using offs(3) by blast
  show ?thesis
    using len n by (simp add: sony_parse_report_def Some g a byte_at_def sony_battery_unit)
qed

subsection \<open>Calibration\<close>

definition scale_ok :: "f32 \<Rightarrow> bool" where
  "scale_ok x \<longleftrightarrow> f32_lit 9 10 \<le> x \<and> x \<le> f32_lit 11 10"

lemma cal_clamp_ok: "\<not> f32_is_nan x \<Longrightarrow> scale_ok (cal_clamp x)"
  unfolding scale_ok_def cal_clamp_def
  by (intro conjI f32_clamp_within) (simp_all add: f32_lit_not_nan f32_lit_mono)

lemma scale_ok_1: "scale_ok 1"
proof -
  have "f32_lit 9 10 \<le> f32_lit 1 1" "f32_lit 1 1 \<le> f32_lit 11 10"
    by (rule f32_lit_mono; simp)+
  then show ?thesis
    by (simp add: scale_ok_def less_eq_f32_def f32_lit_Suc)
qed

lemma lsb_positive: "\<exists>k. f32_val DEG_PER_LSB = FFin False k \<and> 0 < k"
  unfolding DEG_PER_LSB_def by (rule f32_quotient_pos [where a = 2000 and b = 32767]) (simp_all add: f32_lit_Suc)

lemma gyro_scale_ok:
  assumes "int_valued speed s" "int_valued p i" "int_valued m j" "int_valued b k"
    "\<bar>i\<bar> \<le> 32768" "\<bar>j\<bar> \<le> 32768" "\<bar>k\<bar> \<le> 32768"
  shows "scale_ok (gyro_scale_axis speed p m b)"
proof -
  let ?d = "\<bar>p - b\<bar> + \<bar>m - b\<bar>"
  have "int_valued (p - b) (i - k)" "int_valued (m - b) (j - k)"
    using assms by (auto intro!: int_valued_sub)
  then have d: "int_valued ?d (\<bar>i - k\<bar> + \<bar>j - k\<bar>)"
    using assms(5-7) by (intro int_valued_add int_valued_abs) auto
  show ?thesis
  proof (cases "0 < speed \<and> 0 < ?d")
    case True
    then have "0 < \<bar>i - k\<bar> + \<bar>j - k\<bar>"
      using int_valued_pos [OF d] by simp
    then have "\<not> f32_is_nan (speed / ?d)"
      using int_valued_div_not_nan' [OF int_valued_not_nan [OF assms(1)] d] by simp
    moreover obtain l where "f32_val DEG_PER_LSB = FFin False l" "0 < l"
      using lsb_positive by blast
    ultimately have "\<not> f32_is_nan (speed / ?d / DEG_PER_LSB)"
      by (rule int_valued_div_not_nan)
    with True show ?thesis
      by (simp add: gyro_scale_axis_def Let_def cal_clamp_ok)
  next
    case False
    then show ?thesis by (auto simp: gyro_scale_axis_def Let_def scale_ok_1)
  qed
qed

lemma accel_scale_ok:
  assumes "int_valued r i" "\<not> r \<le> 0"
  shows "scale_ok (cal_clamp (f32_lit 2 1 * f32_lit 8192 1 / r))"
proof (rule cal_clamp_ok)
  have "0 < r"
    using assms int_valued_not_nan [OF assms(1)] not_nan_le [of r 0] by (simp add: f32_is_nan_def)
  then have "0 < i"
    using int_valued_pos [OF assms(1)] by simp
  moreover have "\<not> f32_is_nan (f32_lit 2 1 * f32_lit 8192 1)"
    by (simp add: f32_is_nan_def f32_lit_Suc)
  ultimately show "\<not> f32_is_nan (f32_lit 2 1 * f32_lit 8192 1 / r)"
    using int_valued_div_not_nan' assms(1) by blast
qed

text \<open>
  Whatever bytes a feature report holds, a calibration read from it scales each
  axis of the gyroscope and of the accelerometer by a number between 0.9 and 1.1: a corrupt
  report cannot inject a wild or undefined gain.
\<close>

theorem factory_scales_bounded:
  "case parse_feature_calibration kind report_id buf of
     None \<Rightarrow> True
   | Some c \<Rightarrow>
       all3 (\<lambda>x. f32_lit 9 10 \<le> x \<and> x \<le> f32_lit 11 10) (sc_gyro_scale c)
       \<and> all3 (\<lambda>x. f32_lit 9 10 \<le> x \<and> x \<le> f32_lit 11 10) (sc_accel_scale c)"
proof -
  let ?f = "\<lambda>off. f32_of_int (i16_le_at buf off)"
  have gyro: "scale_ok (gyro_scale_axis (?f 19 + ?f 21) (?f p) (?f m) (?f b))" for p m b
    by (rule gyro_scale_ok [OF int_valued_add [OF int_valued_i16 int_valued_i16]
          int_valued_i16 int_valued_i16 int_valued_i16])
      (rule i16_le_at_bound i16_sum_bound)+
  have range: "int_valued (?f p - ?f m) (i16_le_at buf p - i16_le_at buf m)" for p m
    by (intro int_valued_sub int_valued_i16 i16_diff_bound)
  show ?thesis
    using gyro accel_scale_ok [OF range] scale_ok_1
    by (auto simp: parse_feature_calibration_def Let_def scale_ok_def)
qed

end
