(* ===== verification/Joycon.thy ===== *)
theory Joycon
  imports Hid_Common
begin

unbundle bit_operations_syntax

section \<open>Joy-Con and Pro Controller\<close>

text \<open>
  \<^verbatim>\<open>crates/device-joycon\<close>, the first generation: input reports, the calibration read from the
  SPI flash, the subcommands, the rumble frames, the clone detection and the device with its
  reading thread. The answers of \<^verbatim>\<open>hidapi\<close> are inputs; \<^verbatim>\<open>log2\<close>, which the platform's
  mathematical library provides, is a parameter.
\<close>

subsection \<open>Identity\<close>

datatype jc_kind = KindJoyConL | KindJoyConR | KindPro | KindGripL | KindGripR

definition JOYCON_VID :: u16 where
  "JOYCON_VID = 0x057E"

definition jc_from_pid :: "u16 \<Rightarrow> jc_kind option" where
  "jc_from_pid pid =
     (if pid = 0x2006 then Some KindJoyConL
      else if pid = 0x2007 then Some KindJoyConR
      else if pid = 0x2009 then Some KindPro
      else None)"

definition from_device_info_byte :: "u8 \<Rightarrow> jc_kind option" where
  "from_device_info_byte b =
     (if b = 1 then Some KindJoyConL else if b = 2 then Some KindJoyConR
      else if b = 3 then Some KindPro else None)"

fun jc_device_kind :: "jc_kind \<Rightarrow> device_kind" where
  "jc_device_kind KindJoyConL = JoyConL"
| "jc_device_kind KindJoyConR = JoyConR"
| "jc_device_kind KindPro = ProController"
| "jc_device_kind KindGripL = ChargingGripL"
| "jc_device_kind KindGripR = ChargingGripR"

fun jc_remap :: "jc_kind \<Rightarrow> f32 \<times> f32 \<times> f32 \<Rightarrow> f32 \<times> f32 \<times> f32" where
  "jc_remap kind (x, y, z) = (if kind = KindJoyConR \<or> kind = KindGripR then (x, - y, - z) else (x, y, z))"

subsection \<open>Input reports\<close>

record imu_raw =
  ir_accel :: "int \<times> int \<times> int"
  ir_gyro :: "int \<times> int \<times> int"

record buttons_raw =
  bt_low :: u8
  bt_high :: u8
  bt_shared :: u8

record report_0x30 =
  r30_timer :: u8
  r30_battery :: battery_state
  r30_buttons :: buttons_raw
  r30_samples :: "imu_raw list"

datatype jc_report_error = JcWrongLength nat | JcWrongId u8

definition jc_battery :: "u8 \<Rightarrow> battery_state" where
  "jc_battery b =
     (let level = unat (drop_bit 5 b AND 0x07)
      in \<lparr>fraction = (if level = 4 then 1 else if level = 3 then f32_lit 75 100
            else if level = 2 then f32_lit 50 100 else if level = 1 then f32_lit 25 100
            else f32_lit 5 100),
          charging = (b AND 0x10 \<noteq> 0)\<rparr>)"

definition jc_imu_sample :: "bytes \<Rightarrow> imu_raw" where
  "jc_imu_sample part = \<lparr>ir_accel = i16_triple_at part 0, ir_gyro = i16_triple_at part 6\<rparr>"

definition parse_0x30 :: "bytes \<Rightarrow> jc_report_error + report_0x30" where
  "parse_0x30 buf =
     (if length buf < 49 then Inl (JcWrongLength (length buf))
      else if buf ! 0 \<noteq> 0x30 then Inl (JcWrongId (buf ! 0))
      else Inr \<lparr>r30_timer = buf ! 1, r30_battery = jc_battery (buf ! 2),
        r30_buttons = \<lparr>bt_low = buf ! 3, bt_high = buf ! 4, bt_shared = buf ! 5\<rparr>,
        r30_samples = map (\<lambda>off. jc_imu_sample (sub_slice buf off 12)) [13, 25, 37]\<rparr>)"

record spi_reply =
  sr_addr :: u32
  sr_data :: bytes

definition parse_0x21_spi_reply :: "bytes \<Rightarrow> spi_reply option" where
  "parse_0x21_spi_reply buf =
     (if length buf < 20 then None
      else if buf ! 0 \<noteq> 0x21 then None
      else if buf ! 13 \<noteq> 0x90 then None
      else if buf ! 14 \<noteq> 0x10 then None
      else
        let len = unat (buf ! 19) in
        if length buf < 20 + len then None
        else Some \<lparr>sr_addr = u32_le_at buf 15, sr_data = sub_slice buf 20 len\<rparr>)"

definition jc_buttons :: "jc_kind \<Rightarrow> buttons_raw \<Rightarrow> button_state" where
  "jc_buttons kind b =
     (let home = bt_shared b AND 0x10 \<noteq> 0; capture = bt_shared b AND 0x20 \<noteq> 0 in
      if kind = KindJoyConL \<or> kind = KindGripL then CaptureOnly capture
      else HomeOrCapture home capture)"

subsection \<open>Calibration\<close>

definition ACCEL_COEFF_NUMERATOR :: f32 where
  "ACCEL_COEFF_NUMERATOR = f32_lit 4 1"

definition GYRO_COEFF_NUMERATOR :: f32 where
  "GYRO_COEFF_NUMERATOR = f32_lit 936 1"

definition NOMINAL_ACCEL_COEFF_G :: f32 where
  "NOMINAL_ACCEL_COEFF_G = ACCEL_COEFF_NUMERATOR / f32_lit 16384 1"

definition NOMINAL_GYRO_COEFF_DPS :: f32 where
  "NOMINAL_GYRO_COEFF_DPS = GYRO_COEFF_NUMERATOR / f32_lit 13371 1"

record jc_cal =
  jcal_accel_offset :: "int \<times> int \<times> int"
  jcal_accel_sens :: "(int \<times> int \<times> int) option"
  jcal_gyro_offset :: "int \<times> int \<times> int"
  jcal_gyro_sens :: "(int \<times> int \<times> int) option"
  jcal_accel_coeff :: "f32 \<times> f32 \<times> f32"
  jcal_gyro_coeff :: "f32 \<times> f32 \<times> f32"
  jcal_warning :: bool

definition splat3 :: "'a \<Rightarrow> 'a \<times> 'a \<times> 'a" where
  "splat3 x = (x, x, x)"

definition jc_cal_zero :: jc_cal where
  "jc_cal_zero =
     \<lparr>jcal_accel_offset = (0, 0, 0), jcal_accel_sens = None, jcal_gyro_offset = (0, 0, 0),
      jcal_gyro_sens = None, jcal_accel_coeff = splat3 NOMINAL_ACCEL_COEFF_G,
      jcal_gyro_coeff = splat3 NOMINAL_GYRO_COEFF_DPS, jcal_warning = False\<rparr>"

definition axis_coeff :: "f32 \<Rightarrow> f32 \<Rightarrow> int \<Rightarrow> int \<Rightarrow> f32" where
  "axis_coeff numerator nominal sens off =
     (let denom = f32_of_int sens - f32_of_int off in
      if \<bar>denom\<bar> \<le> 1 then nominal
      else
        let coeff = numerator / denom in
        if f32_is_finite coeff \<and> nominal * f32_lit 1 2 < coeff \<and> coeff < nominal * f32_lit 2 1
        then coeff else nominal)"

definition axis_coeffs ::
  "(int \<times> int \<times> int) option \<Rightarrow> int \<times> int \<times> int \<Rightarrow> f32 \<Rightarrow> f32 \<Rightarrow> f32 \<times> f32 \<times> f32" where
  "axis_coeffs sens off numerator nominal =
     (case sens of None \<Rightarrow> splat3 nominal | Some s \<Rightarrow> zip3 (axis_coeff numerator nominal) s off)"

definition is_zeros_or_ff :: "bytes \<Rightarrow> bool" where
  "is_zeros_or_ff bs \<longleftrightarrow> list_all (\<lambda>b. b = 0) bs \<or> list_all (\<lambda>b. b = 0xFF) bs"

definition plausible_offset :: "int \<times> int \<times> int \<Rightarrow> int \<Rightarrow> bool" where
  "plausible_offset v abs_max = all3 (\<lambda>x. \<bar>x\<bar> \<le> abs_max) v"

text \<open>The error is the length of the block.\<close>

definition parse_factory_block :: "bytes \<Rightarrow> nat + jc_cal" where
  "parse_factory_block block =
     (if length block < 24 then Inl (length block)
      else
        let aoff = i16_triple_at block 0; asens_raw = i16_triple_at block 6;
            goff = i16_triple_at block 12; gsens_raw = i16_triple_at block 18;
            asens = (if is_zeros_or_ff (sub_slice block 6 6) then None else Some asens_raw);
            gsens = (if is_zeros_or_ff (sub_slice block 18 6) then None else Some gsens_raw);
            warning = (\<not> plausible_offset aoff 2000 \<or> \<not> plausible_offset goff 1000);
            aoff1 = (if warning then (0, 0, 0) else aoff);
            goff1 = (if warning then (0, 0, 0) else goff)
        in Inr \<lparr>jcal_accel_offset = aoff1, jcal_accel_sens = asens, jcal_gyro_offset = goff1,
             jcal_gyro_sens = gsens,
             jcal_accel_coeff = (if warning then splat3 NOMINAL_ACCEL_COEFF_G
               else axis_coeffs asens aoff1 ACCEL_COEFF_NUMERATOR NOMINAL_ACCEL_COEFF_G),
             jcal_gyro_coeff = (if warning then splat3 NOMINAL_GYRO_COEFF_DPS
               else axis_coeffs gsens goff1 GYRO_COEFF_NUMERATOR NOMINAL_GYRO_COEFF_DPS),
             jcal_warning = warning\<rparr>)"

definition user_override_magic_present :: "bytes \<Rightarrow> bool" where
  "user_override_magic_present magic \<longleftrightarrow> 2 \<le> length magic \<and> u16_le_at magic 0 = 0xA1B2"

text \<open>\<^verbatim>\<open>i16::wrapping_sub\<close>.\<close>

definition i16_wrapping_sub :: "int \<Rightarrow> int \<Rightarrow> int" where
  "i16_wrapping_sub a b = (a - b + 32768) mod 65536 - 32768"

definition raw_minus_offset :: "int \<times> int \<times> int \<Rightarrow> int \<times> int \<times> int \<Rightarrow> f32 \<times> f32 \<times> f32" where
  "raw_minus_offset raw off = map3 f32_of_int (zip3 i16_wrapping_sub raw off)"

definition accel_to_m_s2 :: "f32 \<times> f32 \<times> f32 \<Rightarrow> f32 \<times> f32 \<times> f32" where
  "accel_to_m_s2 v = map3 (\<lambda>x. x * ((f32_lit 16 1 / f32_lit 65535 1) * GRAVITY)) v"

definition gyro_to_rad_s :: "f32 \<times> f32 \<times> f32 \<Rightarrow> f32 \<times> f32 \<times> f32" where
  "gyro_to_rad_s v = map3 (\<lambda>x. x * ((f32_lit 4588 1 / f32_lit 65535 1) * deg_to_rad)) v"

definition accel_sample_m_s2 ::
  "int \<times> int \<times> int \<Rightarrow> int \<times> int \<times> int \<Rightarrow> f32 \<times> f32 \<times> f32 \<Rightarrow> f32 \<times> f32 \<times> f32" where
  "accel_sample_m_s2 raw off coeff =
     zip3 (\<lambda>v k. v * k * GRAVITY) (map3 f32_of_int (zip3 i16_wrapping_sub raw off)) coeff"

definition gyro_sample_rad_s ::
  "int \<times> int \<times> int \<Rightarrow> int \<times> int \<times> int \<Rightarrow> f32 \<times> f32 \<times> f32 \<Rightarrow> f32 \<times> f32 \<times> f32" where
  "gyro_sample_rad_s raw off coeff =
     zip3 (\<lambda>v k. v * k * deg_to_rad) (map3 f32_of_int (zip3 i16_wrapping_sub raw off)) coeff"

subsection \<open>Output reports\<close>

definition NEUTRAL_RUMBLE_FRAME :: bytes where
  "NEUTRAL_RUMBLE_FRAME = [0x00, 0x01, 0x40, 0x40]"

definition build_report_0x01 :: "u8 \<Rightarrow> u8 \<Rightarrow> bytes \<Rightarrow> bytes" where
  "build_report_0x01 counter subcmd data =
     [0x01, counter AND 0x0F] @ NEUTRAL_RUMBLE_FRAME @ NEUTRAL_RUMBLE_FRAME @ [subcmd] @ data"

definition build_report_0x80 :: "u8 \<Rightarrow> bytes" where
  "build_report_0x80 opcode = [0x80, opcode]"

definition build_report_0x10 :: "u8 \<Rightarrow> bytes \<Rightarrow> bytes" where
  "build_report_0x10 counter frame = [0x10, counter AND 0x0F] @ frame @ frame"

definition enable_imu :: "u8 \<Rightarrow> bytes" where
  "enable_imu counter = build_report_0x01 counter 0x40 [1]"

definition enable_rumble :: "u8 \<Rightarrow> bytes" where
  "enable_rumble counter = build_report_0x01 counter 0x48 [1]"

definition set_player_leds :: "u8 \<Rightarrow> u8 \<Rightarrow> bytes" where
  "set_player_leds leds counter = build_report_0x01 counter 0x30 [leds]"

definition set_input_report_mode :: "u8 \<Rightarrow> u8 \<Rightarrow> bytes" where
  "set_input_report_mode md counter = build_report_0x01 counter 0x03 [md]"

definition spi_read :: "u32 \<Rightarrow> u8 \<Rightarrow> u8 \<Rightarrow> bytes" where
  "spi_read addr len counter = build_report_0x01 counter 0x10 (to_le addr @ [len])"

definition device_info :: "u8 \<Rightarrow> bytes" where
  "device_info counter = build_report_0x01 counter 0x02 []"

subsection \<open>Rumble frames\<close>

definition f64_round :: "f64 \<Rightarrow> f64" where
  "f64_round x = f64_of (fp_round_int fmt64 (f64_val x))"

definition f64_to_i32 :: "f64 \<Rightarrow> int" where
  "f64_to_i32 x = fp_to_int_sat fmt64 (- (2 ^ 31)) (2 ^ 31 - 1) (f64_val x)"

definition rumble_hf_amp :: "(f64 \<Rightarrow> f64) \<Rightarrow> f64 \<Rightarrow> int" where
  "rumble_hf_amp log2 a =
     (let scaled = log2 (a * f64_of_int 1000) * f64_of_int 32 - f64_of_int 96;
          v = (if a < f64_lit 117 1000 then scaled / (f64_of_int 5 - a * a) - 1
               else if a < f64_lit 23 100 then scaled - f64_of_int 92
               else scaled * f64_of_int 2 - f64_of_int 246)
      in max 0 (min 0xC8 (f64_to_i32 v)))"

definition rumble_lf_amp :: "int \<Rightarrow> u32" where
  "rumble_lf_amp hf_amp =
     (let l = f64_to_i32 (f64_of_int hf_amp * f64_lit 1 2); odd_l = l mod 2 \<noteq> 0;
          l1 = (if odd_l then l - 1 else l) div 2 + 0x40
      in if odd_l then of_int l1 OR 0x8000 else of_int l1)"

definition encode_rumble_frame :: "(f64 \<Rightarrow> f64) \<Rightarrow> f32 \<Rightarrow> bytes" where
  "encode_rumble_frame log2 intensity =
     (let a = f64_of_f32 (f32_clamp intensity 0 1) in
      if fp_eqv (f64_val a) (f64_val 0) then NEUTRAL_RUMBLE_FRAME
      else
        let hf = f64_to_i32 ((f64_round (f64_of_int 32 * log2 (f64_of_int 320 * f64_lit 1 10)) - f64_of_int 0x60) * f64_of_int 4);
            lf = f64_to_i32 (f64_round (f64_of_int 32 * log2 (f64_of_int 160 * f64_lit 1 10)) - f64_of_int 0x40);
            hf_amp = rumble_hf_amp log2 a; lf_amp = rumble_lf_amp hf_amp
        in [of_int (hf mod 256), of_int ((hf div 256) mod 256 + hf_amp),
            of_int (lf mod 256 + int (unat (drop_bit 8 lf_amp AND 0xFF))), ucast (lf_amp AND 0xFF)])"

subsection \<open>Clones\<close>

datatype pro_variant = Nintendo | BitDo8Pro2 | BitDo8Ultimate2 | UnknownClone

definition is_clone :: "pro_variant \<Rightarrow> bool" where
  "is_clone v \<longleftrightarrow> v \<noteq> Nintendo"

fun variant_label :: "pro_variant \<Rightarrow> text_string" where
  "variant_label Nintendo = ''Pro Controller''"
| "variant_label BitDo8Pro2 = ''8BitDo Pro 2 (Switch mode)''"
| "variant_label BitDo8Ultimate2 = ''8BitDo Ultimate 2 (Switch mode)''"
| "variant_label UnknownClone = ''Pro Controller clone''"

definition is_nintendo_style_mac :: "text_string \<Rightarrow> bool" where
  "is_nintendo_style_mac serial \<longleftrightarrow>
     length serial = 12 \<and> list_all (\<lambda>c. case digit_of c of Some d \<Rightarrow> d < 16 | None \<Rightarrow> False) serial"

definition classify_serial :: "text_string \<Rightarrow> pro_variant" where
  "classify_serial serial =
     (let lower = map ascii_lower serial in
      if serial = [] then Nintendo
      else if contains lower ''pro2'' \<or> contains lower ''pro 2'' then BitDo8Pro2
      else if contains lower ''ultimate2'' \<or> contains lower ''ultimate 2'' then BitDo8Ultimate2
      else if contains lower ''8bitdo'' then UnknownClone
      else if is_nintendo_style_mac serial then Nintendo
      else UnknownClone)"

subsection \<open>The device\<close>

record jc_device =
  jd_meta :: device_metadata
  jd_kind :: jc_kind
  jd_usb :: bool
  jd_reader :: bool
  jd_counter :: u8
  jd_writes :: nat
  jd_written :: "bytes list"

definition jc_new :: "jc_kind \<Rightarrow> bool \<Rightarrow> text_string \<Rightarrow> mac \<Rightarrow> jc_device" where
  "jc_new kind usb serial m =
     (let variant = (if kind = KindPro then classify_serial serial else Nintendo)
      in \<lparr>jd_meta =
            \<lparr>md_id = \<lparr>id_mac = m, id_serial = serial\<rparr>, md_kind = jc_device_kind kind,
             md_firmware = (if is_clone variant then Some (variant_label variant) else None),
             md_caps = \<lparr>has_magnetometer = False, has_battery = True, has_rumble = True,
               native_rate_hz = 200\<rparr>\<rparr>,
          jd_kind = kind, jd_usb = usb, jd_reader = False, jd_counter = 0, jd_writes = 0,
          jd_written = []\<rparr>)"

text \<open>The \<open>n\<close>th write returns \<open>answers n\<close>.\<close>

type_synonym write_answers = "nat \<Rightarrow> text_string + unit"

definition jc_write :: "write_answers \<Rightarrow> bytes \<Rightarrow> jc_device \<Rightarrow> (device_error + unit) \<times> jc_device" where
  "jc_write answers buf d =
     (case answers (jd_writes d) of
        Inl e \<Rightarrow> (Inl (Hid e), d\<lparr>jd_writes := Suc (jd_writes d)\<rparr>)
      | Inr _ \<Rightarrow> (Inr (), d\<lparr>jd_writes := Suc (jd_writes d), jd_written := buf # jd_written d\<rparr>))"

definition next_counter :: "jc_device \<Rightarrow> u8 \<times> jc_device" where
  "next_counter d = (jd_counter d, d\<lparr>jd_counter := jd_counter d + 1\<rparr>)"

definition jc_send :: "write_answers \<Rightarrow> (u8 \<Rightarrow> bytes) \<Rightarrow> jc_device \<Rightarrow> (device_error + unit) \<times> jc_device" where
  "jc_send answers build d = (case next_counter d of (cnt, d1) \<Rightarrow> jc_write answers (build cnt) d1)"

text \<open>Steps one after the other, up to the first that fails.\<close>

fun steps_until_error ::
  "('d \<Rightarrow> (device_error + unit) \<times> 'd) list \<Rightarrow> 'd \<Rightarrow> (device_error + unit) \<times> 'd" where
  "steps_until_error [] d = (Inr (), d)"
| "steps_until_error (f # fs) d =
     (case f d of (Inl e, d1) \<Rightarrow> (Inl e, d1) | (Inr _, d1) \<Rightarrow> steps_until_error fs d1)"

definition run_connect_sequence :: "write_answers \<Rightarrow> jc_device \<Rightarrow> (device_error + unit) \<times> jc_device" where
  "run_connect_sequence answers d =
     steps_until_error
       ((if jd_usb d
         then map (\<lambda>opcode. jc_write answers (build_report_0x80 opcode)) [0x01, 0x02, 0x03, 0x02, 0x04]
         else [])
        @ map (jc_send answers)
            [enable_rumble, enable_imu, set_input_report_mode 0x30, set_player_leds 1, device_info]) d"

definition SPI_ADDR_FACTORY_CAL :: u32 where
  "SPI_ADDR_FACTORY_CAL = 0x6020"

definition SPI_ADDR_USER_OVERRIDE_MAGIC :: u32 where
  "SPI_ADDR_USER_OVERRIDE_MAGIC = 0x8026"

definition SPI_ADDR_USER_OVERRIDE_BLOCK :: u32 where
  "SPI_ADDR_USER_OVERRIDE_BLOCK = 0x8028"

definition request_calibration_reads :: "write_answers \<Rightarrow> jc_device \<Rightarrow> (device_error + unit) \<times> jc_device" where
  "request_calibration_reads answers d =
     steps_until_error
       (map (jc_send answers)
          [spi_read SPI_ADDR_FACTORY_CAL 24, spi_read SPI_ADDR_USER_OVERRIDE_MAGIC 2,
           spi_read SPI_ADDR_USER_OVERRIDE_BLOCK 24]) d"

text \<open>The calibration in use, whether the magic was seen, and the block put aside.\<close>

record spi_state =
  sp_cal :: jc_cal
  sp_magic :: bool
  sp_pending :: "bytes option"

definition spi_initial :: spi_state where
  "spi_initial = \<lparr>sp_cal = jc_cal_zero, sp_magic = False, sp_pending = None\<rparr>"

definition adopt_block :: "bytes \<Rightarrow> spi_state \<Rightarrow> spi_state" where
  "adopt_block data st = (case parse_factory_block data of Inr cal \<Rightarrow> st\<lparr>sp_cal := cal\<rparr> | Inl _ \<Rightarrow> st)"

definition handle_spi_reply :: "spi_reply \<Rightarrow> spi_state \<Rightarrow> spi_state" where
  "handle_spi_reply r st =
     (if sr_addr r = SPI_ADDR_FACTORY_CAL then
        (if sp_pending st = None \<or> \<not> sp_magic st then adopt_block (sr_data r) st else st)
      else if sr_addr r = SPI_ADDR_USER_OVERRIDE_MAGIC then
        let st1 = st\<lparr>sp_magic := user_override_magic_present (sr_data r)\<rparr> in
        if sp_magic st1 then
          (case sp_pending st1 of
             None \<Rightarrow> st1
           | Some data \<Rightarrow> adopt_block data (st1\<lparr>sp_pending := None\<rparr>))
        else st1
      else if sr_addr r = SPI_ADDR_USER_OVERRIDE_BLOCK then
        (if sp_magic st then adopt_block (sr_data r) st else st\<lparr>sp_pending := Some (sr_data r)\<rparr>)
      else st)"

record jc_reader =
  jr_spi :: spi_state
  jr_detector :: detector
  jr_fraction :: f32
  jr_battery_count :: u32

definition jc_reader_initial :: jc_reader where
  "jc_reader_initial =
     \<lparr>jr_spi = spi_initial, jr_detector = detector_new, jr_fraction = - 1, jr_battery_count = 0\<rparr>"

definition jc_sample :: "jc_kind \<Rightarrow> jc_cal \<Rightarrow> imu_raw \<Rightarrow> imu_sample" where
  "jc_sample kind cal raw =
     \<lparr>gyro = jc_remap kind (gyro_sample_rad_s (ir_gyro raw) (jcal_gyro_offset cal) (jcal_gyro_coeff cal)),
      accel = jc_remap kind (accel_sample_m_s2 (ir_accel raw) (jcal_accel_offset cal) (jcal_accel_coeff cal)),
      mag = None, timestamp_us = 0\<rparr>"

definition jc_battery_step :: "battery_state \<Rightarrow> jc_reader \<Rightarrow> channel_info list \<times> jc_reader" where
  "jc_battery_step b r =
     (let n = jr_battery_count r + 1 in
      if \<not> f32_eq (fraction b) (jr_fraction r) \<or> 600 \<le> n
      then ([Battery b], r\<lparr>jr_fraction := fraction b, jr_battery_count := 0\<rparr>)
      else ([], r\<lparr>jr_battery_count := n\<rparr>))"

definition jc_on_report :: "jc_kind \<Rightarrow> bytes \<Rightarrow> instant \<Rightarrow> jc_reader \<Rightarrow> channel_info list \<times> jc_reader" where
  "jc_on_report kind buf now r =
     (if buf \<noteq> [] \<and> buf ! 0 = 0x21 then
        (case parse_0x21_spi_reply buf of
           None \<Rightarrow> ([], r)
         | Some reply \<Rightarrow> ([], r\<lparr>jr_spi := handle_spi_reply reply (jr_spi r)\<rparr>))
      else
        case parse_0x30 buf of
          Inl _ \<Rightarrow> ([], r)
        | Inr rep \<Rightarrow>
            let samples_out = map (jc_sample kind (sp_cal (jr_spi r))) (r30_samples rep) in
            (case jc_battery_step (r30_battery rep) r of
               (batt, r1) \<Rightarrow>
                 (case observe (jr_detector r1) (jc_buttons kind (r30_buttons rep)) now of
                    (det, k) \<Rightarrow>
                      (ImuSamples samples_out # batt
                         @ (case k of Some kd \<Rightarrow> [ResetRequested kd] | None \<Rightarrow> []),
                       r1\<lparr>jr_detector := det\<rparr>))))"

definition jc_start :: "write_answers \<Rightarrow> jc_device \<Rightarrow> (device_error + unit) \<times> jc_device" where
  "jc_start answers d =
     (if jd_reader d then (Inl (Hid ''already started''), d)
      else case steps_until_error [run_connect_sequence answers, request_calibration_reads answers] d of
             (Inl e, d1) \<Rightarrow> (Inl e, d1)
           | (Inr _, d1) \<Rightarrow> (Inr (), d1\<lparr>jd_reader := True\<rparr>))"

definition jc_events :: "jc_device \<Rightarrow> read_result list \<Rightarrow> channel_info list" where
  "jc_events d rs =
     Connected (md_id (jd_meta d)) # reader_loop (jc_on_report (jd_kind d)) jc_reader_initial rs"

definition jc_stop :: "jc_device \<Rightarrow> jc_device" where
  "jc_stop d = d\<lparr>jd_reader := False\<rparr>"

definition jc_set_led_mask :: "write_answers \<Rightarrow> u8 \<Rightarrow> jc_device \<Rightarrow> (device_error + unit) \<times> jc_device" where
  "jc_set_led_mask answers leds = jc_send answers (set_player_leds leds)"

definition jc_set_rumble ::
  "write_answers \<Rightarrow> (f64 \<Rightarrow> f64) \<Rightarrow> f32 \<Rightarrow> jc_device \<Rightarrow> (device_error + unit) \<times> jc_device" where
  "jc_set_rumble answers log2 x =
     jc_send answers (\<lambda>cnt. build_report_0x10 cnt (encode_rumble_frame log2 x))"

subsection \<open>Discovery\<close>

definition jc_listed :: "hid_info \<Rightarrow> bool" where
  "jc_listed i \<longleftrightarrow> hi_vendor i = JOYCON_VID \<and> gamepad_usage i"

text \<open>\<open>path_text\<close> is the debug form of the path, used when there is no serial.\<close>

definition jc_mac :: "(text_string \<Rightarrow> text_string) \<Rightarrow> hid_info \<Rightarrow> mac" where
  "jc_mac path_text i = hash_to_mac (if hi_serial i = [] then path_text (hi_path i) else hi_serial i)"

definition jc_emit :: "(text_string \<Rightarrow> text_string) \<Rightarrow> hid_info \<times> jc_kind \<Rightarrow> jc_device" where
  "jc_emit path_text e =
     (case e of (i, kind) \<Rightarrow> jc_new kind (0 \<le> hi_iface i) (hi_serial i) (jc_mac path_text i))"

definition jc_enumerate ::
  "(text_string \<Rightarrow> text_string) \<Rightarrow> (hid_info \<times> bool \<times> bool) list option list \<Rightarrow> jc_device list list" where
  "jc_enumerate path_text rounds =
     map (map (jc_emit path_text))
       (hid_rounds (\<lambda>i. jc_from_pid (hi_pid i)) {} (map (map_option (filter (\<lambda>(i, _). jc_listed i))) rounds))"

definition jc_list_paired ::
  "(text_string \<Rightarrow> text_string) \<Rightarrow> hid_info list \<Rightarrow> (hid_info \<times> jc_kind \<times> mac) list" where
  "jc_list_paired path_text infos =
     List.map_filter (\<lambda>i.
       if \<not> jc_listed i then None
       else map_option (\<lambda>k. (i, k, jc_mac path_text i)) (jc_from_pid (hi_pid i))) infos"

end
