(* ===== verification/Joycon_Props.thy ===== *)
theory Joycon_Props
  imports Joycon
begin

unbundle bit_operations_syntax

section \<open>Properties of the Joy-Con driver\<close>

text \<open>
  The order in which the replies to the three reads of the SPI flash arrive, what any of them
  can do to the calibration in use, and the subtraction of its offsets.
\<close>

subsection \<open>The replies of the flash\<close>

text \<open>A block put aside waits for the magic: the two are never there together.\<close>

lemma handle_spi_reply_exclusive:
  "sp_pending st = None \<or> \<not> sp_magic st \<Longrightarrow>
     sp_pending (handle_spi_reply r st) = None \<or> \<not> sp_magic (handle_spi_reply r st)"
  by (auto simp: handle_spi_reply_def adopt_block_def Let_def split: sum.splits option.splits)

definition spi_run :: "spi_reply list \<Rightarrow> spi_state" where
  "spi_run rs = fold handle_spi_reply rs spi_initial"

lemma spi_run_snoc: "spi_run (rs @ [r]) = handle_spi_reply r (spi_run rs)"
  by (simp add: spi_run_def)

lemma spi_run_induct [case_names Nil snoc]:
  "P spi_initial \<Longrightarrow> (\<And>r st. P st \<Longrightarrow> P (handle_spi_reply r st)) \<Longrightarrow> P (spi_run rs)"
  by (induction rs rule: rev_induct) (simp_all add: spi_run_snoc, simp add: spi_run_def)

lemma spi_run_exclusive: "sp_pending (spi_run rs) = None \<or> \<not> sp_magic (spi_run rs)"
  by (induction rule: spi_run_induct) (simp_all add: spi_initial_def handle_spi_reply_exclusive)

lemma spi_addrs [simp]:
  "SPI_ADDR_USER_OVERRIDE_MAGIC \<noteq> SPI_ADDR_FACTORY_CAL"
  "SPI_ADDR_USER_OVERRIDE_BLOCK \<noteq> SPI_ADDR_FACTORY_CAL"
  "SPI_ADDR_USER_OVERRIDE_BLOCK \<noteq> SPI_ADDR_USER_OVERRIDE_MAGIC"
  by (simp_all add: SPI_ADDR_FACTORY_CAL_def SPI_ADDR_USER_OVERRIDE_MAGIC_def
      SPI_ADDR_USER_OVERRIDE_BLOCK_def)

text \<open>The three replies a connection asks for.\<close>

definition factory_reply :: "bytes \<Rightarrow> spi_reply" where
  "factory_reply f = \<lparr>sr_addr = SPI_ADDR_FACTORY_CAL, sr_data = f\<rparr>"

definition magic_reply :: "bytes \<Rightarrow> spi_reply" where
  "magic_reply m = \<lparr>sr_addr = SPI_ADDR_USER_OVERRIDE_MAGIC, sr_data = m\<rparr>"

definition user_reply :: "bytes \<Rightarrow> spi_reply" where
  "user_reply u = \<lparr>sr_addr = SPI_ADDR_USER_OVERRIDE_BLOCK, sr_data = u\<rparr>"

lemmas spi_replies = factory_reply_def magic_reply_def user_reply_def

text \<open>
  The user calibration of a Joy-Con takes precedence over the factory one only
  while the replies come in the order of the requests. With the magic present, the user block
  is in use after the replies factory, magic, user and, put aside until the magic comes, after
  factory, user, magic; without the magic the factory block is. But a factory reply that
  comes later is adopted after any replies whatever, also over a user calibration in use.
\<close>

theorem factory_reply_always_adopted:
  "sp_cal (spi_run (rs @ [factory_reply f]))
     = (case parse_factory_block f of Inr cal \<Rightarrow> cal | Inl _ \<Rightarrow> sp_cal (spi_run rs))
   \<and> sp_cal (spi_run [factory_reply f, magic_reply m, user_reply u])
       = (case (user_override_magic_present m, parse_factory_block u) of
            (True, Inr cal) \<Rightarrow> cal | _ \<Rightarrow> sp_cal (spi_run [factory_reply f]))
   \<and> sp_cal (spi_run [factory_reply f, user_reply u, magic_reply m])
       = sp_cal (spi_run [factory_reply f, magic_reply m, user_reply u])"
proof -
  have "sp_cal (spi_run (rs @ [factory_reply f]))
     = (case parse_factory_block f of Inr cal \<Rightarrow> cal | Inl _ \<Rightarrow> sp_cal (spi_run rs))"
    using spi_run_exclusive [of rs]
    by (auto simp: spi_run_snoc factory_reply_def handle_spi_reply_def adopt_block_def split: sum.split)
  then show ?thesis
    by (auto simp: spi_run_def spi_replies spi_initial_def handle_spi_reply_def adopt_block_def Let_def
        split: sum.split bool.split)
qed

subsection \<open>Every calibration is usable\<close>

text \<open>Strictly between half and twice a nominal coefficient.\<close>

definition near_nominal :: "f32 \<Rightarrow> f32 \<Rightarrow> bool" where
  "near_nominal nominal k \<longleftrightarrow> nominal * f32_lit 1 2 < k \<and> k < nominal * f32_lit 2 1"

definition cal_usable :: "jc_cal \<Rightarrow> bool" where
  "cal_usable c \<longleftrightarrow>
     plausible_offset (jcal_accel_offset c) 2000 \<and> plausible_offset (jcal_gyro_offset c) 1000
     \<and> all3 (near_nominal NOMINAL_ACCEL_COEFF_G) (jcal_accel_coeff c)
     \<and> all3 (near_nominal NOMINAL_GYRO_COEFF_DPS) (jcal_gyro_coeff c)"

lemma nominal_values:
  "f32_val NOMINAL_ACCEL_COEFF_G = FFin False 174224571863520493293247799005065324265472"
  "f32_val NOMINAL_GYRO_COEFF_DPS = FFin False 49955269847892000201337524779042036953120768"
  by (simp_all add: NOMINAL_ACCEL_COEFF_G_def ACCEL_COEFF_NUMERATOR_def NOMINAL_GYRO_COEFF_DPS_def
      GYRO_COEFF_NUMERATOR_def f32_eval)

lemma nominal_near:
  "near_nominal NOMINAL_ACCEL_COEFF_G NOMINAL_ACCEL_COEFF_G"
  "near_nominal NOMINAL_GYRO_COEFF_DPS NOMINAL_GYRO_COEFF_DPS"
  by (simp_all add: near_nominal_def nominal_values f32_eval)

lemma axis_coeff_near: "near_nominal nominal nominal \<Longrightarrow> near_nominal nominal (axis_coeff num nominal s d)"
  by (simp add: axis_coeff_def near_nominal_def Let_def)

lemma axis_coeffs_near:
  "near_nominal nominal nominal \<Longrightarrow> all3 (near_nominal nominal) (axis_coeffs s d num nominal)"
  by (cases d) (auto simp: axis_coeffs_def splat3_def axis_coeff_near split: option.split)

lemma splat3_near: "near_nominal nominal nominal \<Longrightarrow> all3 (near_nominal nominal) (splat3 nominal)"
  by (simp add: splat3_def)

lemmas coeffs_near = axis_coeffs_near splat3_near nominal_near

lemma parse_factory_block_usable:
  assumes "parse_factory_block block = Inr c"
  shows "cal_usable c"
proof -
  let ?warn = "\<not> plausible_offset (i16_triple_at block 0) 2000 \<or> \<not> plausible_offset (i16_triple_at block 12) 1000"
  have zero: "plausible_offset (0, 0, 0) 2000" "plausible_offset (0, 0, 0) 1000"
    by (simp_all add: plausible_offset_def)
  show ?thesis
  proof (cases ?warn)
    case True
    with assms zero show ?thesis
      by (auto simp: parse_factory_block_def cal_usable_def coeffs_near Let_def split: if_splits)
  next
    case False
    with assms show ?thesis
      by (auto simp: parse_factory_block_def cal_usable_def coeffs_near Let_def split: if_splits)
  qed
qed

lemma cal_zero_usable: "cal_usable jc_cal_zero"
  by (simp add: cal_usable_def jc_cal_zero_def coeffs_near plausible_offset_def)

lemma adopt_block_usable: "cal_usable (sp_cal st) \<Longrightarrow> cal_usable (sp_cal (adopt_block data st))"
  by (simp add: adopt_block_def parse_factory_block_usable split: sum.split)

text \<open>
  Whatever the flash of a controller answers, and in whatever order, the
  calibration in use has offsets within 2000 and 1000 and coefficients strictly between half
  and twice the nominal ones: a corrupt or cloned flash cannot inject a wild gain.
\<close>

theorem calibration_always_usable: "cal_usable (sp_cal (spi_run rs))"
proof (induction rule: spi_run_induct)
  case Nil
  show ?case by (simp add: spi_initial_def cal_zero_usable)
next
  case (snoc r st)
  then show ?case
    by (auto simp: handle_spi_reply_def Let_def adopt_block_usable split: option.split)
qed

subsection \<open>Offsets\<close>

text \<open>
  Subtracting the offset from a raw word is exact where the difference is a
  16-bit value and off by 65536 elsewhere: near the end of the range a plausible offset turns
  a strong acceleration into one of the opposite sign.
\<close>

theorem offset_subtraction_wraps:
  "i16_wrapping_sub (i16_of a) (i16_of b)
     = (if i16_of a - i16_of b < - 32768 then i16_of a - i16_of b + 65536
        else if 32767 < i16_of a - i16_of b then i16_of a - i16_of b - 65536
        else i16_of a - i16_of b)
   \<and> plausible_offset (1500, 0, 0) 2000
   \<and> 0 < fst (accel_sample_m_s2 (- 32000, 0, 0) (1500, 0, 0) (splat3 NOMINAL_ACCEL_COEFF_G))"
proof -
  have "0 < fst (accel_sample_m_s2 (- 32000, 0, 0) (1500, 0, 0) (splat3 NOMINAL_ACCEL_COEFF_G))"
    by (simp add: accel_sample_m_s2_def i16_wrapping_sub_def splat3_def GRAVITY_def nominal_values
        f32_val_of_int f32_eval)
  moreover have "i16_wrapping_sub x y = (if x - y < - 32768 then x - y + 65536
      else if 32767 < x - y then x - y - 65536 else x - y)"
    if "- 32768 \<le> x" "x < 32768" "- 32768 \<le> y" "y < 32768" for x y
    using that mod_pos_pos_trivial [of "x - y + 98304" 65536] mod_pos_pos_trivial [of "x - y + 32768" 65536]
      mod_pos_pos_trivial [of "x - y - 32768" 65536] mod_add_self2 [of "x - y + 32768" 65536]
      mod_add_self2 [of "x - y - 32768" 65536]
    by (auto simp: i16_wrapping_sub_def add.commute)
  ultimately show ?thesis
    using i16_of_range [of a] i16_of_range [of b] by (simp add: plausible_offset_def)
qed

end
