(* ===== verification/Ps_Move.thy ===== *)
theory Ps_Move
  imports Hid_Common
begin

unbundle bit_operations_syntax

section \<open>PS Move\<close>

text \<open>
  \<^verbatim>\<open>crates/device-psmove\<close>: the two IMU frames of an input report with the clock that dates
  them, the factory calibration and its two blocks, the magnetometer sweep, pairing, the device
  with the thread that repeats its output, and discovery.
\<close>

subsection \<open>Identity\<close>

datatype ps_kind = Zcm1 | Zcm2

definition ps_from_pid :: "u16 \<Rightarrow> ps_kind option" where
  "ps_from_pid pid = (if pid = 0x03D5 then Some Zcm1 else if pid = 0x0C5E then Some Zcm2 else None)"

fun ps_device_kind :: "ps_kind \<Rightarrow> device_kind" where
  "ps_device_kind Zcm1 = PsMoveZcm1"
| "ps_device_kind Zcm2 = PsMoveZcm2"

definition ps_has_mag :: "ps_kind \<Rightarrow> bool" where
  "ps_has_mag kind \<longleftrightarrow> kind = Zcm1"

text \<open>Wire order X-Z-Y to X-Y-Z.\<close>

fun deswizzle :: "ps_kind \<Rightarrow> f32 \<times> f32 \<times> f32 \<Rightarrow> f32 \<times> f32 \<times> f32" where
  "deswizzle kind (a, b, c) = (a, c, b)"

subsection \<open>Calibration\<close>

record ps_cal =
  pc_accel_bias :: "f32 \<times> f32 \<times> f32"
  pc_accel_gain :: "f32 \<times> f32 \<times> f32"
  pc_gyro_bias :: "f32 \<times> f32 \<times> f32"
  pc_gyro_gain :: "f32 \<times> f32 \<times> f32"

definition ps_identity :: ps_cal where
  "ps_identity =
     \<lparr>pc_accel_bias = (0, 0, 0), pc_accel_gain = (1, 1, 1), pc_gyro_bias = (0, 0, 0),
      pc_gyro_gain = (1, 1, 1)\<rparr>"

definition apply_accel :: "ps_cal \<Rightarrow> f32 \<times> f32 \<times> f32 \<Rightarrow> f32 \<times> f32 \<times> f32" where
  "apply_accel cal raw = zip3 (*) (zip3 (-) raw (pc_accel_bias cal)) (pc_accel_gain cal)"

definition apply_gyro :: "ps_cal \<Rightarrow> f32 \<times> f32 \<times> f32 \<Rightarrow> f32 \<times> f32 \<times> f32" where
  "apply_gyro cal raw = zip3 (*) (zip3 (-) raw (pc_gyro_bias cal)) (pc_gyro_gain cal)"

definition CAL_BLOCK_LEN :: nat where
  "CAL_BLOCK_LEN = 49"

definition OFS_ACCEL_SAMPLES :: nat where
  "OFS_ACCEL_SAMPLES = 2"

definition OFS_GYRO_BIAS :: nat where
  "OFS_GYRO_BIAS = 0x26"

definition OFS_GYRO_90RPM :: nat where
  "OFS_GYRO_90RPM = 0x30"

definition nominal_accel_half_span :: f32 where
  "nominal_accel_half_span = f32_lit 16384 1"

definition nominal_gyro_90rpm_lsb :: f32 where
  "nominal_gyro_90rpm_lsb = f32_lit 540 1 * f32_lit 164 10"

text \<open>The smallest and largest of the six samples of an axis, from \<^verbatim>\<open>i32::MAX\<close> and \<^verbatim>\<open>i32::MIN\<close>.\<close>

definition accel_range :: "bytes \<Rightarrow> nat \<Rightarrow> int \<times> int" where
  "accel_range blob axis =
     fold (\<lambda>s (lo, up).
       case read_i16_le blob (OFS_ACCEL_SAMPLES + s * 6 + axis * 2) of
         Some v \<Rightarrow> (min lo v, max up v)
       | None \<Rightarrow> (lo, up)) [0..<6] (2 ^ 31 - 1, - (2 ^ 31))"

text \<open>Bias and gain of an axis of the accelerometer, and then of the gyroscope.\<close>

definition accel_fit :: "bytes \<Rightarrow> nat \<Rightarrow> f32 \<times> f32" where
  "accel_fit blob axis =
     (case accel_range blob axis of (lo, up) \<Rightarrow>
        if lo < up
        then (f32_of_int (up + lo) / f32_lit 2 1,
              nominal_accel_half_span / (f32_of_int (up - lo) / f32_lit 2 1))
        else (0, 1))"

definition gyro_bias_at :: "bytes \<Rightarrow> nat \<Rightarrow> f32" where
  "gyro_bias_at blob axis =
     f32_of_int (case read_i16_le blob (OFS_GYRO_BIAS + axis * 2) of Some v \<Rightarrow> v | None \<Rightarrow> 0)"

definition gyro_gain_at :: "bytes \<Rightarrow> nat \<Rightarrow> f32" where
  "gyro_gain_at blob axis =
     (case read_i16_le blob (OFS_GYRO_90RPM + axis * 6 + axis * 2) of
        None \<Rightarrow> 1
      | Some v \<Rightarrow>
          let delta = \<bar>f32_of_int v - gyro_bias_at blob axis\<bar> in
          if 1 < delta then nominal_gyro_90rpm_lsb / delta else 1)"

definition axes3 :: "(nat \<Rightarrow> 'a) \<Rightarrow> 'a \<times> 'a \<times> 'a" where
  "axes3 f = (f 0, f 1, f 2)"

definition parse_factory_blob :: "ps_kind \<Rightarrow> bytes \<Rightarrow> ps_cal" where
  "parse_factory_blob kind blob =
     (if length blob < OFS_GYRO_90RPM + 18 then ps_identity
      else \<lparr>pc_accel_bias = axes3 (\<lambda>a. fst (accel_fit blob a)),
            pc_accel_gain = axes3 (\<lambda>a. snd (accel_fit blob a)),
            pc_gyro_bias = axes3 (gyro_bias_at blob),
            pc_gyro_gain = axes3 (gyro_gain_at blob)\<rparr>)"

subsection \<open>The magnetometer sweep\<close>

record mag_sweep =
  ms_min :: "f32 \<times> f32 \<times> f32"
  ms_max :: "f32 \<times> f32 \<times> f32"
  ms_samples :: u32

definition mag_sweep_new :: mag_sweep where
  "mag_sweep_new =
     (let inf = f32_of (FInf False) in
      \<lparr>ms_min = (inf, inf, inf), ms_max = (- inf, - inf, - inf), ms_samples = 0\<rparr>)"

definition MIN_USEFUL_SPAN :: f32 where
  "MIN_USEFUL_SPAN = f32_lit 50 1"

definition mag_sweep_observe :: "f32 \<times> f32 \<times> f32 \<Rightarrow> mag_sweep \<Rightarrow> mag_sweep" where
  "mag_sweep_observe v s =
     s\<lparr>ms_min := zip3 f32_min (ms_min s) v, ms_max := zip3 f32_max (ms_max s) v,
       ms_samples := saturating_add (ms_samples s) 1\<rparr>"

definition mag_sweep_ready :: "mag_sweep \<Rightarrow> bool" where
  "mag_sweep_ready s \<longleftrightarrow>
     200 \<le> ms_samples s \<and> all3 (\<lambda>d. MIN_USEFUL_SPAN < d) (zip3 (-) (ms_max s) (ms_min s))"

definition mag_sweep_offset :: "mag_sweep \<Rightarrow> f32 \<times> f32 \<times> f32" where
  "mag_sweep_offset s =
     zip3 (\<lambda>up lo. if lo < up then (up + lo) / f32_lit 2 1 else 0) (ms_max s) (ms_min s)"

definition mag_sweep_radius :: "mag_sweep \<Rightarrow> f32 \<times> f32 \<times> f32" where
  "mag_sweep_radius s =
     zip3 (\<lambda>up lo. let span = (up - lo) / f32_lit 2 1 in if MIN_USEFUL_SPAN < span then span else 1)
       (ms_max s) (ms_min s)"

definition mag_sweep_scale :: "mag_sweep \<Rightarrow> f32 \<times> f32 \<times> f32" where
  "mag_sweep_scale s =
     (case mag_sweep_radius s of (a, b, c) \<Rightarrow>
        let avg = (a + b + c) / f32_lit 3 1
        in map3 (\<lambda>r. if 0 < r then avg / r else 1) (a, b, c))"

definition mag_sweep_apply :: "mag_sweep \<Rightarrow> f32 \<times> f32 \<times> f32 \<Rightarrow> f32 \<times> f32 \<times> f32" where
  "mag_sweep_apply s v =
     (if \<not> mag_sweep_ready s then v
      else zip3 (*) (zip3 (-) v (mag_sweep_offset s)) (mag_sweep_scale s))"

subsection \<open>Input reports\<close>

definition PS_ACCEL_SCALE_M_S2 :: f32 where
  "PS_ACCEL_SCALE_M_S2 = GRAVITY / f32_lit 16384 1"

definition PS_GYRO_SCALE_RAD_S :: f32 where
  "PS_GYRO_SCALE_RAD_S = deg_to_rad / f32_lit 164 10"

definition NOMINAL_REPORT_DT_US :: f32 where
  "NOMINAL_REPORT_DT_US = f32_lit 1000000 1 / f32_lit 175 1"

text \<open>
  The clock. The sum of the intervals stays far below the range of \<^verbatim>\<open>u64\<close>, so it is kept as a
  natural number.
\<close>

record report_clock =
  rc_last :: "instant option"
  rc_accum :: nat
  rc_ema :: f32

definition report_clock_new :: report_clock where
  "report_clock_new = \<lparr>rc_last = None, rc_accum = 0, rc_ema = NOMINAL_REPORT_DT_US\<rparr>"

definition clock_tick :: "instant \<Rightarrow> report_clock \<Rightarrow> (nat \<times> nat) \<times> report_clock" where
  "clock_tick now c =
     (let dt_us = (case rc_last c of
                     Some prev \<Rightarrow> f32_of_int (int (as_micros (now - prev)))
                   | None \<Rightarrow> NOMINAL_REPORT_DT_US);
          ema = rc_ema c * f32_lit 9 10 + dt_us * f32_lit 1 10;
          dt = f32_to_nat (2 ^ 64 - 1) (f32_max ema 1);
          frame_a = rc_accum c + dt div 2; frame_b = rc_accum c + dt
      in ((frame_a, frame_b), \<lparr>rc_last = Some now, rc_accum = frame_b, rc_ema = ema\<rparr>))"

definition read_u16_le :: "bytes \<Rightarrow> nat \<Rightarrow> u16 option" where
  "read_u16_le buf off = map_option from_le (slice_at buf off 2)"

fun centered :: "ps_kind \<Rightarrow> u16 \<Rightarrow> int" where
  "centered Zcm1 raw = int (unat raw) - 0x8000"
| "centered Zcm2 raw = i16_of raw"

definition sign_extend_12 :: "u16 \<Rightarrow> int" where
  "sign_extend_12 v =
     (let x = v AND 0x0FFF in if x AND 0x0800 \<noteq> 0 then int (unat x) - 0x1000 else int (unat x))"

definition raw_triplet :: "ps_kind \<Rightarrow> bytes \<Rightarrow> nat \<Rightarrow> (f32 \<times> f32 \<times> f32) option" where
  "raw_triplet kind buf ofs =
     (case (read_u16_le buf ofs, read_u16_le buf (ofs + 2), read_u16_le buf (ofs + 4)) of
        (Some a, Some b, Some c) \<Rightarrow>
          Some (deswizzle kind (map3 (\<lambda>x. f32_of_int (centered kind x)) (a, b, c)))
      | _ \<Rightarrow> None)"

definition parse_frame ::
  "ps_kind \<Rightarrow> bytes \<Rightarrow> nat \<Rightarrow> nat \<Rightarrow> nat \<Rightarrow> ps_cal \<Rightarrow> imu_sample option" where
  "parse_frame kind buf accel_ofs gyro_ofs ts cal =
     (case (raw_triplet kind buf accel_ofs, raw_triplet kind buf gyro_ofs) of
        (Some a, Some g) \<Rightarrow>
          Some \<lparr>gyro = map3 (\<lambda>x. x * PS_GYRO_SCALE_RAD_S) (apply_gyro cal g),
                accel = map3 (\<lambda>x. x * PS_ACCEL_SCALE_M_S2) (apply_accel cal a),
                mag = None, timestamp_us = of_nat ts\<rparr>
      | _ \<Rightarrow> None)"

definition parse_mag :: "ps_kind \<Rightarrow> bytes \<Rightarrow> (f32 \<times> f32 \<times> f32) option" where
  "parse_mag kind buf =
     map_option (\<lambda>b.
       let x = sign_extend_12 (push_bit 8 (ucast (b ! 0 AND 0x0F)) OR ucast (b ! 1));
           z = sign_extend_12 (push_bit 4 (ucast (b ! 2)) OR ucast (drop_bit 4 (b ! 3)));
           y = sign_extend_12 (push_bit 8 (ucast (b ! 3 AND 0x0F)) OR ucast (b ! 4))
       in deswizzle kind (f32_of_int x, f32_of_int z, f32_of_int y)) (slice_at buf 38 5)"

definition ps_battery :: "u8 \<Rightarrow> battery_state option" where
  "ps_battery b =
     map_option (\<lambda>(f, c). \<lparr>fraction = f, charging = c\<rparr>)
       (map_of [(0x00, (0, False)), (0x01, (f32_lit 2 10, False)), (0x02, (f32_lit 4 10, False)),
          (0x03, (f32_lit 6 10, False)), (0x04, (f32_lit 8 10, False)), (0x05, (1, False)),
          (0xEE, (f32_lit 5 10, True)), (0xEF, (1, True))] b)"

text \<open>None is a report that was not understood; the clock has not moved if it was too short.\<close>

definition ps_parse_report ::
  "ps_kind \<Rightarrow> bytes \<Rightarrow> ps_cal \<Rightarrow> instant \<Rightarrow> report_clock \<Rightarrow> channel_info list option \<times> report_clock" where
  "ps_parse_report kind buf cal now clock =
     (if length buf < 49 then (None, clock)
      else case clock_tick now clock of ((ts_a, ts_b), clock1) \<Rightarrow>
        let m = (if ps_has_mag kind then parse_mag kind buf else None);
            frames = List.map_filter id
              [parse_frame kind buf 13 25 ts_a cal, parse_frame kind buf 19 31 ts_b cal];
            samples_out = map (\<lambda>s. s\<lparr>mag := m\<rparr>) frames
        in if samples_out = [] then (None, clock1)
           else (Some (ImuSamples samples_out #
                   (case ps_battery (buf ! 12) of Some b \<Rightarrow> [Battery b] | None \<Rightarrow> [])), clock1))"

subsection \<open>Pairing\<close>

definition pair_report :: "mac \<Rightarrow> bytes" where
  "pair_report host_mac = [0x05] @ host_mac @ replicate 16 0"

definition pair_to_host :: "text_string + unit \<Rightarrow> mac \<Rightarrow> (text_string + unit) \<times> bytes list" where
  "pair_to_host answer host_mac =
     (case answer of
        Inl e \<Rightarrow> (Inl (''psmove set-bt-addr (0x05) failed: '' @ e), [])
      | Inr _ \<Rightarrow> (Inr (), [pair_report host_mac]))"

text \<open>
  The two reads of the calibration: each returns an error, or how many bytes it wrote into the
  block of 49.
\<close>

datatype cal_error = CalReadFailed text_string | CalBlockShort nat | CalBlockMissing

type_synonym block_read = "text_string + nat \<times> bytes"

definition read_block :: "block_read \<Rightarrow> bytes option \<times> bytes option \<Rightarrow> cal_error + bytes option \<times> bytes option" where
  "read_block r got =
     (case r of
        Inl e \<Rightarrow> Inl (CalReadFailed e)
      | Inr (n, block) \<Rightarrow>
          if n < CAL_BLOCK_LEN then Inl (CalBlockShort n)
          else if block ! 1 AND 0x01 = 0 then Inr (Some block, snd got)
          else Inr (fst got, Some block))"

definition read_factory_calibration :: "ps_kind \<Rightarrow> block_read \<Rightarrow> block_read \<Rightarrow> cal_error + ps_cal" where
  "read_factory_calibration kind r1 r2 =
     (case read_block r1 (None, None) of
        Inl e \<Rightarrow> Inl e
      | Inr got \<Rightarrow>
          (case read_block r2 got of
             Inl e \<Rightarrow> Inl e
           | Inr (Some b0, Some b1) \<Rightarrow> Inr (parse_factory_blob kind (b0 @ b1))
           | Inr _ \<Rightarrow> Inl CalBlockMissing))"

datatype mac_error = OctetCount nat | BadOctet string

fun mac_octets :: "string list \<Rightarrow> mac_error + mac" where
  "mac_octets [] = Inr []"
| "mac_octets (p # ps) =
     (case from_str_radix 255 16 (trim p) of
        None \<Rightarrow> Inl (BadOctet p)
      | Some n \<Rightarrow> map_sum id ((#) (of_nat n)) (mac_octets ps))"

definition parse_mac_str :: "string \<Rightarrow> mac_error + mac" where
  "parse_mac_str s =
     (let parts = split_on (\<lambda>c. c = CHR '':'' \<or> c = CHR ''-'') s in
      if length parts \<noteq> 6 then Inl (OctetCount (length parts)) else mac_octets parts)"

text \<open>The address of the first adapter, from the text of its file in sysfs (Linux).\<close>

definition read_host_mac :: "string \<Rightarrow> mac_error + mac" where
  "read_host_mac text = map_sum id rev (parse_mac_str (trim text))"

subsection \<open>The device\<close>

record ps_output =
  po_rgb :: "u8 \<times> u8 \<times> u8"
  po_rumble :: u8

definition ps_output_off :: ps_output where
  "ps_output_off = \<lparr>po_rgb = (0, 0, 0), po_rumble = 0\<rparr>"

record ps_device =
  pd_meta :: device_metadata
  pd_kind :: ps_kind
  pd_cal :: ps_cal
  pd_handle :: bool
  pd_io :: bool
  pd_output :: ps_output
  pd_output_thread :: bool
  pd_reader :: bool
  pd_written :: "bytes list"

definition ps_new :: "ps_kind \<Rightarrow> text_string \<Rightarrow> mac \<Rightarrow> ps_device" where
  "ps_new kind serial m =
     \<lparr>pd_meta =
        \<lparr>md_id = \<lparr>id_mac = m, id_serial = serial\<rparr>, md_kind = ps_device_kind kind,
         md_firmware = None,
         md_caps = \<lparr>has_magnetometer = ps_has_mag kind, has_battery = True, has_rumble = True,
           native_rate_hz = 175\<rparr>\<rparr>,
      pd_kind = kind, pd_cal = ps_identity, pd_handle = True, pd_io = False,
      pd_output = ps_output_off, pd_output_thread = False, pd_reader = False, pd_written = []\<rparr>"

definition set_calibration :: "ps_cal \<Rightarrow> ps_device \<Rightarrow> ps_device" where
  "set_calibration cal d = d\<lparr>pd_cal := cal\<rparr>"

definition ps_output_report :: "ps_output \<Rightarrow> bytes" where
  "ps_output_report st =
     (case po_rgb st of (r, g, b) \<Rightarrow> [0x06, 0x00, r, g, b, 0x00, po_rumble st, 0x00, 0x00])"

definition ps_led_rgb :: "u8 \<Rightarrow> u8 \<times> u8 \<times> u8" where
  "ps_led_rgb leds =
     (let n = count_ones (leds AND 0x0F) in
      if n = 0 then (0x00, 0x00, 0x00)
      else if n = 1 then (0x00, 0x00, 0xFF)
      else if n = 2 then (0x00, 0xFF, 0xFF)
      else if n = 3 then (0xFF, 0x00, 0xFF)
      else (0xFF, 0xFF, 0xFF))"

definition ps_write_output ::
  "text_string + unit \<Rightarrow> ps_output \<Rightarrow> ps_device \<Rightarrow> (device_error + unit) \<times> ps_device" where
  "ps_write_output answer st d =
     (case answer of
        Inl e \<Rightarrow> (Inl (Hid (''psmove write output failed: '' @ e)), d)
      | Inr _ \<Rightarrow> (Inr (), d\<lparr>pd_written := ps_output_report st # pd_written d\<rparr>))"

definition ps_write_output_now :: "text_string + unit \<Rightarrow> ps_device \<Rightarrow> (device_error + unit) \<times> ps_device" where
  "ps_write_output_now answer d =
     (if \<not> pd_io d then (Inl (Hid ''psmove not started''), d) else ps_write_output answer (pd_output d) d)"

definition ps_start :: "ps_device \<Rightarrow> (device_error + unit) \<times> ps_device" where
  "ps_start d =
     (if \<not> pd_handle d then (Inl (Hid ''device handle already taken''), d)
      else (Inr (), d\<lparr>pd_handle := False, pd_io := True, pd_reader := True, pd_output_thread := True\<rparr>))"

text \<open>One round of the output thread, which repeats what is on every three seconds.\<close>

definition ps_output_round :: "text_string + unit \<Rightarrow> ps_device \<Rightarrow> ps_device" where
  "ps_output_round answer d =
     (if pd_output_thread d \<and> (po_rgb (pd_output d) \<noteq> (0, 0, 0) \<or> po_rumble (pd_output d) \<noteq> 0)
      then snd (ps_write_output answer (pd_output d) d) else d)"

definition ps_stop :: "text_string + unit \<Rightarrow> ps_device \<Rightarrow> ps_device" where
  "ps_stop answer d =
     (let d1 = d\<lparr>pd_reader := False, pd_output_thread := False\<rparr>;
          d2 = (if pd_io d1 then snd (ps_write_output answer ps_output_off d1) else d1)
      in d2\<lparr>pd_io := False\<rparr>)"

definition ps_set_led_mask :: "text_string + unit \<Rightarrow> u8 \<Rightarrow> ps_device \<Rightarrow> (device_error + unit) \<times> ps_device" where
  "ps_set_led_mask answer leds d =
     ps_write_output_now answer (d\<lparr>pd_output := (pd_output d)\<lparr>po_rgb := ps_led_rgb leds\<rparr>\<rparr>)"

definition ps_set_rumble :: "text_string + unit \<Rightarrow> f32 \<Rightarrow> ps_device \<Rightarrow> (device_error + unit) \<times> ps_device" where
  "ps_set_rumble answer x d =
     ps_write_output_now answer (d\<lparr>pd_output := (pd_output d)\<lparr>po_rumble := rumble_to_u8 x\<rparr>\<rparr>)"

text \<open>The state of the reading thread is the connected flag and the clock.\<close>

definition ps_on_report ::
  "ps_kind \<Rightarrow> ps_cal \<Rightarrow> device_id \<Rightarrow> bytes \<Rightarrow> instant \<Rightarrow> bool \<times> report_clock
    \<Rightarrow> channel_info list \<times> bool \<times> report_clock" where
  "ps_on_report kind cal i buf now st =
     (case st of (connected, clock) \<Rightarrow>
        let greet = (if connected then [] else [Connected i]) in
        case ps_parse_report kind buf cal now clock of
          (None, clock1) \<Rightarrow> (greet, True, clock1)
        | (Some evs, clock1) \<Rightarrow> (greet @ evs, True, clock1))"

definition ps_read :: "ps_device \<Rightarrow> read_result list \<Rightarrow> channel_info list" where
  "ps_read d rs =
     reader_loop (ps_on_report (pd_kind d) (pd_cal d) (md_id (pd_meta d))) (False, report_clock_new) rs"

subsection \<open>Discovery\<close>

definition ps_listed :: "hid_info \<Rightarrow> bool" where
  "ps_listed i \<longleftrightarrow> hi_vendor i = 0x054C \<and> ps_from_pid (hi_pid i) \<noteq> None"

definition ps_gamepad :: "hid_info \<Rightarrow> bool" where
  "ps_gamepad i \<longleftrightarrow> hi_usage_page i = 1 \<and> hi_usage i = 5"

definition ps_collections :: "(hid_info \<times> 'r) list \<Rightarrow> (hid_info \<times> 'r) list" where
  "ps_collections listed =
     (let infos = filter (\<lambda>e. ps_listed (fst e)) listed in
      if list_ex (\<lambda>e. ps_gamepad (fst e)) infos then filter (\<lambda>e. ps_gamepad (fst e)) infos else infos)"

text \<open>\<open>key_text\<close> is the text form of a key, which stands in for a missing serial.\<close>

definition ps_mac :: "(hid_key \<Rightarrow> text_string) \<Rightarrow> hid_info \<Rightarrow> mac" where
  "ps_mac key_text i = hash_to_mac (if hi_serial i = [] then key_text (hid_key i) else hi_serial i)"

text \<open>The calibration is read when the controller is opened; \<open>reads\<close> are the answers.\<close>

definition ps_emit ::
  "(hid_key \<Rightarrow> text_string) \<Rightarrow> (hid_info \<Rightarrow> block_read \<times> block_read) \<Rightarrow> hid_info \<times> ps_kind \<Rightarrow> ps_device" where
  "ps_emit key_text reads e =
     (case e of (i, kind) \<Rightarrow>
        set_calibration
          (case read_factory_calibration kind (fst (reads i)) (snd (reads i)) of
             Inr cal \<Rightarrow> cal | Inl _ \<Rightarrow> ps_identity)
          (ps_new kind (hi_serial i) (ps_mac key_text i)))"

definition ps_enumerate ::
  "(hid_key \<Rightarrow> text_string) \<Rightarrow> (hid_info \<Rightarrow> block_read \<times> block_read)
    \<Rightarrow> (hid_info \<times> bool \<times> bool) list option list \<Rightarrow> ps_device list list" where
  "ps_enumerate key_text reads rounds =
     map (map (ps_emit key_text reads))
       (hid_rounds (\<lambda>i. ps_from_pid (hi_pid i)) {} (map (map_option ps_collections) rounds))"

text \<open>
  Pairing takes the first controller listed; \<open>opens\<close> and \<open>answer\<close> are what opening it and
  sending the report return.
\<close>

definition ps_pair ::
  "(hid_info \<Rightarrow> text_string + unit) \<Rightarrow> (hid_info \<Rightarrow> text_string + unit) \<Rightarrow> mac \<Rightarrow> hid_info list
    \<Rightarrow> device_error + text_string" where
  "ps_pair opens answer host_mac infos =
     (case filter ps_listed infos of
        [] \<Rightarrow> Inl (Hid ''no wired PS Move found (connect it by USB to pair)'')
      | i # _ \<Rightarrow>
          (case opens i of
             Inl e \<Rightarrow> Inl (Hid e)
           | Inr _ \<Rightarrow>
               (case pair_to_host (answer i) host_mac of
                  (Inl e, _) \<Rightarrow> Inl (Hid e)
                | (Inr _, _) \<Rightarrow> Inr (''psmove:'' @ hi_serial i))))"

definition ps_list_paired ::
  "(hid_key \<Rightarrow> text_string) \<Rightarrow> hid_info list \<Rightarrow> (hid_info \<times> ps_kind \<times> mac) list" where
  "ps_list_paired key_text infos =
     List.map_filter (\<lambda>i.
       if hi_vendor i \<noteq> 0x054C then None
       else map_option (\<lambda>k. (i, k, ps_mac key_text i)) (ps_from_pid (hi_pid i))) infos"

end
