(* ===== verification/Ps_Move_Props.thy ===== *)
theory Ps_Move_Props
  imports Ps_Move
begin

unbundle bit_operations_syntax

section \<open>Properties of the PS Move driver\<close>

text \<open>
  The dates of the samples, the gains a factory calibration can have and what the second block
  of the calibration does to one of them, and the magnetometer sweep.
\<close>

subsection \<open>Dates\<close>

fun tick_all :: "instant list \<Rightarrow> report_clock \<Rightarrow> nat list" where
  "tick_all [] c = []"
| "tick_all (now # rest) c = (case clock_tick now c of ((a, b), c1) \<Rightarrow> a # b # tick_all rest c1)"

lemma clock_tick_cases:
  obtains dt ema where "1 \<le> dt" "clock_tick now c =
    ((rc_accum c + dt div 2, rc_accum c + dt), \<lparr>rc_last = Some now, rc_accum = rc_accum c + dt, rc_ema = ema\<rparr>)"
proof -
  have "\<exists>dt ema. 1 \<le> dt \<and> clock_tick now c =
    ((rc_accum c + dt div 2, rc_accum c + dt), \<lparr>rc_last = Some now, rc_accum = rc_accum c + dt, rc_ema = ema\<rparr>)"
    unfolding clock_tick_def Let_def using f32_max_1_pos [of "2 ^ 64 - 1"] by fastforce
  then show thesis using that by blast
qed

lemma tick_all_sorted: "sorted (rc_accum c # tick_all nows c)"
proof (induction nows arbitrary: c)
  case (Cons now rest)
  obtain dt ema where t: "clock_tick now c =
      ((rc_accum c + dt div 2, rc_accum c + dt), \<lparr>rc_last = Some now, rc_accum = rc_accum c + dt, rc_ema = ema\<rparr>)"
    by (rule clock_tick_cases)
  with Cons [of "\<lparr>rc_last = Some now, rc_accum = rc_accum c + dt, rc_ema = ema\<rparr>"] show ?case
    by (auto intro: order.trans)
qed simp

lemma length_tick_all [simp]: "length (tick_all nows c) = 2 * length nows"
proof (induction nows arbitrary: c)
  case (Cons now rest)
  show ?case by (rule clock_tick_cases [of now c]) (simp add: Cons)
qed simp

text \<open>
  Whatever the times at which reports arrive, even a clock that stands still or a
  long pause, the dates given to the samples never go back, and each report ends at least a
  microsecond after the one before it.
\<close>

theorem sample_dates_advance:
  "sorted (tick_all nows c) \<and> length (tick_all nows c) = 2 * length nows
   \<and> (\<forall>now. rc_accum c < rc_accum (snd (clock_tick now c))
        \<and> snd (fst (clock_tick now c)) = rc_accum (snd (clock_tick now c)))"
proof -
  have "sorted (tick_all nows c)"
    using tick_all_sorted [of c nows] by simp
  moreover have "rc_accum c < rc_accum (snd (clock_tick now c))
      \<and> snd (fst (clock_tick now c)) = rc_accum (snd (clock_tick now c))" for now
    by (rule clock_tick_cases [of now c]) simp
  ultimately show ?thesis by simp
qed

subsection \<open>Gains\<close>

definition gain_ok :: "f32 \<Rightarrow> bool" where
  "gain_ok x \<longleftrightarrow> (\<exists>k. f32_val x = FFin False k \<and> 0 < k)"

lemma gain_ok_1: "gain_ok 1"
  by (simp add: gain_ok_def fmt32_def)

lemma read_i16_bound: "read_i16_le buf off = Some v \<Longrightarrow> - 32768 \<le> v \<and> v < 32768"
  by (auto simp: read_i16_le_def i16_of_range)

text \<open>Folding the samples keeps the range within the 16-bit values once it is not empty.\<close>

definition range_ok :: "int \<times> int \<Rightarrow> bool" where
  "range_ok r \<longleftrightarrow> fst r < snd r \<longrightarrow> - 32768 \<le> fst r \<and> snd r < 32768"

lemma accel_range_ok: "range_ok (accel_range blob axis)"
proof -
  have step: "(\<lambda>(lo, up). (lo = 2 ^ 31 - 1 \<and> up = - (2 ^ 31)) \<or> (- 32768 \<le> lo \<and> lo \<le> up \<and> up < 32768))
      (fold (\<lambda>s (lo, up). case read_i16_le blob (OFS_ACCEL_SAMPLES + s * 6 + axis * 2) of
         Some v \<Rightarrow> (min lo v, max up v) | None \<Rightarrow> (lo, up)) ss (2 ^ 31 - 1, - (2 ^ 31)))"
    for ss :: "nat list"
  proof (induction ss rule: rev_induct)
    case (snoc s ss)
    then show ?case
      by (auto split: prod.splits option.splits dest!: read_i16_bound)
  qed simp
  from step [of "[0..<6]"] show ?thesis
    by (auto simp: accel_range_def range_ok_def split: prod.splits)
qed

lemma half_span:
  assumes "0 < n" "n < 65536"
  shows "\<exists>k. f32_val (f32_of_int n / f32_lit 2 1) = FFin False k
    \<and> funit fmt32 \<le> 2 * k \<and> k \<le> 2 ^ 17 * funit fmt32"
proof -
  have n: "f32_val (f32_of_int n) = FFin False (nat n * 2 ^ 149)"
    using assms f32_val_of_int [of n] by (simp add: fmt32_def)
  let ?m = "nat n"
  have m: "0 < ?m" "?m < 2 ^ 16" using assms by auto
  have r: "repr 23 (?m * 2 ^ 148)"
    using m by (intro repr_mult_pow) simp
  have "fp_make fmt32 False (?m * 2 ^ 148 * (2 * 2 ^ 149)) (2 * 2 ^ 149) = FFin False (?m * 2 ^ 148)"
  proof (rule fp_make_exact)
    show "repr (mbits fmt32) (?m * 2 ^ 148)" using r by simp
    have "?m * 2 ^ 148 < 2 ^ 16 * 2 ^ 148" using m by simp
    also have "\<dots> < flimit fmt32" by (simp add: fmt32_def)
    finally show "?m * 2 ^ 148 < flimit fmt32" .
  qed (simp_all add: fmt32_def)
  moreover have "?m * 2 ^ 149 * funit fmt32 = ?m * 2 ^ 148 * (2 * 2 ^ 149)"
    by (simp add: fmt32_def)
  ultimately have "f32_val (f32_of_int n / f32_lit 2 1) = FFin False (?m * 2 ^ 148)"
    using n f32_lit_int [of 2] by (simp add: fmt32_def)
  with m show ?thesis by (auto simp: fmt32_def)
qed

lemma accel_gain_ok: "gain_ok (snd (accel_fit blob axis))"
proof -
  obtain lo up where r: "accel_range blob axis = (lo, up)" by fastforce
  show ?thesis
  proof (cases "lo < up")
    case True
    with accel_range_ok [of blob axis] r have "0 < up - lo" "up - lo < 65536"
      by (auto simp: range_ok_def)
    then obtain k where k: "f32_val (f32_of_int (up - lo) / f32_lit 2 1) = FFin False k"
        "funit fmt32 \<le> 2 * k" "k \<le> 2 ^ 17 * funit fmt32"
      using half_span by blast
    have n: "f32_val nominal_accel_half_span = FFin False (16384 * funit fmt32)"
      using f32_lit_int [of 16384] by (simp add: nominal_accel_half_span_def)
    have "gain_ok (nominal_accel_half_span / (f32_of_int (up - lo) / f32_lit 2 1))"
      unfolding gain_ok_def
      by (rule f32_quotient_pos_gen [OF n k(1)]) (use k in \<open>simp_all add: fmt32_def\<close>)
    with True r show ?thesis by (simp add: accel_fit_def)
  next
    case False
    with r show ?thesis by (simp add: accel_fit_def gain_ok_1)
  qed
qed

lemma nominal_gyro_value: "\<exists>k. f32_val nominal_gyro_90rpm_lsb = FFin False k
    \<and> funit fmt32 \<le> k \<and> k \<le> 2 ^ 14 * funit fmt32"
  by (simp add: nominal_gyro_90rpm_lsb_def f32_eval)

lemma gyro_bias_int: "\<exists>b. int_valued (gyro_bias_at blob axis) b \<and> \<bar>b\<bar> \<le> 32768"
proof -
  let ?b = "case read_i16_le blob (OFS_GYRO_BIAS + axis * 2) of Some v \<Rightarrow> v | None \<Rightarrow> 0"
  have "\<bar>?b\<bar> \<le> 32768" by (auto split: option.split dest!: read_i16_bound)
  then show ?thesis
    unfolding gyro_bias_at_def by (intro exI [of _ ?b] conjI int_valued_of_int) simp_all
qed

lemma gyro_gain_ok: "gain_ok (gyro_gain_at blob axis)"
proof (cases "read_i16_le blob (OFS_GYRO_90RPM + axis * 6 + axis * 2)")
  case None
  then show ?thesis by (simp add: gyro_gain_at_def gain_ok_1)
next
  case (Some v)
  obtain b where b: "int_valued (gyro_bias_at blob axis) b" "\<bar>b\<bar> \<le> 32768"
    using gyro_bias_int by blast
  from read_i16_bound [OF Some] have v: "\<bar>v\<bar> \<le> 32768" by linarith
  let ?d = "\<bar>f32_of_int v - gyro_bias_at blob axis\<bar>"
  have d: "int_valued ?d \<bar>v - b\<bar>"
    using b v by (intro int_valued_abs int_valued_sub int_valued_of_int) simp_all
  then have dv: "f32_val ?d = FFin False (nat \<bar>v - b\<bar> * funit fmt32)"
    by (simp add: int_valued_def)
  obtain k where k: "f32_val nominal_gyro_90rpm_lsb = FFin False k" "funit fmt32 \<le> k"
      "k \<le> 2 ^ 14 * funit fmt32"
    using nominal_gyro_value by blast
  have "gain_ok (nominal_gyro_90rpm_lsb / ?d)" if one: "1 < ?d"
  proof -
    have pos: "0 < nat \<bar>v - b\<bar>"
      using one dv by (cases "nat \<bar>v - b\<bar>") (simp_all add: less_f32_def sgn_int_def)
    have le: "nat \<bar>v - b\<bar> \<le> 65536" using b v by simp
    show ?thesis
      unfolding gain_ok_def
    proof (rule f32_quotient_pos_gen [OF k(1) dv])
      show "0 < nat \<bar>v - b\<bar> * funit fmt32" using pos by (simp add: fmt32_def)
      have "nat \<bar>v - b\<bar> \<le> k" using le k(2) by (simp add: fmt32_def)
      then show "nat \<bar>v - b\<bar> * funit fmt32 \<le> k * funit fmt32" by simp
      have "k * funit fmt32 \<le> 2 ^ 276 * funit fmt32"
        using k(3) by (simp add: fmt32_def)
      also have "\<dots> \<le> 2 ^ 276 * (nat \<bar>v - b\<bar> * funit fmt32)" using pos by simp
      finally show "k * funit fmt32 \<le> 2 ^ 276 * (nat \<bar>v - b\<bar> * funit fmt32)" .
    qed
  qed
  with Some show ?thesis by (simp add: gyro_gain_at_def gain_ok_1 Let_def)
qed

text \<open>
  Whatever bytes the calibration blocks hold, every gain is a positive finite
  number: no division by zero, no infinity, no axis turned round.
\<close>

theorem factory_gains_positive:
  "all3 gain_ok (pc_accel_gain (parse_factory_blob kind blob))
   \<and> all3 gain_ok (pc_gyro_gain (parse_factory_blob kind blob))"
  by (simp add: parse_factory_blob_def ps_identity_def axes3_def gain_ok_1 accel_gain_ok gyro_gain_ok)

subsection \<open>The two calibration blocks\<close>

text \<open>
  The two halves of the calibration may come in either order. They are joined with
  the header of the second still in place: the byte which the feature read leaves at its start,
  the report number 0x10, becomes the high byte of the gain reference of the x gyroscope, which
  therefore lies between 4096 and 4351 on every controller.
\<close>

theorem second_block_header_in_gain:
  assumes "length first_half = 47" "length second_half = 47"
  shows "read_factory_calibration kind (Inr (49, [0x10, 0x00] @ first_half)) (Inr (49, [0x10, 0x01] @ second_half))
       = read_factory_calibration kind (Inr (49, [0x10, 0x01] @ second_half)) (Inr (49, [0x10, 0x00] @ first_half))
   \<and> read_factory_calibration kind (Inr (49, [0x10, 0x00] @ first_half)) (Inr (49, [0x10, 0x01] @ second_half))
       = Inr (parse_factory_blob kind ([0x10, 0x00] @ first_half @ [0x10, 0x01] @ second_half))
   \<and> read_i16_le ([0x10, 0x00] @ first_half @ [0x10, 0x01] @ second_half) OFS_GYRO_90RPM
       = Some (4096 + int (unat (last first_half)))"
proof -
  obtain front b where f: "first_half = front @ [b]" "length front = 46"
    using assms(1) by (cases first_half rule: rev_cases) simp_all
  have b: "unat b < 256" by (rule unat_u8_less)
  have "sint (word_of_nat (n + 4096) :: u16) = int n + 4096" if "n < 256" for n
    using that by (simp only: signed_of_nat) (simp add: signed_take_bit_int_eq_self)
  from this [OF b] have "i16_of (from_le [b, 0x10]) = 4096 + int (unat b)"
    by (simp add: i16_of_def from_le_def)
  then show ?thesis
    using assms f
    by (simp add: read_factory_calibration_def read_block_def CAL_BLOCK_LEN_def OFS_GYRO_90RPM_def
        read_i16_le_def)
qed

theorem second_block_header_in_gain_witness:
  "read_i16_le ([0x10, 0x00] @ replicate 47 5 @ [0x10, 0x01] @ replicate 47 7) OFS_GYRO_90RPM = Some 4101"
proof -
  have "last (replicate 47 5) = (5 :: u8)" by (simp add: last_replicate)
  then show ?thesis
    using second_block_header_in_gain [of "replicate 47 5" "replicate 47 7" Zcm1]
    by (simp only: length_replicate simp_thms) simp
qed

subsection \<open>The magnetometer sweep\<close>

text \<open>
  A sweep is ready when every axis spans more than 50, but an axis counts in the scale only
  when half its span does: a sweep that is accepted with a span of 60 on one axis multiplies
  that axis by more than 300.
\<close>

definition narrow_sweep :: mag_sweep where
  "narrow_sweep =
     \<lparr>ms_min = (- f32_lit 30 1, - f32_lit 500 1, - f32_lit 500 1),
      ms_max = (f32_lit 30 1, f32_lit 500 1, f32_lit 500 1), ms_samples = 200\<rparr>"

lemma span_values:
  "f32_val (f32_lit 30 1 - - f32_lit 30 1) = FFin False (60 * funit fmt32)"
  "f32_val (f32_lit 500 1 - - f32_lit 500 1) = FFin False (1000 * funit fmt32)"
  by (simp_all add: f32_eval)

lemma half_span_values:
  "f32_val ((f32_lit 30 1 - - f32_lit 30 1) / f32_lit 2 1) = FFin False (30 * funit fmt32)"
  "f32_val ((f32_lit 500 1 - - f32_lit 500 1) / f32_lit 2 1) = FFin False (500 * funit fmt32)"
  by (simp_all add: f32_eval)

lemma sweep_scale_jumps:
  "mag_sweep_ready narrow_sweep \<and> f32_lit 300 1 < fst (mag_sweep_scale narrow_sweep)"
proof -
  let ?x = "(f32_lit 500 1 - - f32_lit 500 1) / f32_lit 2 1"
  have "mag_sweep_ready narrow_sweep"
    using span_values by (simp add: mag_sweep_ready_def narrow_sweep_def MIN_USEFUL_SPAN_def less_f32_def
        f32_lit_Suc sgn_int_def fmt32_def del: f32_ops_val)
  moreover have "mag_sweep_radius narrow_sweep = (1, ?x, ?x)"
    using half_span_values by (simp add: mag_sweep_radius_def narrow_sweep_def MIN_USEFUL_SPAN_def less_f32_def
        f32_lit_Suc sgn_int_def fmt32_def Let_def del: f32_ops_val)
  moreover have "f32_lit 300 1 < (1 + ?x + ?x) / f32_lit 3 1 / 1"
  proof -
    have "int_valued (1 + ?x + ?x) (1 + 500 + 500)"
      using half_span_values(2) by (intro int_valued_add) (simp_all add: int_valued_def)
    then have "f32_val (1 + ?x + ?x) = FFin False (1001 * funit fmt32)"
      by (simp add: int_valued_def)
    then show ?thesis
      by (simp add: less_f32_def f32_ops_val(4)) (simp add: f32_eval)
  qed
  moreover have "0 < (1 :: f32)"
    by (simp add: less_f32_def sgn_int_def fmt32_def)
  ultimately show ?thesis
    by (simp add: mag_sweep_scale_def Let_def)
qed

end
