(* ===== verification/Dual_Shock3.thy ===== *)
theory Dual_Shock3
  imports Hid_Common "HOL-Library.Sublist"
begin

section \<open>DualShock 3\<close>

text \<open>
  \<^verbatim>\<open>crates/device-dualshock3\<close>: the motion words of an input report, the device with its reading
  thread, which gives the pad up after ten failed reads in a row, and discovery.
\<close>

subsection \<open>Reports\<close>

record ds3_motion =
  d3_accel :: "u16 \<times> u16 \<times> u16"
  d3_gyro_z :: u16

definition u16_be_at :: "bytes \<Rightarrow> nat \<Rightarrow> u16" where
  "u16_be_at buf off = from_be (sub_slice buf off 2)"

definition parse_input_report :: "bytes \<Rightarrow> ds3_motion option" where
  "parse_input_report buf =
     (if length buf < 49 \<or> buf ! 0 \<noteq> 0x01 then None
      else Some \<lparr>d3_accel = (u16_be_at buf 41, u16_be_at buf 43, u16_be_at buf 45),
                 d3_gyro_z = u16_be_at buf 47\<rparr>)"

definition imu_from_motion :: "ds3_motion \<Rightarrow> instant \<Rightarrow> instant \<Rightarrow> imu_sample" where
  "imu_from_motion m begun now =
     (let word = (\<lambda>raw. f32_of_int (int (unat raw)) - f32_lit 512 1) in
      \<lparr>gyro = (0, 0, word (d3_gyro_z m) / f32_lit 123 1),
       accel = map3 (\<lambda>raw. word raw / f32_lit 113 1 * GRAVITY) (d3_accel m),
       mag = None, timestamp_us = of_nat (as_micros (now - begun))\<rparr>)"

subsection \<open>The device\<close>

definition ENABLE_FEATURE :: bytes where
  "ENABLE_FEATURE = [0xF4, 0x42, 0x0C, 0x00, 0x00]"

definition MAX_CONSECUTIVE_READ_ERRORS :: nat where
  "MAX_CONSECUTIVE_READ_ERRORS = 10"

record ds3_device =
  d3_meta :: device_metadata
  d3_handle :: bool
  d3_shutdown :: bool
  d3_reader :: bool
  d3_features :: "bytes list"

definition ds3_new :: "text_string \<Rightarrow> mac \<Rightarrow> ds3_device" where
  "ds3_new serial m =
     \<lparr>d3_meta =
        \<lparr>md_id = \<lparr>id_mac = m, id_serial = serial\<rparr>, md_kind = DualShock3, md_firmware = None,
         md_caps = \<lparr>has_magnetometer = False, has_battery = False, has_rumble = False,
           native_rate_hz = 100\<rparr>\<rparr>,
      d3_handle = True, d3_shutdown = False, d3_reader = False, d3_features = []\<rparr>"

text \<open>The feature report may be refused; the device starts all the same.\<close>

definition ds3_start :: "text_string + unit \<Rightarrow> ds3_device \<Rightarrow> (device_error + unit) \<times> ds3_device" where
  "ds3_start answer d =
     (if \<not> d3_handle d then (Inl (Hid ''ds3 already started''), d)
      else (Inr (), d\<lparr>d3_handle := False, d3_reader := True,
        d3_features := (case answer of Inr _ \<Rightarrow> [ENABLE_FEATURE] | Inl _ \<Rightarrow> []) @ d3_features d\<rparr>))"

definition ds3_stop :: "ds3_device \<Rightarrow> ds3_device" where
  "ds3_stop d = d\<lparr>d3_shutdown := True, d3_reader := False\<rparr>"

text \<open>The loop of the thread, with the number of reads that have failed in a row.\<close>

fun ds3_loop :: "instant \<Rightarrow> nat \<Rightarrow> read_result list \<Rightarrow> channel_info list" where
  "ds3_loop begun errs [] = []"
| "ds3_loop begun errs (ReadStopped # rs) = [Disconnected]"
| "ds3_loop begun errs (ReadNothing # rs) = ds3_loop begun 0 rs"
| "ds3_loop begun errs (ReadReport buf now # rs) =
     (case parse_input_report buf of
        Some m \<Rightarrow> ImuSamples [imu_from_motion m begun now] # ds3_loop begun 0 rs
      | None \<Rightarrow> ds3_loop begun 0 rs)"
| "ds3_loop begun errs (ReadFailed # rs) =
     (if MAX_CONSECUTIVE_READ_ERRORS \<le> Suc errs then [Disconnected] else ds3_loop begun (Suc errs) rs)"

definition ds3_events :: "ds3_device \<Rightarrow> instant \<Rightarrow> read_result list \<Rightarrow> channel_info list" where
  "ds3_events d begun rs = Connected (md_id (d3_meta d)) # ds3_loop begun 0 rs"

subsection \<open>Discovery\<close>

definition ds3_listed :: "hid_info \<Rightarrow> bool" where
  "ds3_listed i \<longleftrightarrow> hi_vendor i = 0x054C \<and> hi_pid i = 0x0268"

definition ds3_emit :: "hid_info \<times> unit \<Rightarrow> ds3_device" where
  "ds3_emit e = (case e of (i, _) \<Rightarrow> ds3_new (hi_serial i) (hash_to_mac (hi_serial i)))"

definition ds3_enumerate :: "(hid_info \<times> bool \<times> bool) list option list \<Rightarrow> ds3_device list list" where
  "ds3_enumerate rounds =
     map (map ds3_emit)
       (hid_rounds (\<lambda>_. Some ()) {} (map (map_option (filter (\<lambda>(i, _). ds3_listed i))) rounds))"

subsection \<open>Properties\<close>

lemma sublist_replicate_Cons:
  assumes "k < n" "x \<noteq> y"
  shows "sublist (replicate n x) (replicate k x @ y # rs) \<longleftrightarrow> sublist (replicate n x) rs"
  using assms(1)
proof (induction k)
  case 0
  with assms(2) show ?case by (cases n) (auto simp: sublist_Cons_right)
next
  case (Suc k)
  have "\<not> prefix (replicate n x) (replicate (Suc k) x @ y # rs)"
  proof
    assume p: "prefix (replicate n x) (replicate (Suc k) x @ y # rs)"
    then have "replicate n x ! Suc k = (replicate (Suc k) x @ y # rs) ! Suc k"
      using Suc.prems by (metis length_replicate prefix_def nth_append)
    then show False using Suc.prems assms(2) by (simp add: nth_append)
  qed
  with Suc show ?case by (simp add: sublist_Cons_right)
qed

lemma ds3_gives_up:
  "errs < 10 \<Longrightarrow> Disconnected \<in> set (ds3_loop begun errs rs) \<longleftrightarrow>
     ReadStopped \<in> set rs \<or> sublist (replicate 10 ReadFailed) (replicate errs ReadFailed @ rs)"
proof (induction begun errs rs rule: ds3_loop.induct)
  case (1 begun errs)
  then show ?case by (auto dest: sublist_length_le)
next
  case (5 begun errs rs)
  show ?case
  proof (cases "Suc errs < 10")
    case True
    with True 5 show ?thesis by (simp add: MAX_CONSECUTIVE_READ_ERRORS_def replicate_app_Cons_same)
  next
    case False
    with 5 have errs: "errs = 9" by simp
    have "replicate 9 ReadFailed @ ReadFailed # rs = replicate 10 ReadFailed @ rs"
      by (simp add: numeral_eq_Suc)
    then have "sublist (replicate 10 ReadFailed) (replicate 9 ReadFailed @ ReadFailed # rs)"
      by (metis sublist_append_rightI)
    with errs show ?thesis by (simp add: MAX_CONSECUTIVE_READ_ERRORS_def)
  qed
qed (auto simp: sublist_replicate_Cons split: option.split)

text \<open>
  The reading thread of a DualShock 3 reports the pad as gone exactly when it is
  stopped or ten reads fail in a row: whatever glitches come in between, shorter runs of
  failures are survived.
\<close>

theorem ds3_disconnects_exactly:
  "Disconnected \<in> set (ds3_events d begun rs) \<longleftrightarrow>
     ReadStopped \<in> set rs \<or> sublist (replicate 10 ReadFailed) rs"
  using ds3_gives_up [of 0 begun rs] by (simp add: ds3_events_def)

end
