(* ===== verification/Steam_Pads.thy ===== *)
theory Steam_Pads
  imports Hid_Common
begin

unbundle bit_operations_syntax

section \<open>Steam Deck and Steam Controller\<close>

text \<open>
  \<^verbatim>\<open>crates/device-steam-deck\<close> and \<^verbatim>\<open>crates/device-steam-controller\<close>: the feature reports that turn
  the raw stream on, the state reports and their scales, the two devices with their reading
  threads, and discovery. The clock of a device counts from its creation.
\<close>

subsection \<open>Scales\<close>

definition steam_gyro_rad_s :: "int \<Rightarrow> f32" where
  "steam_gyro_rad_s raw = (f32_of_int raw / f32_lit 32768 1) * f32_lit 2000 1 * deg_to_rad"

definition steam_accel_m_s2 :: "int \<Rightarrow> f32" where
  "steam_accel_m_s2 raw = (f32_of_int raw / f32_lit 32768 1) * f32_lit 2 1 * GRAVITY"

subsection \<open>Feature reports\<close>

definition ID_SET_DIGITAL_MAPPINGS :: u8 where
  "ID_SET_DIGITAL_MAPPINGS = 0x80"

definition ID_CLEAR_DIGITAL_MAPPINGS :: u8 where
  "ID_CLEAR_DIGITAL_MAPPINGS = 0x81"

definition ID_SET_SETTINGS_VALUES :: u8 where
  "ID_SET_SETTINGS_VALUES = 0x87"

definition ID_LOAD_DEFAULT_SETTINGS :: u8 where
  "ID_LOAD_DEFAULT_SETTINGS = 0x8E"

definition build_feature_report :: "u8 \<Rightarrow> bytes" where
  "build_feature_report report_id = report_id # replicate 64 0"

definition lizard_disable_sequence :: "bytes list" where
  "lizard_disable_sequence =
     map build_feature_report
       [ID_CLEAR_DIGITAL_MAPPINGS, ID_LOAD_DEFAULT_SETTINGS, ID_SET_DIGITAL_MAPPINGS]"

definition build_simple :: "u8 \<Rightarrow> bytes" where
  "build_simple command_id = [0, command_id, 0] @ replicate 62 0"

definition build_set_setting_u16 :: "u8 \<Rightarrow> u16 \<Rightarrow> bytes" where
  "build_set_setting_u16 key v =
     [0, ID_SET_SETTINGS_VALUES, 3, key, ucast (v AND 0xFF), ucast (drop_bit 8 v)] @ replicate 59 0"

definition enable_imu_raw :: bytes where
  "enable_imu_raw = build_set_setting_u16 0x30 (0x0001 OR 0x0002)"

definition sc_init_sequence :: "bytes list" where
  "sc_init_sequence =
     [build_simple ID_CLEAR_DIGITAL_MAPPINGS, build_simple ID_LOAD_DEFAULT_SETTINGS, enable_imu_raw]"

text \<open>
  Sending feature reports one after the other, up to the first that fails: the \<open>n\<close>th answer is
  for the \<open>n\<close>th report.
\<close>

fun send_features :: "(text_string + unit) list \<Rightarrow> bytes list \<Rightarrow> (device_error + unit) \<times> bytes list" where
  "send_features answers [] = (Inr (), [])"
| "send_features [] (r # rs) = map_prod id ((#) r) (send_features [] rs)"
| "send_features (Inl e # answers) (r # rs) = (Inl (Hid e), [])"
| "send_features (Inr _ # answers) (r # rs) = map_prod id ((#) r) (send_features answers rs)"

subsection \<open>State reports\<close>

record deck_report =
  dk_seq :: u32
  dk_accel :: "int \<times> int \<times> int"
  dk_gyro :: "int \<times> int \<times> int"

datatype deck_report_error = DeckTooShort nat | DeckBadReportId u8

definition deck_parse :: "bytes \<Rightarrow> deck_report_error + deck_report" where
  "deck_parse buf =
     (if length buf < 60 then Inl (DeckTooShort (length buf))
      else if buf ! 0 \<noteq> 0x01 then Inl (DeckBadReportId (buf ! 0))
      else Inr \<lparr>dk_seq = u32_le_at buf 4, dk_accel = i16_triple_at buf 28, dk_gyro = i16_triple_at buf 34\<rparr>)"

record sc_state =
  sc_accel :: "int \<times> int \<times> int"
  sc_gyro :: "int \<times> int \<times> int"
  sc_quat :: "int \<times> int \<times> int \<times> int"

text \<open>The error is the length.\<close>

definition parse_state :: "bytes \<Rightarrow> nat + sc_state" where
  "parse_state body =
     (if length body < 64 then Inl (length body)
      else Inr \<lparr>sc_accel = i16_triple_at body 20, sc_gyro = i16_triple_at body 26,
        sc_quat = (i16_le_at body 32, i16_le_at body 34, i16_le_at body 36, i16_le_at body 38)\<rparr>)"

definition steam_sample :: "int \<times> int \<times> int \<Rightarrow> int \<times> int \<times> int \<Rightarrow> nat \<Rightarrow> imu_sample" where
  "steam_sample a g ts =
     \<lparr>gyro = map3 steam_gyro_rad_s g, accel = map3 steam_accel_m_s2 a, mag = None,
      timestamp_us = of_nat ts\<rparr>"

definition deck_on_report :: "instant \<Rightarrow> bytes \<Rightarrow> instant \<Rightarrow> channel_info list" where
  "deck_on_report epoch buf now =
     (if length buf < 60 then []
      else case deck_parse buf of
             Inl _ \<Rightarrow> []
           | Inr r \<Rightarrow> [ImuSamples [steam_sample (dk_accel r) (dk_gyro r) (as_micros (now - epoch))]])"

definition sc_on_report :: "instant \<Rightarrow> bytes \<Rightarrow> instant \<Rightarrow> channel_info list" where
  "sc_on_report epoch buf now =
     (if length buf < 64 then []
      else case parse_state buf of
             Inl _ \<Rightarrow> []
           | Inr r \<Rightarrow> [ImuSamples [steam_sample (sc_accel r) (sc_gyro r) (as_micros (now - epoch))]])"

text \<open>The loop of either thread. It announces the end also when it was stopped.\<close>

fun steam_loop :: "(bytes \<Rightarrow> instant \<Rightarrow> channel_info list) \<Rightarrow> read_result list \<Rightarrow> channel_info list" where
  "steam_loop on_report [] = []"
| "steam_loop on_report (ReadStopped # rs) = [Disconnected]"
| "steam_loop on_report (ReadFailed # rs) = [Disconnected]"
| "steam_loop on_report (ReadNothing # rs) = steam_loop on_report rs"
| "steam_loop on_report (ReadReport buf now # rs) = on_report buf now @ steam_loop on_report rs"

subsection \<open>The Steam Deck\<close>

record deck_device =
  dd_meta :: device_metadata
  dd_epoch :: instant
  dd_running :: bool
  dd_watchdog :: bool
  dd_features :: "bytes list"

definition deck_new :: "text_string \<Rightarrow> mac \<Rightarrow> instant \<Rightarrow> deck_device" where
  "deck_new serial m now =
     \<lparr>dd_meta =
        \<lparr>md_id = \<lparr>id_mac = m, id_serial = serial\<rparr>, md_kind = SteamDeck,
         md_firmware = Some ''Steam Deck (jupiter/galileo)'',
         md_caps = \<lparr>has_magnetometer = False, has_battery = False, has_rumble = True,
           native_rate_hz = 250\<rparr>\<rparr>,
      dd_epoch = now, dd_running = False, dd_watchdog = False, dd_features = []\<rparr>"

definition deck_with_kind :: "device_kind \<Rightarrow> deck_device \<Rightarrow> deck_device" where
  "deck_with_kind kind d = d\<lparr>dd_meta := (dd_meta d)\<lparr>md_kind := kind\<rparr>\<rparr>"

definition send_lizard_disable ::
  "(text_string + unit) list \<Rightarrow> deck_device \<Rightarrow> (device_error + unit) \<times> deck_device" where
  "send_lizard_disable answers d =
     (case send_features answers lizard_disable_sequence of
        (res, sent) \<Rightarrow> (res, d\<lparr>dd_features := rev sent @ dd_features d\<rparr>))"

definition deck_start ::
  "(text_string + unit) list \<Rightarrow> deck_device \<Rightarrow> (device_error + unit) \<times> deck_device" where
  "deck_start answers d =
     (if dd_running d then (Inl (Hid ''already started''), d)
      else case send_lizard_disable answers d of
             (Inl e, d1) \<Rightarrow> (Inl e, d1)
           | (Inr _, d1) \<Rightarrow> (Inr (), d1\<lparr>dd_running := True, dd_watchdog := True\<rparr>))"

text \<open>A round of the watchdog, every 500 ms: a failure is only logged.\<close>

definition deck_watchdog_round :: "(text_string + unit) list \<Rightarrow> deck_device \<Rightarrow> deck_device" where
  "deck_watchdog_round answers d = (if dd_watchdog d then snd (send_lizard_disable answers d) else d)"

definition deck_stop :: "deck_device \<Rightarrow> deck_device" where
  "deck_stop d = d\<lparr>dd_running := False, dd_watchdog := False\<rparr>"

definition deck_events :: "deck_device \<Rightarrow> read_result list \<Rightarrow> channel_info list" where
  "deck_events d rs = Connected (md_id (dd_meta d)) # steam_loop (deck_on_report (dd_epoch d)) rs"

text \<open>Valve's marker and three bytes of the hash.\<close>

definition steam_mac :: "text_string \<Rightarrow> mac" where
  "steam_mac serial = [0x02, 0x28, 0xDE] @ take 3 (to_le (fnv1a_64 (as_bytes serial)))"

definition is_gamepad_interface :: "u16 \<Rightarrow> u16 \<Rightarrow> u16 \<Rightarrow> u16 \<Rightarrow> bool" where
  "is_gamepad_interface vid pid usage_page usage \<longleftrightarrow>
     vid = 0x28DE \<and> pid = 0x1205
     \<and> (usage_page = 0 \<and> usage = 0 \<or> usage_page = 0xFFFF \<and> usage = 0x0001)"

definition deck_listed :: "hid_info \<Rightarrow> bool" where
  "deck_listed i \<longleftrightarrow> is_gamepad_interface (hi_vendor i) (hi_pid i) (hi_usage_page i) (hi_usage i)"

definition deck_emit :: "instant \<Rightarrow> hid_info \<times> unit \<Rightarrow> deck_device" where
  "deck_emit now e = (case e of (i, _) \<Rightarrow> deck_new (hi_serial i) (steam_mac (hi_serial i)) now)"

definition deck_enumerate ::
  "instant \<Rightarrow> (hid_info \<times> bool \<times> bool) list option list \<Rightarrow> deck_device list list" where
  "deck_enumerate now rounds =
     map (map (deck_emit now))
       (hid_rounds (\<lambda>_. Some ()) {} (map (map_option (filter (\<lambda>(i, _). deck_listed i))) rounds))"

definition deck_list_paired :: "hid_info list \<Rightarrow> (hid_info \<times> mac) list" where
  "deck_list_paired infos = map (\<lambda>i. (i, steam_mac (hi_serial i))) (filter deck_listed infos)"

subsection \<open>The Steam Controller\<close>

datatype sc_transport = UsbWired | UsbDongle

definition sc_from_pid :: "u16 \<Rightarrow> sc_transport option" where
  "sc_from_pid pid =
     (if pid = 0x1102 then Some UsbWired else if pid = 0x1142 then Some UsbDongle else None)"

fun sc_label :: "sc_transport \<Rightarrow> text_string" where
  "sc_label UsbWired = ''Steam Controller (wired)''"
| "sc_label UsbDongle = ''Steam Controller (wireless dongle)''"

record sc_device =
  sc_meta :: device_metadata
  sc_transport :: sc_transport
  sc_epoch :: instant
  sc_running :: bool
  sc_features :: "bytes list"

definition sc_new :: "sc_transport \<Rightarrow> text_string \<Rightarrow> mac \<Rightarrow> instant \<Rightarrow> sc_device" where
  "sc_new transport serial m now =
     \<lparr>sc_meta =
        \<lparr>md_id = \<lparr>id_mac = m, id_serial = serial\<rparr>, md_kind = SteamController,
         md_firmware = Some (sc_label transport),
         md_caps = \<lparr>has_magnetometer = False, has_battery = (transport = UsbDongle),
           has_rumble = False, native_rate_hz = 100\<rparr>\<rparr>,
      sc_transport = transport, sc_epoch = now, sc_running = False, sc_features = []\<rparr>"

definition run_init_sequence ::
  "(text_string + unit) list \<Rightarrow> sc_device \<Rightarrow> (device_error + unit) \<times> sc_device" where
  "run_init_sequence answers d =
     (case send_features answers sc_init_sequence of
        (res, sent) \<Rightarrow> (res, d\<lparr>sc_features := rev sent @ sc_features d\<rparr>))"

definition sc_start :: "(text_string + unit) list \<Rightarrow> sc_device \<Rightarrow> (device_error + unit) \<times> sc_device" where
  "sc_start answers d =
     (if sc_running d then (Inl (Hid ''already started''), d)
      else case run_init_sequence answers d of
             (Inl e, d1) \<Rightarrow> (Inl e, d1)
           | (Inr _, d1) \<Rightarrow> (Inr (), d1\<lparr>sc_running := True\<rparr>))"

definition sc_stop :: "sc_device \<Rightarrow> sc_device" where
  "sc_stop d = d\<lparr>sc_running := False\<rparr>"

definition sc_events :: "sc_device \<Rightarrow> read_result list \<Rightarrow> channel_info list" where
  "sc_events d rs = Connected (md_id (sc_meta d)) # steam_loop (sc_on_report (sc_epoch d)) rs"

definition sc_listed :: "hid_info \<Rightarrow> bool" where
  "sc_listed i \<longleftrightarrow> hi_vendor i = 0x28DE \<and> sc_from_pid (hi_pid i) \<noteq> None"

definition sc_emit :: "instant \<Rightarrow> hid_info \<times> sc_transport \<Rightarrow> sc_device" where
  "sc_emit now e = (case e of (i, t) \<Rightarrow> sc_new t (hi_serial i) (steam_mac (hi_serial i)) now)"

definition sc_enumerate ::
  "instant \<Rightarrow> (hid_info \<times> bool \<times> bool) list option list \<Rightarrow> sc_device list list" where
  "sc_enumerate now rounds =
     map (map (sc_emit now))
       (hid_rounds (\<lambda>i. sc_from_pid (hi_pid i)) {} (map (map_option (filter (\<lambda>(i, _). sc_listed i))) rounds))"

definition sc_list_paired :: "hid_info list \<Rightarrow> (hid_info \<times> sc_transport \<times> mac) list" where
  "sc_list_paired infos =
     List.map_filter (\<lambda>i.
       if hi_vendor i \<noteq> 0x28DE then None
       else map_option (\<lambda>t. (i, t, steam_mac (hi_serial i))) (sc_from_pid (hi_pid i))) infos"

end
