(* ===== verification/Vqf.thy ===== *)
theory Vqf
  imports Mag_Cal
begin

section \<open>The VQF orientation filter\<close>

text \<open>
  \<^verbatim>\<open>crates/imu-fusion/src/vqf.rs\<close> and \<^verbatim>\<open>basic_vqf.rs\<close>, every operation in \<^verbatim>\<open>f64\<close> as the code has
  it. The functions of the platform's mathematical library and the products and pseudo-inverse
  of \<^verbatim>\<open>nalgebra\<close>'s 3x3 matrices are parameters: nothing is assumed about their values, so they
  may round as they like and answer with NaN.
\<close>

record libm =
  lm_sin :: "f64 \<Rightarrow> f64"
  lm_cos :: "f64 \<Rightarrow> f64"
  lm_tan :: "f64 \<Rightarrow> f64"
  lm_exp :: "f64 \<Rightarrow> f64"
  lm_asin :: "f64 \<Rightarrow> f64"
  lm_atan2 :: "f64 \<Rightarrow> f64 \<Rightarrow> f64"

type_synonym mat3 = "f64 vec3 vec3"

record linalg =
  la_mul :: "mat3 \<Rightarrow> mat3 \<Rightarrow> mat3"
  la_mul_vec :: "mat3 \<Rightarrow> f64 vec3 \<Rightarrow> f64 vec3"
  la_pseudo_inverse :: "mat3 \<Rightarrow> f64 \<Rightarrow> mat3 option"

type_synonym wxyz = "f64 \<times> f64 \<times> f64 \<times> f64"

definition VQF_PI :: f64 where
  "VQF_PI = f64_lit 314159265358979323846264338327950288 (10 ^ 35)"

definition VQF_EPS :: f64 where
  "VQF_EPS = f64_lit 1 1000000"

definition f64_nan :: f64 where
  "f64_nan = f64_of FNaN"

definition f64_eq :: "f64 \<Rightarrow> f64 \<Rightarrow> bool" where
  "f64_eq a b = fp_eqv (f64_val a) (f64_val b)"

text \<open>\<^verbatim>\<open>f64::max\<close> and \<^verbatim>\<open>f64::min\<close> ignore a NaN.\<close>

definition f64_max :: "f64 \<Rightarrow> f64 \<Rightarrow> f64" where
  "f64_max x y = (if f64_is_nan x then y else if f64_is_nan y then x else if x < y then y else x)"

definition f64_min :: "f64 \<Rightarrow> f64 \<Rightarrow> f64" where
  "f64_min x y = (if f64_is_nan x then y else if f64_is_nan y then x else if y < x then y else x)"

fun vmap :: "('a \<Rightarrow> 'b) \<Rightarrow> 'a vec3 \<Rightarrow> 'b vec3" where
  "vmap f (x, y, z) = (f x, f y, f z)"

fun vzip :: "('a \<Rightarrow> 'b \<Rightarrow> 'c) \<Rightarrow> 'a vec3 \<Rightarrow> 'b vec3 \<Rightarrow> 'c vec3" where
  "vzip f (x, y, z) (a, b, c) = (f x a, f y b, f z c)"

fun sum_sq :: "f64 vec3 \<Rightarrow> f64" where
  "sum_sq (x, y, z) = x * x + y * y + z * z"

definition v_norm :: "f64 vec3 \<Rightarrow> f64" where
  "v_norm v = f64_sqrt (sum_sq v)"

fun v_is_zero :: "f64 vec3 \<Rightarrow> bool" where
  "v_is_zero (x, y, z) \<longleftrightarrow> f64_eq x 0 \<and> f64_eq y 0 \<and> f64_eq z 0"

subsection \<open>Matrices\<close>

definition mat_diag :: "f64 vec3 \<Rightarrow> mat3" where
  "mat_diag d = (case d of (a, b, c) \<Rightarrow> ((a, 0, 0), (0, b, 0), (0, 0, c)))"

definition mat_identity :: mat3 where
  "mat_identity = mat_diag (1, 1, 1)"

fun mat_transpose :: "mat3 \<Rightarrow> mat3" where
  "mat_transpose ((a, b, c), (d, e, f), (g, h, i)) = ((a, d, g), (b, e, h), (c, f, i))"

definition mat_add :: "mat3 \<Rightarrow> mat3 \<Rightarrow> mat3" where
  "mat_add = vzip (vzip (+))"

definition mat_sub :: "mat3 \<Rightarrow> mat3 \<Rightarrow> mat3" where
  "mat_sub = vzip (vzip (-))"

text \<open>The three entries of the diagonal, and changing them.\<close>

fun mat_map_diag :: "(f64 \<Rightarrow> f64) \<Rightarrow> mat3 \<Rightarrow> mat3" where
  "mat_map_diag k ((a, b, c), (d, e, f), (g, h, i)) = ((k a, b, c), (d, k e, f), (g, h, k i))"

fun mat_trace :: "mat3 \<Rightarrow> f64" where
  "mat_trace ((a, b, c), (d, e, f), (g, h, i)) = a + e + i"

subsection \<open>Parameters, state and coefficients\<close>

record vqf_params =
  vp_tau_acc :: f64
  vp_tau_mag :: f64
  vp_motion_bias_est :: bool
  vp_rest_bias_est :: bool
  vp_mag_dist_rejection :: bool
  vp_bias_sigma_init :: f64
  vp_bias_forgetting_time :: f64
  vp_bias_clip :: f64
  vp_bias_sigma_motion :: f64
  vp_bias_vertical_forgetting_factor :: f64
  vp_bias_sigma_rest :: f64
  vp_rest_min_t :: f64
  vp_rest_filter_tau :: f64
  vp_rest_th_gyr :: f64
  vp_rest_th_acc :: f64
  vp_mag_current_tau :: f64
  vp_mag_ref_tau :: f64
  vp_mag_norm_th :: f64
  vp_mag_dip_th :: f64
  vp_mag_new_time :: f64
  vp_mag_new_first_time :: f64
  vp_mag_new_min_gyr :: f64
  vp_mag_min_undisturbed_time :: f64
  vp_mag_max_rejection_time :: f64
  vp_mag_rejection_factor :: f64

definition vqf_params_default :: vqf_params where
  "vqf_params_default =
     \<lparr>vp_tau_acc = f64_lit 3 1, vp_tau_mag = f64_lit 9 1, vp_motion_bias_est = True,
      vp_rest_bias_est = True, vp_mag_dist_rejection = True, vp_bias_sigma_init = f64_lit 5 10,
      vp_bias_forgetting_time = f64_lit 100 1, vp_bias_clip = f64_lit 2 1,
      vp_bias_sigma_motion = f64_lit 1 10, vp_bias_vertical_forgetting_factor = f64_lit 1 10000,
      vp_bias_sigma_rest = f64_lit 3 100, vp_rest_min_t = f64_lit 15 10,
      vp_rest_filter_tau = f64_lit 5 10, vp_rest_th_gyr = f64_lit 2 1, vp_rest_th_acc = f64_lit 5 10,
      vp_mag_current_tau = f64_lit 5 100, vp_mag_ref_tau = f64_lit 20 1,
      vp_mag_norm_th = f64_lit 1 10, vp_mag_dip_th = f64_lit 10 1, vp_mag_new_time = f64_lit 20 1,
      vp_mag_new_first_time = f64_lit 5 1, vp_mag_new_min_gyr = f64_lit 20 1,
      vp_mag_min_undisturbed_time = f64_lit 5 10, vp_mag_max_rejection_time = f64_lit 60 1,
      vp_mag_rejection_factor = f64_lit 2 1\<rparr>"

text \<open>A filter of \<open>n\<close> components has the two state values of each; NaN is not yet initialised.\<close>

type_synonym lp_state = "(f64 \<times> f64) list"

definition lp_nan :: "nat \<Rightarrow> lp_state" where
  "lp_nan n = replicate n (f64_nan, f64_nan)"

record vqf_state =
  vs_gyr_quat :: wxyz
  vs_acc_quat :: wxyz
  vs_delta :: f64
  vs_rest_detected :: bool
  vs_mag_dist_detected :: bool
  vs_last_acc_lp :: "f64 vec3"
  vs_acc_lp :: lp_state
  vs_k_mag_init :: f64
  vs_last_mag_dis_angle :: f64
  vs_last_mag_corr_rate :: f64
  vs_bias :: "f64 vec3"
  vs_bias_p :: mat3
  vs_motion_r_lp :: lp_state
  vs_motion_bias_lp :: lp_state
  vs_rest_sq_dev :: "f64 \<times> f64"
  vs_rest_t :: f64
  vs_rest_last_gyr_lp :: "f64 vec3"
  vs_rest_gyr_lp :: lp_state
  vs_rest_last_acc_lp :: "f64 vec3"
  vs_rest_acc_lp :: lp_state
  vs_mag_ref_norm :: f64
  vs_mag_ref_dip :: f64
  vs_mag_undisturbed_t :: f64
  vs_mag_reject_t :: f64
  vs_mag_candidate_norm :: f64
  vs_mag_candidate_dip :: f64
  vs_mag_candidate_t :: f64
  vs_mag_norm_dip :: "f64 \<times> f64"
  vs_mag_norm_dip_lp :: lp_state
  vs_mag_seen :: bool

definition vqf_state_default :: vqf_state where
  "vqf_state_default =
     \<lparr>vs_gyr_quat = (1, 0, 0, 0), vs_acc_quat = (1, 0, 0, 0), vs_delta = 0,
      vs_rest_detected = False, vs_mag_dist_detected = True, vs_last_acc_lp = (0, 0, 0),
      vs_acc_lp = lp_nan 3, vs_k_mag_init = 1, vs_last_mag_dis_angle = 0, vs_last_mag_corr_rate = 0,
      vs_bias = (0, 0, 0),
      vs_bias_p = ((f64_nan, f64_nan, f64_nan), (f64_nan, f64_nan, f64_nan), (f64_nan, f64_nan, f64_nan)),
      vs_motion_r_lp = lp_nan 9, vs_motion_bias_lp = lp_nan 2, vs_rest_sq_dev = (0, 0),
      vs_rest_t = 0, vs_rest_last_gyr_lp = (0, 0, 0), vs_rest_gyr_lp = lp_nan 3,
      vs_rest_last_acc_lp = (0, 0, 0), vs_rest_acc_lp = lp_nan 3, vs_mag_ref_norm = 0,
      vs_mag_ref_dip = 0, vs_mag_undisturbed_t = 0, vs_mag_reject_t = - 1,
      vs_mag_candidate_norm = - 1, vs_mag_candidate_dip = 0, vs_mag_candidate_t = 0,
      vs_mag_norm_dip = (0, 0), vs_mag_norm_dip_lp = lp_nan 2, vs_mag_seen = False\<rparr>"

text \<open>The numerator and the denominator of a low-pass.\<close>

type_synonym lp_coeffs = "f64 vec3 \<times> f64 \<times> f64"

record vqf_coeffs =
  vc_gyr_ts :: f64
  vc_acc_ts :: f64
  vc_mag_ts :: f64
  vc_acc_lp :: lp_coeffs
  vc_k_mag :: f64
  vc_bias_p0 :: f64
  vc_bias_v :: f64
  vc_bias_motion_w :: f64
  vc_bias_vertical_w :: f64
  vc_bias_rest_w :: f64
  vc_rest_gyr_lp :: lp_coeffs
  vc_rest_acc_lp :: lp_coeffs
  vc_k_mag_ref :: f64
  vc_mag_norm_dip_lp :: lp_coeffs

definition lp_zero :: lp_coeffs where
  "lp_zero = ((0, 0, 0), 0, 0)"

definition vqf_coeffs_new :: "f64 \<Rightarrow> f64 \<Rightarrow> f64 \<Rightarrow> vqf_coeffs" where
  "vqf_coeffs_new gyr_ts acc_ts mag_ts =
     \<lparr>vc_gyr_ts = gyr_ts, vc_acc_ts = acc_ts, vc_mag_ts = mag_ts, vc_acc_lp = lp_zero, vc_k_mag = 0,
      vc_bias_p0 = 0, vc_bias_v = 0, vc_bias_motion_w = 0, vc_bias_vertical_w = 0,
      vc_bias_rest_w = 0, vc_rest_gyr_lp = lp_zero, vc_rest_acc_lp = lp_zero, vc_k_mag_ref = 0,
      vc_mag_norm_dip_lp = lp_zero\<rparr>"

record vqf =
  vq_params :: vqf_params
  vq_state :: vqf_state
  vq_coeffs :: vqf_coeffs

subsection \<open>Low-pass filters\<close>

definition filter_coeffs :: "libm \<Rightarrow> f64 \<Rightarrow> f64 \<Rightarrow> lp_coeffs" where
  "filter_coeffs lm tau ts =
     (if tau \<le> 0 then ((1, 0, 0), 0, 0)
      else
        let s2 = f64_sqrt (f64_lit 2 1);
            fc = s2 / (f64_lit 2 1 * VQF_PI) / tau;
            c = lm_tan lm (VQF_PI * fc * ts);
            d = c * c + s2 * c + 1;
            b0 = c * c / d;
            a1 = f64_lit 2 1 * (c * c - 1) / d;
            a2 = (c * c - s2 * c + 1) / d
        in ((b0, f64_lit 2 1 * b0, b0), a1, a2))"

fun filter_initial_state :: "f64 \<Rightarrow> lp_coeffs \<Rightarrow> f64 \<times> f64" where
  "filter_initial_state x0 ((b0, b1, b2), a1, a2) = (x0 * (1 - b0), x0 * (b2 - a2))"

fun filter_step :: "f64 \<Rightarrow> lp_coeffs \<Rightarrow> f64 \<times> f64 \<Rightarrow> f64 \<times> f64 \<times> f64" where
  "filter_step x ((b0, b1, b2), a1, a2) (s0, s1) =
     (let y = b0 * x + s0 in (y, b1 * x - a1 * y + s1, b2 * x - a2 * y))"

fun filter_adapt :: "f64 \<Rightarrow> lp_coeffs \<Rightarrow> f64 \<times> f64 \<Rightarrow> f64 \<times> f64" where
  "filter_adapt last_y ((b0, b1, b2), a1, a2) (s0, s1) =
     (if f64_is_nan s0 then (s0, s1) else (last_y * (1 - b0), last_y * (b2 - a2)))"

definition filter_component :: "lp_coeffs \<Rightarrow> f64 \<Rightarrow> f64 \<times> f64 \<Rightarrow> f64 \<times> f64 \<times> f64" where
  "filter_component k x s =
     (if f64_is_nan (fst s) then (x, filter_initial_state x k) else filter_step x k s)"

definition filter_vec :: "lp_coeffs \<Rightarrow> f64 list \<Rightarrow> lp_state \<Rightarrow> f64 list \<times> lp_state" where
  "filter_vec k xs st =
     (let r = map2 (filter_component k) xs st in (map fst r, map snd r))"

text \<open>The filters of two and three components.\<close>

definition filter_vec3 :: "lp_coeffs \<Rightarrow> f64 vec3 \<Rightarrow> lp_state \<Rightarrow> f64 vec3 \<times> lp_state" where
  "filter_vec3 k v st =
     (case v of (x, y, z) \<Rightarrow>
        case filter_vec k [x, y, z] st of (out, st1) \<Rightarrow> ((out ! 0, out ! 1, out ! 2), st1))"

definition filter_vec2 :: "lp_coeffs \<Rightarrow> f64 \<times> f64 \<Rightarrow> lp_state \<Rightarrow> (f64 \<times> f64) \<times> lp_state" where
  "filter_vec2 k v st =
     (case v of (x, y) \<Rightarrow> case filter_vec k [x, y] st of (out, st1) \<Rightarrow> ((out ! 0, out ! 1), st1))"

subsection \<open>Quaternions\<close>

fun quat_multiply :: "wxyz \<Rightarrow> wxyz \<Rightarrow> wxyz" where
  "quat_multiply (a, b, c, d) (e, f, g, h) =
     (a * e - b * f - c * g - d * h,
      a * f + b * e + c * h - d * g,
      a * g - b * h + c * e + d * f,
      a * h + b * g - c * f + d * e)"

fun quat_conj :: "wxyz \<Rightarrow> wxyz" where
  "quat_conj (w, x, y, z) = (w, - x, - y, - z)"

fun quat_rotate :: "wxyz \<Rightarrow> f64 vec3 \<Rightarrow> f64 vec3" where
  "quat_rotate q (x, y, z) =
     (case quat_multiply (quat_multiply q (0, x, y, z)) (quat_conj q) of (r, a, b, c) \<Rightarrow> (a, b, c))"

fun quat_normalize :: "wxyz \<Rightarrow> wxyz" where
  "quat_normalize (w, x, y, z) =
     (let n = f64_sqrt (w * w + x * x + y * y + z * z) in
      if \<not> f64_is_finite n \<or> n < VQF_EPS then (1, 0, 0, 0) else (w / n, x / n, y / n, z / n))"

definition quat_apply_delta :: "libm \<Rightarrow> wxyz \<Rightarrow> f64 \<Rightarrow> wxyz" where
  "quat_apply_delta lm q delta =
     (let half = delta * f64_lit 5 10 in quat_multiply (lm_cos lm half, 0, 0, lm_sin lm half) q)"

fun quat_to_rotation_matrix :: "wxyz \<Rightarrow> mat3" where
  "quat_to_rotation_matrix (w, x, y, z) =
     (let two = f64_lit 2 1 in
      ((1 - two * (y * y + z * z), two * (x * y - z * w), two * (x * z + y * w)),
       (two * (x * y + z * w), 1 - two * (x * x + z * z), two * (y * z - x * w)),
       (two * (x * z - y * w), two * (y * z + x * w), 1 - two * (x * x + y * y))))"

definition to_rad :: "f64 \<Rightarrow> f64" where
  "to_rad deg = deg * VQF_PI / f64_lit 180 1"

subsection \<open>Setting up\<close>

definition smoothing_gain :: "libm \<Rightarrow> f64 \<Rightarrow> f64 \<Rightarrow> f64" where
  "smoothing_gain lm tau ts = (if tau \<le> 0 then 0 else 1 - lm_exp lm ((- ts) / tau))"

definition setup_coeffs :: "libm \<Rightarrow> vqf_params \<Rightarrow> vqf_coeffs \<Rightarrow> vqf_coeffs" where
  "setup_coeffs lm p c =
     (let sigma_init = to_rad (vp_bias_sigma_init p);
          p0 = sigma_init * sigma_init;
          sigma_motion = to_rad (vp_bias_sigma_motion p);
          motion_w = sigma_motion * sigma_motion / vc_gyr_ts c;
          sigma_rest = to_rad (vp_bias_sigma_rest p)
      in c\<lparr>vc_acc_lp := filter_coeffs lm (vp_tau_acc p) (vc_acc_ts c),
           vc_k_mag := smoothing_gain lm (vp_tau_mag p) (vc_mag_ts c),
           vc_bias_p0 := p0,
           vc_bias_v := p0 * vc_gyr_ts c / vp_bias_forgetting_time p,
           vc_bias_motion_w := motion_w,
           vc_bias_vertical_w := motion_w / f64_max (vp_bias_vertical_forgetting_factor p) (f64_lit 1 (10 ^ 12)),
           vc_bias_rest_w := sigma_rest * sigma_rest / vc_gyr_ts c,
           vc_rest_gyr_lp := filter_coeffs lm (vp_rest_filter_tau p) (vc_gyr_ts c),
           vc_rest_acc_lp := filter_coeffs lm (vp_rest_filter_tau p) (vc_acc_ts c),
           vc_k_mag_ref := smoothing_gain lm (vp_mag_ref_tau p) (vc_mag_ts c),
           vc_mag_norm_dip_lp := filter_coeffs lm (vp_mag_current_tau p) (vc_mag_ts c)\<rparr>)"

definition vqf_setup :: "libm \<Rightarrow> vqf \<Rightarrow> vqf" where
  "vqf_setup lm v =
     (let c = setup_coeffs lm (vq_params v) (vq_coeffs v); p0 = vc_bias_p0 c
      in v\<lparr>vq_coeffs := c, vq_state := (vq_state v)\<lparr>vs_bias_p := mat_diag (p0, p0, p0)\<rparr>\<rparr>)"

definition vqf_with_params_and_timesteps :: "libm \<Rightarrow> vqf_params \<Rightarrow> f64 \<Rightarrow> f64 \<Rightarrow> f64 \<Rightarrow> vqf" where
  "vqf_with_params_and_timesteps lm p gyr_ts acc_ts mag_ts =
     vqf_setup lm \<lparr>vq_params = p, vq_state = vqf_state_default,
       vq_coeffs = vqf_coeffs_new gyr_ts acc_ts mag_ts\<rparr>"

definition vqf_with_params :: "libm \<Rightarrow> f64 \<Rightarrow> vqf_params \<Rightarrow> vqf" where
  "vqf_with_params lm ts p = vqf_with_params_and_timesteps lm p ts ts ts"

definition vqf_new :: "libm \<Rightarrow> f64 \<Rightarrow> vqf" where
  "vqf_new lm ts = vqf_with_params lm ts vqf_params_default"

definition vqf_reset_state :: "libm \<Rightarrow> vqf \<Rightarrow> vqf" where
  "vqf_reset_state lm v = vqf_setup lm (v\<lparr>vq_state := vqf_state_default\<rparr>)"

definition vqf_set_timestep :: "libm \<Rightarrow> f64 \<Rightarrow> vqf \<Rightarrow> vqf" where
  "vqf_set_timestep lm ts v =
     vqf_setup lm (v\<lparr>vq_coeffs := (vq_coeffs v)\<lparr>vc_gyr_ts := ts, vc_acc_ts := ts, vc_mag_ts := ts\<rparr>\<rparr>)"

subsection \<open>The gyroscope\<close>

text \<open>Rest is broken by a deviation or a rate beyond the thresholds.\<close>

definition gyr_rest :: "vqf_params \<Rightarrow> vqf_coeffs \<Rightarrow> f64 vec3 \<Rightarrow> vqf_state \<Rightarrow> vqf_state" where
  "gyr_rest p c gyr st =
     (case filter_vec3 (vc_rest_gyr_lp c) gyr (vs_rest_gyr_lp st) of (gyr_lp, lp) \<Rightarrow>
        let sq_dev = sum_sq (vzip (-) gyr gyr_lp);
            bias_clip = to_rad (vp_bias_clip p);
            max_abs = (case gyr_lp of (a, b, d) \<Rightarrow> f64_max (f64_max (f64_max 0 \<bar>a\<bar>) \<bar>b\<bar>) \<bar>d\<bar>);
            th = to_rad (vp_rest_th_gyr p);
            moving = (th * th \<le> sq_dev \<or> bias_clip < max_abs)
        in st\<lparr>vs_rest_gyr_lp := lp,
              vs_rest_t := (if moving then 0 else vs_rest_t st),
              vs_rest_detected := (\<not> moving \<and> vs_rest_detected st),
              vs_rest_last_gyr_lp := gyr_lp,
              vs_rest_sq_dev := (sq_dev, snd (vs_rest_sq_dev st))\<rparr>)"

definition integrate_gyr :: "libm \<Rightarrow> vqf_coeffs \<Rightarrow> f64 vec3 \<Rightarrow> vqf_state \<Rightarrow> vqf_state" where
  "integrate_gyr lm c gyr st =
     (let g = vzip (-) gyr (vs_bias st); g_norm = v_norm g; half = g_norm * vc_gyr_ts c * f64_lit 5 10 in
      if VQF_EPS < g_norm
      then (case g of (a, b, d) \<Rightarrow>
        let s = lm_sin lm half / g_norm
        in st\<lparr>vs_gyr_quat := quat_normalize (quat_multiply (vs_gyr_quat st) (lm_cos lm half, s * a, s * b, s * d))\<rparr>)
      else st)"

definition update_gyr :: "libm \<Rightarrow> vqf_params \<Rightarrow> vqf_coeffs \<Rightarrow> f64 vec3 \<Rightarrow> vqf_state \<Rightarrow> vqf_state" where
  "update_gyr lm p c gyr st =
     integrate_gyr lm c gyr
       (if vp_rest_bias_est p \<or> vp_mag_dist_rejection p then gyr_rest p c gyr st else st)"

subsection \<open>The bias estimator\<close>

definition quat_6d_of :: "vqf_state \<Rightarrow> wxyz" where
  "quat_6d_of st = quat_normalize (quat_multiply (vs_acc_quat st) (vs_gyr_quat st))"

fun row_dot :: "f64 vec3 \<Rightarrow> f64 vec3 \<Rightarrow> f64" where
  "row_dot (a, b, c) (x, y, z) = a * x + b * y + c * z"

text \<open>The innovation, its weights and the measurement matrix: at rest, in motion, or none.\<close>

definition bias_measurement ::
  "vqf_params \<Rightarrow> vqf_coeffs \<Rightarrow> vqf_state \<Rightarrow> f64 vec3 \<Rightarrow> f64 \<times> f64 \<Rightarrow> f64 list
    \<Rightarrow> (f64 vec3 \<times> f64 vec3) option \<times> mat3" where
  "bias_measurement p c st acc_e6 bias_lp r =
     (case (vs_bias st, acc_e6) of ((bx, by, bz), (ax, ay, az)) \<Rightarrow>
        if vs_rest_detected st \<and> vp_rest_bias_est p then
          (Some (vzip (-) (vs_rest_last_gyr_lp st) (vs_bias st),
             (vc_bias_rest_w c, vc_bias_rest_w c, vc_bias_rest_w c)), mat_identity)
        else if vp_motion_bias_est p then
          (Some (((- ay) / vc_acc_ts c + fst bias_lp - r ! 0 * bx - r ! 1 * by - r ! 2 * bz,
                  ax / vc_acc_ts c + snd bias_lp - r ! 3 * bx - r ! 4 * by - r ! 5 * bz,
                  (- (r ! 6)) * bx - r ! 7 * by - r ! 8 * bz),
             (vc_bias_motion_w c, vc_bias_motion_w c, vc_bias_vertical_w c)),
           ((r ! 0, r ! 1, r ! 2), (r ! 3, r ! 4, r ! 5), (r ! 6, r ! 7, r ! 8)))
        else (None, mat_identity))"

definition clip_vec :: "f64 \<Rightarrow> f64 vec3 \<Rightarrow> f64 vec3" where
  "clip_vec b v = vmap (\<lambda>x. f64_clamp x (- b) b) v"

definition update_bias_kalman ::
  "linalg \<Rightarrow> vqf_params \<Rightarrow> vqf_coeffs \<Rightarrow> f64 vec3 \<Rightarrow> vqf_state \<Rightarrow> vqf_state" where
  "update_bias_kalman la p c acc_e6 st =
     (if \<not> vp_motion_bias_est p \<and> \<not> vp_rest_bias_est p then st
      else
        let bias_clip = to_rad (vp_bias_clip p);
            bias = vs_bias st
        in case quat_to_rotation_matrix (quat_6d_of st) of ((r0, r1, r2), (r3, r4, r5), (r6, r7, r8)) \<Rightarrow>
        (case filter_vec2 (vc_acc_lp c) (row_dot (r0, r1, r2) bias, row_dot (r3, r4, r5) bias)
                (vs_motion_bias_lp st) of (bias_lp, blp) \<Rightarrow>
        (case filter_vec (vc_acc_lp c) [r0, r1, r2, r3, r4, r5, r6, r7, r8] (vs_motion_r_lp st) of (r_filt, rlp) \<Rightarrow>
          let grow = (\<lambda>d. if d < vc_bias_p0 c then f64_min (d + vc_bias_v c) (vc_bias_p0 c) else d);
              bp = mat_map_diag grow (vs_bias_p st);
              st1 = st\<lparr>vs_motion_bias_lp := blp, vs_motion_r_lp := rlp, vs_bias_p := bp\<rparr>
          in case bias_measurement p c st1 acc_e6 bias_lp r_filt of
               (None, _) \<Rightarrow> st1
             | (Some (e, w), r_meas) \<Rightarrow>
                 let r_t = mat_transpose r_meas;
                     s_mat = mat_add (mat_diag w) (la_mul la (la_mul la r_meas bp) r_t)
                 in (case la_pseudo_inverse la s_mat VQF_EPS of
                       None \<Rightarrow> st1
                     | Some s_inv \<Rightarrow>
                         let k = la_mul la (la_mul la bp r_t) s_inv;
                             bias_v = vzip (+) bias (la_mul_vec la k (clip_vec bias_clip e))
                         in st1\<lparr>vs_bias := clip_vec bias_clip bias_v,
                                vs_bias_p := mat_sub bp (la_mul la (la_mul la k r_meas) bp)\<rparr>))))"

subsection \<open>The accelerometer\<close>

definition acc_rest :: "vqf_params \<Rightarrow> vqf_coeffs \<Rightarrow> f64 vec3 \<Rightarrow> vqf_state \<Rightarrow> vqf_state" where
  "acc_rest p c acc st =
     (case filter_vec3 (vc_rest_acc_lp c) acc (vs_rest_acc_lp st) of (acc_lp, lp) \<Rightarrow>
        let sq_dev = sum_sq (vzip (-) acc acc_lp);
            moving = vp_rest_th_acc p * vp_rest_th_acc p \<le> sq_dev;
            t = vs_rest_t st + vc_acc_ts c
        in st\<lparr>vs_rest_acc_lp := lp,
              vs_rest_t := (if moving then 0 else t),
              vs_rest_detected := (\<not> moving \<and> (vp_rest_min_t p \<le> t \<or> vs_rest_detected st)),
              vs_rest_last_acc_lp := acc_lp,
              vs_rest_sq_dev := (fst (vs_rest_sq_dev st), sq_dev)\<rparr>)"

definition unit_or_up :: "f64 vec3 \<Rightarrow> f64 vec3" where
  "unit_or_up v = (let n = v_norm v in if VQF_EPS < n then vmap (\<lambda>x. x / n) v else (0, 0, 1))"

definition acc_correction :: "f64 vec3 \<Rightarrow> wxyz" where
  "acc_correction v =
     (case v of (x, y, z) \<Rightarrow>
        let q_w = f64_sqrt ((z + 1) / f64_lit 2 1) in
        if VQF_EPS < q_w then (q_w, f64_lit 5 10 * y / q_w, (- f64_lit 5 10) * x / q_w, 0)
        else (0, 1, 0, 0))"

definition update_acc ::
  "linalg \<Rightarrow> vqf_params \<Rightarrow> vqf_coeffs \<Rightarrow> f64 vec3 \<Rightarrow> vqf_state \<Rightarrow> vqf_state" where
  "update_acc la p c acc st =
     (if v_is_zero acc then st
      else
        let st1 = (if vp_rest_bias_est p then acc_rest p c acc st else st) in
        case filter_vec3 (vc_acc_lp c) (quat_rotate (vs_gyr_quat st1) acc) (vs_acc_lp st1) of (acc_lp, lp) \<Rightarrow>
          let acc_e6 = unit_or_up (quat_rotate (vs_acc_quat st1) acc_lp);
              st2 = st1\<lparr>vs_last_acc_lp := acc_lp, vs_acc_lp := lp,
                vs_acc_quat := quat_normalize (quat_multiply (acc_correction acc_e6) (vs_acc_quat st1))\<rparr>
          in update_bias_kalman la p c acc_e6 st2)"

subsection \<open>The magnetometer\<close>

text \<open>Disturbance detection against the reference, and then against a new candidate.\<close>

definition near_field :: "vqf_params \<Rightarrow> f64 \<times> f64 \<Rightarrow> f64 \<Rightarrow> f64 \<Rightarrow> bool" where
  "near_field p nd ref_norm ref_dip \<longleftrightarrow>
     \<bar>fst nd - ref_norm\<bar> < vp_mag_norm_th p * ref_norm \<and> \<bar>snd nd - ref_dip\<bar> < to_rad (vp_mag_dip_th p)"

definition mag_reference :: "vqf_params \<Rightarrow> vqf_coeffs \<Rightarrow> f64 \<times> f64 \<Rightarrow> vqf_state \<Rightarrow> vqf_state" where
  "mag_reference p c nd st =
     (if near_field p nd (vs_mag_ref_norm st) (vs_mag_ref_dip st) then
        let t = vs_mag_undisturbed_t st + vc_mag_ts c; st1 = st\<lparr>vs_mag_undisturbed_t := t\<rparr> in
        if vp_mag_min_undisturbed_time p \<le> t
        then st1\<lparr>vs_mag_dist_detected := False,
               vs_mag_ref_norm := vs_mag_ref_norm st + vc_k_mag_ref c * (fst nd - vs_mag_ref_norm st),
               vs_mag_ref_dip := vs_mag_ref_dip st + vc_k_mag_ref c * (snd nd - vs_mag_ref_dip st)\<rparr>
        else st1
      else st\<lparr>vs_mag_undisturbed_t := 0, vs_mag_dist_detected := True\<rparr>)"

definition mag_candidate :: "vqf_params \<Rightarrow> vqf_coeffs \<Rightarrow> f64 \<times> f64 \<Rightarrow> vqf_state \<Rightarrow> vqf_state" where
  "mag_candidate p c nd st =
     (if near_field p nd (vs_mag_candidate_norm st) (vs_mag_candidate_dip st) then
        let gyr_norm = v_norm (vs_rest_last_gyr_lp st);
            t = (if to_rad (vp_mag_new_min_gyr p) \<le> gyr_norm then vs_mag_candidate_t st + vc_mag_ts c
                 else vs_mag_candidate_t st);
            norm = vs_mag_candidate_norm st + vc_k_mag_ref c * (fst nd - vs_mag_candidate_norm st);
            dip = vs_mag_candidate_dip st + vc_k_mag_ref c * (snd nd - vs_mag_candidate_dip st);
            st1 = st\<lparr>vs_mag_candidate_t := t, vs_mag_candidate_norm := norm, vs_mag_candidate_dip := dip\<rparr>
        in if vs_mag_dist_detected st
              \<and> (vp_mag_new_time p \<le> t \<or> f64_eq (vs_mag_ref_norm st) 0 \<and> vp_mag_new_first_time p \<le> t)
           then st1\<lparr>vs_mag_ref_norm := norm, vs_mag_ref_dip := dip, vs_mag_dist_detected := False,
                  vs_mag_undisturbed_t := vp_mag_min_undisturbed_time p\<rparr>
           else st1
      else st\<lparr>vs_mag_candidate_t := 0, vs_mag_candidate_norm := fst nd, vs_mag_candidate_dip := snd nd\<rparr>)"

definition mag_disturbance ::
  "libm \<Rightarrow> vqf_params \<Rightarrow> vqf_coeffs \<Rightarrow> f64 vec3 \<Rightarrow> vqf_state \<Rightarrow> vqf_state" where
  "mag_disturbance lm p c mag_earth st =
     (case mag_earth of (mx, my, mz) \<Rightarrow>
        let norm = v_norm mag_earth;
            dip = - (lm_asin lm (mz / f64_max norm VQF_EPS));
            filtered = (if 0 < vp_mag_current_tau p
              then filter_vec2 (vc_mag_norm_dip_lp c) (norm, dip) (vs_mag_norm_dip_lp st)
              else ((norm, dip), vs_mag_norm_dip_lp st))
        in case filtered of (nd, lp) \<Rightarrow>
             mag_candidate p c nd
               (mag_reference p c nd (st\<lparr>vs_mag_norm_dip := nd, vs_mag_norm_dip_lp := lp\<rparr>)))"

definition wrap_pi :: "f64 \<Rightarrow> f64" where
  "wrap_pi x =
     (if VQF_PI < x then x - f64_lit 2 1 * VQF_PI
      else if x < - VQF_PI then x + f64_lit 2 1 * VQF_PI else x)"

text \<open>The gain of the heading correction and the rejection time.\<close>

definition mag_gain :: "vqf_params \<Rightarrow> vqf_coeffs \<Rightarrow> vqf_state \<Rightarrow> f64 \<times> f64" where
  "mag_gain p c st =
     (if \<not> vp_mag_dist_rejection p then (vc_k_mag c, vs_mag_reject_t st)
      else if vs_mag_dist_detected st then
        (if vs_mag_reject_t st \<le> vp_mag_max_rejection_time p then (0, vs_mag_reject_t st + vc_mag_ts c)
         else (vc_k_mag c / vp_mag_rejection_factor p, vs_mag_reject_t st))
      else (vc_k_mag c, f64_max (vs_mag_reject_t st - vp_mag_rejection_factor p * vc_mag_ts c) 0))"

definition mag_init_gain :: "vqf_params \<Rightarrow> vqf_coeffs \<Rightarrow> f64 \<Rightarrow> f64 \<Rightarrow> f64 \<times> f64" where
  "mag_init_gain p c k k_init =
     (if f64_eq k_init 0 then (k, k_init)
      else
        let k1 = (if k < k_init then k_init else k); next = k_init / (k_init + 1)
        in (k1, if next * vp_tau_mag p < vc_mag_ts c then 0 else next))"

definition update_mag ::
  "libm \<Rightarrow> vqf_params \<Rightarrow> vqf_coeffs \<Rightarrow> f64 vec3 \<Rightarrow> vqf_state \<Rightarrow> vqf_state" where
  "update_mag lm p c m st =
     (if v_is_zero m then st
      else
        let st1 = st\<lparr>vs_mag_seen := True\<rparr>;
            mag_earth = quat_rotate (quat_6d_of st1) m;
            st2 = (if vp_mag_dist_rejection p then mag_disturbance lm p c mag_earth st1 else st1)
        in case mag_earth of (mx, my, mz) \<Rightarrow>
          let dis = wrap_pi (lm_atan2 lm mx my - vs_delta st2) in
          case mag_gain p c st2 of (k0, reject_t) \<Rightarrow>
          case mag_init_gain p c k0 (vs_k_mag_init st2) of (k, k_init) \<Rightarrow>
            st2\<lparr>vs_last_mag_dis_angle := dis, vs_mag_reject_t := reject_t, vs_k_mag_init := k_init,
                vs_last_mag_corr_rate := k * dis / vc_mag_ts c,
                vs_delta := wrap_pi (vs_delta st2 + k * dis)\<rparr>)"

subsection \<open>The interface\<close>

definition vqf_update ::
  "libm \<Rightarrow> linalg \<Rightarrow> f64 vec3 \<Rightarrow> f64 vec3 \<Rightarrow> f64 vec3 option \<Rightarrow> vqf \<Rightarrow> vqf" where
  "vqf_update lm la gyr acc m v =
     (let p = vq_params v; c = vq_coeffs v;
          st1 = update_acc la p c acc (update_gyr lm p c gyr (vq_state v))
      in v\<lparr>vq_state := (case m of None \<Rightarrow> st1 | Some b \<Rightarrow> update_mag lm p c b st1)\<rparr>)"

definition vqf_quat_3d :: "vqf \<Rightarrow> wxyz" where
  "vqf_quat_3d v = vs_gyr_quat (vq_state v)"

definition vqf_quat_6d :: "vqf \<Rightarrow> wxyz" where
  "vqf_quat_6d v = quat_6d_of (vq_state v)"

text \<open>None is the panic of a call before any magnetometer reading.\<close>

definition vqf_quat_9d :: "libm \<Rightarrow> vqf \<Rightarrow> wxyz option" where
  "vqf_quat_9d lm v =
     (if \<not> vs_mag_seen (vq_state v) then None
      else Some (quat_apply_delta lm (vqf_quat_6d v) (vs_delta (vq_state v))))"

definition vqf_mag_seen :: "vqf \<Rightarrow> bool" where
  "vqf_mag_seen v = vs_mag_seen (vq_state v)"

definition vqf_rest_detected :: "vqf \<Rightarrow> bool" where
  "vqf_rest_detected v = vs_rest_detected (vq_state v)"

definition vqf_mag_dist_detected :: "vqf \<Rightarrow> bool" where
  "vqf_mag_dist_detected v = vs_mag_dist_detected (vq_state v)"

definition vqf_set_tau_acc :: "libm \<Rightarrow> f64 \<Rightarrow> vqf \<Rightarrow> vqf" where
  "vqf_set_tau_acc lm tau v =
     (let k = filter_coeffs lm tau (vc_acc_ts (vq_coeffs v)); st = vq_state v
      in case vs_last_acc_lp st of (x, y, z) \<Rightarrow>
         v\<lparr>vq_params := (vq_params v)\<lparr>vp_tau_acc := tau\<rparr>,
           vq_coeffs := (vq_coeffs v)\<lparr>vc_acc_lp := k\<rparr>,
           vq_state := st\<lparr>vs_acc_lp := map2 (\<lambda>last_y s. filter_adapt last_y k s) [x, y, z] (vs_acc_lp st)\<rparr>\<rparr>)"

definition vqf_set_tau_mag :: "libm \<Rightarrow> f64 \<Rightarrow> vqf \<Rightarrow> vqf" where
  "vqf_set_tau_mag lm tau v =
     v\<lparr>vq_params := (vq_params v)\<lparr>vp_tau_mag := tau\<rparr>,
       vq_coeffs := (vq_coeffs v)\<lparr>vc_k_mag := smoothing_gain lm tau (vc_mag_ts (vq_coeffs v))\<rparr>\<rparr>"

definition vqf_bias_estimate :: "vqf \<Rightarrow> f64 vec3 \<times> f64" where
  "vqf_bias_estimate v =
     (vs_bias (vq_state v), f64_sqrt (mat_trace (vs_bias_p (vq_state v)) / f64_lit 3 1))"

definition vqf_set_bias_estimate :: "f64 vec3 \<Rightarrow> f64 option \<Rightarrow> vqf \<Rightarrow> vqf" where
  "vqf_set_bias_estimate b sigma v =
     (let st = (vq_state v)\<lparr>vs_bias := clip_vec (to_rad (vp_bias_clip (vq_params v))) b\<rparr>
      in v\<lparr>vq_state := (case sigma of
             None \<Rightarrow> st | Some s \<Rightarrow> st\<lparr>vs_bias_p := mat_diag (s * s, s * s, s * s)\<rparr>)\<rparr>)"

subsection \<open>The basic filter\<close>

definition basic_params :: vqf_params where
  "basic_params =
     vqf_params_default\<lparr>vp_motion_bias_est := False, vp_rest_bias_est := False,
       vp_mag_dist_rejection := False\<rparr>"

definition basic_vqf_new :: "libm \<Rightarrow> f64 \<Rightarrow> vqf" where
  "basic_vqf_new lm ts = vqf_with_params lm ts basic_params"

definition basic_vqf_update :: "libm \<Rightarrow> linalg \<Rightarrow> f64 vec3 \<Rightarrow> f64 vec3 \<Rightarrow> vqf \<Rightarrow> vqf" where
  "basic_vqf_update lm la gyr acc v = vqf_update lm la gyr acc None v"

definition basic_vqf_quat_6d :: "vqf \<Rightarrow> wxyz" where
  "basic_vqf_quat_6d v = vqf_quat_6d v"

end
