(* ===== verification/Vqf_Props.thy ===== *)
theory Vqf_Props
  imports Vqf
begin

section \<open>Properties of the orientation filter\<close>

text \<open>
  The orientation stays finite and the bias within its limits in every run, whatever the
  readings; a heading that is NaN stays so.
\<close>

subsection \<open>NaN and finite values\<close>

lemma fp_nan_right [simp]:
  "fp_add F v FNaN = FNaN" "fp_mul F v FNaN = FNaN" "fp_div F v FNaN = FNaN"
  by (cases v; simp)+

lemma f64_nan_ops [simp]:
  "f64_is_nan x \<Longrightarrow> f64_is_nan (x + y)" "f64_is_nan y \<Longrightarrow> f64_is_nan (x + y)"
  "f64_is_nan x \<Longrightarrow> f64_is_nan (x - y)" "f64_is_nan y \<Longrightarrow> f64_is_nan (x - y)"
  "f64_is_nan x \<Longrightarrow> f64_is_nan (x * y)" "f64_is_nan y \<Longrightarrow> f64_is_nan (x * y)"
  "f64_is_nan x \<Longrightarrow> f64_is_nan (x / y)" "f64_is_nan y \<Longrightarrow> f64_is_nan (x / y)"
  "f64_is_nan (- x) \<longleftrightarrow> f64_is_nan x"
  by (simp_all add: f64_is_nan_def fp_sub_def) (cases "f64_val x"; simp)

lemma f64_nan_compare [simp]:
  "f64_is_nan x \<Longrightarrow> \<not> x < y" "f64_is_nan y \<Longrightarrow> \<not> x < y" "f64_is_nan x \<Longrightarrow> \<not> f64_eq x y"
  by (cases "f64_val x"; cases "f64_val y"; simp add: f64_is_nan_def less_f64_def f64_eq_def)+

lemma fp_finite_add: "fp_finite (fp_add F a b) \<Longrightarrow> fp_finite a \<and> fp_finite b"
  by (cases a; cases b) (auto split: if_splits)

lemma fp_finite_square: "fp_finite (fp_mul F a a) \<Longrightarrow> fp_finite a"
  by (cases a) auto

lemma fp_finite_sqrt: "fp_finite (fp_sqrt F v) \<Longrightarrow> fp_finite v"
  by (cases v) (auto split: if_splits)

text \<open>A number whose square does not overflow is far below the limit of the format.\<close>

lemma square_bound:
  assumes "fp_finite (fp_mul fmt64 (FFin s k) (FFin s k))"
  shows "k < 2 ^ 1586"
proof (rule ccontr)
  assume "\<not> k < 2 ^ 1586"
  then have k: "2 ^ 1586 \<le> k" by simp
  then have "2 ^ 1586 * 2 ^ 1586 \<le> k * k" by (rule mult_le_mono) (rule k)
  then have "2 ^ 2098 * 1 * 2 ^ 1074 \<le> k * k * 1" by (simp flip: power_add)
  then have "fp_round 52 (2 ^ 2098 * 1) 1 \<le> fp_round 52 (k * k) (2 ^ 1074)"
    by (intro fp_round_mono) simp_all
  moreover have "fp_round 52 (2 ^ 2098 * 1) 1 = 2 ^ 2098"
    using repr_mult_pow [of 1 52 2098] by (intro fp_round_exact) simp_all
  ultimately show False
    using assms by (simp add: fp_make_def fmt64_def Let_def del: power_numeral split: if_splits)
qed

lemma f64_val_lit: "0 < d \<Longrightarrow> f64_val (f64_lit n d) = fp_make fmt64 False (n * funit fmt64) d"
  by (simp add: f64_lit_def)

text \<open>The threshold below which a quaternion counts as zero is a positive number.\<close>

lemma fp_round_pow: "fp_round 52 (1 * 2 ^ n) 1 = 2 ^ n"
  using repr_mult_pow [of 1 52 n] using fp_round_exact [of 52 "2 ^ n" 1] by simp

lemma make_between:
  assumes "0 < d" "2 ^ a * d \<le> n" "n \<le> 2 ^ b * d" "b < 2098"
  shows "\<exists>k. fp_make fmt64 s n d = FFin s k \<and> 2 ^ a \<le> k \<and> k \<le> 2 ^ b"
proof -
  have "fp_round 52 (1 * 2 ^ a) 1 \<le> fp_round 52 n d" "fp_round 52 n d \<le> fp_round 52 (1 * 2 ^ b) 1"
    using assms by (intro fp_round_mono; simp)+
  then have "2 ^ a \<le> fp_round 52 n d" "fp_round 52 n d \<le> 2 ^ b" by (simp_all only: fp_round_pow)
  moreover from this(2) have "fp_round 52 n d < 2 ^ 2098"
    by (rule le_less_trans) (rule power_strict_increasing [OF assms(4)], simp)
  ultimately show ?thesis by (simp add: fp_make_def fmt64_def Let_def del: power_numeral)
qed

lemma pow_le:
  assumes "m \<le> 2 ^ c" "a + c \<le> b"
  shows "2 ^ a * m \<le> (2 :: nat) ^ b"
proof -
  have "2 ^ a * m \<le> 2 ^ a * 2 ^ c" using assms(1) by (rule mult_le_mono2)
  also have "\<dots> = 2 ^ (a + c)" by (simp add: power_add)
  also have "\<dots> \<le> 2 ^ b" using assms(2) by (rule power_increasing) simp
  finally show ?thesis .
qed

lemma eps_value: "\<exists>e. f64_val VQF_EPS = FFin False e \<and> 2 ^ 1053 \<le> e"
proof -
  have "2 ^ 1053 * 1000000 \<le> (2 ^ 1074 :: nat)" by (rule pow_le [of _ 20]) simp_all
  then show ?thesis
    using make_between [of 1000000 1053 "2 ^ 1074" 1074 False]
    by (auto simp: VQF_EPS_def f64_val_lit fmt64_def simp del: power_numeral)
qed

text \<open>The quotient of a bounded number by one that is not tiny does not overflow.\<close>

lemma quotient_finite:
  assumes x: "f64_val x = FFin t k" "k < 2 ^ 1586"
    and n: "f64_val n = FFin s l" "2 ^ 1053 \<le> l"
  shows "f64_is_finite (x / n)"
proof -
  have l: "0 < l" using n(2) by (rule less_le_trans [rotated]) simp
  have "k * 2 ^ 1074 \<le> 2 ^ 1586 * (2 ^ 1074 :: nat)"
    using x(2) by (intro mult_le_mono1) (rule less_imp_le)
  also have "\<dots> = 2 ^ 1607 * 2 ^ 1053" unfolding power_add [symmetric] by (simp del: power_numeral)
  also have "\<dots> \<le> 2 ^ 1607 * l" using n(2) by (rule mult_le_mono2)
  finally have le: "k * 2 ^ 1074 \<le> 2 ^ 1607 * l" .
  then have "fp_round 52 (k * 2 ^ 1074) l \<le> fp_round 52 (1 * 2 ^ 1607) 1"
    using l by (intro fp_round_mono) (simp_all del: power_numeral)
  also have "\<dots> < 2 ^ 2098" unfolding fp_round_pow by (rule power_strict_increasing) simp_all
  finally show ?thesis
    using l by (simp add: f64_is_finite_def x n fp_make_def fmt64_def Let_def del: power_numeral)
qed

lemma f64_finite_square: "f64_is_finite (x * x) \<Longrightarrow> \<exists>t k. f64_val x = FFin t k \<and> k < 2 ^ 1586"
  using square_bound by (cases "f64_val x") (auto simp: f64_is_finite_def simp del: power_numeral)

lemma f64_finite_add: "f64_is_finite (x + y) \<Longrightarrow> f64_is_finite x \<and> f64_is_finite y"
  by (auto simp: f64_is_finite_def dest: fp_finite_add)

lemma f64_finite_sqrt: "f64_is_finite (f64_sqrt x) \<Longrightarrow> f64_is_finite x"
  by (auto simp: f64_is_finite_def dest: fp_finite_sqrt)

lemma not_below_eps:
  assumes "f64_is_finite n" "\<not> n < VQF_EPS"
  shows "\<exists>s l. f64_val n = FFin s l \<and> 2 ^ 1053 \<le> l"
proof -
  obtain e where e: "f64_val VQF_EPS = FFin False e" "2 ^ 1053 \<le> e" using eps_value by blast
  from e(2) have "0 < e" by (rule less_le_trans [rotated]) simp
  with assms e show ?thesis
    by (cases "f64_val n")
      (auto simp: f64_is_finite_def less_f64_def sgn_int_def simp del: power_numeral split: if_splits)
qed

fun quat_finite :: "wxyz \<Rightarrow> bool" where
  "quat_finite (w, x, y, z) \<longleftrightarrow> f64_is_finite w \<and> f64_is_finite x \<and> f64_is_finite y \<and> f64_is_finite z"

lemma f64_finite_consts [simp]: "f64_is_finite 0" "f64_is_finite 1"
  by (simp_all add: f64_is_finite_def zero_f64_def one_f64_def f64_val_def fp_decode_def fmt64_def Let_def)

lemma quat_normalize_finite: "quat_finite (quat_normalize q)"
proof (cases q)
  case (fields w x y z)
  define n where "n = f64_sqrt (w * w + x * x + y * y + z * z)"
  show ?thesis
  proof (cases "\<not> f64_is_finite n \<or> n < VQF_EPS")
    case True
    then show ?thesis by (simp add: fields Let_def n_def)
  next
    case False
    then have "f64_is_finite (w * w)" "f64_is_finite (x * x)" "f64_is_finite (y * y)" "f64_is_finite (z * z)"
      by (auto simp: n_def dest!: f64_finite_sqrt f64_finite_add)
    with False show ?thesis
      using not_below_eps [of n]
      by (auto simp: fields Let_def simp flip: n_def intro!: quotient_finite
          dest!: f64_finite_square simp del: power_numeral)
  qed
qed

subsection \<open>Runs of the filter\<close>

datatype vqf_op =
    Op_Update "f64 vec3" "f64 vec3" "f64 vec3 option"
  | Op_Reset
  | Op_Timestep f64
  | Op_Tau_Acc f64
  | Op_Tau_Mag f64
  | Op_Set_Bias "f64 vec3" "f64 option"

primrec vqf_step :: "libm \<Rightarrow> linalg \<Rightarrow> vqf_op \<Rightarrow> vqf \<Rightarrow> vqf" where
  "vqf_step lm la (Op_Update g a m) v = vqf_update lm la g a m v"
| "vqf_step lm la Op_Reset v = vqf_reset_state lm v"
| "vqf_step lm la (Op_Timestep ts) v = vqf_set_timestep lm ts v"
| "vqf_step lm la (Op_Tau_Acc tau) v = vqf_set_tau_acc lm tau v"
| "vqf_step lm la (Op_Tau_Mag tau) v = vqf_set_tau_mag lm tau v"
| "vqf_step lm la (Op_Set_Bias b sigma) v = vqf_set_bias_estimate b sigma v"

definition vqf_run :: "libm \<Rightarrow> linalg \<Rightarrow> vqf_op list \<Rightarrow> vqf \<Rightarrow> vqf" where
  "vqf_run lm la ops v = fold (vqf_step lm la) ops v"

lemma vqf_run_induct:
  assumes "P v" "\<And>op w. op \<in> set ops \<Longrightarrow> P w \<Longrightarrow> P (vqf_step lm la op w)"
  shows "P (vqf_run lm la ops v)"
  using assms by (induction ops arbitrary: v) (auto simp: vqf_run_def)

text \<open>What each part of an update leaves alone.\<close>

lemma gyr_rest_frame [simp]:
  "vs_gyr_quat (gyr_rest p c g st) = vs_gyr_quat st" "vs_acc_quat (gyr_rest p c g st) = vs_acc_quat st"
  "vs_bias (gyr_rest p c g st) = vs_bias st" "vs_delta (gyr_rest p c g st) = vs_delta st"
  "vs_mag_seen (gyr_rest p c g st) = vs_mag_seen st"
  by (simp_all add: gyr_rest_def Let_def split: prod.split)

lemma integrate_gyr_frame [simp]:
  "vs_acc_quat (integrate_gyr lm c g st) = vs_acc_quat st" "vs_bias (integrate_gyr lm c g st) = vs_bias st"
  "vs_delta (integrate_gyr lm c g st) = vs_delta st" "vs_mag_seen (integrate_gyr lm c g st) = vs_mag_seen st"
  by (simp_all add: integrate_gyr_def Let_def split: prod.split)

lemma update_gyr_frame [simp]:
  "vs_acc_quat (update_gyr lm p c g st) = vs_acc_quat st" "vs_bias (update_gyr lm p c g st) = vs_bias st"
  "vs_delta (update_gyr lm p c g st) = vs_delta st" "vs_mag_seen (update_gyr lm p c g st) = vs_mag_seen st"
  by (simp_all add: update_gyr_def)

lemma acc_rest_frame [simp]:
  "vs_gyr_quat (acc_rest p c a st) = vs_gyr_quat st" "vs_acc_quat (acc_rest p c a st) = vs_acc_quat st"
  "vs_bias (acc_rest p c a st) = vs_bias st" "vs_delta (acc_rest p c a st) = vs_delta st"
  "vs_mag_seen (acc_rest p c a st) = vs_mag_seen st"
  by (simp_all add: acc_rest_def Let_def split: prod.split)

lemma update_bias_frame [simp]:
  "vs_gyr_quat (update_bias_kalman la p c e st) = vs_gyr_quat st"
  "vs_acc_quat (update_bias_kalman la p c e st) = vs_acc_quat st"
  "vs_delta (update_bias_kalman la p c e st) = vs_delta st"
  "vs_mag_seen (update_bias_kalman la p c e st) = vs_mag_seen st"
  by (simp_all add: update_bias_kalman_def Let_def split: prod.split option.split)

lemma update_acc_frame [simp]:
  "vs_gyr_quat (update_acc la p c a st) = vs_gyr_quat st" "vs_delta (update_acc la p c a st) = vs_delta st"
  "vs_mag_seen (update_acc la p c a st) = vs_mag_seen st"
  by (simp_all add: update_acc_def Let_def split: prod.split)

lemma mag_reference_frame [simp]:
  "vs_gyr_quat (mag_reference p c nd st) = vs_gyr_quat st" "vs_acc_quat (mag_reference p c nd st) = vs_acc_quat st"
  "vs_bias (mag_reference p c nd st) = vs_bias st" "vs_delta (mag_reference p c nd st) = vs_delta st"
  "vs_mag_seen (mag_reference p c nd st) = vs_mag_seen st" "vs_rest_detected (mag_reference p c nd st) = vs_rest_detected st"
  by (simp_all add: mag_reference_def Let_def)

lemma mag_candidate_frame [simp]:
  "vs_gyr_quat (mag_candidate p c nd st) = vs_gyr_quat st" "vs_acc_quat (mag_candidate p c nd st) = vs_acc_quat st"
  "vs_bias (mag_candidate p c nd st) = vs_bias st" "vs_delta (mag_candidate p c nd st) = vs_delta st"
  "vs_mag_seen (mag_candidate p c nd st) = vs_mag_seen st" "vs_rest_detected (mag_candidate p c nd st) = vs_rest_detected st"
  by (simp_all add: mag_candidate_def Let_def)

lemma mag_disturbance_frame [simp]:
  "vs_gyr_quat (mag_disturbance lm p c e st) = vs_gyr_quat st"
  "vs_acc_quat (mag_disturbance lm p c e st) = vs_acc_quat st"
  "vs_bias (mag_disturbance lm p c e st) = vs_bias st" "vs_delta (mag_disturbance lm p c e st) = vs_delta st"
  "vs_mag_seen (mag_disturbance lm p c e st) = vs_mag_seen st"
  "vs_rest_detected (mag_disturbance lm p c e st) = vs_rest_detected st"
  by (simp_all add: mag_disturbance_def Let_def split: prod.split)

lemma update_mag_frame [simp]:
  "vs_gyr_quat (update_mag lm p c m st) = vs_gyr_quat st" "vs_acc_quat (update_mag lm p c m st) = vs_acc_quat st"
  "vs_bias (update_mag lm p c m st) = vs_bias st"
  by (simp_all add: update_mag_def Let_def split: prod.split)

lemma vqf_update_mag:
  "vq_state (vqf_update lm la g a (Some m) v) =
     update_mag lm (vq_params v) (vq_coeffs v) m (vq_state (vqf_update lm la g a None v))"
  by (simp add: vqf_update_def Let_def)

lemma vqf_update_frame [simp]:
  "vs_gyr_quat (vq_state (vqf_update lm la g a m v)) =
     vs_gyr_quat (update_gyr lm (vq_params v) (vq_coeffs v) g (vq_state v))"
  "vs_delta (vq_state (vqf_update lm la g a None v)) = vs_delta (vq_state v)"
  "vq_params (vqf_update lm la g a m v) = vq_params v" "vq_coeffs (vqf_update lm la g a m v) = vq_coeffs v"
  by (simp_all add: vqf_update_def Let_def split: option.split)

lemma vqf_setup_frame [simp]:
  "vs_gyr_quat (vq_state (vqf_setup lm v)) = vs_gyr_quat (vq_state v)"
  "vs_acc_quat (vq_state (vqf_setup lm v)) = vs_acc_quat (vq_state v)"
  "vs_bias (vq_state (vqf_setup lm v)) = vs_bias (vq_state v)"
  "vs_delta (vq_state (vqf_setup lm v)) = vs_delta (vq_state v)"
  "vs_mag_seen (vq_state (vqf_setup lm v)) = vs_mag_seen (vq_state v)"
  "vq_params (vqf_setup lm v) = vq_params v"
  by (simp_all add: vqf_setup_def Let_def)

lemmas vqf_op_defs = vqf_reset_state_def vqf_set_timestep_def vqf_set_tau_acc_def vqf_set_tau_mag_def
  vqf_set_bias_estimate_def

subsection \<open>The orientation is finite\<close>

definition orientation_ok :: "vqf \<Rightarrow> bool" where
  "orientation_ok v \<longleftrightarrow> quat_finite (vs_gyr_quat (vq_state v)) \<and> quat_finite (vs_acc_quat (vq_state v))"

lemma integrate_gyr_finite:
  "quat_finite (vs_gyr_quat st) \<Longrightarrow> quat_finite (vs_gyr_quat (integrate_gyr lm c g st))"
  by (simp add: integrate_gyr_def Let_def quat_normalize_finite split: prod.split)

lemma update_gyr_finite:
  "quat_finite (vs_gyr_quat st) \<Longrightarrow> quat_finite (vs_gyr_quat (update_gyr lm p c g st))"
  by (simp add: update_gyr_def integrate_gyr_finite)

lemma update_acc_finite:
  "quat_finite (vs_acc_quat st) \<Longrightarrow> quat_finite (vs_acc_quat (update_acc la p c a st))"
  by (simp add: update_acc_def Let_def quat_normalize_finite split: prod.split)

lemma orientation_step: "orientation_ok v \<Longrightarrow> orientation_ok (vqf_step lm la op v)"
  by (cases op)
    (simp_all add: orientation_ok_def vqf_op_defs vqf_state_default_def vqf_update_def Let_def
      update_gyr_finite update_acc_finite split: option.split prod.split)

lemma orientation_new: "orientation_ok (vqf_with_params_and_timesteps lm p tg ta tm)"
  by (simp add: orientation_ok_def vqf_with_params_and_timesteps_def vqf_state_default_def)


subsection \<open>The bias is clipped\<close>

definition f64_nonneg :: "f64 \<Rightarrow> bool" where
  "f64_nonneg x = (case f64_val x of FNaN \<Rightarrow> True | FInf s \<Rightarrow> \<not> s | FFin s k \<Rightarrow> \<not> s)"

lemma f64_nonneg_ops [simp]:
  "0 < d \<Longrightarrow> f64_nonneg (f64_lit n d)"
  "f64_nonneg x \<Longrightarrow> f64_nonneg y \<Longrightarrow> f64_nonneg (x * y)"
  "f64_nonneg x \<Longrightarrow> f64_nonneg y \<Longrightarrow> f64_nonneg (x / y)"
  by (cases "f64_val x"; cases "f64_val y";
      auto simp: f64_nonneg_def f64_val_lit fp_make_def Let_def)+

lemma f64_nonneg_neg: "f64_nonneg b \<Longrightarrow> \<not> b < - b"
  by (cases "f64_val b") (auto simp: f64_nonneg_def less_f64_def sgn_int_def)

definition within :: "f64 \<Rightarrow> f64 vec3 \<Rightarrow> bool" where
  "within b v = (case v of (x, y, z) \<Rightarrow>
     \<not> b < x \<and> \<not> x < - b \<and> \<not> b < y \<and> \<not> y < - b \<and> \<not> b < z \<and> \<not> z < - b)"

lemma f64_less_irrefl [simp]: "\<not> x < (x :: f64)"
  by (simp add: less_f64_def)

lemma clip_within: "f64_nonneg b \<Longrightarrow> within b (clip_vec b v)"
  by (cases v) (simp add: within_def clip_vec_def f64_clamp_def Let_def f64_nonneg_neg)

definition bias_limit :: "vqf \<Rightarrow> f64" where
  "bias_limit v = to_rad (vp_bias_clip (vq_params v))"

definition bias_ok :: "vqf \<Rightarrow> bool" where
  "bias_ok v \<longleftrightarrow> f64_nonneg (bias_limit v) \<and> within (bias_limit v) (vs_bias (vq_state v))"

lemma update_bias_within:
  "f64_nonneg (to_rad (vp_bias_clip p)) \<Longrightarrow> within (to_rad (vp_bias_clip p)) (vs_bias st)
    \<Longrightarrow> within (to_rad (vp_bias_clip p)) (vs_bias (update_bias_kalman la p c e st))"
  by (simp add: update_bias_kalman_def Let_def clip_within split: prod.split option.split)

lemma update_acc_within:
  "f64_nonneg (to_rad (vp_bias_clip p)) \<Longrightarrow> within (to_rad (vp_bias_clip p)) (vs_bias st)
    \<Longrightarrow> within (to_rad (vp_bias_clip p)) (vs_bias (update_acc la p c a st))"
  by (simp add: update_acc_def Let_def update_bias_within split: prod.split)

lemma within_zero: "f64_nonneg b \<Longrightarrow> within b (0, 0, 0)"
  by (cases "f64_val b") (auto simp: within_def f64_nonneg_def less_f64_def sgn_int_def)

lemma bias_step: "bias_ok v \<Longrightarrow> bias_ok (vqf_step lm la op v)"
  by (cases op)
    (simp_all add: bias_ok_def bias_limit_def vqf_op_defs vqf_state_default_def vqf_update_def Let_def
      update_acc_within clip_within within_zero split: option.split prod.split)

lemma bias_limit_step: "bias_limit (vqf_step lm la op v) = bias_limit v"
  by (cases op) (simp_all add: bias_limit_def vqf_op_defs Let_def split: option.split prod.split)

lemma bias_new: "bias_ok (vqf_new lm ts)"
  by (simp add: bias_ok_def bias_limit_def vqf_new_def vqf_with_params_def
      vqf_with_params_and_timesteps_def vqf_state_default_def within_zero vqf_params_default_def
      to_rad_def VQF_PI_def)

text \<open>The limit itself, two degrees in radians, is a positive finite number.\<close>

definition f64_between :: "nat \<Rightarrow> nat \<Rightarrow> f64 \<Rightarrow> bool" where
  "f64_between a b x \<longleftrightarrow> (\<exists>k. f64_val x = FFin False k \<and> 2 ^ a \<le> k \<and> k \<le> 2 ^ b)"

lemma between_lit:
  "0 < d \<Longrightarrow> 2 ^ a * d \<le> n * 2 ^ 1074 \<Longrightarrow> n * 2 ^ 1074 \<le> 2 ^ b * d \<Longrightarrow> b < 2098
    \<Longrightarrow> f64_between a b (f64_lit n d)"
  unfolding f64_between_def f64_val_lit using make_between [of d a "n * 2 ^ 1074" b False]
  by (simp add: f64_val_lit fmt64_def del: power_numeral)

lemma pow_mult_le:
  assumes "k \<le> 2 ^ a" "l \<le> 2 ^ b" "2 ^ c \<le> m" "2 ^ d \<le> n" "a + b \<le> c + d"
  shows "k * l \<le> m * (n :: nat)"
proof -
  have "k * l \<le> 2 ^ a * 2 ^ b" using assms(1,2) by (rule mult_le_mono)
  also have "\<dots> = 2 ^ (a + b)" by (simp add: power_add)
  also have "\<dots> \<le> 2 ^ (c + d)" using assms(5) by (rule power_increasing) simp
  also have "\<dots> = 2 ^ c * 2 ^ d" by (simp add: power_add)
  also have "\<dots> \<le> m * n" using assms(3,4) by (rule mult_le_mono)
  finally show ?thesis .
qed

lemma between_mult:
  assumes "f64_between a b x" "f64_between a' b' y" "A + 1074 \<le> a + a'" "b + b' \<le> B + 1074" "B < 2098"
  shows "f64_between A B (x * y)"
proof -
  from assms obtain k l where "f64_val x = FFin False k" "2 ^ a \<le> k" "k \<le> 2 ^ b"
    "f64_val y = FFin False l" "2 ^ a' \<le> l" "l \<le> 2 ^ b'"
    unfolding f64_between_def by blast
  then show ?thesis
    unfolding f64_between_def
    using make_between [of "2 ^ 1074" A "k * l" B False] assms(3-)
      pow_mult_le [of "2 ^ A" A "2 ^ 1074" 1074 a k a' l] pow_mult_le [of k b l b' B "2 ^ B" 1074 "2 ^ 1074"]
    by (simp add: fmt64_def del: power_numeral)
qed

lemma between_divide:
  assumes "f64_between a b x" "f64_between a' b' y" "A + b' \<le> a + 1074" "b + 1074 \<le> B + a'" "B < 2098"
  shows "f64_between A B (x / y)"
proof -
  from assms obtain k l where v: "f64_val x = FFin False k" "2 ^ a \<le> k" "k \<le> 2 ^ b"
    "f64_val y = FFin False l" "2 ^ a' \<le> l" "l \<le> 2 ^ b'"
    unfolding f64_between_def by blast
  moreover from v(5) have "0 < l" by (rule less_le_trans [rotated]) simp
  ultimately show ?thesis
    unfolding f64_between_def
    using make_between [of l A "k * 2 ^ 1074" B False] assms(3-)
      pow_mult_le [of "2 ^ A" A l b' a k 1074 "2 ^ 1074"] pow_mult_le [of k b "2 ^ 1074" 1074 B "2 ^ B" a' l]
    by (simp add: fmt64_def del: power_numeral)
qed

lemma pi_between: "f64_between 1075 1076 VQF_PI"
  unfolding VQF_PI_def by (rule between_lit) simp_all

definition bias_max :: f64 where
  "bias_max = to_rad (vp_bias_clip vqf_params_default)"

lemma two_degrees: "f64_between 1068 1070 (bias_max)"
proof -
  have "f64_between 1075 1075 (f64_lit 2 1)" "f64_between 1081 1082 (f64_lit 180 1)"
    by (rule between_lit; simp)+
  then show ?thesis
    unfolding bias_max_def to_rad_def
    using between_divide [OF between_mult [OF _ pi_between], of 1075 1075 _ 1076 1077 1081 1082 _ 1068 1070]
    by (simp add: vqf_params_default_def)
qed

lemma between_bounds:
  "f64_between a b c \<Longrightarrow> \<not> c < x \<Longrightarrow> \<not> x < - c \<Longrightarrow> f64_is_nan x \<or> - c \<le> x \<and> x \<le> c"
  by (cases "f64_val x")
    (auto simp: f64_between_def f64_is_nan_def less_f64_def less_eq_f64_def fp_le_def)

lemma pow_pos: "2 ^ a \<le> k \<Longrightarrow> 0 < (k :: nat)"
  by (rule less_le_trans [of _ "2 ^ a"]) simp_all

lemma between_positive: "f64_between a b c \<Longrightarrow> 0 < c \<and> f64_is_finite c"
  by (auto simp: f64_between_def less_f64_def f64_is_finite_def sgn_int_def dest: pow_pos)

lemma bias_limit_new: "bias_limit (vqf_new lm ts) = bias_max"
  by (simp add: bias_limit_def vqf_new_def vqf_with_params_def vqf_with_params_and_timesteps_def
      bias_max_def)

definition bias_in_range :: "f64 \<Rightarrow> bool" where
  "bias_in_range x \<longleftrightarrow> f64_is_nan x \<or> - bias_max \<le> x \<and> x \<le> bias_max"

text \<open>
  Property C39. The estimated bias of a filter with the default parameters never leaves two degrees
  per second: after any run of its operations each component is a NaN or lies between the limits,
  whatever the readings were and whatever the linear algebra answered. A bias set by the caller is
  clipped like an estimated one. The limit itself is a positive finite number.
\<close>

theorem bias_within_clip:
  "(case fst (vqf_bias_estimate (vqf_run lm la ops (vqf_new lm ts))) of
      (x, y, z) \<Rightarrow> bias_in_range x \<and> bias_in_range y \<and> bias_in_range z)
   \<and> (0 :: f64) < bias_max \<and> f64_is_finite (bias_max)"
proof -
  define v where "v = vqf_run lm la ops (vqf_new lm ts)"
  have "bias_ok v \<and> bias_limit v = bias_max"
    unfolding v_def
    by (rule vqf_run_induct) (simp_all add: bias_new bias_limit_new bias_step bias_limit_step)
  moreover have "(0 :: f64) < bias_max \<and> f64_is_finite (bias_max)"
    using two_degrees by (rule between_positive)
  ultimately show ?thesis
    unfolding v_def [symmetric]
    by (auto simp: vqf_bias_estimate_def bias_ok_def within_def bias_in_range_def split: prod.split
        dest: between_bounds [OF two_degrees])
qed

subsection \<open>What a NaN does\<close>

fun any_nan :: "f64 vec3 \<Rightarrow> bool" where
  "any_nan (x, y, z) \<longleftrightarrow> f64_is_nan x \<or> f64_is_nan y \<or> f64_is_nan z"

lemma f64_nan_sqrt [simp]: "f64_is_nan x \<Longrightarrow> f64_is_nan (f64_sqrt x)"
  by (simp add: f64_is_nan_def)

lemma f64_nan_clamp: "f64_is_nan x \<Longrightarrow> f64_is_nan (f64_clamp x lo hi)"
  by (simp add: f64_clamp_def Let_def)

lemma v_norm_nan: "any_nan v \<Longrightarrow> f64_is_nan (v_norm v)"
  by (cases v) (auto simp: v_norm_def)

lemma any_nan_vzip:
  "any_nan b \<Longrightarrow> any_nan (vzip (-) a b)" "any_nan a \<Longrightarrow> any_nan (vzip (-) a b)" "any_nan a \<Longrightarrow> any_nan (vzip (+) a b)"
  by (cases a; cases b; auto)+

lemma any_nan_clip: "any_nan v \<Longrightarrow> any_nan (clip_vec b v)"
  by (cases v) (auto simp: clip_vec_def f64_nan_clamp)

lemma update_bias_nan: "any_nan (vs_bias st) \<Longrightarrow> any_nan (vs_bias (update_bias_kalman la p c e st))"
  by (simp add: update_bias_kalman_def Let_def any_nan_clip any_nan_vzip split: prod.split option.split)

lemma update_acc_nan: "any_nan (vs_bias st) \<Longrightarrow> any_nan (vs_bias (update_acc la p c a st))"
  by (simp add: update_acc_def Let_def update_bias_nan split: prod.split)

lemma vqf_update_bias_nan:
  "any_nan (vs_bias (vq_state v)) \<Longrightarrow> any_nan (vs_bias (vq_state (vqf_update lm la g a m v)))"
  by (simp add: vqf_update_def Let_def update_acc_nan split: option.split)

lemma integrate_gyr_nan: "any_nan (vs_bias st) \<Longrightarrow> integrate_gyr lm c g st = st"
  by (simp add: integrate_gyr_def Let_def v_norm_nan any_nan_vzip)

lemma update_gyr_nan:
  "any_nan (vs_bias st) \<Longrightarrow> vs_gyr_quat (update_gyr lm p c g st) = vs_gyr_quat st"
  by (simp add: update_gyr_def integrate_gyr_nan)

text \<open>The operations that neither reset the filter nor replace its bias.\<close>

fun keeps_bias :: "vqf_op \<Rightarrow> bool" where
  "keeps_bias (Op_Update g a m) = True"
| "keeps_bias (Op_Timestep ts) = True"
| "keeps_bias (Op_Tau_Acc tau) = True"
| "keeps_bias (Op_Tau_Mag tau) = True"
| "keeps_bias _ = False"

lemma nan_bias_step:
  "keeps_bias op \<Longrightarrow> any_nan (vs_bias (vq_state v)) \<Longrightarrow>
     any_nan (vs_bias (vq_state (vqf_step lm la op v)))
     \<and> vs_gyr_quat (vq_state (vqf_step lm la op v)) = vs_gyr_quat (vq_state v)"
  by (cases op) (simp_all add: vqf_op_defs Let_def vqf_update_bias_nan update_gyr_nan split: prod.split)

subsection \<open>The shape of the filter states\<close>

definition lp_wf :: "vqf_state \<Rightarrow> bool" where
  "lp_wf st \<longleftrightarrow> length (vs_acc_lp st) = 3 \<and> length (vs_motion_r_lp st) = 9
     \<and> length (vs_motion_bias_lp st) = 2 \<and> length (vs_rest_gyr_lp st) = 3
     \<and> length (vs_rest_acc_lp st) = 3 \<and> length (vs_mag_norm_dip_lp st) = 2"

lemma filter_vec_length:
  "filter_vec k xs st = (out, st1) \<Longrightarrow> length st = length xs \<Longrightarrow> length out = length xs \<and> length st1 = length xs"
  by (auto simp: filter_vec_def Let_def)

lemma filter_vec3_length: "filter_vec3 k v st = (out, st1) \<Longrightarrow> length st = 3 \<Longrightarrow> length st1 = 3"
  by (auto simp: filter_vec3_def split: prod.splits dest: filter_vec_length)

lemma filter_vec2_length: "filter_vec2 k v st = (out, st1) \<Longrightarrow> length st = 2 \<Longrightarrow> length st1 = 2"
  by (auto simp: filter_vec2_def split: prod.splits dest: filter_vec_length)

lemma gyr_rest_wf: "lp_wf st \<Longrightarrow> lp_wf (gyr_rest p c g st)"
  by (auto simp: lp_wf_def gyr_rest_def Let_def split: prod.split dest: filter_vec3_length)

lemma integrate_gyr_wf: "lp_wf st \<Longrightarrow> lp_wf (integrate_gyr lm c g st)"
  by (simp add: lp_wf_def integrate_gyr_def Let_def split: prod.split)

lemma update_gyr_wf: "lp_wf st \<Longrightarrow> lp_wf (update_gyr lm p c g st)"
  by (simp add: update_gyr_def gyr_rest_wf integrate_gyr_wf)

lemma acc_rest_wf: "lp_wf st \<Longrightarrow> lp_wf (acc_rest p c a st)"
  by (auto simp: lp_wf_def acc_rest_def Let_def split: prod.split dest: filter_vec3_length)

lemma update_bias_wf: "lp_wf st \<Longrightarrow> lp_wf (update_bias_kalman la p c e st)"
  by (auto simp: lp_wf_def update_bias_kalman_def Let_def split: prod.split option.split
      dest: filter_vec2_length filter_vec_length)

lemma update_acc_wf: "lp_wf st \<Longrightarrow> lp_wf (update_acc la p c a st)"
proof (cases "v_is_zero a")
  case False
  assume st: "lp_wf st"
  define st1 where "st1 = (if vp_rest_bias_est p then acc_rest p c a st else st)"
  have "lp_wf st1" using st by (simp add: st1_def acc_rest_wf)
  with False show ?thesis
    by (auto simp: update_acc_def Let_def simp flip: st1_def split: prod.split intro!: update_bias_wf)
      (auto simp: lp_wf_def dest: filter_vec3_length)
qed (simp add: update_acc_def)

lemma mag_reference_wf: "lp_wf st \<Longrightarrow> lp_wf (mag_reference p c nd st)"
  by (simp add: lp_wf_def mag_reference_def Let_def)

lemma mag_candidate_wf: "lp_wf st \<Longrightarrow> lp_wf (mag_candidate p c nd st)"
  by (simp add: lp_wf_def mag_candidate_def Let_def)

lemma mag_disturbance_wf: "lp_wf st \<Longrightarrow> lp_wf (mag_disturbance lm p c e st)"
  by (auto simp: mag_disturbance_def Let_def split: prod.split intro!: mag_candidate_wf mag_reference_wf)
    (auto simp: lp_wf_def dest: filter_vec2_length)

lemma update_mag_wf: "lp_wf st \<Longrightarrow> lp_wf (update_mag lm p c m st)"
proof (cases "v_is_zero m")
  case False
  assume st: "lp_wf st"
  have seen: "lp_wf (st\<lparr>vs_mag_seen := True\<rparr>)" using st by (simp add: lp_wf_def)
  then have "lp_wf (mag_disturbance lm p c e (st\<lparr>vs_mag_seen := True\<rparr>))" for e by (rule mag_disturbance_wf)
  with False seen show ?thesis by (auto simp: update_mag_def Let_def lp_wf_def split: prod.split)
qed (simp add: update_mag_def)

lemma lp_wf_default: "lp_wf vqf_state_default"
  by (simp add: lp_wf_def vqf_state_default_def lp_nan_def)

lemma vqf_setup_wf: "lp_wf (vq_state v) \<Longrightarrow> lp_wf (vq_state (vqf_setup lm v))"
  by (simp add: lp_wf_def vqf_setup_def Let_def)

lemma lp_wf_step: "lp_wf (vq_state v) \<Longrightarrow> lp_wf (vq_state (vqf_step lm la op v))"
proof (cases op)
  case (Op_Update g a m)
  assume "lp_wf (vq_state v)"
  then show ?thesis
    by (simp add: Op_Update vqf_update_def Let_def update_acc_wf update_gyr_wf update_mag_wf split: option.split)
qed (auto simp: vqf_op_defs Let_def vqf_setup_wf lp_wf_default split: prod.split option.split,
    auto simp: lp_wf_def)

text \<open>
  The low-pass filters keep their shape: after any run of operations on a new filter
  the states hold three, nine, two, three, three and two pairs, as many as the vectors they filter,
  so that no filter step reads past a state or drops a component.
\<close>

theorem filter_shapes_kept:
  "lp_wf (vq_state (vqf_run lm la ops (vqf_with_params_and_timesteps lm p tg ta tm)))"
  by (rule vqf_run_induct)
    (simp_all add: lp_wf_step vqf_with_params_and_timesteps_def vqf_setup_wf lp_wf_default)

subsection \<open>A NaN angular rate at rest\<close>

lemma filter_component_nan:
  assumes "f64_is_nan x"
  shows "f64_is_nan (fst (filter_component k x s))"
proof -
  obtain b0 b1 b2 a1 a2 s0 s1 where "k = ((b0, b1, b2), a1, a2)" "s = (s0, s1)"
    by (metis prod.exhaust)
  with assms show ?thesis by (simp add: filter_component_def Let_def)
qed

lemma length_3: "length xs = 3 \<Longrightarrow> \<exists>a b c. xs = [a, b, c]"
  by (auto simp: length_Suc_conv numeral_3_eq_3)

lemma filter_vec3_nan:
  "any_nan v \<Longrightarrow> length st = 3 \<Longrightarrow> any_nan (fst (filter_vec3 k v st))"
  using length_3 [of st]
  by (cases v) (auto simp: filter_vec3_def filter_vec_def Let_def intro: filter_component_nan)

lemma gyr_rest_nan:
  "any_nan g \<Longrightarrow> lp_wf st \<Longrightarrow> any_nan (vs_rest_last_gyr_lp (gyr_rest p c g st))"
  using filter_vec3_nan [of g "vs_rest_gyr_lp st" "vc_rest_gyr_lp c"]
  by (cases "filter_vec3 (vc_rest_gyr_lp c) g (vs_rest_gyr_lp st)")
    (simp add: gyr_rest_def lp_wf_def Let_def split: prod.split)

lemma integrate_gyr_rest [simp]:
  "vs_rest_last_gyr_lp (integrate_gyr lm c g st) = vs_rest_last_gyr_lp st"
  by (simp add: integrate_gyr_def Let_def split: prod.split)

lemma acc_rest_gyr [simp]: "vs_rest_last_gyr_lp (acc_rest p c a st) = vs_rest_last_gyr_lp st"
  by (simp add: acc_rest_def Let_def split: prod.split)

lemma update_bias_rest [simp]: "vs_rest_detected (update_bias_kalman la p c e st) = vs_rest_detected st"
  by (simp add: update_bias_kalman_def Let_def split: prod.split option.split)

lemma update_mag_rest [simp]: "vs_rest_detected (update_mag lm p c m st) = vs_rest_detected st"
  by (simp add: update_mag_def Let_def split: prod.split)

text \<open>What is used of the linear algebra: it inverts, and a NaN in a vector stays in its image.\<close>

definition la_strict :: "linalg \<Rightarrow> bool" where
  "la_strict la \<longleftrightarrow> (\<forall>s. la_pseudo_inverse la s VQF_EPS \<noteq> None)
     \<and> (\<forall>k x. any_nan x \<longrightarrow> any_nan (la_mul_vec la k x))"

lemma la_strict_inverse: "la_strict la \<Longrightarrow> la_pseudo_inverse la s VQF_EPS \<noteq> None"
  unfolding la_strict_def by blast

lemma la_strict_image: "la_strict la \<Longrightarrow> any_nan x \<Longrightarrow> any_nan (la_mul_vec la k x)"
  unfolding la_strict_def by blast

lemma bias_measurement_rest:
  "vs_rest_detected st \<Longrightarrow> vp_rest_bias_est p \<Longrightarrow>
     bias_measurement p c st e lp r =
       (Some (vzip (-) (vs_rest_last_gyr_lp st) (vs_bias st),
          (vc_bias_rest_w c, vc_bias_rest_w c, vc_bias_rest_w c)), mat_identity)"
  by (simp add: bias_measurement_def split: prod.split)

lemma any_nan_plus_right: "any_nan b \<Longrightarrow> any_nan (vzip (+) a b)"
  by (cases a; cases b) auto

lemma update_bias_nan_rest:
  assumes "la_strict la" "vp_rest_bias_est p" "vs_rest_detected st" "any_nan (vs_rest_last_gyr_lp st)"
  shows "any_nan (vs_bias (update_bias_kalman la p c e st))"
proof -
  have "any_nan (clip_vec b (vzip (+) (vs_bias st)
      (la_mul_vec la k (clip_vec b (vzip (-) (vs_rest_last_gyr_lp st) (vs_bias st))))))" for b k
    using assms(1,4) by (simp add: la_strict_image any_nan_clip any_nan_plus_right any_nan_vzip(2))
  then show ?thesis
    using assms(2,3)
    by (auto simp: update_bias_kalman_def Let_def bias_measurement_rest la_strict_inverse [OF assms(1)]
        simp del: not_None_eq split: prod.split option.split)
qed

lemma update_nan_rate_bias:
  assumes "la_strict la" "lp_wf (vq_state v)" "vp_rest_bias_est (vq_params v)" "any_nan g"
    "\<not> v_is_zero a" "vs_rest_detected (vq_state (vqf_update lm la g a m v))"
  shows "any_nan (vs_bias (vq_state (vqf_update lm la g a m v)))"
  using assms
  by (auto simp: vqf_update_def Let_def update_acc_def update_gyr_def gyr_rest_nan
      split: prod.splits option.splits intro!: update_bias_nan_rest)

text \<open>
  One NaN in an angular rate, read while the filter counts itself at rest and not
  taken for a movement, makes the gyroscope useless for the life of the filter: the bias becomes
  NaN, and no later update, change of the time step or of a time constant ever turns the
  orientation integrated from the gyroscope again. Only a reset or a new bias does.
\<close>

theorem nan_rate_freezes_gyro:
  assumes "la_strict la" "lp_wf (vq_state v)" "vp_rest_bias_est (vq_params v)" "any_nan g"
    "\<not> v_is_zero a" "vs_rest_detected (vq_state (vqf_update lm la g a m v))" "list_all keeps_bias ops"
  shows "vqf_quat_3d (vqf_run lm la ops (vqf_update lm la g a m v)) = vqf_quat_3d (vqf_update lm la g a m v)"
proof -
  let ?v = "vqf_update lm la g a m v" and ?w = "vqf_run lm la ops (vqf_update lm la g a m v)"
  have "any_nan (vs_bias (vq_state ?w)) \<and> vs_gyr_quat (vq_state ?w) = vs_gyr_quat (vq_state ?v)"
  proof (rule vqf_run_induct)
    fix op w
    assume "op \<in> set ops"
    with assms(7) have "keeps_bias op" by (simp add: list_all_iff)
    then show "any_nan (vs_bias (vq_state w)) \<and> vs_gyr_quat (vq_state w) = vs_gyr_quat (vq_state ?v) \<Longrightarrow>
        any_nan (vs_bias (vq_state (vqf_step lm la op w)))
        \<and> vs_gyr_quat (vq_state (vqf_step lm la op w)) = vs_gyr_quat (vq_state ?v)"
      using nan_bias_step [of op w lm la] by simp
  qed (simp add: update_nan_rate_bias [OF assms(1-6)])
  then show ?thesis by (simp add: vqf_quat_3d_def)
qed

definition example_libm :: libm where
  "example_libm =
     \<lparr>lm_sin = (\<lambda>x. x), lm_cos = (\<lambda>x. if f64_is_nan x then x else 1), lm_tan = (\<lambda>x. x),
      lm_exp = (\<lambda>x. 1 + x), lm_asin = (\<lambda>x. x), lm_atan2 = (\<lambda>y x. y / x)\<rparr>"

definition example_linalg :: linalg where
  "example_linalg =
     \<lparr>la_mul = (\<lambda>a b. mat_add a b), la_mul_vec = (\<lambda>m x. x), la_pseudo_inverse = (\<lambda>m eps. Some m)\<rparr>"

definition nan3 :: "f64 vec3" where
  "nan3 = (f64_nan, f64_nan, f64_nan)"

lemma f64_nan_val [simp]: "f64_val f64_nan = FNaN" "f64_is_nan f64_nan"
  by (simp_all add: f64_nan_def f64_is_nan_def)

lemma f64_nan_abs [simp]: "f64_is_nan \<bar>x\<bar> \<longleftrightarrow> f64_is_nan x"
  by (cases "f64_val x") (simp_all add: f64_is_nan_def)

lemma f64_nan_0 [simp]: "\<not> f64_is_nan 0" "\<not> f64_is_nan 1"
  using f64_finite_consts by (auto simp: f64_is_nan_def f64_is_finite_def)

lemma f64_le_nan [simp]: "f64_is_nan y \<Longrightarrow> \<not> x \<le> y"
  by (cases "f64_val x") (simp_all add: f64_is_nan_def less_eq_f64_def fp_le_def)

lemma nan_filter: "\<exists>st. filter_vec3 k nan3 (lp_nan 3) = (nan3, st)"
  by (auto simp: filter_vec3_def filter_vec_def nan3_def lp_nan_def Let_def filter_component_def
      numeral_3_eq_3)

text \<open>A new filter that counts itself at rest, in which a reading of NaNs is not a movement.\<close>

definition resting :: vqf where
  "resting = (let v = vqf_new example_libm (f64_lit 1 100)
     in v\<lparr>vq_state := (vq_state v)\<lparr>vs_rest_detected := True\<rparr>\<rparr>)"

lemma resting_facts:
  "lp_wf (vq_state resting)" "vp_rest_bias_est (vq_params resting)" "vs_rest_detected (vq_state resting)"
  "vs_rest_gyr_lp (vq_state resting) = lp_nan 3" "vs_rest_acc_lp (vq_state resting) = lp_nan 3"
  "to_rad (vp_bias_clip (vq_params resting)) = bias_max"
  by (simp_all add: resting_def vqf_new_def vqf_with_params_def vqf_with_params_and_timesteps_def
      vqf_setup_def vqf_params_default_def vqf_state_default_def lp_wf_def Let_def lp_nan_def bias_max_def)

lemma gyr_rest_keeps:
  assumes "vs_rest_detected st" "vs_rest_gyr_lp st = lp_nan 3" "\<not> to_rad (vp_bias_clip p) < 0"
  shows "vs_rest_detected (gyr_rest p c nan3 st)"
proof -
  obtain lp where "filter_vec3 (vc_rest_gyr_lp c) nan3 (lp_nan 3) = (nan3, lp)"
    using nan_filter by blast
  with assms show ?thesis by (simp add: gyr_rest_def) (simp add: nan3_def f64_max_def)
qed

lemma acc_rest_keeps:
  assumes "vs_rest_detected st" "vs_rest_acc_lp st = lp_nan 3"
  shows "vs_rest_detected (acc_rest p c nan3 st)"
proof -
  obtain lp where "filter_vec3 (vc_rest_acc_lp c) nan3 (lp_nan 3) = (nan3, lp)"
    using nan_filter by blast
  with assms show ?thesis by (simp add: acc_rest_def) (simp add: nan3_def Let_def)
qed

lemma integrate_gyr_rest_acc [simp]:
  "vs_rest_acc_lp (integrate_gyr lm c g st) = vs_rest_acc_lp st"
  "vs_rest_detected (integrate_gyr lm c g st) = vs_rest_detected st"
  by (simp_all add: integrate_gyr_def Let_def split: prod.split)

lemma gyr_rest_acc_lp [simp]: "vs_rest_acc_lp (gyr_rest p c g st) = vs_rest_acc_lp st"
  by (simp add: gyr_rest_def Let_def split: prod.split)

lemma resting_still: "vs_rest_detected (vq_state (vqf_update lm la nan3 nan3 None resting))"
proof -
  have "\<not> bias_max < 0"
    using two_degrees by (auto simp: f64_between_def less_f64_def sgn_int_def)
  then have "vs_rest_detected (acc_rest (vq_params resting) c nan3
      (update_gyr lm (vq_params resting) c nan3 (vq_state resting)))" for c
    by (intro acc_rest_keeps) (simp_all add: update_gyr_def gyr_rest_keeps resting_facts)
  moreover have "\<not> v_is_zero nan3" by (simp add: nan3_def)
  ultimately show ?thesis
    by (simp add: vqf_update_def Let_def update_acc_def resting_facts split: prod.split)
qed

theorem nan_rate_freezes_gyro_witness:
  "vqf_quat_3d (vqf_run example_libm example_linalg
      [Op_Update (f64_lit 1 1, 0, 0) (0, 0, 1) None, Op_Timestep (f64_lit 1 50)]
      (vqf_update example_libm example_linalg nan3 nan3 None resting))
    = vqf_quat_3d (vqf_update example_libm example_linalg nan3 nan3 None resting)"
proof (rule nan_rate_freezes_gyro)
  show "la_strict example_linalg" by (auto simp: la_strict_def example_linalg_def)
  show "any_nan nan3" "\<not> v_is_zero nan3" by (simp_all add: nan3_def)
qed (simp_all add: resting_facts resting_still)

subsection \<open>A NaN heading\<close>

fun all_nan :: "wxyz \<Rightarrow> bool" where
  "all_nan (w, x, y, z) \<longleftrightarrow> f64_is_nan w \<and> f64_is_nan x \<and> f64_is_nan y \<and> f64_is_nan z"

lemma rotate_nan:
  assumes "any_nan m" "quat_rotate q m = (x, y, z)"
  shows "f64_is_nan x \<and> f64_is_nan y \<and> f64_is_nan z"
  using assms by (cases q; cases m) auto

lemma wrap_pi_nan: "f64_is_nan x \<Longrightarrow> f64_is_nan (wrap_pi x)"
  by (simp add: wrap_pi_def)

lemma v_is_zero_nan: "any_nan m \<Longrightarrow> \<not> v_is_zero m"
  by (cases m) auto

lemma update_mag_delta:
  assumes "f64_is_nan (vs_delta st)
      \<or> any_nan m \<and> (\<forall>y x. f64_is_nan y \<longrightarrow> f64_is_nan (lm_atan2 lm y x))"
  shows "f64_is_nan (vs_delta (update_mag lm p c m st))"
  using assms v_is_zero_nan [of m]
  by (auto simp: update_mag_def Let_def wrap_pi_nan split: prod.split dest: rotate_nan)

lemma update_delta_none [simp]:
  "vs_delta (vq_state (vqf_update lm la g a None v)) = vs_delta (vq_state v)"
  by (rule vqf_update_frame)

lemma update_mag_seen: "vs_mag_seen st \<Longrightarrow> vs_mag_seen (update_mag lm p c m st)"
  by (simp add: update_mag_def Let_def split: prod.split)

lemma update_mag_sets_seen: "\<not> v_is_zero m \<Longrightarrow> vs_mag_seen (update_mag lm p c m st)"
  by (simp add: update_mag_def Let_def split: prod.split)

lemma vqf_update_none_seen [simp]:
  "vs_mag_seen (vq_state (vqf_update lm la g a None v)) = vs_mag_seen (vq_state v)"
  by (simp add: vqf_update_def Let_def)

definition heading_lost :: "vqf \<Rightarrow> bool" where
  "heading_lost v \<longleftrightarrow> vs_mag_seen (vq_state v) \<and> f64_is_nan (vs_delta (vq_state v))"

lemma heading_lost_update: "heading_lost v \<Longrightarrow> heading_lost (vqf_update lm la g a m v)"
  by (cases m) (simp_all add: heading_lost_def vqf_update_mag update_mag_seen update_mag_delta)

lemma heading_lost_step: "op \<noteq> Op_Reset \<Longrightarrow> heading_lost v \<Longrightarrow> heading_lost (vqf_step lm la op v)"
  by (cases op)
    (simp_all add: heading_lost_update, simp_all add: vqf_op_defs Let_def heading_lost_def
      split: prod.split option.split)

lemma heading_lost_quat:
  assumes "heading_lost v" "\<And>x. f64_is_nan x \<Longrightarrow> f64_is_nan (lm_cos lm x)"
  shows "\<exists>q. vqf_quat_9d lm v = Some q \<and> all_nan q"
  using assms
  by (cases "vqf_quat_6d v")
    (auto simp: vqf_quat_9d_def heading_lost_def quat_apply_delta_def Let_def)

text \<open>
  One NaN in a magnetometer reading destroys the heading for the life of the filter:
  the quaternion with heading is all NaN after it, and stays so under every further operation,
  whatever the readings, until the filter is reset. Used of the mathematical library: the
  arctangent and the cosine of a NaN are NaN.
\<close>

theorem nan_heading_persists:
  assumes "\<And>y x. f64_is_nan y \<Longrightarrow> f64_is_nan (lm_atan2 lm y x)" "\<And>x. f64_is_nan x \<Longrightarrow> f64_is_nan (lm_cos lm x)"
    "any_nan m" "Op_Reset \<notin> set ops"
  shows "\<exists>q. vqf_quat_9d lm (vqf_run lm la ops (vqf_update lm la g a (Some m) v)) = Some q \<and> all_nan q"
proof -
  have "heading_lost (vqf_update lm la g a (Some m) v)"
    using assms(1,3)
    by (auto simp: heading_lost_def vqf_update_mag update_mag_sets_seen v_is_zero_nan intro!: update_mag_delta)
  then have "heading_lost (vqf_run lm la ops (vqf_update lm la g a (Some m) v))"
    by (rule vqf_run_induct) (use assms(4) in \<open>auto intro: heading_lost_step\<close>)
  then show ?thesis using assms(2) by (rule heading_lost_quat)
qed

theorem nan_heading_persists_witness:
  "\<exists>q. vqf_quat_9d example_libm (vqf_run example_libm example_linalg
      [Op_Update (0, 0, 0) (0, 0, 1) (Some (1, 0, 0)), Op_Tau_Mag (f64_lit 9 1)]
      (vqf_update example_libm example_linalg (0, 0, 0) (0, 0, 1) (Some (f64_nan, 1, 0))
        (vqf_new example_libm (f64_lit 1 100)))) = Some q \<and> all_nan q"
  by (rule nan_heading_persists) (simp_all add: example_libm_def)

subsection \<open>The basic filter\<close>

text \<open>Without bias estimation the bias is what it was set to.\<close>

lemma basic_bias_fixed:
  "vq_params v = basic_params \<Longrightarrow> vs_bias (vq_state (basic_vqf_update lm la g a v)) = vs_bias (vq_state v)"
  by (simp add: basic_vqf_update_def vqf_update_def Let_def update_acc_def update_bias_kalman_def
      basic_params_def split: prod.split)

end
