(* ===== verification/Vqf_Unit.thy ===== *)
theory Vqf_Unit
  imports Vqf_Props
begin

section \<open>Normalised quaternions are small\<close>

text \<open>
  A component of a quaternion that was normalised is at most two in magnitude: the norm, with all
  its roundings, is at least half of every component. So it survives the cast to single precision.
\<close>

subsection \<open>Lower bounds through sums and roots\<close>

definition f64_ge :: "nat \<Rightarrow> f64 \<Rightarrow> bool" where
  "f64_ge c x \<longleftrightarrow> (\<exists>a. f64_val x = FFin False a \<and> 2 ^ c \<le> a)"

definition f64_pos :: "f64 \<Rightarrow> bool" where
  "f64_pos x \<longleftrightarrow> (\<exists>a. f64_val x = FFin False a)"

lemma round_ge:
  assumes "2 ^ c * d \<le> n" "0 < d"
  shows "2 ^ c \<le> fp_round 52 n d"
proof -
  have "fp_round 52 (1 * 2 ^ c) 1 \<le> fp_round 52 n d"
    using assms by (intro fp_round_mono) simp_all
  then show ?thesis by (simp only: fp_round_pow)
qed

lemma make_ge:
  "fp_make fmt64 s n d = FFin t a \<Longrightarrow> 2 ^ c * d \<le> n \<Longrightarrow> 0 < d \<Longrightarrow> t = s \<and> 2 ^ c \<le> a"
  using round_ge [of c d n] by (auto simp: fp_make_def fmt64_def Let_def simp del: power_numeral split: if_splits)

lemma make_sign: "fp_make F s n d = FFin t a \<Longrightarrow> t = s"
  by (auto simp: fp_make_def Let_def split: if_splits)

lemma square_pos: "f64_is_finite (x * x) \<Longrightarrow> f64_pos (x * x)"
  by (cases "f64_val x")
    (auto simp: f64_is_finite_def f64_pos_def fp_make_def Let_def split: if_splits)

lemma square_ge:
  assumes "f64_is_finite (x * x)" "f64_val x = FFin s k" "2 ^ m \<le> k" "c + 1074 \<le> 2 * m"
  shows "f64_ge c (x * x)"
proof -
  have "2 ^ c * 2 ^ 1074 \<le> k * k"
    using assms(3,4) by (intro pow_mult_le [of _ c _ 1074 m k m k]) simp_all
  moreover obtain t a where "fp_make fmt64 False (k * k) (2 ^ 1074) = FFin t a"
    using assms(1,2) by (cases "fp_make fmt64 False (k * k) (2 ^ 1074)")
      (auto simp: f64_is_finite_def fmt64_def simp del: power_numeral)
  ultimately show ?thesis
    using assms(2) make_ge [of False "k * k" "2 ^ 1074" t a c]
    by (auto simp: f64_ge_def fmt64_def simp del: power_numeral)
qed

lemma sum_pos:
  assumes "f64_pos x" "f64_pos y" "f64_is_finite (x + y)"
  shows "f64_pos (x + y)"
  using assms
  by (auto simp: f64_pos_def f64_is_finite_def sgn_int_def fp_make_def Let_def split: if_splits)

lemma sum_ge_aux:
  assumes "f64_val x = FFin False a" "f64_val y = FFin False b" "f64_is_finite (x + y)" "2 ^ c \<le> a + b"
  shows "f64_ge c (x + y)"
proof -
  have "0 < a + b" using assms(4) by (rule pow_pos)
  then have "f64_val (x + y) = fp_make fmt64 False (a + b) 1"
    using assms(1,2) by (auto simp: sgn_int_def nat_add_distrib)
  moreover from this assms(3) obtain t k where "fp_make fmt64 False (a + b) 1 = FFin t k"
    by (cases "fp_make fmt64 False (a + b) 1") (auto simp: f64_is_finite_def)
  ultimately show ?thesis
    using make_ge [of False "a + b" 1 t k c] assms(4) by (auto simp: f64_ge_def)
qed

lemma sum_ge:
  assumes "f64_is_finite (x + y)" "f64_pos x" "f64_pos y" "f64_ge c x \<or> f64_ge c y"
  shows "f64_ge c (x + y)"
proof -
  obtain a b where v: "f64_val x = FFin False a" "f64_val y = FFin False b"
    using assms(2,3) by (auto simp: f64_pos_def)
  with assms(4) have "2 ^ c \<le> a + b" by (auto simp: f64_ge_def)
  with v assms(1) show ?thesis by (rule sum_ge_aux)
qed

lemma root_ge:
  assumes "f64_ge c x" "f64_is_finite (f64_sqrt x)" "c + 1074 = 2 * m"
  shows "f64_ge m (f64_sqrt x)"
proof -
  obtain a where a: "f64_val x = FFin False a" "2 ^ c \<le> a" using assms(1) by (auto simp: f64_ge_def)
  define n where "n = a * 2 ^ 1074"
  have "2 ^ m * 2 ^ m = (2 :: nat) ^ c * 2 ^ 1074"
    unfolding power_add [symmetric] using assms(3) by (simp add: mult_2 del: power_numeral)
  also have "\<dots> \<le> n" using a(2) unfolding n_def by (rule mult_le_mono1)
  finally have "2 ^ m * 2 ^ m < Suc (isqrt n) * Suc (isqrt n)"
    using isqrt_bounds [of n] by (meson le_less_trans)
  then have m: "2 ^ m \<le> isqrt n"
    by (metis less_Suc_eq_le linorder_not_le mult_le_mono)
  define k where "k = 2 * isqrt n + (if isqrt n * isqrt n = n then 0 else 1)"
  have val: "f64_val (f64_sqrt x) = fp_make fmt64 False k 2"
    using a pow_pos [OF a(2)] by (simp add: k_def n_def fmt64_def Let_def del: power_numeral)
  with assms(2) obtain t l where "fp_make fmt64 False k 2 = FFin t l"
    by (cases "fp_make fmt64 False k 2") (auto simp: f64_is_finite_def)
  with val m show ?thesis
    using make_ge [of False k 2 t l m] by (auto simp: f64_ge_def k_def)
qed

subsection \<open>The components of a normalised quaternion\<close>

text \<open>At most two: \<open>2 ^ 1075\<close> units of the format.\<close>

definition f64_small :: "f64 \<Rightarrow> bool" where
  "f64_small x \<longleftrightarrow> (\<exists>s k. f64_val x = FFin s k \<and> k \<le> 2 ^ 1075)"

lemma quotient_small:
  assumes "f64_val x = FFin t k" "f64_val n = FFin s l" "0 < l" "k \<le> 2 * l"
  shows "f64_small (x / n)"
proof -
  have "k * 2 ^ 1074 \<le> 2 ^ 1075 * l"
    using mult_le_mono1 [OF assms(4), of "2 ^ 1074"] by (simp add: power_add [of 2 1074 1, simplified] del: power_numeral)
  then have "fp_round 52 (k * 2 ^ 1074) l \<le> fp_round 52 (1 * 2 ^ 1075) 1"
    using assms(3) by (intro fp_round_mono) (simp_all del: power_numeral)
  then have le: "fp_round 52 (k * 2 ^ 1074) l \<le> 2 ^ 1075" by (simp only: fp_round_pow)
  moreover from le have "fp_round 52 (k * 2 ^ 1074) l < 2 ^ 2098"
    by (rule le_less_trans) (rule power_strict_increasing; simp)
  ultimately show ?thesis
    using assms(3)
    by (simp add: f64_small_def assms(1,2) fp_make_def fmt64_def Let_def del: power_numeral)
qed

text \<open>A component that is not itself below the threshold is below twice the norm.\<close>

lemma component_below:
  assumes x: "f64_val x = FFin s k" "f64_is_finite (x * x)"
    and S: "\<And>c. f64_ge c (x * x) \<Longrightarrow> f64_ge c S" "f64_is_finite (f64_sqrt S)"
    and l: "f64_val (f64_sqrt S) = FFin t l" "2 ^ 1053 \<le> l"
  shows "k \<le> 2 * l"
proof (cases "k < 2 ^ 1053")
  case True
  with l(2) show ?thesis by (simp del: power_numeral)
next
  case False
  define m where "m = blen k - 1"
  have k: "0 < k" using False by (metis not_gr_zero zero_less_numeral zero_less_power)
  from blen_bounds [OF k] have b: "2 ^ m \<le> k" "k < 2 ^ Suc m" "blen k = Suc m"
    by (simp_all add: m_def)
  have "\<not> blen k \<le> 1053" using False blen_less [of k]
    by (meson less_le_trans one_le_numeral power_increasing)
  with b(3) have m: "1053 \<le> m" by simp
  have "f64_ge (2 * m - 1074) (x * x)"
    using x(2,1) b(1) by (rule square_ge) (use m in simp)
  from root_ge [OF S(1) [OF this] S(2), of m] m have "f64_ge m (f64_sqrt S)" by simp
  with l(1) have "2 ^ m \<le> l" by (simp add: f64_ge_def)
  with b(2) show ?thesis by simp
qed

fun quat_small :: "wxyz \<Rightarrow> bool" where
  "quat_small (w, x, y, z) \<longleftrightarrow> f64_small w \<and> f64_small x \<and> f64_small y \<and> f64_small z"

lemma small_consts [simp]: "f64_small 0" "f64_small 1"
proof -
  have "(2 :: nat) ^ 1074 \<le> 2 ^ 1075" by (rule power_increasing) simp_all
  moreover have "f64_val 1 = FFin False (2 ^ 1074)"
    by (simp add: one_f64_def f64_val_def fp_decode_def fmt64_def Let_def)
  ultimately show "f64_small 1" unfolding f64_small_def by blast
  have "f64_val 0 = FFin False 0" by simp
  then show "f64_small 0" unfolding f64_small_def by blast
qed

lemma quat_normalize_small: "quat_small (quat_normalize q)"
proof (cases q)
  case (fields w x y z)
  define S where "S = w * w + x * x + y * y + z * z"
  show ?thesis
  proof (cases "\<not> f64_is_finite (f64_sqrt S) \<or> f64_sqrt S < VQF_EPS")
    case True
    then show ?thesis by (simp add: fields Let_def S_def)
  next
    case False
    then obtain t l where l: "f64_val (f64_sqrt S) = FFin t l" "2 ^ 1053 \<le> l"
      using not_below_eps by blast
    have fin: "f64_is_finite (w * w + x * x + y * y + z * z)" "f64_is_finite (w * w + x * x + y * y)"
      "f64_is_finite (w * w + x * x)" "f64_is_finite (w * w)" "f64_is_finite (x * x)"
      "f64_is_finite (y * y)" "f64_is_finite (z * z)"
      using False by (auto simp: S_def dest!: f64_finite_sqrt f64_finite_add)
    note pos = square_pos [OF fin(4)] square_pos [OF fin(5)] square_pos [OF fin(6)] square_pos [OF fin(7)]
    note p1 = sum_pos [OF pos(1,2) fin(3)]
    note p2 = sum_pos [OF p1 pos(3) fin(2)]
    have ge: "f64_ge c (w * w) \<or> f64_ge c (x * x) \<or> f64_ge c (y * y) \<or> f64_ge c (z * z) \<Longrightarrow> f64_ge c S" for c
      unfolding S_def
      using sum_ge [OF fin(1) p2 pos(4)] sum_ge [OF fin(2) p1 pos(3)] sum_ge [OF fin(3) pos(1,2)] by blast
    have small: "f64_small (v / f64_sqrt S)"
      if "f64_is_finite (v * v)" "\<And>c. f64_ge c (v * v) \<Longrightarrow> f64_ge c S" for v
    proof -
      note fv = that
      obtain s k where v: "f64_val v = FFin s k" using f64_finite_square [OF fv(1)] by blast
      have "k \<le> 2 * l"
        using v fv False l by (intro component_below [of v s k S t l]) blast+
      with v l(1) pow_pos [OF l(2)] show ?thesis by (rule quotient_small)
    qed
    with False fin ge show ?thesis by (simp add: fields Let_def flip: S_def)
  qed
qed

end
