(* ===== verification/Fusion.thy ===== *)
theory Fusion
  imports Pipeline_Run Vqf_Unit Madgwick
begin

section \<open>The filters inside the pipeline\<close>

text \<open>
  The filter of a pipeline is the history of its calls; here the history is replayed on the
  translated filters of \<^verbatim>\<open>imu-fusion\<close>, which turns the parameters the pipeline reads its
  orientation through into functions. What is left as a parameter is the mathematical library
  and the linear algebra. The properties are those of the rotation a tracker publishes.
\<close>

subsection \<open>Replaying the calls\<close>

datatype fusion_impl = FVqf vqf | FMadgwick madgwick | FBasic vqf

text \<open>The pipeline seeds a stored bias with a sigma of 0.01.\<close>

definition fusion_new :: "libm \<Rightarrow> fusion_algo \<Rightarrow> f64 \<Rightarrow> bool \<Rightarrow> fusion_impl" where
  "fusion_new lm algo ts motion =
     (case algo of
        AlgoVqf \<Rightarrow> FVqf (vqf_with_params lm ts
          (vqf_params_default\<lparr>vp_motion_bias_est := motion, vp_rest_bias_est := True\<rparr>))
      | AlgoMadgwick \<Rightarrow> FMadgwick (madgwick_new (f32_of_f64 ts))
      | AlgoBasicVqf \<Rightarrow> FBasic (basic_vqf_new lm ts))"

fun fusion_apply :: "libm \<Rightarrow> linalg \<Rightarrow> filter_call \<Rightarrow> fusion_impl \<Rightarrow> fusion_impl" where
  "fusion_apply lm la (CallSetBias b) (FVqf v) = FVqf (vqf_set_bias_estimate b (Some (f64_lit 1 100)) v)"
| "fusion_apply lm la (CallVqf g a m) (FVqf v) = FVqf (vqf_update lm la g a m v)"
| "fusion_apply lm la (CallTimestep ts) (FVqf v) = FVqf (vqf_set_timestep lm ts v)"
| "fusion_apply lm la (CallMarg g a m) (FMadgwick f) = FMadgwick (madgwick_update_marg g a m f)"
| "fusion_apply lm la (CallImu g a) (FMadgwick f) = FMadgwick (madgwick_update_imu g a f)"
| "fusion_apply lm la (CallPeriod ts) (FMadgwick f) = FMadgwick (madgwick_set_period ts f)"
| "fusion_apply lm la (CallBasic g a) (FBasic v) = FBasic (basic_vqf_update lm la g a v)"
| "fusion_apply lm la (CallTimestep ts) (FBasic v) = FBasic (vqf_set_timestep lm ts v)"
| "fusion_apply lm la _ f = f"

definition fusion_of :: "libm \<Rightarrow> linalg \<Rightarrow> filter \<Rightarrow> fusion_impl" where
  "fusion_of lm la f =
     foldr (fusion_apply lm la) (fl_calls f) (fusion_new lm (fl_algo f) (fl_ts f) (fl_motion_bias f))"

fun impl_vqf :: "fusion_impl \<Rightarrow> vqf option" where
  "impl_vqf (FVqf v) = Some v"
| "impl_vqf (FBasic v) = Some v"
| "impl_vqf (FMadgwick f) = None"

text \<open>What the pipeline reads; a reader of another algorithm's filter is never used.\<close>

definition fusion_platform :: "libm \<Rightarrow> linalg \<Rightarrow> (f32 \<Rightarrow> f32) \<Rightarrow> (f32 \<Rightarrow> f32) \<Rightarrow> solver \<Rightarrow> platform" where
  "fusion_platform lm la s c solve =
     (let vq = (\<lambda>k f. case impl_vqf (fusion_of lm la f) of Some v \<Rightarrow> k v | None \<Rightarrow> (1, 0, 0, 0)) in
      \<lparr>pf_sin = s, pf_cos = c, pf_solve = solve,
       rd_vqf_6d = vq vqf_quat_6d,
       rd_vqf_9d = vq (\<lambda>v. case vqf_quat_9d lm v of Some q \<Rightarrow> q | None \<Rightarrow> (1, 0, 0, 0)),
       rd_vqf_mag_seen = (\<lambda>f. case impl_vqf (fusion_of lm la f) of Some v \<Rightarrow> vqf_mag_seen v | None \<Rightarrow> False),
       rd_vqf_bias = (\<lambda>f. case impl_vqf (fusion_of lm la f) of Some v \<Rightarrow> fst (vqf_bias_estimate v) | None \<Rightarrow> (0, 0, 0)),
       rd_madgwick = (\<lambda>f. case fusion_of lm la f of FMadgwick m \<Rightarrow> mw_quat m | _ \<Rightarrow> (1, 0, 0, 0)),
       rd_basic_6d = vq basic_vqf_quat_6d\<rparr>)"

lemma fusion_of_call: "fusion_of lm la (filter_call c f) = fusion_apply lm la c (fusion_of lm la f)"
  by (simp add: fusion_of_def filter_call_def)

subsection \<open>Invariants of the filter\<close>

lemma publish_fusion [simp]: "pl_fusion (publish_progress pf p) = pl_fusion p"
  by (simp add: publish_progress_def Let_def split_beta)

text \<open>The fold over the samples of a batch, after the timestep was driven.\<close>

definition batch_taken :: "event_env \<Rightarrow> imu_sample list \<Rightarrow> pipeline \<Rightarrow> pipeline" where
  "batch_taken e batch p =
     fold (take_sample (pl_cfg p)) batch
       (drive_timestep batch (ee_arrival e)
         (p\<lparr>pl_latency := snd (record_arrival (ee_arrival e) (pl_latency p))\<rparr>))"

lemma process_fusion: "pl_fusion (process_batch pf e batch p) = pl_fusion (batch_taken e batch p)"
  by (simp add: process_batch_def Let_def count_rate_def batch_taken_def)

lemma process_quat:
  "pl_quat (process_batch pf e batch p) = output_quat pf (pl_cfg p) (pl_fusion (process_batch pf e batch p))"
  by (simp add: process_batch_def Let_def count_rate_def)

text \<open>A fact about the filter that updates and timesteps keep holds in every run of the pipeline.\<close>

locale filter_invariant =
  fixes pf :: platform and Q :: "filter \<Rightarrow> bool"
  assumes Q_update: "Q f \<Longrightarrow> Q (filter_update g a m f)"
    and Q_timestep: "Q f \<Longrightarrow> Q (filter_set_timestep ts f)"
begin

lemma Q_apply: "Q (pl_fusion p) \<Longrightarrow> Q (pl_fusion (apply_timestep ts p))"
  by (simp add: apply_timestep_def Q_timestep split: option.split)

lemma Q_drive: "Q (pl_fusion p) \<Longrightarrow> Q (pl_fusion (drive_timestep batch t p))"
  by (auto simp: drive_timestep_def calibrate_rate_def split_beta Let_def intro!: Q_apply)

lemma Q_take: "Q (pl_fusion p) \<Longrightarrow> Q (pl_fusion (take_sample cfg s p))"
  by (simp add: take_sample_def collect_mag_def Let_def Q_update split: option.split)

lemma Q_takes: "Q (pl_fusion p) \<Longrightarrow> Q (pl_fusion (fold (take_sample cfg) batch p))"
  by (induction batch arbitrary: p) (simp_all add: Q_take)

lemma Q_process: "Q (pl_fusion p) \<Longrightarrow> Q (pl_fusion (process_batch pf e batch p))"
  by (simp add: process_fusion batch_taken_def Q_takes Q_drive)

end

sublocale filter_invariant \<subseteq> pipeline_invariant pf "\<lambda>p. Q (pl_fusion p)"
  by unfold_locales
    (simp_all add: persist_bias_def handle_mag_cal_cmd_def Let_def Q_process split: mag_cal_cmd.split)

subsection \<open>A finite rotation\<close>

lemma fp_round_pow32: "fp_round 23 (1 * 2 ^ n) 1 = 2 ^ n"
  using repr_mult_pow [of 1 23 n] using fp_round_exact [of 23 "2 ^ n" 1] by simp

text \<open>A small double survives the cast.\<close>

lemma cast_small: "f64_small x \<Longrightarrow> f32_is_finite (f32_of_f64 x)"
proof -
  assume "f64_small x"
  then obtain s k where x: "f64_val x = FFin s k" and k: "k \<le> 2 ^ 1075" by (auto simp: f64_small_def)
  have "k * 2 ^ 149 \<le> 2 ^ 1075 * 2 ^ 149" using k by (rule mult_le_mono1)
  also have "\<dots> = 2 ^ 150 * 2 ^ 1074" unfolding power_add [symmetric] by (simp del: power_numeral)
  finally have "fp_round 23 (k * 2 ^ 149) (2 ^ 1074) \<le> fp_round 23 (1 * 2 ^ 150) 1"
    by (intro fp_round_mono) (simp_all del: power_numeral)
  then have "fp_round 23 (k * 2 ^ 149) (2 ^ 1074) \<le> 2 ^ 150" by (simp only: fp_round_pow32)
  then have "fp_round 23 (k * 2 ^ 149) (2 ^ 1074) < 2 ^ 277"
    by (rule le_less_trans) (rule power_strict_increasing; simp)
  then show ?thesis
    by (simp add: f32_is_finite_def fp_cast_def x fp_make_def fmt32_def fmt64_def Let_def del: power_numeral)
qed

fun quat32_finite :: "f32 quat \<Rightarrow> bool" where
  "quat32_finite (x, y, z, w) \<longleftrightarrow> f32_is_finite x \<and> f32_is_finite y \<and> f32_is_finite z \<and> f32_is_finite w"

lemma from_vqf_finite: "quat_small q \<Longrightarrow> quat32_finite (from_vqf_wijk q)"
  by (cases q) (simp add: from_vqf_wijk_def cast_small)

lemma filter_quat_small:
  "fl_algo f \<noteq> AlgoMadgwick \<Longrightarrow> quat_small (filter_quat (fusion_platform lm la s c solve) False f)"
  by (cases "fl_algo f")
    (simp_all add: filter_quat_def fusion_platform_def Let_def basic_vqf_quat_6d_def vqf_quat_6d_def
      quat_6d_of_def quat_normalize_small split: option.split)

definition plain :: "pipeline_config \<Rightarrow> pipeline_config" where
  "plain cfg = cfg\<lparr>pc_mounting := MountIdentity, pc_rotation_offset := 0, pc_mag_enabled := False\<rparr>"

lemma not_below_zero: "\<not> f32_of (fp_make fmt32 False n 10000) < \<bar>0\<bar>"
proof -
  have "f32_val (f32_of (fp_make fmt32 False n 10000)) = fp_make fmt32 False n 10000" by simp
  then show ?thesis
    by (simp add: less_f32_def) (simp add: fp_make_def Let_def sgn_int_def)
qed

lemma no_offset: "\<not> f32_lit 1 10000 < \<bar>0\<bar>"
  unfolding f32_lit_def by (rule not_below_zero)

lemma output_plain:
  "output_quat pf (plain cfg) f = from_vqf_wijk (filter_quat pf False f)"
  using no_offset by (simp add: output_quat_def plain_def Let_def)

lemma algo_set [simp]: "fl_algo (filter_set_timestep ts f) = fl_algo f"
  by (simp add: filter_set_timestep_def filter_call_def)

interpretation algo: filter_invariant pf "\<lambda>f. fl_algo f = a" for pf a
  by unfold_locales simp_all

lemma algo_new [simp]: "fl_algo (pl_fusion (pipeline_new meta info loaded sid cfg t1 t2)) = pc_fusion cfg"
  by (simp add: pipeline_new_def initial_fusion_def filter_new_def filter_set_bias_def filter_call_def
      Let_def split: option.split)


subsection \<open>A NaN angular rate and the Madgwick filter\<close>

lemma f32_nan_ops [simp]:
  "f32_is_nan x \<Longrightarrow> f32_is_nan (x + y)" "f32_is_nan y \<Longrightarrow> f32_is_nan (x + y)"
  "f32_is_nan x \<Longrightarrow> f32_is_nan (x - y)" "f32_is_nan y \<Longrightarrow> f32_is_nan (x - y)"
  "f32_is_nan x \<Longrightarrow> f32_is_nan (x * y)" "f32_is_nan y \<Longrightarrow> f32_is_nan (x * y)"
  "f32_is_nan x \<Longrightarrow> f32_is_nan (x / y)" "f32_is_nan y \<Longrightarrow> f32_is_nan (x / y)"
  "f32_is_nan (- x) \<longleftrightarrow> f32_is_nan x" "f32_is_nan x \<Longrightarrow> f32_is_nan (f32_sqrt x)"
  by (simp_all add: f32_is_nan_def fp_sub_def) (cases "f32_val x"; simp)

lemma f32_nan_eq [simp]: "f32_is_nan x \<Longrightarrow> \<not> f32_eq x y"
  by (simp add: f32_is_nan_def f32_eq_def)

lemma nan_casts [simp]:
  "f64_is_nan (f64_of_f32 x) \<longleftrightarrow> f32_is_nan x" "f64_is_nan y \<Longrightarrow> f32_is_nan (f32_of_f64 y)"
  by (cases "f32_val x"; auto simp: f64_is_nan_def f32_is_nan_def fp_cast_def fp_make_def Let_def)+

fun any_nan32 :: "f32 vec3 \<Rightarrow> bool" where
  "any_nan32 (x, y, z) \<longleftrightarrow> f32_is_nan x \<or> f32_is_nan y \<or> f32_is_nan z"

fun all_nan32 :: "f32 quat \<Rightarrow> bool" where
  "all_nan32 (a, b, c, d) \<longleftrightarrow> f32_is_nan a \<and> f32_is_nan b \<and> f32_is_nan c \<and> f32_is_nan d"

lemma integrate_rate_nan:
  assumes "any_nan32 g \<or> all_nan32 (mw_quat f)"
  shows "all_nan32 (integrate_rate g s f)"
proof -
  obtain q1 q2 q3 q4 gx gy gz s1 s2 s3 s4
    where v: "mw_quat f = (q1, q2, q3, q4)" "g = (gx, gy, gz)" "s = (s1, s2, s3, s4)"
    by (metis prod.exhaust)
  with assms consider "f32_is_nan gx" | "f32_is_nan gy" | "f32_is_nan gz" | "all_nan32 (q1, q2, q3, q4)"
    by auto
  then show ?thesis by cases (simp_all add: integrate_rate_def v Let_def)
qed

lemma descend_nan:
  "any_nan32 g \<or> all_nan32 (mw_quat f) \<Longrightarrow> all_nan32 (mw_quat (descend g s f))"
  using integrate_rate_nan [of g f s]
  by (cases "integrate_rate g s f") (simp add: descend_def Let_def)

lemma imu_nan:
  "\<not> unusable a \<Longrightarrow> any_nan32 g \<Longrightarrow> all_nan32 (mw_quat (madgwick_update_imu g a f))"
  "all_nan32 (mw_quat f) \<Longrightarrow> all_nan32 (mw_quat (madgwick_update_imu g a f))"
  "all_nan32 (mw_quat f) \<Longrightarrow> all_nan32 (mw_quat (madgwick_update_marg g a m f))"
  by (simp_all add: madgwick_update_imu_def madgwick_update_marg_def descend_nan)

text \<open>The guard on the norm drops a NaN acceleration.\<close>

lemma nan_acceleration_dropped: "any_nan32 a \<Longrightarrow> madgwick_update_imu g a f = f"
  by (cases a)
    (auto simp: madgwick_update_imu_def unusable_def norm3_def f32_is_finite_def fp_sub_def f32_is_nan_def)

definition madgwick_lost :: "libm \<Rightarrow> linalg \<Rightarrow> filter \<Rightarrow> bool" where
  "madgwick_lost lm la f \<longleftrightarrow>
     fl_algo f = AlgoMadgwick
     \<and> (case fusion_of lm la f of FMadgwick m \<Rightarrow> all_nan32 (mw_quat m) | _ \<Rightarrow> False)"

interpretation lost: filter_invariant pf "madgwick_lost lm la" for pf lm la
proof unfold_locales
  fix f g a m ts
  assume f: "madgwick_lost lm la f"
  then obtain w where w: "fusion_of lm la f = FMadgwick w" "all_nan32 (mw_quat w)" "fl_algo f = AlgoMadgwick"
    by (auto simp: madgwick_lost_def split: fusion_impl.splits)
  show "madgwick_lost lm la (filter_update g a m f)"
    using w by (simp add: madgwick_lost_def filter_update_def fusion_of_call imu_nan split: option.split)
      (simp add: filter_call_def)
  show "madgwick_lost lm la (filter_set_timestep ts f)"
    using w by (simp add: madgwick_lost_def filter_set_timestep_def fusion_of_call madgwick_set_period_def)
      (simp add: filter_call_def)
qed

lemma fusion_of_madgwick:
  "fl_algo f = AlgoMadgwick \<Longrightarrow> \<exists>w. fusion_of lm la f = FMadgwick w"
proof -
  assume "fl_algo f = AlgoMadgwick"
  moreover have "\<exists>w. foldr (fusion_apply lm la) cs (FMadgwick v) = FMadgwick w" for cs v
  proof (induction cs)
    case (Cons c cs)
    then show ?case by (cases c) auto
  qed simp
  ultimately show ?thesis by (simp add: fusion_of_def fusion_new_def)
qed

lemma gyro_nan_reaches:
  "any_nan32 v \<Longrightarrow> any_nan32 (vec3_f32 (jsl_to_vqf_body (vec3_scale k v)))"
  by (cases v) (auto simp: vec3_f32_def jsl_to_vqf_body_def vec3_scale_def)

lemma take_nan:
  assumes "fl_algo (pl_fusion p) = AlgoMadgwick" "\<not> pc_mag_enabled cfg" "any_nan32 (gyro s)"
    "\<not> unusable (wire_accel s)"
  shows "madgwick_lost lm la (pl_fusion (take_sample cfg s p))"
proof -
  obtain w where "fusion_of lm la (pl_fusion p) = FMadgwick w"
    using fusion_of_madgwick [OF assms(1)] by blast
  with assms show ?thesis
    by (simp add: madgwick_lost_def take_sample_def collect_mag_def Let_def filter_update_def
        fusion_of_call fusion_mag_def imu_nan gyro_nan_reaches wire_accel_def split: option.split)
      (simp add: filter_call_def)
qed

lemma takes_nan:
  assumes "fl_algo (pl_fusion p) = AlgoMadgwick" "\<not> pc_mag_enabled cfg" "any_nan32 (gyro s)"
    "\<not> unusable (wire_accel s)"
  shows "madgwick_lost lm la (pl_fusion (fold (take_sample cfg) (xs @ s # ys) p))"
proof -
  have "fl_algo (pl_fusion (fold (take_sample cfg) xs p)) = AlgoMadgwick"
    using assms(1) by (rule algo.Q_takes)
  from lost.Q_takes [OF take_nan [OF this assms(2-)]] show ?thesis by simp
qed

lemma nan_product: "all_nan32 q \<Longrightarrow> all_nan32 (quat_mul_xyzw m q)"
  by (cases m; cases q) (simp add: quat_mul_xyzw_def)

lemma nan_renormalize: "all_nan32 q \<Longrightarrow> all_nan32 (renormalize q)"
  by (cases q) (simp add: renormalize_def Let_def)

lemma nan_output:
  assumes "all_nan32 (from_vqf_wijk (filter_quat pf (pc_mag_enabled cfg) f))"
  shows "all_nan32 (output_quat pf cfg f)"
  using assms by (simp add: output_quat_def Let_def nan_product nan_renormalize)

lemma lost_output: "madgwick_lost lm la f \<Longrightarrow> all_nan32 (output_quat (fusion_platform lm la s c solve) cfg f)"
proof (rule nan_output)
  assume "madgwick_lost lm la f"
  then obtain w where "fl_algo f = AlgoMadgwick" "fusion_of lm la f = FMadgwick w" "all_nan32 (mw_quat w)"
    by (auto simp: madgwick_lost_def split: fusion_impl.splits)
  then show "all_nan32 (from_vqf_wijk (filter_quat (fusion_platform lm la s c solve) (pc_mag_enabled cfg) f))"
    by (cases "mw_quat w") (simp add: filter_quat_def fusion_platform_def Let_def from_vqf_wijk_def quat_f64_def)
qed


text \<open>The widening cast is exact and the narrowing one takes it back.\<close>

lemma repr_scale: "repr 23 k \<Longrightarrow> repr 52 (k * 2 ^ n)"
proof -
  assume "repr 23 k"
  then obtain m i where k: "k = m * 2 ^ i" and m: "m < 2 ^ Suc 23" by (auto simp: repr_def)
  from m have "m < 2 ^ Suc 52" by (rule less_le_trans) simp
  then have "repr 52 (m * 2 ^ (i + n))" by (rule repr_mult_pow)
  then show ?thesis by (simp add: k power_add mult.assoc)
qed

lemma cast_roundtrip: "f32_val (f32_of_f64 (f64_of_f32 x)) = f32_val x"
proof (cases "f32_val x")
  case (FFin s k)
  have ok: "repr 23 k" "k < 2 ^ 277"
    using fp_ok_val(1) [of x] by (simp_all add: FFin fp_ok_def fmt32_def)
  have e: "(2 :: nat) ^ 1074 = 2 ^ 925 * 2 ^ 149" unfolding power_add [symmetric] by (simp del: power_numeral)
  have "k * 2 ^ 925 < 2 ^ 277 * (2 ^ 925 :: nat)" using ok(2) by (rule mult_less_mono1) simp
  also have "\<dots> = 2 ^ 1202" unfolding power_add [symmetric] by (simp del: power_numeral)
  also have "\<dots> < 2 ^ 2098" by (rule power_strict_increasing) simp_all
  finally have "fp_make fmt64 s (k * 2 ^ 925 * 2 ^ 149) (2 ^ 149) = FFin s (k * 2 ^ 925)"
    using repr_scale [OF ok(1), of 925]
    by (intro fp_make_exact) (simp_all add: fmt64_def del: power_numeral)
  then have wide: "fp_make fmt64 s (k * 2 ^ 1074) (2 ^ 149) = FFin s (k * 2 ^ 925)"
    unfolding e mult.assoc .
  have "fp_make fmt32 s (k * 2 ^ 1074) (2 ^ 1074) = FFin s k"
    using ok by (intro fp_make_exact) (simp_all add: fmt32_def del: power_numeral)
  then have "fp_make fmt32 s (k * 2 ^ 925 * 2 ^ 149) (2 ^ 1074) = FFin s k"
    unfolding e mult.assoc .
  with wide show ?thesis
    by (simp add: FFin fp_cast_def fmt32_def fmt64_def del: power_numeral)
qed (simp_all add: fp_cast_def)

lemma isqrt_square: "isqrt (n * n) = n"
proof -
  have "isqrt (n * n) * isqrt (n * n) \<le> n * n" "n * n < Suc (isqrt (n * n)) * Suc (isqrt (n * n))"
    using isqrt_bounds [of "n * n"] by auto
  then have "isqrt (n * n) \<le> n" "n < Suc (isqrt (n * n))"
    by (meson linorder_not_le mult_le_mono mult_strict_mono' order.strict_trans1 zero_le)+
  then show ?thesis by simp
qed

lemma nat_pow2: "nat (2 ^ n) = 2 ^ n"
  by (simp add: nat_power_eq)

lemma usable_x_axis:
  assumes "f32_val x = f32_val 1" "f32_val y = FFin t 0" "f32_val z = FFin u 0"
  shows "\<not> unusable (x, y, z)"
proof -
  have "fp_make fmt32 False (2 ^ 149 * 2 ^ 149) (2 ^ 149) = FFin False (2 ^ 149)"
    by (rule fp_make_exact) (use repr_mult_pow [of 1 23 149] in \<open>simp_all add: fmt32_def\<close>)
  moreover have "fp_make fmt32 False (2 ^ 149) 1 = FFin False (2 ^ 149)"
    using fp_make_exact [of fmt32 "2 ^ 149" 1 False] repr_mult_pow [of 1 23 149] by (simp add: fmt32_def)
  moreover have "fp_make fmt32 v 0 d = FFin v 0" if "0 < d" for v d
    using that fp_make_exact [of fmt32 0 d v] by (simp add: fmt32_def)
  ultimately have sum: "f32_val (x * x + y * y + z * z) = FFin False (2 ^ 149)"
    using assms by (simp add: sgn_int_def fmt32_def nat_pow2 del: power_numeral)
  have "fp_make fmt32 False (2 * 2 ^ 149) 2 = FFin False (2 ^ 149)"
    using fp_make_exact [of fmt32 "2 ^ 149" 2 False] repr_mult_pow [of 1 23 149] by (simp add: fmt32_def mult.commute)
  moreover have "funit fmt32 = 2 ^ 149" by (simp add: fmt32_def)
  moreover have "isqrt (2 ^ 298) = 2 ^ 149"
    using isqrt_square [of "2 ^ 149"] unfolding power_add [symmetric] by (simp del: power_numeral)
  ultimately have "fp_sqrt fmt32 (FFin False (2 ^ 149)) = FFin False (2 ^ 149)"
    by (simp add: Let_def del: power_numeral)
  then have "f32_val (norm3 (x, y, z)) = FFin False (2 ^ 149)"
    by (simp only: norm3_def prod.case f32_val_sqrt sum)
  then show ?thesis by (simp add: unusable_def f32_is_finite_def f32_eq_def sgn_int_def)
qed

definition madgwick_pipeline :: pipeline where
  "madgwick_pipeline =
     pipeline_new sample_meta sample_info None 0 (pipeline_config_default\<lparr>pc_fusion := AlgoMadgwick\<rparr>) 0 0"

definition nan_sample :: imu_sample where
  "nan_sample = \<lparr>gyro = (0, f32_nan, 0), accel = (1, 0, 0), mag = None, timestamp_us = 0\<rparr>"

lemma f32_val_uminus_zero: "f32_val (- 0) = FFin True 0"
  by simp


end
