(* ===== verification/Joycon2.thy ===== *)
theory Joycon2
  imports Joycon
begin

section \<open>Joy-Con 2 and Pro Controller 2\<close>

text \<open>
  \<^verbatim>\<open>crates/device-joycon/src/jc2.rs\<close>: the advertisement, the input report \<^verbatim>\<open>0x05\<close>, the commands,
  the reads of the flash memory, the device over Bluetooth Low Energy and the scanner. What the
  Bluetooth stack answers, the notifications it delivers and the clock readings are arguments;
  of the peripheral the model keeps whether the link is up and what was written to it. Requests
  for a faster link, logging and pauses are left out.
\<close>

subsection \<open>Constants\<close>

definition NINTENDO_MFR_ID :: u16 where "NINTENDO_MFR_ID = 0x0553"
definition NINTENDO_ADV_PREFIX :: bytes where "NINTENDO_ADV_PREFIX = [0x01, 0x00, 0x03, 0x7E]"
definition ADV_KIND_JC2_R :: u8 where "ADV_KIND_JC2_R = 0x05"
definition ADV_KIND_JC2_L :: u8 where "ADV_KIND_JC2_L = 0x06"
definition ADV_KIND_JC2_PRO :: u8 where "ADV_KIND_JC2_PRO = 0x09"

type_synonym uuid = "128 word"

definition INPUT_COMMON_UUID :: uuid where "INPUT_COMMON_UUID = 0xab7de9be89fe49ad828f118f09df7fd2"
definition WRITE_COMMAND_UUID :: uuid where "WRITE_COMMAND_UUID = 0x649d4ac98eb74e6caf441ea54fe5f005"
definition RESPONSE_NOTIFY_UUID :: uuid where "RESPONSE_NOTIFY_UUID = 0xc765a961d9d84d36a20a5315b111836a"

definition REPORT_0X05_LEN :: nat where "REPORT_0X05_LEN = 60"
definition BATTERY_MV_MIN :: f32 where "BATTERY_MV_MIN = f32_lit 3000 1"
definition BATTERY_MV_MAX :: f32 where "BATTERY_MV_MAX = f32_lit 4200 1"
definition MAG_MIN_MAGNITUDE_UT :: f32 where "MAG_MIN_MAGNITUDE_UT = f32_lit 10 1"
definition MAG_MAX_MAGNITUDE_UT :: f32 where "MAG_MAX_MAGNITUDE_UT = f32_lit 120 1"
definition FLASH_ADDR_PID :: u32 where "FLASH_ADDR_PID = 0x00013012"
definition FLASH_ADDR_MAG_BIAS :: u32 where "FLASH_ADDR_MAG_BIAS = 0x00013100"
definition JC2_ACCEL_PER_LSB :: f32 where "JC2_ACCEL_PER_LSB = f32_lit 980665 100000 / f32_lit 4096 1"
definition JC2_GYRO_PER_LSB :: f32 where "JC2_GYRO_PER_LSB = f32_lit 348 10 / f32_lit 32767 1"
definition MAG_UT_PER_LSB :: f32 where "MAG_UT_PER_LSB = f32_lit 4900 1 / f32_lit 32767 1"

subsection \<open>Kinds and advertisements\<close>

datatype jc2_kind = Jc2Left | Jc2Right | Jc2Pro

fun jc2_device_kind :: "jc2_kind \<Rightarrow> device_kind" where
  "jc2_device_kind Jc2Left = JoyCon2L"
| "jc2_device_kind Jc2Right = JoyCon2R"
| "jc2_device_kind Jc2Pro = ProController2"

definition kind_from_pid :: "u16 \<Rightarrow> jc2_kind option" where
  "kind_from_pid pid =
     (if pid = 0x2067 then Some Jc2Left
      else if pid = 0x2066 \<or> pid = 0x2068 then Some Jc2Right
      else if pid = 0x2069 then Some Jc2Pro else None)"

text \<open>The first known product identifier of the block decides; that of the GameCube pad refuses.\<close>

fun adv_pid_scan :: "u16 list \<Rightarrow> jc2_kind option option" where
  "adv_pid_scan [] = None"
| "adv_pid_scan (pid # pids) =
     (if pid = 0x2067 then Some (Some Jc2Left)
      else if pid = 0x2066 \<or> pid = 0x2068 then Some (Some Jc2Right)
      else if pid = 0x2069 then Some (Some Jc2Pro)
      else if pid = 0x2073 then Some None
      else adv_pid_scan pids)"

definition adv_kind_hint :: "u8 \<Rightarrow> jc2_kind" where
  "adv_kind_hint b =
     (if b = ADV_KIND_JC2_L then Jc2Left
      else if b = ADV_KIND_JC2_R then Jc2Right
      else if b = ADV_KIND_JC2_PRO then Jc2Pro else Jc2Right)"

definition kind_from_manufacturer_data :: "(u16 \<rightharpoonup> bytes) \<Rightarrow> jc2_kind option" where
  "kind_from_manufacturer_data mfr =
     (case mfr NINTENDO_MFR_ID of
        None \<Rightarrow> None
      | Some data \<Rightarrow>
          if length data < 5 \<or> take 4 data \<noteq> NINTENDO_ADV_PREFIX then None
          else
            (case (if 6 \<le> length data
                   then adv_pid_scan (map (u16_le_at data) [4..<Suc (length data - 2)]) else None) of
               Some kind \<Rightarrow> kind
             | None \<Rightarrow> Some (adv_kind_hint (data ! 4))))"

subsection \<open>The input report\<close>

record jc2_report =
  j2r_sample :: imu_sample
  j2r_battery :: battery_state
  j2r_home :: bool
  j2r_capture :: bool

fun jc2_remap :: "jc2_kind \<Rightarrow> f32 \<times> f32 \<times> f32 \<Rightarrow> f32 \<times> f32 \<times> f32" where
  "jc2_remap Jc2Left (x, y, z) = (- y, z, - x)"
| "jc2_remap Jc2Right (x, y, z) = (- (- y), z, x)"
| "jc2_remap Jc2Pro (x, y, z) = (x, z, - y)"

definition jc2_axes :: "f32 \<Rightarrow> int \<times> int \<times> int \<Rightarrow> f32 \<times> f32 \<times> f32" where
  "jc2_axes k v = (case v of (x, y, z) \<Rightarrow> (f32_of_int x * k, f32_of_int y * k, f32_of_int z * k))"

definition jc2_mag :: "f32 \<times> f32 \<times> f32 \<Rightarrow> (f32 \<times> f32 \<times> f32) option \<Rightarrow> (f32 \<times> f32 \<times> f32) option" where
  "jc2_mag m bias =
     (let v = (case (m, bias) of
            ((x, y, z), Some (a, b, c)) \<Rightarrow> (x - a, y - b, z - c)
          | (_, None) \<Rightarrow> m);
          norm = (case v of (x, y, z) \<Rightarrow> f32_sqrt (x * x + y * y + z * z))
      in if MAG_MIN_MAGNITUDE_UT \<le> norm \<and> norm < MAG_MAX_MAGNITUDE_UT then Some v else None)"

definition parse_input_report_0x05 ::
  "jc2_kind \<Rightarrow> bytes \<Rightarrow> (f32 \<times> f32 \<times> f32) option \<Rightarrow> jc2_report option" where
  "parse_input_report_0x05 kind buf bias =
     (if length buf < REPORT_0X05_LEN then None
      else
        let accel = jc2_remap kind (jc2_axes JC2_ACCEL_PER_LSB (i16_triple_at buf 0x30));
            gyro = jc2_remap kind (jc2_axes JC2_GYRO_PER_LSB (i16_triple_at buf 0x36));
            m = jc2_mag (jc2_remap kind (jc2_axes MAG_UT_PER_LSB (i16_triple_at buf 0x19))) bias;
            mv = f32_of_int (int (unat (u16_le_at buf 0x1F)));
            frac = f32_clamp ((mv - BATTERY_MV_MIN) / (BATTERY_MV_MAX - BATTERY_MV_MIN)) 0 1
        in Some
          \<lparr>j2r_sample = \<lparr>gyro = gyro, accel = accel, mag = m, timestamp_us = 0\<rparr>,
           j2r_battery = \<lparr>fraction = frac, charging = (0x30 \<le> buf ! 0x21)\<rparr>,
           j2r_home = (buf ! 5 AND 0x10 \<noteq> 0), j2r_capture = (buf ! 5 AND 0x20 \<noteq> 0)\<rparr>)"

subsection \<open>Commands\<close>

definition build_feature_select_cmd :: "u8 \<Rightarrow> u8 \<Rightarrow> bytes" where
  "build_feature_select_cmd subcmd msk = [0x0C, 0x91, 0x01, subcmd, 0, 4, 0, 0, msk, 0, 0, 0]"

definition build_rumble_preset_cmd :: "u8 \<Rightarrow> bytes" where
  "build_rumble_preset_cmd preset = [0x0A, 0x91, 0x01, 0x02, 0, 4, 0, 0, preset, 0, 0, 0]"

definition build_player_led_cmd :: "u8 \<Rightarrow> bytes" where
  "build_player_led_cmd msk = [0x09, 0x91, 0x01, 0x01, 0, 4, 0, 0, msk AND 0x0F, 0, 0, 0]"

definition build_flash_read_cmd :: "u32 \<Rightarrow> u16 \<Rightarrow> bytes" where
  "build_flash_read_cmd addr len = [0x02, 0x91, 0x01, 0x01, 0, 6, 0, 0] @ to_le addr @ to_le len @ [0, 0]"

subsection \<open>Replies of the flash memory\<close>

definition contains_addr_le :: "bytes \<Rightarrow> u32 \<Rightarrow> bool" where
  "contains_addr_le bs addr \<longleftrightarrow>
     8 \<le> length bs \<and> list_ex (\<lambda>i. sub_slice bs i 4 = to_le addr) [4..<Suc (min (length bs - 4) 24)]"

definition f32_le_at :: "bytes \<Rightarrow> nat \<Rightarrow> f32" where
  "f32_le_at bs off = F32 (u32_le_at bs off)"

definition bias_at :: "bytes \<Rightarrow> nat \<Rightarrow> f32 \<times> f32 \<times> f32" where
  "bias_at bs off = (f32_le_at bs off, f32_le_at bs (off + 4), f32_le_at bs (off + 8))"

definition plausible_bias :: "f32 \<times> f32 \<times> f32 \<Rightarrow> bool" where
  "plausible_bias v =
     (case v of (x, y, z) \<Rightarrow>
        (f32_is_finite x \<and> f32_is_finite y \<and> f32_is_finite z)
        \<and> \<not> (f32_lit 500 1 < \<bar>x\<bar> \<or> f32_lit 500 1 < \<bar>y\<bar> \<or> f32_lit 500 1 < \<bar>z\<bar>)
        \<and> \<not> (f32_eq x 0 \<and> f32_eq y 0 \<and> f32_eq z 0))"

definition extract_mag_bias :: "bytes \<Rightarrow> (f32 \<times> f32 \<times> f32) option" where
  "extract_mag_bias bs =
     (if length bs < 20 then None
      else find plausible_bias (map (bias_at bs) [8..<Suc (min (length bs - 12) 24)]))"

definition extract_pid :: "bytes \<Rightarrow> u16 option" where
  "extract_pid bs =
     (if length bs < 14 then None
      else find (\<lambda>pid. pid \<in> {0x2066, 0x2067, 0x2068, 0x2069, 0x2073})
             (map (u16_le_at bs) [8..<Suc (min (length bs - 2) 24)]))"

text \<open>
  Waiting for the reply to a read: each turn reads the clock, gives up at the deadline, and
  otherwise waits for a notification; none means the time ran out or the stream ended.
\<close>

type_synonym notification = "instant \<times> (uuid \<times> bytes) option"

definition flash_reply :: "u32 \<Rightarrow> uuid \<times> bytes \<Rightarrow> bool" where
  "flash_reply addr n =
     (case n of (u, bs) \<Rightarrow>
        u = RESPONSE_NOTIFY_UUID \<and> \<not> (length bs < 14 \<or> bs ! 0 \<noteq> 0x02 \<or> bs ! 1 \<noteq> 0x01)
        \<and> contains_addr_le bs addr)"

fun flash_wait :: "u32 \<Rightarrow> instant \<Rightarrow> notification list \<Rightarrow> bytes option" where
  "flash_wait addr deadline [] = None"
| "flash_wait addr deadline ((now, n) # ns) =
     (if deadline \<le> now then None
      else case n of
             None \<Rightarrow> None
           | Some (u, bs) \<Rightarrow> if flash_reply addr (u, bs) then Some bs else flash_wait addr deadline ns)"

record flash_answers =
  fa_notify :: "bool option"
  fa_subscribe :: bool
  fa_notifications :: bool
  fa_write :: "nat \<Rightarrow> bool"
  fa_sent_at :: "nat \<Rightarrow> instant"
  fa_stream :: "nat \<Rightarrow> notification list"

text \<open>The response characteristic can be listened to.\<close>

definition flash_ready :: "flash_answers \<Rightarrow> bool" where
  "flash_ready a \<longleftrightarrow> fa_notify a = Some True \<and> fa_subscribe a \<and> fa_notifications a"

definition flash_attempt :: "u32 \<Rightarrow> flash_answers \<Rightarrow> nat \<Rightarrow> bytes option" where
  "flash_attempt addr a n =
     (if fa_write a n then flash_wait addr (fa_sent_at a n + from_secs 2) (fa_stream a n) else None)"

text \<open>Attempts until a reply came, with the reads that were sent.\<close>

fun flash_read :: "u32 \<Rightarrow> u16 \<Rightarrow> flash_answers \<Rightarrow> nat list \<Rightarrow> bytes list \<times> bytes option" where
  "flash_read addr len a [] = ([], None)"
| "flash_read addr len a (n # ns) =
     (let sent = (if fa_write a n then [build_flash_read_cmd addr len] else []) in
      case flash_attempt addr a n of
        Some bs \<Rightarrow> (sent, Some bs)
      | None \<Rightarrow> map_prod ((@) sent) id (flash_read addr len a ns))"

definition resolve_kind_via_flash :: "flash_answers \<Rightarrow> bytes list \<times> jc2_kind option" where
  "resolve_kind_via_flash a =
     (if \<not> flash_ready a then ([], None)
      else map_prod id (\<lambda>r. Option.bind r (\<lambda>bs. Option.bind (extract_pid bs) kind_from_pid))
             (flash_read FLASH_ADDR_PID 2 a [0]))"

text \<open>Three attempts; a reply without a plausible bias ends them too.\<close>

definition resolve_mag_bias_via_flash ::
  "flash_answers \<Rightarrow> jc2_kind \<Rightarrow> bytes list \<times> (f32 \<times> f32 \<times> f32) option" where
  "resolve_mag_bias_via_flash a kind =
     (if \<not> flash_ready a then ([], None)
      else map_prod id (\<lambda>r. Option.bind r (\<lambda>bs. map_option (jc2_remap kind) (extract_mag_bias bs)))
             (flash_read FLASH_ADDR_MAG_BIAS 12 a [0, 1, 2]))"

subsection \<open>Rate of the reports\<close>

definition f64_to_i64 :: "f64 \<Rightarrow> int" where
  "f64_to_i64 x = fp_to_int_sat fmt64 (- (2 ^ 63)) (2 ^ 63 - 1) (f64_val x)"

text \<open>
  A turn of the measurement: the clock, then the characteristic of the notification, if any, and
  the time it is taken for. The result is the number of reports with the first and the last time.
\<close>

fun count_reports ::
  "instant \<Rightarrow> (instant \<times> (uuid \<times> instant) option) list \<Rightarrow> nat \<times> instant option \<times> instant
    \<Rightarrow> nat \<times> instant option \<times> instant" where
  "count_reports deadline [] acc = acc"
| "count_reports deadline ((now, n) # ns) (count, start, final) =
     (if deadline \<le> now then (count, start, final)
      else case n of
             None \<Rightarrow> (count, start, final)
           | Some (u, t) \<Rightarrow>
               if u \<noteq> INPUT_COMMON_UUID then count_reports deadline ns (count, start, final)
               else count_reports deadline ns
                      (Suc count, Some (case start of Some s \<Rightarrow> s | None \<Rightarrow> t), t))"

definition measure_sample_rate ::
  "instant \<Rightarrow> instant \<Rightarrow> (instant \<times> (uuid \<times> instant) option) list \<Rightarrow> u16 option" where
  "measure_sample_rate t0 t1 ns =
     (case count_reports (t0 + from_millis 1500) ns (0, None, t1) of (count, start, final) \<Rightarrow>
        (case start of
           None \<Rightarrow> None
         | Some s \<Rightarrow>
             let span = as_secs_f64 (duration_since final s) in
             if count < 10 \<or> span \<le> 0 then None
             else Some (of_int (max 10 (min 250 (f64_to_i64 (f64_round (f64_of_int (int count - 1) / span))))))))"

subsection \<open>The device\<close>

record jc2_device =
  j2_meta :: device_metadata
  j2_kind :: jc2_kind
  j2_write_char :: bool
  j2_mag_bias :: "(f32 \<times> f32 \<times> f32) option"
  j2_task :: bool
  j2_linked :: bool
  j2_written :: "bytes list"

definition jc2_new :: "jc2_kind \<Rightarrow> text_string \<Rightarrow> mac \<Rightarrow> jc2_device" where
  "jc2_new kind serial m =
     \<lparr>j2_meta =
        \<lparr>md_id = \<lparr>id_mac = m, id_serial = serial\<rparr>, md_kind = jc2_device_kind kind, md_firmware = None,
         md_caps = \<lparr>has_magnetometer = True, has_battery = True, has_rumble = True, native_rate_hz = 62\<rparr>\<rparr>,
      j2_kind = kind, j2_write_char = False, j2_mag_bias = None, j2_task = False, j2_linked = False,
      j2_written = []\<rparr>"

text \<open>
  The answers of the stack to the calls of \<^verbatim>\<open>ensure_connected\<close>; asked whether the link is up it
  answers truly or with an error. A failed discovery of the services drops the link.
\<close>

record link_answers =
  la_is_connected :: "text_string option"
  la_connect :: "text_string + unit"
  la_discover :: "text_string + unit"

definition jc2_ensure_connected ::
  "link_answers \<Rightarrow> jc2_device \<Rightarrow> (device_error + unit) \<times> jc2_device" where
  "jc2_ensure_connected a d =
     (case la_is_connected a of
        Some e \<Rightarrow> (Inl (Hid (''jc2 is_connected failed: '' @ e)), d)
      | None \<Rightarrow>
          (case (if j2_linked d then Inr () else la_connect a) of
             Inl e \<Rightarrow> (Inl (Hid (''jc2 connect failed: '' @ e)), d)
           | Inr _ \<Rightarrow>
               (case la_discover a of
                  Inl e \<Rightarrow> (Inl (Hid (''jc2 discover_services failed: '' @ e)), d\<lparr>j2_linked := False\<rparr>)
                | Inr _ \<Rightarrow> (Inr (), d\<lparr>j2_linked := True\<rparr>))))"

definition jc2_write ::
  "text_string \<Rightarrow> text_string + unit \<Rightarrow> bytes \<Rightarrow> jc2_device \<Rightarrow> (device_error + unit) \<times> jc2_device" where
  "jc2_write what answer data d =
     (case answer of
        Inl e \<Rightarrow> (Inl (Hid (''jc2 '' @ what @ '' failed: '' @ e)), d)
      | Inr _ \<Rightarrow> (Inr (), d\<lparr>j2_written := data # j2_written d\<rparr>))"

text \<open>Twenty looks at the table of characteristics for the two that are needed.\<close>

definition find_required_chars :: "(nat \<Rightarrow> (uuid \<times> bool) list) \<Rightarrow> bool option" where
  "find_required_chars table =
     (case find (\<lambda>i. map_of (table i) INPUT_COMMON_UUID \<noteq> None \<and> map_of (table i) WRITE_COMMAND_UUID \<noteq> None)
             [0..<20] of
        None \<Rightarrow> None
      | Some i \<Rightarrow> map_of (table i) INPUT_COMMON_UUID)"

record start_answers =
  sa_link :: link_answers
  sa_chars :: "nat \<Rightarrow> (uuid \<times> bool) list"
  sa_kind :: flash_answers
  sa_subscribe :: "text_string + unit"
  sa_mask :: "text_string + unit"
  sa_enable :: "text_string + unit"
  sa_rate :: "(instant \<times> instant \<times> (instant \<times> (uuid \<times> instant) option) list) option"
  sa_bias :: flash_answers
  sa_notifications :: "text_string + unit"

definition enable_imu_and_mag ::
  "start_answers \<Rightarrow> jc2_device \<Rightarrow> (device_error + unit) \<times> jc2_device" where
  "enable_imu_and_mag a d =
     (case jc2_write ''set feature mask'' (sa_mask a) (build_feature_select_cmd 0x02 0xFF) d of
        (Inl e, d1) \<Rightarrow> (Inl e, d1)
      | (Inr _, d1) \<Rightarrow> jc2_write ''enable features'' (sa_enable a) (build_feature_select_cmd 0x04 0xFF) d1)"

text \<open>Once the stream of notifications is up: the rate, the bias, and the task.\<close>

definition jc2_streaming :: "start_answers \<Rightarrow> jc2_device \<Rightarrow> (device_error + unit) \<times> jc2_device" where
  "jc2_streaming a d =
     (let rate = Option.bind (sa_rate a) (\<lambda>(t0, t1, ns). measure_sample_rate t0 t1 ns);
          d1 = (case rate of
                  Some hz \<Rightarrow> d\<lparr>j2_meta := (j2_meta d)\<lparr>md_caps := (md_caps (j2_meta d))\<lparr>native_rate_hz := hz\<rparr>\<rparr>\<rparr>
                | None \<Rightarrow> d);
          (reads, bias) = resolve_mag_bias_via_flash (sa_bias a) (j2_kind d1);
          d2 = d1\<lparr>j2_mag_bias := bias, j2_written := rev reads @ j2_written d1\<rparr>
      in case sa_notifications a of
           Inl e \<Rightarrow> (Inl (Hid (''jc2 notifications stream failed: '' @ e)), d2)
         | Inr _ \<Rightarrow> (Inr (), d2\<lparr>j2_task := True\<rparr>))"

definition jc2_start :: "start_answers \<Rightarrow> jc2_device \<Rightarrow> (device_error + unit) \<times> jc2_device" where
  "jc2_start a d =
     (if j2_task d then (Inl (Hid ''jc2 already started''), d)
      else
        case jc2_ensure_connected (sa_link a) d of
          (Inl e, d1) \<Rightarrow> (Inl e, d1)
        | (Inr _, d1) \<Rightarrow>
            (case find_required_chars (sa_chars a) of
               None \<Rightarrow>
                 (Inl (Hid ''jc2 input/command characteristics not found (GATT did not fully resolve)''),
                  d1\<lparr>j2_linked := False\<rparr>)
             | Some notify \<Rightarrow>
                 let (reads, found) = resolve_kind_via_flash (sa_kind a);
                     kind = (case found of Some k \<Rightarrow> k | None \<Rightarrow> j2_kind d1);
                     d2 = d1\<lparr>j2_write_char := True, j2_kind := kind, j2_written := rev reads @ j2_written d1\<rparr>
                 in if \<not> notify then (Inl (Hid ''jc2 input characteristic lacks notify property''), d2)
                    else (case sa_subscribe a of
                            Inl e \<Rightarrow> (Inl (Hid (''jc2 subscribe failed: '' @ e)), d2)
                          | Inr _ \<Rightarrow>
                              (case enable_imu_and_mag a d2 of
                                 (Inl e, d3) \<Rightarrow> (Inl e, d3)
                               | (Inr _, d3) \<Rightarrow> jc2_streaming a d3))))"

definition jc2_stop :: "jc2_device \<Rightarrow> jc2_device" where
  "jc2_stop d = d\<lparr>j2_task := False, j2_write_char := False, j2_mag_bias := None, j2_linked := False\<rparr>"

definition jc2_command ::
  "link_answers \<Rightarrow> text_string \<Rightarrow> text_string + unit \<Rightarrow> bytes \<Rightarrow> jc2_device
    \<Rightarrow> (device_error + unit) \<times> jc2_device" where
  "jc2_command l what answer data d =
     (case jc2_ensure_connected l d of
        (Inl e, d1) \<Rightarrow> (Inl e, d1)
      | (Inr _, d1) \<Rightarrow>
          if \<not> j2_write_char d1
          then (Inl (Hid ''jc2 not started: command characteristic unavailable''), d1)
          else jc2_write what answer data d1)"

definition jc2_set_led_mask ::
  "link_answers \<Rightarrow> text_string + unit \<Rightarrow> u8 \<Rightarrow> jc2_device \<Rightarrow> (device_error + unit) \<times> jc2_device" where
  "jc2_set_led_mask l answer leds = jc2_command l ''led command'' answer (build_player_led_cmd leds)"

definition jc2_set_rumble ::
  "link_answers \<Rightarrow> text_string + unit \<Rightarrow> f32 \<Rightarrow> jc2_device \<Rightarrow> (device_error + unit) \<times> jc2_device" where
  "jc2_set_rumble l answer x =
     jc2_command l ''rumble command'' answer (build_rumble_preset_cmd (if rumble_is_on x 0 then 1 else 0))"

subsection \<open>The task\<close>

text \<open>
  What wakes the task: the stop signal, the end of the stream, or a notification with the time
  the buttons are looked at and the number of events the receiver still takes (all when three).
\<close>

datatype jc2_input = Jc2Stop | Jc2StreamEnd | Jc2Notified uuid bytes instant nat

definition jc2_round :: "jc2_report \<Rightarrow> instant \<Rightarrow> f32 \<Rightarrow> detector \<Rightarrow> channel_info list \<times> f32 \<times> detector" where
  "jc2_round r now last_battery det =
     (let level = fraction (j2r_battery r);
          changed = (f32_is_nan last_battery \<or> f32_lit 1 100 < \<bar>level - last_battery\<bar>);
          (det1, k) = observe det (HomeOrCapture (j2r_home r) (j2r_capture r)) now
      in (ImuSamples [j2r_sample r] # (if changed then [Battery (j2r_battery r)] else [])
            @ (case k of Some kd \<Rightarrow> [ResetRequested kd] | None \<Rightarrow> []),
          if changed then level else last_battery, det1))"

fun jc2_loop ::
  "jc2_kind \<Rightarrow> (f32 \<times> f32 \<times> f32) option \<Rightarrow> jc2_input list \<Rightarrow> f32 \<Rightarrow> detector \<Rightarrow> channel_info list" where
  "jc2_loop kind bias [] batt det = []"
| "jc2_loop kind bias (Jc2Stop # ins) batt det = []"
| "jc2_loop kind bias (Jc2StreamEnd # ins) batt det = [Disconnected]"
| "jc2_loop kind bias (Jc2Notified u data now room # ins) batt det =
     (if u \<noteq> INPUT_COMMON_UUID then jc2_loop kind bias ins batt det
      else case parse_input_report_0x05 kind data bias of
             None \<Rightarrow> jc2_loop kind bias ins batt det
           | Some r \<Rightarrow>
               (case jc2_round r now batt det of (evs, batt1, det1) \<Rightarrow>
                  if room < length evs then take room evs
                  else evs @ jc2_loop kind bias ins batt1 det1))"

definition jc2_events :: "jc2_device \<Rightarrow> jc2_input list \<Rightarrow> channel_info list" where
  "jc2_events d ins =
     Connected (md_id (j2_meta d)) # jc2_loop (j2_kind d) (j2_mag_bias d) ins f32_nan detector_new"

subsection \<open>The scanner\<close>

text \<open>
  A peripheral as it is found for an event: whether it is still there, its properties, whether
  its link is up (an error counts as no), and the clock readings.
\<close>

record jc2_props =
  jp_addr :: text_string
  jp_mfr :: "u16 \<rightharpoonup> bytes"
  jp_name :: "text_string option"

record jc2_seen =
  js_found :: bool
  js_props :: "text_string + jc2_props option"
  js_connected :: bool
  js_now :: instant

datatype central_event =
    MfrAdvertisement jc2_seen "u16 \<rightharpoonup> bytes"
  | SeenAgain jc2_seen
  | LinkLost text_string
  | OtherCentral

type_synonym known_jc2 = "text_string \<rightharpoonup> instant"

definition jc2_key :: "text_string \<Rightarrow> text_string" where
  "jc2_key addr = ''jc2#'' @ addr"

definition jc2_mac :: "text_string \<Rightarrow> mac" where
  "jc2_mac addr = (case mac_from_addr addr of Some m \<Rightarrow> m | None \<Rightarrow> hash_to_mac addr)"

definition jc2_serial :: "jc2_props \<Rightarrow> text_string" where
  "jc2_serial p = (case jp_name p of Some n \<Rightarrow> n | None \<Rightarrow> ''JoyCon2-'' @ jp_addr p)"

definition jc2_kind_of :: "(u16 \<rightharpoonup> bytes) option \<Rightarrow> jc2_props \<Rightarrow> jc2_kind option" where
  "jc2_kind_of adv p =
     (case Option.bind adv kind_from_manufacturer_data of
        Some k \<Rightarrow> Some k
      | None \<Rightarrow> kind_from_manufacturer_data (jp_mfr p))"

text \<open>The controller emitted, if any.\<close>

definition try_emit_peripheral ::
  "duration \<Rightarrow> jc2_seen \<Rightarrow> (u16 \<rightharpoonup> bytes) option \<Rightarrow> known_jc2
    \<Rightarrow> (device_error + jc2_device option) \<times> known_jc2" where
  "try_emit_peripheral cooldown s adv known =
     (if \<not> js_found s then (Inr None, known)
      else case js_props s of
             Inl e \<Rightarrow> (Inl (Hid (''jc2 peripheral properties failed: '' @ e)), known)
           | Inr None \<Rightarrow> (Inr None, known)
           | Inr (Some p) \<Rightarrow>
               (case jc2_kind_of adv p of
                  None \<Rightarrow> (Inr None, known)
                | Some kind \<Rightarrow>
                    let key = jc2_key (jp_addr p); known1 = known(key \<mapsto> js_now s) in
                    if js_connected s then (Inr None, known1)
                    else (case known key of
                            Some t \<Rightarrow>
                              if duration_since (js_now s) t < cooldown then (Inr None, known)
                              else (Inr (Some (jc2_new kind (jc2_serial p) (jc2_mac (jp_addr p)))), known1)
                          | None \<Rightarrow> (Inr (Some (jc2_new kind (jc2_serial p) (jc2_mac (jp_addr p)))), known1))))"

definition handle_central_event ::
  "duration \<Rightarrow> central_event \<Rightarrow> known_jc2 \<Rightarrow> (device_error + jc2_device option) \<times> known_jc2" where
  "handle_central_event cooldown ev known =
     (case ev of
        MfrAdvertisement s mfr \<Rightarrow> try_emit_peripheral cooldown s (Some mfr) known
      | SeenAgain s \<Rightarrow> try_emit_peripheral cooldown s None known
      | LinkLost addr \<Rightarrow> (Inr None, known(jc2_key addr := None))
      | OtherCentral \<Rightarrow> (Inr None, known))"

text \<open>Every buffered event in turn; an error ends the tick.\<close>

fun jc2_poll ::
  "duration \<Rightarrow> central_event list \<Rightarrow> known_jc2 \<Rightarrow> (device_error + unit) \<times> known_jc2 \<times> jc2_device list" where
  "jc2_poll cooldown [] known = (Inr (), known, [])"
| "jc2_poll cooldown (ev # evs) known =
     (case handle_central_event cooldown ev known of
        (Inl e, known1) \<Rightarrow> (Inl e, known1, [])
      | (Inr d, known1) \<Rightarrow>
          (case jc2_poll cooldown evs known1 of
             (r, known2, ds) \<Rightarrow> (r, known2, (case d of Some x \<Rightarrow> x # ds | None \<Rightarrow> ds))))"

definition JC2_REDISCOVER_AFTER :: duration where
  "JC2_REDISCOVER_AFTER = from_secs 8"

text \<open>One look around without connecting: each address once.\<close>

record nearby_jc2 =
  nj_kind :: jc2_kind
  nj_name :: text_string
  nj_address :: text_string
  nj_mac :: mac

fun scan_nearby ::
  "(text_string + jc2_props option) list \<Rightarrow> text_string set \<Rightarrow> device_error + nearby_jc2 list" where
  "scan_nearby [] seen = Inr []"
| "scan_nearby (q # qs) seen =
     (case q of
        Inl e \<Rightarrow> Inl (Hid (''jc2 one-shot peripheral properties failed: '' @ e))
      | Inr None \<Rightarrow> scan_nearby qs seen
      | Inr (Some p) \<Rightarrow>
          (case kind_from_manufacturer_data (jp_mfr p) of
             None \<Rightarrow> scan_nearby qs seen
           | Some k \<Rightarrow>
               if jp_addr p \<in> seen then scan_nearby qs seen
               else (case scan_nearby qs (insert (jp_addr p) seen) of
                       Inl e \<Rightarrow> Inl e
                     | Inr out \<Rightarrow>
                         Inr (\<lparr>nj_kind = k, nj_name = jc2_serial p, nj_address = jp_addr p,
                               nj_mac = jc2_mac (jp_addr p)\<rparr> # out))))"

end
