(* ===== verification/Joycon2_Props.thy ===== *)
theory Joycon2_Props
  imports Joycon2 Float_Int
begin

section \<open>Properties of the Joy-Con 2 driver\<close>

text \<open>
  The commands written are safe in every run; what a start that fails half-way leaves behind; and
  what the scan of a flash reply takes for the bias of the magnetometer.
\<close>

subsection \<open>Safe commands\<close>

datatype jc2_op =
    J2Start start_answers
  | J2Stop
  | J2Led link_answers "text_string + unit" u8
  | J2Rumble link_answers "text_string + unit" f32

primrec jc2_op_step :: "jc2_op \<Rightarrow> jc2_device \<Rightarrow> jc2_device" where
  "jc2_op_step (J2Start a) d = snd (jc2_start a d)"
| "jc2_op_step J2Stop d = jc2_stop d"
| "jc2_op_step (J2Led l answer leds) d = snd (jc2_set_led_mask l answer leds d)"
| "jc2_op_step (J2Rumble l answer x) d = snd (jc2_set_rumble l answer x d)"

definition jc2_run :: "jc2_op list \<Rightarrow> jc2_device \<Rightarrow> jc2_device" where
  "jc2_run ops d = fold jc2_op_step ops d"

text \<open>A command with one of the three sub-commands known to be safe.\<close>

definition safe_command :: "bytes \<Rightarrow> bool" where
  "safe_command c \<longleftrightarrow> 12 \<le> length c \<and> c ! 1 = 0x91 \<and> c ! 3 \<in> {0x01, 0x02, 0x04}"

definition wrote_safely :: "jc2_device \<Rightarrow> bool" where
  "wrote_safely d \<longleftrightarrow> list_all safe_command (j2_written d)"

lemma safe_builders [simp]:
  "safe_command (build_feature_select_cmd 0x02 m)" "safe_command (build_feature_select_cmd 0x04 m)"
  "safe_command (build_rumble_preset_cmd q)" "safe_command (build_player_led_cmd m)"
  "safe_command (build_flash_read_cmd addr len)"
  by (simp_all add: safe_command_def build_feature_select_cmd_def build_rumble_preset_cmd_def
      build_player_led_cmd_def build_flash_read_cmd_def)

lemma flash_read_safe: "list_all safe_command (fst (flash_read addr len a ns))"
  by (induction ns) (auto simp: Let_def split: option.split)

lemma resolve_safe [simp]:
  "list_all safe_command (fst (resolve_kind_via_flash a))"
  "list_all safe_command (fst (resolve_mag_bias_via_flash a k))"
  by (simp_all add: resolve_kind_via_flash_def resolve_mag_bias_via_flash_def flash_read_safe del: flash_read.simps)

lemma ensure_frame [simp]:
  "j2_written (snd (jc2_ensure_connected a d)) = j2_written d"
  "j2_meta (snd (jc2_ensure_connected a d)) = j2_meta d"
  by (auto simp: jc2_ensure_connected_def split: option.split sum.split)

lemma jc2_write_safe: "safe_command c \<Longrightarrow> wrote_safely d \<Longrightarrow> wrote_safely (snd (jc2_write what ans c d))"
  by (simp add: jc2_write_def wrote_safely_def split: sum.split)

lemma jc2_command_safe:
  assumes "safe_command c" "wrote_safely d"
  shows "wrote_safely (snd (jc2_command l what ans c d))"
proof (cases "jc2_ensure_connected l d")
  case (Pair r d1)
  with ensure_frame(1) [of l d] assms(2) have "wrote_safely d1" by (simp add: wrote_safely_def)
  with assms(1) show ?thesis by (simp add: jc2_command_def Pair jc2_write_safe split: sum.split)
qed

lemma enable_safe: "wrote_safely d \<Longrightarrow> wrote_safely (snd (enable_imu_and_mag a d))"
  using jc2_write_safe [of "build_feature_select_cmd 0x02 0xFF" d "''set feature mask''" "sa_mask a"]
  by (auto simp: enable_imu_and_mag_def split: prod.split sum.split intro!: jc2_write_safe)

lemma streaming_safe: "wrote_safely d \<Longrightarrow> wrote_safely (snd (jc2_streaming a d))"
  using resolve_safe(2) [of "sa_bias a"]
  by (auto simp: jc2_streaming_def wrote_safely_def Let_def list_all_iff split: prod.split sum.split option.split)
    (metis fst_conv)+

lemma start_safe:
  assumes "wrote_safely d"
  shows "wrote_safely (snd (jc2_start a d))"
proof (cases "jc2_ensure_connected (sa_link a) d")
  case (Pair r d1)
  have d1: "wrote_safely d1" "wrote_safely (d1\<lparr>j2_linked := False\<rparr>)"
    using ensure_frame(1) [of "sa_link a" d] assms Pair by (simp_all add: wrote_safely_def)
  define d2 where "d2 k = d1\<lparr>j2_write_char := True, j2_kind := k,
    j2_written := rev (fst (resolve_kind_via_flash (sa_kind a))) @ j2_written d1\<rparr>" for k
  have d2: "wrote_safely (d2 k)" for k
    using d1(1) resolve_safe(1) [of "sa_kind a"] by (auto simp: d2_def wrote_safely_def list_all_iff)
  show ?thesis
    using assms d1 d2
    by (auto simp: jc2_start_def Pair Let_def split_beta enable_safe [OF d2] streaming_safe [OF enable_safe [OF d2]]
        simp flip: d2_def split: sum.split option.split)
qed

text \<open>
  Property C15. Whatever is asked of a Joy-Con 2 and whatever the Bluetooth stack answers, every
  command ever written to it has one of the three sub-commands \<^verbatim>\<open>0x01\<close>, \<^verbatim>\<open>0x02\<close> and \<^verbatim>\<open>0x04\<close>, so never
  the sub-command \<^verbatim>\<open>0x15\<close> that is reported to destroy the controller.
\<close>

theorem only_safe_commands:
  "list_all (\<lambda>c. c ! 3 \<in> {0x01, 0x02, 0x04} \<and> c ! 3 \<noteq> 0x15)
     (j2_written (jc2_run ops (jc2_new kind serial m)))"
proof -
  have step: "wrote_safely (jc2_op_step op d)" if "wrote_safely d" for op d
    using that
    by (cases op)
      (simp_all add: start_safe jc2_set_led_mask_def jc2_set_rumble_def jc2_command_safe,
       simp add: jc2_stop_def wrote_safely_def)
  have "wrote_safely (fold jc2_op_step ops d)" if "wrote_safely d" for d
    using that by (induction ops arbitrary: d) (simp_all add: step)
  then have "wrote_safely (jc2_run ops (jc2_new kind serial m))"
    by (simp add: jc2_run_def) (simp add: jc2_new_def wrote_safely_def)
  then show ?thesis
    by (auto simp: wrote_safely_def safe_command_def list_all_iff)
qed

subsection \<open>A start that fails half-way\<close>

text \<open>A sight of the peripheral by the scanner, with or without the block of its advertisement.\<close>

definition sight :: "bool \<Rightarrow> jc2_seen \<times> (u16 \<rightharpoonup> bytes) option \<Rightarrow> central_event" where
  "sight linked q =
     (case q of
        (s, None) \<Rightarrow> SeenAgain (s\<lparr>js_connected := linked\<rparr>)
      | (s, Some m) \<Rightarrow> MfrAdvertisement (s\<lparr>js_connected := linked\<rparr>) m)"

lemma linked_never_emitted:
  "handle_central_event cooldown (sight True q) known = (r, known1) \<Longrightarrow> r \<noteq> Inr (Some d)"
  by (auto simp: handle_central_event_def sight_def try_emit_peripheral_def Let_def
      split: prod.splits option.splits if_splits sum.splits)

lemma poll_linked: "snd (snd (jc2_poll cooldown (map (sight True) qs) known)) = []"
proof (induction qs arbitrary: known)
  case (Cons q qs)
  obtain r known1 where step: "handle_central_event cooldown (sight True q) known = (r, known1)"
    by (cases "handle_central_event cooldown (sight True q) known")
  moreover obtain r2 known2 where "jc2_poll cooldown (map (sight True) qs) known1 = (r2, known2, [])"
    using Cons.IH [of known1] by (cases "jc2_poll cooldown (map (sight True) qs) known1") auto
  ultimately show ?case
    using linked_never_emitted [OF step] by (auto split: sum.split option.split)
qed simp

definition good_link :: link_answers where
  "good_link = \<lparr>la_is_connected = None, la_connect = Inr (), la_discover = Inr ()\<rparr>"

definition good_chars :: "nat \<Rightarrow> (uuid \<times> bool) list" where
  "good_chars i = [(INPUT_COMMON_UUID, True), (WRITE_COMMAND_UUID, False)]"

lemma find_good_chars: "find_required_chars good_chars = Some True"
proof -
  have "[0..<20] = 0 # [1..<20]" by (simp add: upt_conv_Cons)
  then show ?thesis
    by (simp add: find_required_chars_def good_chars_def INPUT_COMMON_UUID_def WRITE_COMMAND_UUID_def)
qed

text \<open>
  Property C34. A start that fails when it subscribes leaves the link of the controller up, and while
  the link is up the scanner never offers the controller again, however often it is seen: it stays
  lost until it disconnects by itself. (A start that fails earlier drops the link.)
\<close>

theorem failed_start_hides_controller:
  "let a' = a\<lparr>sa_link := good_link, sa_chars := good_chars, sa_subscribe := Inl e\<rparr>;
       (r, d) = jc2_start a' (jc2_new kind serial m)
   in r = Inl (Hid (''jc2 subscribe failed: '' @ e))
      \<and> snd (snd (jc2_poll JC2_REDISCOVER_AFTER (map (sight (j2_linked d)) qs) known)) = []"
  by (simp add: jc2_start_def jc2_new_def jc2_ensure_connected_def good_link_def find_good_chars
      poll_linked Let_def split_beta)

subsection \<open>The kind found in the flash memory\<close>

lemma jc2_write_meta [simp]: "j2_meta (snd (jc2_write what ans c d)) = j2_meta d"
  by (simp add: jc2_write_def split: sum.split)

lemma enable_meta [simp]: "j2_meta (snd (enable_imu_and_mag a d)) = j2_meta d"
proof (cases "jc2_write ''set feature mask'' (sa_mask a) (build_feature_select_cmd 0x02 0xFF) d")
  case (Pair r d1)
  with jc2_write_meta [of "''set feature mask''" "sa_mask a" "build_feature_select_cmd 0x02 0xFF" d]
  show ?thesis by (simp add: enable_imu_and_mag_def split: sum.split)
qed

lemma streaming_kind [simp]: "md_kind (j2_meta (snd (jc2_streaming a d))) = md_kind (j2_meta d)"
  by (simp add: jc2_streaming_def Let_def split: prod.split sum.split option.split)

lemma start_kind: "md_kind (j2_meta (snd (jc2_start a d))) = md_kind (j2_meta d)"
  by (simp add: jc2_start_def Let_def split_beta split: sum.split option.split)

definition left_reply :: bytes where
  "left_reply = [2, 1, 0, 0, 0x12, 0x30, 1, 0, 0x67, 0x20, 0, 0, 0, 0]"

definition left_flash :: flash_answers where
  "left_flash = \<lparr>fa_notify = Some True, fa_subscribe = True, fa_notifications = True, fa_write = (\<lambda>n. True),
     fa_sent_at = (\<lambda>n. 0), fa_stream = (\<lambda>n. [(0, Some (RESPONSE_NOTIFY_UUID, left_reply))])\<rparr>"

lemma nat_to_le_numeral:
  "nat_to_le (numeral k) n = of_nat (n mod 256) # nat_to_le (pred_numeral k) (n div 256)"
  unfolding numeral_eq_Suc [of k] by (rule nat_to_le.simps)

lemma left_reply_addr: "contains_addr_le left_reply FLASH_ADDR_PID"
proof -
  have "to_le FLASH_ADDR_PID = [0x12, 0x30, 1, 0]"
    by (simp add: FLASH_ADDR_PID_def to_le_def nat_to_le_numeral)
  then have "sub_slice left_reply 4 4 = to_le FLASH_ADDR_PID" "length left_reply = 14"
    by (simp_all add: left_reply_def)
  then show ?thesis by (auto simp: contains_addr_le_def list_ex_iff intro!: bexI [of _ 4])
qed

lemma left_reply_pid: "extract_pid left_reply = Some 0x2067"
proof -
  have "[8..<13] = 8 # [9..<13]" by (simp add: upt_conv_Cons)
  moreover have "length left_reply = 14" "u16_le_at left_reply 8 = 0x2067"
    by (simp_all add: left_reply_def at_defs from_le_def)
  ultimately show ?thesis by (simp add: extract_pid_def)
qed

lemma left_attempt: "flash_attempt FLASH_ADDR_PID left_flash 0 = Some left_reply"
proof -
  have "flash_reply FLASH_ADDR_PID (RESPONSE_NOTIFY_UUID, left_reply)"
    using left_reply_addr unfolding flash_reply_def by (simp add: left_reply_def)
  moreover have "\<not> from_secs 2 \<le> 0" by (simp add: from_secs_def)
  ultimately show ?thesis by (simp add: flash_attempt_def left_flash_def)
qed

lemma left_found: "snd (resolve_kind_via_flash left_flash) = Some Jc2Left"
  using left_attempt left_reply_pid
  by (simp add: resolve_kind_via_flash_def flash_ready_def kind_from_pid_def Let_def)
    (simp add: left_flash_def)

text \<open>
  The kind read from the flash memory never reaches the metadata a started controller
  is registered with: whatever a start finds, the metadata keep the kind guessed from the
  advertisement, also when the device itself goes on as another kind, as a left one here.
\<close>

theorem flash_kind_not_registered:
  "md_kind (j2_meta (snd (jc2_start a d))) = md_kind (j2_meta d)
   \<and> (let d1 = snd (jc2_start (a\<lparr>sa_link := good_link, sa_chars := good_chars, sa_kind := left_flash,
            sa_subscribe := Inr (), sa_mask := Inr (), sa_enable := Inr (), sa_notifications := Inr ()\<rparr>)
            (jc2_new Jc2Right serial m))
      in j2_task d1 \<and> j2_kind d1 = Jc2Left \<and> md_kind (j2_meta d1) = JoyCon2R)"
  using left_found
  by (simp add: start_kind) (simp add: jc2_start_def jc2_new_def jc2_ensure_connected_def good_link_def
      find_good_chars enable_imu_and_mag_def jc2_write_def jc2_streaming_def Let_def split_beta
      split: option.split)

subsection \<open>The bias of the magnetometer\<close>

lemma echo_value: "f32_val (F32 FLASH_ADDR_MAG_BIAS) = FFin False 0x13100"
  by (simp add: f32_val_def fp_decode_def fmt32_def FLASH_ADDR_MAG_BIAS_def Let_def)

lemma echo_is_small:
  "f32_is_finite (F32 FLASH_ADDR_MAG_BIAS)" "\<not> f32_lit 500 1 < \<bar>F32 FLASH_ADDR_MAG_BIAS\<bar>"
  "\<not> f32_eq (F32 FLASH_ADDR_MAG_BIAS) 0"
  by (simp_all add: f32_is_finite_def f32_eq_def less_f32_def echo_value sgn_int_def f32_eval)

definition bias_like :: "f32 \<Rightarrow> bool" where
  "bias_like x \<longleftrightarrow> f32_is_finite x \<and> \<not> f32_lit 500 1 < \<bar>x\<bar>"

lemma u32_le_at_shift: "u32_le_at (xs @ ys) (length xs + n) = u32_le_at ys n"
  by (simp add: u32_le_at_def)

text \<open>
  The bias of the magnetometer is taken from the wrong place when the reply echoes the
  address where the request has it, after eight bytes: the search begins there, the address read as
  a float is a tiny plausible number, and it becomes the first component, with the first two
  components of the stored bias behind it. The third is lost.
\<close>

theorem echoed_address_becomes_bias:
  assumes "length hdr = 8" "12 \<le> length p" "bias_like (f32_le_at p 0)" "bias_like (f32_le_at p 4)"
  shows "extract_mag_bias (hdr @ to_le FLASH_ADDR_MAG_BIAS @ p)
    = Some (F32 FLASH_ADDR_MAG_BIAS, f32_le_at p 0, f32_le_at p 4)"
proof -
  let ?bs = "hdr @ to_le FLASH_ADDR_MAG_BIAS @ p"
  have "u32_le_at ?bs 8 = FLASH_ADDR_MAG_BIAS"
    using u32_le_at_shift [of hdr "to_le FLASH_ADDR_MAG_BIAS @ p" 0] assms(1) by (simp add: u32_le_at_def)
  moreover have "u32_le_at ?bs (12 + n) = u32_le_at p n" for n
    using u32_le_at_shift [of "hdr @ to_le FLASH_ADDR_MAG_BIAS" p n] assms(1) by (simp add: add.commute)
  from this [of 0] this [of 4] have "u32_le_at ?bs 12 = u32_le_at p 0" "u32_le_at ?bs 16 = u32_le_at p 4"
    by simp_all
  ultimately have at: "bias_at ?bs 8 = (F32 FLASH_ADDR_MAG_BIAS, f32_le_at p 0, f32_le_at p 4)"
    by (simp add: bias_at_def f32_le_at_def)
  have ok: "plausible_bias (bias_at ?bs 8)"
    unfolding at using assms(3,4) echo_is_small by (simp add: plausible_bias_def bias_like_def)
  have "8 < Suc (min (length ?bs - 12) 24)" using assms(1,2) by simp
  then have "[8..<Suc (min (length ?bs - 12) 24)] = 8 # [9..<Suc (min (length ?bs - 12) 24)]"
    by (simp only: upt_conv_Cons) simp
  then have "find plausible_bias (map (bias_at ?bs) [8..<Suc (min (length ?bs - 12) 24)]) = Some (bias_at ?bs 8)"
    using ok by (simp only: list.map find.simps if_True)
  then show ?thesis using assms(1,2) by (simp only: extract_mag_bias_def at) simp
qed

theorem echoed_address_becomes_bias_witness:
  "extract_mag_bias (replicate 8 0 @ to_le FLASH_ADDR_MAG_BIAS @ replicate 12 0)
    = Some (F32 FLASH_ADDR_MAG_BIAS, F32 0, F32 0)"
proof -
  have zero: "f32_le_at (replicate 12 0) 0 = F32 0" "f32_le_at (replicate 12 0) 4 = F32 0"
    by (simp_all add: f32_le_at_def u32_le_at_def from_le_def numeral_eq_Suc)
  have "bias_like 0" by (simp add: bias_like_def f32_is_finite_def less_f32_def sgn_int_def f32_eval)
  then have "bias_like (F32 0)" by (simp add: zero_f32_def)
  then show ?thesis
    using echoed_address_becomes_bias [of "replicate 8 0" "replicate 12 0"] by (simp add: zero)
qed

end
