(* ===== verification/Console_Udp.thy ===== *)
theory Console_Udp
  imports Hid_Common
begin

section \<open>Consoles that forward over UDP\<close>

text \<open>
  \<^verbatim>\<open>crates/device-3ds\<close> and \<^verbatim>\<open>crates/device-vita\<close>: a homebrew program on the console sends one
  datagram per sample, and the address it comes from is the identity of the tracker. Each
  crate has a packet format, a device that turns packets into samples and a listener with
  one route per console. What a send on a channel returns is an input.
\<close>

subsection \<open>Identity\<close>

text \<open>The same function in both crates, and in the one for the Wii.\<close>

definition stable_mac :: "bytes \<Rightarrow> mac" where
  "stable_mac bs =
     (let hash = fold (\<lambda>b h. (h XOR ucast b) * 0x100000001b3) bs (0xcbf29ce484222325 :: u64);
          m = take 6 (to_le hash)
      in m[0 := (m ! 0 AND 0xFE) OR 0x02])"

definition console_metadata :: "device_kind \<Rightarrow> text_string \<Rightarrow> device_metadata" where
  "console_metadata kind key =
     \<lparr>md_id = \<lparr>id_mac = stable_mac (as_bytes key), id_serial = key\<rparr>, md_kind = kind,
      md_firmware = Some ''forwarded-homebrew'',
      md_caps = \<lparr>has_magnetometer = False, has_battery = False, has_rumble = False,
        native_rate_hz = 100\<rparr>\<rparr>"

definition ds_metadata :: "text_string \<Rightarrow> device_metadata" where
  "ds_metadata key = console_metadata ThreeDs key"

definition vita_metadata :: "text_string \<Rightarrow> device_metadata" where
  "vita_metadata key = console_metadata Vita key"

subsection \<open>Nintendo 3DS: packets and device\<close>

record ds_packet =
  dp_accel :: "int \<times> int \<times> int"
  dp_gyro :: "int \<times> int \<times> int"

definition DS_WIRE_LEN :: nat where
  "DS_WIRE_LEN = 12"

definition ds_parse :: "bytes \<Rightarrow> ds_packet option" where
  "ds_parse buf =
     (if length buf \<noteq> DS_WIRE_LEN then None
      else Some \<lparr>dp_accel = i16_triple_at buf 0, dp_gyro = i16_triple_at buf 6\<rparr>)"

definition GRAVITY_SAMPLES :: nat where
  "GRAVITY_SAMPLES = 100"

definition GYRO_RAD_PER_LSB :: f32 where
  "GYRO_RAD_PER_LSB = f32_lit 125 100000"

definition ds_imu :: "ds_packet \<Rightarrow> f32 \<Rightarrow> instant \<Rightarrow> instant \<Rightarrow> imu_sample" where
  "ds_imu pkt division begun now =
     (case dp_accel pkt of (ax, ay, az) \<Rightarrow>
        \<lparr>gyro = map3 (\<lambda>g. - f32_of_int g * GYRO_RAD_PER_LSB) (dp_gyro pkt),
         accel = (f32_of_int ax * division, f32_of_int az * division, f32_of_int ay * division),
         mag = None, timestamp_us = of_nat (as_micros (now - begun))\<rparr>)"

text \<open>What the reading task keeps while it learns how large gravity is in raw counts.\<close>

record ds_scale =
  grav_accum :: f64
  grav_count :: nat
  division :: f32

definition ds_scale_new :: ds_scale where
  "ds_scale_new = \<lparr>grav_accum = 0, grav_count = 0, division = 0\<rparr>"

definition ds_learn :: "ds_packet \<Rightarrow> ds_scale \<Rightarrow> ds_scale" where
  "ds_learn pkt s =
     (case dp_accel pkt of (ax, ay, az) \<Rightarrow>
        let sq = (\<lambda>i. f64_of_int i * f64_of_int i);
            accum = grav_accum s + f64_sqrt (sq ax + sq ay + sq az);
            count = grav_count s + 1;
            mean = f32_max (f32_of_f64 accum / f32_of_f64 (f64_of_int (int count))) 1
        in \<lparr>grav_accum = accum, grav_count = count, division = GRAVITY / mean\<rparr>)"

text \<open>The packets of a device, each with the time it is handled, until its route is dropped.\<close>

fun ds_loop :: "instant \<Rightarrow> ds_scale \<Rightarrow> (ds_packet \<times> instant) list \<Rightarrow> channel_info list" where
  "ds_loop begun s [] = [Disconnected]"
| "ds_loop begun s ((pkt, now) # rest) =
     (if grav_count s < GRAVITY_SAMPLES then ds_loop begun (ds_learn pkt s) rest
      else ImuSamples [ds_imu pkt (division s) begun now] # ds_loop begun s rest)"

text \<open>A device of either kind: the end of its channel, until it is started, and the task.\<close>

record console_device =
  cd_meta :: device_metadata
  cd_rx :: bool
  cd_reader :: bool

definition console_new :: "device_metadata \<Rightarrow> console_device" where
  "console_new meta = \<lparr>cd_meta = meta, cd_rx = True, cd_reader = False\<rparr>"

definition console_stop :: "console_device \<Rightarrow> console_device" where
  "console_stop d = d\<lparr>cd_reader := False\<rparr>"

definition ds_start :: "console_device \<Rightarrow> device_error + device_id \<times> console_device" where
  "ds_start d =
     (if cd_rx d then Inr (md_id (cd_meta d), d\<lparr>cd_rx := False, cd_reader := True\<rparr>)
      else Inl (Hid ''3ds already started''))"

definition ds_events :: "device_id \<Rightarrow> instant \<Rightarrow> (ds_packet \<times> instant) list \<Rightarrow> channel_info list" where
  "ds_events i begun pkts = Connected i # ds_loop begun ds_scale_new pkts"

subsection \<open>PlayStation Vita: packets and device\<close>

record vita_packet =
  vp_accel_g :: "f32 \<times> f32 \<times> f32"
  vp_gyro_rad :: "f32 \<times> f32 \<times> f32"

definition VITA_WIRE_LEN :: nat where
  "VITA_WIRE_LEN = 24"

definition vita_rd :: "bytes \<Rightarrow> nat \<Rightarrow> f32" where
  "vita_rd buf off = F32 (u32_le_at buf off)"

definition vita_parse :: "bytes \<Rightarrow> vita_packet option" where
  "vita_parse buf =
     (if length buf \<noteq> VITA_WIRE_LEN then None
      else
        let a = (vita_rd buf 0, vita_rd buf 4, vita_rd buf 8);
            g = (vita_rd buf 12, vita_rd buf 16, vita_rd buf 20)
        in if \<not> (all3 f32_is_finite a \<and> all3 f32_is_finite g) then None
           else Some \<lparr>vp_accel_g = a, vp_gyro_rad = g\<rparr>)"

definition vita_imu :: "vita_packet \<Rightarrow> instant \<Rightarrow> instant \<Rightarrow> imu_sample" where
  "vita_imu pkt begun now =
     \<lparr>gyro = vp_gyro_rad pkt, accel = map3 (\<lambda>a. a * GRAVITY) (vp_accel_g pkt), mag = None,
      timestamp_us = of_nat (as_micros (now - begun))\<rparr>"

definition vita_start :: "console_device \<Rightarrow> device_error + device_id \<times> console_device" where
  "vita_start d =
     (if cd_rx d then Inr (md_id (cd_meta d), d\<lparr>cd_rx := False, cd_reader := True\<rparr>)
      else Inl (Hid ''vita already started''))"

definition vita_events :: "device_id \<Rightarrow> instant \<Rightarrow> (vita_packet \<times> instant) list \<Rightarrow> channel_info list" where
  "vita_events i begun pkts =
     Connected i # map (\<lambda>(pkt, now). ImuSamples [vita_imu pkt begun now]) pkts @ [Disconnected]"

subsection \<open>The listeners\<close>

datatype send_result = SendOk | SendFull | SendClosed

text \<open>
  One datagram: where it comes from, its bytes, the time it is handled, whether the
  supervisor still takes devices, and what a send to the console's channel returns.
\<close>

record datagram =
  dg_peer :: text_string
  dg_bytes :: bytes
  dg_now :: instant
  dg_out :: bool
  dg_send :: send_result

text \<open>A route: the number of its channel and the time of its last packet.\<close>

record udp_route =
  rt_chan :: nat
  rt_seen :: instant

record 'p listener =
  ls_routes :: "text_string \<Rightarrow> udp_route option"
  ls_next :: nat
  ls_registered :: "(device_metadata \<times> nat) list"
  ls_sent :: "(nat \<times> 'p) list"
  ls_running :: bool

definition listener_new :: "'p listener" where
  "listener_new =
     \<lparr>ls_routes = Map.empty, ls_next = 0, ls_registered = [], ls_sent = [], ls_running = True\<rparr>"

definition route_fresh :: "duration \<Rightarrow> instant \<Rightarrow> udp_route \<Rightarrow> bool" where
  "route_fresh timeout now r \<longleftrightarrow> duration_since now (rt_seen r) < timeout"

definition reap :: "duration \<Rightarrow> instant \<Rightarrow> 'p listener \<Rightarrow> 'p listener" where
  "reap timeout now l =
     l\<lparr>ls_routes := (\<lambda>k. case ls_routes l k of
         Some r \<Rightarrow> if route_fresh timeout now r then Some r else None | None \<Rightarrow> None)\<rparr>"

text \<open>\<^verbatim>\<open>try_send\<close> on the channel of a route.\<close>

definition try_send :: "datagram \<Rightarrow> nat \<Rightarrow> 'p \<Rightarrow> 'p listener \<Rightarrow> 'p listener" where
  "try_send dg ch pkt l = (if dg_send dg = SendOk then l\<lparr>ls_sent := ls_sent l @ [(ch, pkt)]\<rparr> else l)"

text \<open>The rest of the step, the same in both crates: a live route, or a new device.\<close>

definition deliver ::
  "(text_string \<Rightarrow> device_metadata) \<Rightarrow> datagram \<Rightarrow> 'p \<Rightarrow> 'p listener \<Rightarrow> 'p listener" where
  "deliver meta dg pkt l =
     (let key = dg_peer dg in
      case ls_routes l key of
        Some r \<Rightarrow>
          let l1 = try_send dg (rt_chan r) pkt l in
          l1\<lparr>ls_routes := (ls_routes l1)(key :=
            (if dg_send dg = SendClosed then None else Some (r\<lparr>rt_seen := dg_now dg\<rparr>)))\<rparr>
      | None \<Rightarrow>
          if \<not> dg_out dg then l\<lparr>ls_running := False\<rparr>
          else
            let ch = ls_next l;
                l1 = try_send dg ch pkt
                  (l\<lparr>ls_next := ch + 1, ls_registered := ls_registered l @ [(meta key, ch)]\<rparr>)
            in l1\<lparr>ls_routes := (ls_routes l1)(key \<mapsto> \<lparr>rt_chan = ch, rt_seen = dg_now dg\<rparr>)\<rparr>)"

definition DS_IDLE_TIMEOUT :: duration where
  "DS_IDLE_TIMEOUT = from_secs 5"

definition VITA_IDLE_TIMEOUT :: duration where
  "VITA_IDLE_TIMEOUT = from_secs 10"

text \<open>The buffer holds 64 bytes; what a longer datagram has beyond is cut off by the socket.\<close>

definition received :: "datagram \<Rightarrow> bytes" where
  "received dg = take 64 (dg_bytes dg)"

text \<open>
  The two loops. A receive that fails (None) ends the one of the 3DS, and the one of the Vita
  goes on; the one of the Vita reaps before it looks at the packet.
\<close>

definition ds_step :: "datagram option \<Rightarrow> ds_packet listener \<Rightarrow> ds_packet listener" where
  "ds_step ev l =
     (if \<not> ls_running l then l
      else
        case ev of
          None \<Rightarrow> l\<lparr>ls_running := False\<rparr>
        | Some dg \<Rightarrow>
            case ds_parse (received dg) of
              None \<Rightarrow> l
            | Some pkt \<Rightarrow> deliver ds_metadata dg pkt (reap DS_IDLE_TIMEOUT (dg_now dg) l))"

definition vita_step :: "datagram option \<Rightarrow> vita_packet listener \<Rightarrow> vita_packet listener" where
  "vita_step ev l =
     (if \<not> ls_running l then l
      else
        case ev of
          None \<Rightarrow> l
        | Some dg \<Rightarrow>
            let l1 = reap VITA_IDLE_TIMEOUT (dg_now dg) l in
            case vita_parse (received dg) of
              None \<Rightarrow> l1
            | Some pkt \<Rightarrow> deliver vita_metadata dg pkt l1)"

subsection \<open>What both listeners keep\<close>

text \<open>
  The contract of a listener over its packet format, its metadata and its timeout. A history
  of events is what the listener has met so far, the last event at its end.
\<close>

definition listener_inv ::
  "(bytes \<Rightarrow> 'p option) \<Rightarrow> (text_string \<Rightarrow> device_metadata) \<Rightarrow> datagram option list \<Rightarrow> 'p listener \<Rightarrow> bool" where
  "listener_inv parse meta evs l \<longleftrightarrow>
     (\<forall>k r. ls_routes l k = Some r \<longrightarrow> (meta k, rt_chan r) \<in> set (ls_registered l)
        \<and> (\<exists>dg. Some dg \<in> set evs \<and> dg_peer dg = k \<and> dg_now dg = rt_seen r))
     \<and> map snd (ls_registered l) = [0..<ls_next l]
     \<and> (\<forall>ch p. (ch, p) \<in> set (ls_sent l) \<longrightarrow>
          (\<exists>dg. Some dg \<in> set evs \<and> parse (received dg) = Some p \<and> (meta (dg_peer dg), ch) \<in> set (ls_registered l)))"

lemma listener_inv_weaken:
  "listener_inv parse meta evs l \<Longrightarrow> listener_inv parse meta (evs @ [ev]) l"
  unfolding listener_inv_def by fastforce

lemma listener_inv_reap:
  "listener_inv parse meta evs l \<Longrightarrow> listener_inv parse meta evs (reap timeout now l)"
  unfolding listener_inv_def reap_def by (auto split: option.splits if_splits)

lemma listener_inv_stop:
  "listener_inv parse meta evs l \<Longrightarrow> listener_inv parse meta evs (l\<lparr>ls_running := b\<rparr>)"
  unfolding listener_inv_def by simp

lemma deliver_known:
  "ls_routes l (dg_peer dg) = Some r \<Longrightarrow>
     deliver meta dg pkt l = (try_send dg (rt_chan r) pkt l)\<lparr>ls_routes := (ls_routes l)(dg_peer dg :=
       (if dg_send dg = SendClosed then None else Some (r\<lparr>rt_seen := dg_now dg\<rparr>)))\<rparr>"
  by (simp add: deliver_def try_send_def Let_def)

lemma deliver_new:
  "ls_routes l (dg_peer dg) = None \<Longrightarrow> dg_out dg \<Longrightarrow>
     deliver meta dg pkt l =
       (try_send dg (ls_next l) pkt (l\<lparr>ls_next := ls_next l + 1,
          ls_registered := ls_registered l @ [(meta (dg_peer dg), ls_next l)]\<rparr>))
       \<lparr>ls_routes := (ls_routes l)(dg_peer dg \<mapsto> \<lparr>rt_chan = ls_next l, rt_seen = dg_now dg\<rparr>)\<rparr>"
  by (simp add: deliver_def try_send_def Let_def)

lemma deliver_refused:
  "ls_routes l (dg_peer dg) = None \<Longrightarrow> \<not> dg_out dg \<Longrightarrow> deliver meta dg pkt l = l\<lparr>ls_running := False\<rparr>"
  by (simp add: deliver_def Let_def)

lemma listener_inv_deliver:
  assumes inv: "listener_inv parse meta evs l" and pkt: "parse (received dg) = Some pkt"
  shows "listener_inv parse meta (evs @ [Some dg]) (deliver meta dg pkt l)"
proof (cases "ls_routes l (dg_peer dg)")
  case (Some r)
  then show ?thesis
    using listener_inv_weaken [OF inv, of "Some dg"] pkt
    unfolding deliver_known [OF Some] try_send_def listener_inv_def by (auto split: if_splits)
next
  case None
  show ?thesis
  proof (cases "dg_out dg")
    case True
    have old: "listener_inv parse meta (evs @ [Some dg]) l"
      by (rule listener_inv_weaken [OF inv])
    then show ?thesis
      using pkt unfolding deliver_new [OF None True] try_send_def listener_inv_def
      by (auto split: if_splits) (metis+)
  next
    case False
    then show ?thesis
      using listener_inv_stop [OF listener_inv_weaken [OF inv]] by (simp add: deliver_refused None)
  qed
qed

locale udp_listener =
  fixes parse :: "bytes \<Rightarrow> 'p option" and meta :: "text_string \<Rightarrow> device_metadata"
    and timeout :: duration and step :: "datagram option \<Rightarrow> 'p listener \<Rightarrow> 'p listener"
  assumes packet: "ls_running l \<Longrightarrow> parse (received dg) = Some pkt \<Longrightarrow>
      step (Some dg) l = deliver meta dg pkt (reap timeout (dg_now dg) l)"
    and stray: "ls_running l \<Longrightarrow> parse (received dg) = None \<Longrightarrow>
      step (Some dg) l = l \<or> step (Some dg) l = reap timeout (dg_now dg) l"
    and failure: "ls_running l \<Longrightarrow> \<exists>b. step None l = l\<lparr>ls_running := b\<rparr>"
    and stopped: "\<not> ls_running l \<Longrightarrow> step ev l = l"
begin

lemma inv_step:
  assumes inv: "listener_inv parse meta evs l"
  shows "listener_inv parse meta (evs @ [ev]) (step ev l)"
proof (cases "ls_running l")
  case False
  then show ?thesis using listener_inv_weaken [OF inv] by (simp add: stopped)
next
  case True
  show ?thesis
  proof (cases ev)
    case None
    with failure [OF True] show ?thesis
      using listener_inv_stop [OF listener_inv_weaken [OF inv]] by auto
  next
    case (Some dg)
    show ?thesis
    proof (cases "parse (received dg)")
      case None
      with stray [OF True None] Some show ?thesis
        using listener_inv_weaken [OF inv] listener_inv_reap [OF listener_inv_weaken [OF inv]] by auto
    next
      case (Some pkt)
      show ?thesis
        unfolding \<open>ev = Some dg\<close> packet [OF True Some]
        by (rule listener_inv_deliver [where parse = parse, OF listener_inv_reap [OF inv] Some])
    qed
  qed
qed

lemma inv_run: "listener_inv parse meta evs (fold step evs listener_new)"
proof (induction evs rule: rev_induct)
  case Nil
  show ?case by (simp add: listener_inv_def listener_new_def)
next
  case (snoc ev evs)
  then show ?case by (simp add: inv_step)
qed

text \<open>A packet reaches the device of the console it came from, and no other.\<close>

lemma sent_to_sender:
  assumes "(ch, p) \<in> set (ls_sent (fold step evs listener_new))"
    and "(m, ch) \<in> set (ls_registered (fold step evs listener_new))"
  shows "\<exists>dg. Some dg \<in> set evs \<and> parse (received dg) = Some p \<and> m = meta (dg_peer dg)"
proof -
  let ?l = "fold step evs listener_new"
  have inv: "listener_inv parse meta evs ?l" by (rule inv_run)
  then have d: "distinct (map snd (ls_registered ?l))" by (simp add: listener_inv_def)
  from inv assms(1) obtain dg where dg: "Some dg \<in> set evs" "parse (received dg) = Some p"
    "(meta (dg_peer dg), ch) \<in> set (ls_registered ?l)"
    unfolding listener_inv_def by blast
  from d dg(3) assms(2) have "m = meta (dg_peer dg)"
    by (metis distinct_map inj_onD prod.inject snd_conv)
  with dg show ?thesis by blast
qed

text \<open>After a packet, a route is left only for a console heard within the timeout.\<close>

lemma routes_recent:
  assumes "parse (received dg) = Some p" "0 < timeout"
    and "ls_running (fold step (evs @ [Some dg]) listener_new)"
    and "k \<in> dom (ls_routes (fold step (evs @ [Some dg]) listener_new))"
  shows "\<exists>d. Some d \<in> set (evs @ [Some dg]) \<and> dg_peer d = k
    \<and> duration_since (dg_now dg) (dg_now d) < timeout"
proof -
  let ?l = "fold step evs listener_new" and ?r = "reap timeout (dg_now dg)"
  have run: "ls_running ?l"
    using assms(3) by (cases "ls_running ?l") (simp_all add: stopped)
  have l': "fold step (evs @ [Some dg]) listener_new = deliver meta dg p (?r ?l)"
    using packet [OF run assms(1)] by simp
  show ?thesis
  proof (cases "k = dg_peer dg")
    case True
    with assms(2) show ?thesis by (auto simp: duration_since_def)
  next
    case False
    from assms(4) l' obtain r where "ls_routes (deliver meta dg p (?r ?l)) k = Some r" by auto
    then have "ls_routes (?r ?l) k = Some r"
      using False by (auto simp: deliver_def try_send_def Let_def split: option.splits if_splits)
    then have "ls_routes ?l k = Some r" "route_fresh timeout (dg_now dg) r"
      by (auto simp: reap_def split: option.splits if_splits)
    moreover have "listener_inv parse meta evs ?l" by (rule inv_run)
    ultimately show ?thesis
      unfolding listener_inv_def route_fresh_def by fastforce
  qed
qed

end

interpretation ds: udp_listener ds_parse ds_metadata DS_IDLE_TIMEOUT ds_step
  by unfold_locales (auto simp: ds_step_def)

interpretation vita: udp_listener vita_parse vita_metadata VITA_IDLE_TIMEOUT vita_step
  by unfold_locales (auto simp: vita_step_def Let_def intro: exI [of _ True])

subsection \<open>The scale of the 3DS\<close>

lemma gravity_val: "\<exists>g. f32_val GRAVITY = FFin False g \<and> repr 23 g \<and> g < 16 * funit fmt32"
proof -
  have "f32_val GRAVITY = FFin False (10283018 * 2 ^ 129)"
    by (simp add: GRAVITY_def f32_eval)
  moreover have "repr 23 (10283018 * 2 ^ 129)"
    by (rule repr_mult_pow) simp
  ultimately show ?thesis by (simp add: fmt32_def)
qed

definition scale_ok :: "f32 \<Rightarrow> bool" where
  "scale_ok d \<longleftrightarrow> f32_is_finite d \<and> 0 \<le> d \<and> d \<le> GRAVITY"

lemma scale_ok_0: "scale_ok 0"
  using gravity_val by (auto simp: scale_ok_def f32_is_finite_def less_eq_f32_def fp_le_def sgn_int_def)

lemma f32_max_1_val:
  "f32_val (f32_max x 1) = FInf False \<or> (\<exists>k. f32_val (f32_max x 1) = FFin False k \<and> funit fmt32 \<le> k)"
proof (cases "f32_val x")
  case (FFin s k)
  have "\<not> int (funit fmt32) \<le> - int k"
    using funit_pos(1) by linarith
  with FFin show ?thesis
    by (cases s) (auto simp: f32_max_def f32_is_nan_def less_f32_def sgn_int_def not_less)
qed (auto simp: f32_max_def f32_is_nan_def less_f32_def)

lemma scale_ok_quotient: "scale_ok (GRAVITY / f32_max x 1)"
proof -
  obtain g where g: "f32_val GRAVITY = FFin False g" "repr 23 g" "g < 16 * funit fmt32"
    using gravity_val by blast
  have u: "0 < funit fmt32" by simp
  consider "f32_val (f32_max x 1) = FInf False"
    | k where "f32_val (f32_max x 1) = FFin False k" "funit fmt32 \<le> k"
    using f32_max_1_val [of x] by blast
  then show ?thesis
  proof cases
    case 1
    with g show ?thesis
      by (auto simp: scale_ok_def f32_is_finite_def less_eq_f32_def fp_le_def sgn_int_def)
  next
    case (2 k)
    let ?q = "fp_round 23 (g * funit fmt32) k"
    have "0 < k" using 2(2) u by linarith
    moreover have "g * funit fmt32 * 1 \<le> g * k" using 2(2) by simp
    ultimately have "?q \<le> fp_round 23 g 1" by (intro fp_round_mono) simp_all
    also have "\<dots> = g" using fp_round_exact [OF g(2), of 1] by simp
    finally have q: "?q \<le> g" .
    have "16 * funit fmt32 < flimit fmt32" by (simp add: fmt32_def)
    with q g(3) have "?q < flimit fmt32" by linarith
    with 2(1) g(1) \<open>0 < k\<close> have "f32_val (GRAVITY / f32_max x 1) = FFin False ?q"
      by (simp add: fp_make_def Let_def fmt32_def)
    with q g(1) show ?thesis
      by (auto simp: scale_ok_def f32_is_finite_def less_eq_f32_def fp_le_def sgn_int_def)
  qed
qed

lemma scaled_count_finite:
  assumes "scale_ok d" "\<bar>i\<bar> \<le> 32768"
  shows "f32_is_finite (f32_of_int i * d)"
proof -
  obtain g where g: "f32_val GRAVITY = FFin False g" "g < 16 * funit fmt32"
    using gravity_val by blast
  obtain s l where l: "f32_val d = FFin s l" "l \<le> g"
    using assms(1) g(1)
    by (cases "f32_val d") (auto simp: scale_ok_def f32_is_finite_def less_eq_f32_def fp_le_def sgn_int_def split: if_splits)
  let ?k = "nat \<bar>i\<bar> * funit fmt32"
  have "nat \<bar>i\<bar> \<le> 2 ^ 15" using assms(2) by simp
  moreover have "l \<le> 2 ^ 153" using l(2) g(2) by (simp add: fmt32_def)
  ultimately have "nat \<bar>i\<bar> * l \<le> 2 ^ 15 * 2 ^ 153" by (rule mult_le_mono)
  then have "?k * l * 1 \<le> 2 ^ 168 * funit fmt32"
    by (simp add: fmt32_def mult.commute mult.left_commute)
  then have "fp_round 23 (?k * l) (funit fmt32) \<le> fp_round 23 (2 ^ 168) 1"
    by (intro fp_round_mono) simp_all
  also have "\<dots> = 2 ^ 168"
    using fp_round_exact [OF repr_mult_pow [of 1 23 168], of 1] by simp
  also have "(2::nat) ^ 168 < flimit fmt32" by (simp add: fmt32_def)
  finally have r: "fp_round 23 (?k * l) (funit fmt32) < flimit fmt32" .
  have "\<bar>i\<bar> < 2 ^ 24" using assms(2) by simp
  from f32_val_of_int [OF this] l(1) r show ?thesis
    by (simp add: f32_is_finite_def fp_make_def Let_def fmt32_def)
qed

lemma ds_learn_scale: "scale_ok (division (ds_learn pkt s))"
  by (cases "dp_accel pkt") (simp add: ds_learn_def Let_def scale_ok_quotient)

lemma ds_learn_count: "grav_count (ds_learn pkt s) = grav_count s + 1"
  by (cases "dp_accel pkt") (simp add: ds_learn_def Let_def)

lemma ds_loop_constant:
  "100 \<le> grav_count s \<Longrightarrow> ds_loop begun s pkts =
     map (\<lambda>(pkt, now). ImuSamples [ds_imu pkt (division s) begun now]) pkts @ [Disconnected]"
  by (induction begun s pkts rule: ds_loop.induct) (simp_all add: GRAVITY_SAMPLES_def)

lemma ds_loop_samples:
  "scale_ok (division s) \<Longrightarrow> \<exists>d. scale_ok d \<and>
     ds_loop begun s pkts =
       map (\<lambda>(pkt, now). ImuSamples [ds_imu pkt d begun now]) (drop (100 - grav_count s) pkts) @ [Disconnected]"
proof (induction begun s pkts rule: ds_loop.induct)
  case (1 begun s)
  then show ?case by auto
next
  case (2 begun s pkt now rest)
  show ?case
  proof (cases "grav_count s < 100")
    case True
    obtain d where d: "scale_ok d" "ds_loop begun (ds_learn pkt s) rest =
        map (\<lambda>(pkt, now). ImuSamples [ds_imu pkt d begun now])
          (drop (100 - grav_count (ds_learn pkt s)) rest) @ [Disconnected]"
      using 2 True ds_learn_scale by (auto simp: GRAVITY_SAMPLES_def)
    moreover have "drop (100 - grav_count s) ((pkt, now) # rest)
        = drop (100 - grav_count (ds_learn pkt s)) rest"
      using True by (simp add: ds_learn_count drop_Cons' )
    ultimately show ?thesis
      using True by (auto simp: GRAVITY_SAMPLES_def)
  next
    case False
    with ds_loop_constant [of s begun rest] 2(3) show ?thesis by (auto simp: GRAVITY_SAMPLES_def)
  qed
qed

subsection \<open>Properties\<close>

lemma i16_of_abs: "\<bar>i16_of w\<bar> \<le> 32768"
  using i16_of_range [of w] by linarith

lemma i16_triple_range:
  "case i16_triple_at buf off of (x, y, z) \<Rightarrow> \<bar>x\<bar> \<le> 32768 \<and> \<bar>y\<bar> \<le> 32768 \<and> \<bar>z\<bar> \<le> 32768"
  by (simp add: i16_triple_at_def i16_le_at_def i16_of_abs)

lemma ds_imu_accel_finite:
  assumes "ds_parse buf = Some pkt" "scale_ok d"
  shows "all3 f32_is_finite (accel (ds_imu pkt d begun now))"
  using assms i16_triple_range [of buf 0]
  by (auto simp: ds_parse_def ds_imu_def scaled_count_finite split: if_splits prod.splits)

text \<open>
  Property C30. A 3DS is silent until gravity is known: whatever the first hundred packets
  of a console hold, they produce no sample, and every later packet produces exactly one, all
  scaled by the same factor. The factor is never negative, NaN or above one standard gravity
  per count (the mean is held at one count at least), so no acceleration is ever infinite.
\<close>

theorem ds_learns_then_scales:
  assumes "\<forall>(pkt, now) \<in> set pkts. \<exists>buf. ds_parse buf = Some pkt"
  shows "\<exists>d. f32_is_finite d \<and> 0 \<le> d \<and> d \<le> GRAVITY
    \<and> ds_events i begun pkts =
        Connected i # map (\<lambda>(pkt, now). ImuSamples [ds_imu pkt d begun now]) (drop 100 pkts) @ [Disconnected]
    \<and> (\<forall>(pkt, now) \<in> set pkts. all3 f32_is_finite (accel (ds_imu pkt d begun now)))"
proof -
  obtain d where d: "scale_ok d" "ds_loop begun ds_scale_new pkts =
      map (\<lambda>(pkt, now). ImuSamples [ds_imu pkt d begun now]) (drop 100 pkts) @ [Disconnected]"
    using ds_loop_samples [of ds_scale_new begun pkts] scale_ok_0 by (auto simp: ds_scale_new_def)
  moreover have "\<forall>(pkt, now) \<in> set pkts. all3 f32_is_finite (accel (ds_imu pkt d begun now))"
    using assms d(1) ds_imu_accel_finite by fastforce
  ultimately show ?thesis by (auto simp: ds_events_def scale_ok_def)
qed

definition example_ds_packet :: ds_packet where
  "example_ds_packet = \<lparr>dp_accel = (0, 400, 0), dp_gyro = (1000, -1000, 0)\<rparr>"

lemma example_ds_parse: "ds_parse [0, 0, 144, 1, 0, 0, 232, 3, 24, 252, 0, 0] = Some example_ds_packet"
  by (simp add: ds_parse_def DS_WIRE_LEN_def i16_triple_at_def i16_le_at_def u16_le_at_def from_le_def
      i16_of_def example_ds_packet_def)

theorem ds_learns_then_scales_witness:
  "\<exists>d. 0 \<le> d \<and> d \<le> GRAVITY \<and>
     ds_events \<lparr>id_mac = [], id_serial = []\<rparr> 0 (replicate 101 (example_ds_packet, 7)) =
       [Connected \<lparr>id_mac = [], id_serial = []\<rparr>, ImuSamples [ds_imu example_ds_packet d 0 7], Disconnected]"
  using ds_learns_then_scales [of "replicate 101 (example_ds_packet, 7)" "\<lparr>id_mac = [], id_serial = []\<rparr>" 0]
    example_ds_parse
  by auto

text \<open>
  Property C36. The packets a console sends reach the tracker registered for its address and no
  other, however datagrams of several consoles, stray traffic, idle times and failing sends
  are interleaved, and although channels come and go.
\<close>

theorem console_packets_stay_home:
  "((ch, p) \<in> set (ls_sent (fold ds_step evs listener_new))
      \<longrightarrow> (m, ch) \<in> set (ls_registered (fold ds_step evs listener_new))
      \<longrightarrow> (\<exists>dg. Some dg \<in> set evs \<and> ds_parse (received dg) = Some p \<and> m = ds_metadata (dg_peer dg)))
   \<and> ((ch, q) \<in> set (ls_sent (fold vita_step evs listener_new))
      \<longrightarrow> (m, ch) \<in> set (ls_registered (fold vita_step evs listener_new))
      \<longrightarrow> (\<exists>dg. Some dg \<in> set evs \<and> vita_parse (received dg) = Some q \<and> m = vita_metadata (dg_peer dg)))"
  using ds.sent_to_sender [of ch p evs m] vita.sent_to_sender [of ch q evs m] by blast

definition example_datagram :: "text_string \<Rightarrow> datagram" where
  "example_datagram peer =
     \<lparr>dg_peer = peer, dg_bytes = [0, 0, 144, 1, 0, 0, 232, 3, 24, 252, 0, 0], dg_now = 7, dg_out = True,
      dg_send = SendOk\<rparr>"

lemma example_datagram_parse: "ds_parse (received (example_datagram peer)) = Some example_ds_packet"
  by (simp add: example_datagram_def received_def example_ds_parse)

theorem console_packets_stay_home_witness:
  "let evs = [Some (example_datagram ''10.0.0.7''), Some (example_datagram ''10.0.0.8'')];
       l = fold ds_step evs listener_new
   in (1, example_ds_packet) \<in> set (ls_sent l) \<and> (ds_metadata ''10.0.0.8'', 1) \<in> set (ls_registered l)
    \<and> (\<exists>dg. Some dg \<in> set evs \<and> ds_parse (received dg) = Some example_ds_packet
          \<and> ds_metadata ''10.0.0.8'' = ds_metadata (dg_peer dg))"
proof -
  let ?evs = "[Some (example_datagram ''10.0.0.7''), Some (example_datagram ''10.0.0.8'')]"
  let ?l = "fold ds_step ?evs listener_new"
  have out: "dg_peer (example_datagram k) = k" "dg_out (example_datagram k)"
    "dg_send (example_datagram k) = SendOk" "dg_now (example_datagram k) = 7" for k
    by (simp_all add: example_datagram_def)
  have l: "(1, example_ds_packet) \<in> set (ls_sent ?l)" "(ds_metadata ''10.0.0.8'', 1) \<in> set (ls_registered ?l)"
    by (simp_all add: ds_step_def example_datagram_parse deliver_def reap_def try_send_def listener_new_def
        out Let_def)
  from console_packets_stay_home [of 1 example_ds_packet ?evs "ds_metadata ''10.0.0.8''"] l
  show ?thesis unfolding Let_def by blast
qed

text \<open>
  Consoles that fall silent are forgotten: once a packet has been handled,
  the listener holds a route only for the consoles it heard within the last five seconds
  (ten for the Vita), so spoofed source addresses cannot make the map grow without bound.
\<close>

theorem silent_consoles_forgotten:
  assumes "ls_running (fold ds_step (evs @ [Some dg]) listener_new)" "ds_parse (received dg) = Some p"
    and "k \<in> dom (ls_routes (fold ds_step (evs @ [Some dg]) listener_new))"
  shows "\<exists>d. Some d \<in> set (evs @ [Some dg]) \<and> dg_peer d = k
    \<and> duration_since (dg_now dg) (dg_now d) < from_secs 5"
  using ds.routes_recent [OF assms(2) _ assms(1,3)] by (simp add: DS_IDLE_TIMEOUT_def from_secs_def)

theorem silent_consoles_forgotten_witness:
  "''10.0.0.7'' \<in> dom (ls_routes (fold ds_step ([] @ [Some (example_datagram ''10.0.0.7'')]) listener_new))
    \<and> (\<exists>d. Some d \<in> set ([] @ [Some (example_datagram ''10.0.0.7'')]) \<and> dg_peer d = ''10.0.0.7''
          \<and> duration_since (dg_now (example_datagram ''10.0.0.7'')) (dg_now d) < from_secs 5)"
proof -
  have out: "dg_peer (example_datagram k) = k" "dg_out (example_datagram k)"
    "dg_send (example_datagram k) = SendOk" "dg_now (example_datagram k) = 7" for k
    by (simp_all add: example_datagram_def)
  have "ls_running (fold ds_step ([] @ [Some (example_datagram ''10.0.0.7'')]) listener_new)"
    and k: "''10.0.0.7'' \<in> dom (ls_routes (fold ds_step ([] @ [Some (example_datagram ''10.0.0.7'')]) listener_new))"
    by (simp_all add: ds_step_def example_datagram_parse deliver_def reap_def try_send_def listener_new_def
        out Let_def)
  from silent_consoles_forgotten [OF this(1) example_datagram_parse k] k show ?thesis by blast
qed

text \<open>
  The Vita listener rejects packets with a NaN or an infinity so that garbage
  cannot poison the fusion, but it checks before the conversion from g: a packet whose
  acceleration is the largest finite number passes the check, and its sample is infinite.
\<close>

theorem vita_check_misses_overflow:
  "\<exists>buf pkt. vita_parse buf = Some pkt \<and> \<not> all3 f32_is_finite (accel (vita_imu pkt begun now))"
proof -
  let ?x = "F32 0x7F7FFFFF"
  have x: "f32_val ?x = FFin False (16777215 * 2 ^ 253)" "f32_val (F32 0) = FFin False 0"
    by (simp_all add: f32_val_def fp_decode_def fmt32_def Let_def)
  then have fin: "f32_is_finite ?x" "f32_is_finite (F32 0)"
    by (simp_all add: f32_is_finite_def)
  have "vita_parse [255, 255, 127, 127, 0, 0, 0, 0, 0, 0, 0, 0, 0, 0, 0, 0, 0, 0, 0, 0, 0, 0, 0, 0] =
      Some \<lparr>vp_accel_g = (?x, F32 0, F32 0), vp_gyro_rad = (F32 0, F32 0, F32 0)\<rparr>"
    using fin by (simp add: vita_parse_def VITA_WIRE_LEN_def vita_rd_def u32_le_at_def from_le_def)
  moreover have "\<not> f32_is_finite (?x * GRAVITY)"
    by (simp add: f32_is_finite_def x GRAVITY_def f32_eval)
  then have "\<not> all3 f32_is_finite (accel (vita_imu
      \<lparr>vp_accel_g = (?x, F32 0, F32 0), vp_gyro_rad = (F32 0, F32 0, F32 0)\<rparr> begun now))"
    by (simp add: vita_imu_def)
  ultimately show ?thesis by blast
qed

end
