(* ===== verification/Wii_Forward.thy ===== *)
theory Wii_Forward
  imports Console_Udp
begin

section \<open>Wii remotes forwarded over TCP\<close>

text \<open>
  \<^verbatim>\<open>crates/device-wii\<close>: a homebrew program on the Wii connects over TCP and sends frames of 17
  bytes, each naming one of four remotes; every read is answered with the rumble state of the
  console. The routes and the rumble state are shared by all connections. A connection is
  one client handler; what a read returns, and whether the supervisor and the device
  still take messages, are inputs. Sends to a device wait for room, so none is lost.
\<close>

subsection \<open>Frames\<close>

record wii_packet =
  wp_accel :: "int \<times> int \<times> int"
  wp_data :: "int \<times> int \<times> int"
  wp_nunchuk :: bool
  wp_battery :: u8
  wp_button_up :: bool

definition WII_PACKET_LEN :: nat where
  "WII_PACKET_LEN = 17"

definition wii_parse :: "bytes \<Rightarrow> (u8 \<times> wii_packet) option" where
  "wii_parse buf =
     (if length buf \<noteq> WII_PACKET_LEN then None
      else
        let i = buf ! 0 in
        if i = 0xFF then None
        else if 4 \<le> i then None
        else Some (i, \<lparr>wp_accel = i16_triple_at buf 1, wp_data = i16_triple_at buf 7,
               wp_nunchuk = (buf ! 13 \<noteq> 0), wp_battery = buf ! 15, wp_button_up = (buf ! 16 \<noteq> 0)\<rparr>))"

text \<open>The whole frames at the front of the buffer, and what is left.\<close>

definition take_complete_packets :: "bytes \<Rightarrow> bytes list \<times> bytes" where
  "take_complete_packets leftover =
     (let complete = length leftover - length leftover mod WII_PACKET_LEN
      in (map (\<lambda>i. take WII_PACKET_LEN (drop (WII_PACKET_LEN * i) (take complete leftover)))
            [0..<complete div WII_PACKET_LEN],
          drop complete leftover))"

subsection \<open>The device\<close>

text \<open>\<^verbatim>\<open>i16::saturating_sub\<close>.\<close>

definition i16_saturating_sub :: "int \<Rightarrow> int \<Rightarrow> int" where
  "i16_saturating_sub a b = max (- 32768) (min 32767 (a - b))"

definition wii_imu :: "int \<times> int \<times> int \<Rightarrow> int \<times> int \<times> int \<Rightarrow> instant \<Rightarrow> instant \<Rightarrow> imu_sample" where
  "wii_imu accel_raw gyro_raw begun now =
     \<lparr>gyro = map3 (\<lambda>g. f32_of_int g * f32_lit 7 100 * deg_to_rad) gyro_raw,
      accel = map3 (\<lambda>a. (f32_of_int a - f32_lit 512 1) / f32_lit 200 1 * GRAVITY) accel_raw,
      mag = None, timestamp_us = of_nat (as_micros (now - begun))\<rparr>"

text \<open>What the reading task keeps from packet to packet.\<close>

record wii_reader =
  wr_reset :: detector
  wr_last_battery :: instant
  wr_last_level :: "u8 option"

definition wii_reader_new :: "instant \<Rightarrow> wii_reader" where
  "wii_reader_new now =
     \<lparr>wr_reset = detector_new,
      wr_last_battery = (case instant_checked_sub now (from_secs 2) of Some t \<Rightarrow> t | None \<Rightarrow> now),
      wr_last_level = None\<rparr>"

definition wii_packet_events ::
  "instant \<Rightarrow> wii_reader \<Rightarrow> wii_packet \<Rightarrow> instant \<Rightarrow> channel_info list \<times> wii_reader" where
  "wii_packet_events begun r pkt now =
     (let imu = (if wp_nunchuk pkt then wii_imu (wp_accel pkt) (0, 0, 0) begun now
                 else wii_imu (wp_accel pkt) (map3 (\<lambda>d. i16_saturating_sub d 8192) (wp_data pkt)) begun now);
          changed = (wr_last_level r \<noteq> Some (wp_battery pkt));
          due = (changed \<or> from_secs 1 \<le> duration_since now (wr_last_battery r));
          r1 = (if due then r\<lparr>wr_last_battery := now, wr_last_level := Some (wp_battery pkt)\<rparr> else r);
          bat = (if due then [Battery
                    \<lparr>fraction = f32_clamp (f32_of_int (int (unat (wp_battery pkt))) / f32_lit 100 1) 0 1,
                     charging = False\<rparr>]
                 else []);
          (d, kind) = observe (wr_reset r1) (CaptureOnly (wp_button_up pkt)) now
      in (ImuSamples [imu] # bat @ (case kind of Some k \<Rightarrow> [ResetRequested k] | None \<Rightarrow> []),
          r1\<lparr>wr_reset := d\<rparr>))"

fun wii_loop :: "instant \<Rightarrow> wii_reader \<Rightarrow> (wii_packet \<times> instant) list \<Rightarrow> channel_info list" where
  "wii_loop begun r [] = [Disconnected]"
| "wii_loop begun r ((pkt, now) # rest) =
     (case wii_packet_events begun r pkt now of (evs, r') \<Rightarrow> evs @ wii_loop begun r' rest)"

definition wii_events :: "device_id \<Rightarrow> instant \<Rightarrow> (wii_packet \<times> instant) list \<Rightarrow> channel_info list" where
  "wii_events i begun pkts = Connected i # wii_loop begun (wii_reader_new begun) pkts"

definition wii_metadata :: "text_string \<Rightarrow> device_metadata" where
  "wii_metadata key =
     \<lparr>md_id = \<lparr>id_mac = stable_mac (as_bytes key), id_serial = key\<rparr>, md_kind = Wii,
      md_firmware = Some ''forwarded-companion'',
      md_caps = \<lparr>has_magnetometer = False, has_battery = True, has_rumble = True,
        native_rate_hz = 100\<rparr>\<rparr>"

definition wii_start :: "console_device \<Rightarrow> device_error + device_id \<times> console_device" where
  "wii_start d =
     (if cd_rx d then Inr (md_id (cd_meta d), d\<lparr>cd_rx := False, cd_reader := True\<rparr>)
      else Inl (Hid ''wii already started''))"

subsection \<open>The shared state\<close>

text \<open>
  The routes by key and the rumble slots by console; the channels are numbered, and
  what each carried is logged with the devices registered.
\<close>

record wii_state =
  ws_routing :: "text_string \<Rightarrow> nat option"
  ws_rumble :: "text_string \<Rightarrow> u8 list option"
  ws_next :: nat
  ws_devices :: "(device_metadata \<times> nat) list"
  ws_sent :: "(nat \<times> wii_packet) list"

definition wii_new :: wii_state where
  "wii_new = \<lparr>ws_routing = Map.empty, ws_rumble = Map.empty, ws_next = 0, ws_devices = [], ws_sent = []\<rparr>"

text \<open>\<^verbatim>\<open>rsplit_once(':')\<close>: what is before and after the last colon.\<close>

fun rsplit_colon :: "text_string \<Rightarrow> (text_string \<times> text_string) option" where
  "rsplit_colon [] = None"
| "rsplit_colon (c # cs) =
     (case rsplit_colon cs of
        Some (a, b) \<Rightarrow> Some (c # a, b)
      | None \<Rightarrow> if c = CHR '':'' then Some ([], cs) else None)"

definition wii_set_rumble :: "text_string \<Rightarrow> f32 \<Rightarrow> wii_state \<Rightarrow> wii_state" where
  "wii_set_rumble stream_key intensity st =
     (let on = rumble_is_on intensity (f32_lit 5 10) in
      case rsplit_colon stream_key of
        None \<Rightarrow> st
      | Some (base_ip, idx) \<Rightarrow>
          case ws_rumble st base_ip of
            None \<Rightarrow> st
          | Some slots \<Rightarrow>
              case from_str_radix (2 ^ 64 - 1) 10 idx of
                None \<Rightarrow> st
              | Some i \<Rightarrow>
                  if i < 4
                  then st\<lparr>ws_rumble := (ws_rumble st)(base_ip \<mapsto> slots[i := (if on then 1 else 0)])\<rparr>
                  else st)"

definition wii_key :: "text_string \<Rightarrow> u8 \<Rightarrow> text_string" where
  "wii_key base_ip i = base_ip @ '':'' @ dec_digits (unat i)"

subsection \<open>One connection\<close>

record wii_conn =
  wc_ip :: text_string
  wc_left :: bytes
  wc_keys :: "text_string list"

definition wii_accept :: "text_string \<Rightarrow> wii_state \<Rightarrow> wii_conn \<times> wii_state" where
  "wii_accept ip st =
     (\<lparr>wc_ip = ip, wc_left = [], wc_keys = []\<rparr>,
      st\<lparr>ws_rumble := (case ws_rumble st ip of
           None \<Rightarrow> (ws_rumble st)(ip \<mapsto> [0, 0, 0, 0]) | Some _ \<Rightarrow> ws_rumble st)\<rparr>)"

text \<open>
  One frame: the device it is for, registered first if it is new. The inputs are whether the
  supervisor takes a new device and whether the device takes the packet; without the
  supervisor the handler returns.
\<close>

definition wii_frame ::
  "bytes \<Rightarrow> bool \<Rightarrow> bool \<Rightarrow> wii_conn \<Rightarrow> wii_state \<Rightarrow> (wii_conn \<times> wii_state) \<times> bool" where
  "wii_frame buf out_open dev_open c st =
     (case wii_parse buf of
        None \<Rightarrow> ((c, st), True)
      | Some (i, pkt) \<Rightarrow>
          let key = wii_key (wc_ip c) i;
              (ch, c1, st1, known) =
                (case ws_routing st key of
                   Some ch \<Rightarrow> (ch, c, st, True)
                 | None \<Rightarrow>
                     let ch = ws_next st in
                     (ch, c\<lparr>wc_keys := wc_keys c @ [key]\<rparr>,
                      st\<lparr>ws_next := ch + 1, ws_routing := (ws_routing st)(key \<mapsto> ch)\<rparr>, False))
          in if \<not> known \<and> \<not> out_open then ((c1, st1), False)
             else
               let st2 = (if known then st1 else st1\<lparr>ws_devices := ws_devices st1 @ [(wii_metadata key, ch)]\<rparr>)
               in if dev_open then ((c1, st2\<lparr>ws_sent := ws_sent st2 @ [(ch, pkt)]\<rparr>), True)
                  else ((c1, st2\<lparr>ws_routing := (ws_routing st2)(key := None)\<rparr>), True))"

fun wii_frames ::
  "bytes list \<Rightarrow> bool \<Rightarrow> (bytes \<Rightarrow> bool) \<Rightarrow> wii_conn \<Rightarrow> wii_state \<Rightarrow> (wii_conn \<times> wii_state) \<times> bool" where
  "wii_frames [] out_open dev_open c st = ((c, st), True)"
| "wii_frames (f # fs) out_open dev_open c st =
     (case wii_frame f out_open (dev_open f) c st of
        ((c', st'), go) \<Rightarrow> if go then wii_frames fs out_open dev_open c' st' else ((c', st'), False))"

definition DEFAULT_POLLING_RATE_MS :: u8 where
  "DEFAULT_POLLING_RATE_MS = 10"

definition wii_response :: "text_string \<Rightarrow> wii_state \<Rightarrow> bytes" where
  "wii_response ip st =
     (case ws_rumble st ip of Some slots \<Rightarrow> slots | None \<Rightarrow> [0, 0, 0, 0]) @ [DEFAULT_POLLING_RATE_MS]"

text \<open>
  One round of the loop: a read that fails or returns nothing ends it, and so does a response that
  cannot be written. The response, if one is due, comes with the state.
\<close>

datatype wii_read = ReadErr | ReadEof | ReadBytes bytes

definition wii_round ::
  "wii_read \<Rightarrow> bool \<Rightarrow> (bytes \<Rightarrow> bool) \<Rightarrow> bool \<Rightarrow> wii_conn \<Rightarrow> wii_state
    \<Rightarrow> (wii_conn \<times> wii_state) \<times> bool \<times> bytes option" where
  "wii_round rd out_open dev_open writes c st =
     (case rd of
        ReadErr \<Rightarrow> ((c, st), False, None)
      | ReadEof \<Rightarrow> ((c, st), False, None)
      | ReadBytes bs \<Rightarrow>
          if bs = [] then ((c, st), False, None)
          else
            let (frames, left) = take_complete_packets (wc_left c @ bs);
                ((c1, st1), go) = wii_frames frames out_open dev_open (c\<lparr>wc_left := left\<rparr>) st
            in if \<not> go then ((c1, st1), False, None)
               else ((c1, st1), writes, if writes then Some (wii_response (wc_ip c1) st1) else None))"

text \<open>However the loop ends, its routes go, and the rumble slots of the console.\<close>

definition wii_close :: "wii_conn \<Rightarrow> wii_state \<Rightarrow> wii_state" where
  "wii_close c st =
     st\<lparr>ws_routing := fold (\<lambda>k m. m(k := None)) (wc_keys c) (ws_routing st),
        ws_rumble := (ws_rumble st)(wc_ip c := None)\<rparr>"

subsection \<open>All connections\<close>

text \<open>
  What happens to the listener, one event after the other: a connection is accepted, a handler does one
  round of its loop (and tears down if that was the last), a device is told to rumble. The
  rounds of different handlers come in any order.
\<close>

datatype wii_event =
    WiiAccept nat text_string
  | WiiRound nat wii_read bool "bytes \<Rightarrow> bool" bool
  | WiiRumble text_string f32

record wii_sys =
  sy_conns :: "nat \<Rightarrow> wii_conn option"
  sy_state :: wii_state

definition wii_sys_new :: wii_sys where
  "wii_sys_new = \<lparr>sy_conns = Map.empty, sy_state = wii_new\<rparr>"

fun wii_step :: "wii_event \<Rightarrow> wii_sys \<Rightarrow> wii_sys" where
  "wii_step (WiiAccept n ip) s =
     (if sy_conns s n \<noteq> None then s
      else case wii_accept ip (sy_state s) of
             (c, st) \<Rightarrow> \<lparr>sy_conns = (sy_conns s)(n \<mapsto> c), sy_state = st\<rparr>)"
| "wii_step (WiiRound n rd out_open dev_open writes) s =
     (case sy_conns s n of
        None \<Rightarrow> s
      | Some c \<Rightarrow>
          case wii_round rd out_open dev_open writes c (sy_state s) of
            ((c', st'), go, _) \<Rightarrow>
              if go then \<lparr>sy_conns = (sy_conns s)(n \<mapsto> c'), sy_state = st'\<rparr>
              else \<lparr>sy_conns = (sy_conns s)(n := None), sy_state = wii_close c' st'\<rparr>)"
| "wii_step (WiiRumble key x) s = s\<lparr>sy_state := wii_set_rumble key x (sy_state s)\<rparr>"

subsection \<open>Reassembly\<close>

text \<open>The frames of a sequence of reads, as the loop drains them.\<close>

fun reassemble :: "bytes \<Rightarrow> bytes list \<Rightarrow> bytes list \<times> bytes" where
  "reassemble leftover [] = ([], leftover)"
| "reassemble leftover (r # rs) =
     (case take_complete_packets (leftover @ r) of
        (fs, left) \<Rightarrow> (case reassemble left rs of (gs, left') \<Rightarrow> (fs @ gs, left')))"

lemma take_complete_short: "length l < 17 \<Longrightarrow> take_complete_packets l = ([], l)"
  by (simp add: take_complete_packets_def WII_PACKET_LEN_def Let_def)

lemma take_complete_long:
  assumes "17 \<le> length l"
  shows "take_complete_packets l =
    (case take_complete_packets (drop 17 l) of (fs, left) \<Rightarrow> (take 17 l # fs, left))"
proof -
  let ?c = "length (drop 17 l) - length (drop 17 l) mod 17"
  have m: "length l mod 17 = length (drop 17 l) mod 17"
    using assms by (simp add: le_mod_geq)
  then have c: "length l - length l mod 17 = 17 + ?c"
    using assms by (simp add: mod_le_divisor)
  have q: "(17 + n) div 17 = Suc (n div 17)" for n :: nat by simp
  have u: "[0..<Suc n] = 0 # map Suc [0..<n]" for n
    by (simp add: upt_conv_Cons map_Suc_upt del: upt_Suc)
  have t: "take 17 (drop (17 * Suc i) (take (17 + n) l)) = take 17 (drop (17 * i) (take n (drop 17 l)))" for i n
    by (simp add: take_drop drop_drop add.commute add.left_commute)
  have d: "drop (17 + n) l = drop n (drop 17 l)" for n by (simp add: add.commute)
  have h: "take 17 (drop (17 * 0) (take (17 + n) l)) = take 17 l" for n by simp
  show ?thesis
    unfolding take_complete_packets_def WII_PACKET_LEN_def Let_def c q u list.map map_map comp_def t d h
    by simp
qed

lemma take_complete_append:
  "take_complete_packets (a @ b) =
     (case take_complete_packets a of (fs, left) \<Rightarrow>
        (case take_complete_packets (left @ b) of (gs, left') \<Rightarrow> (fs @ gs, left')))"
proof (induction a rule: length_induct)
  case (1 a)
  show ?case
  proof (cases "length a < 17")
    case True
    then show ?thesis by (simp add: take_complete_short split: prod.split)
  next
    case False
    then have long: "17 \<le> length a" "17 \<le> length (a @ b)" by simp_all
    have "length (drop 17 a) < length a" using long(1) by simp
    with 1 have IH: "take_complete_packets (drop 17 a @ b) =
        (case take_complete_packets (drop 17 a) of (fs, left) \<Rightarrow>
          (case take_complete_packets (left @ b) of (gs, left') \<Rightarrow> (fs @ gs, left')))" by blast
    have e: "drop 17 (a @ b) = drop 17 a @ b" "take 17 (a @ b) = take 17 a" using long(1) by simp_all
    show ?thesis
      unfolding take_complete_long [OF long(1)] take_complete_long [OF long(2)] e IH
      by (simp split: prod.split)
  qed
qed

lemma reassemble_concat: "reassemble left reads = take_complete_packets (left @ concat reads)"
  if "length left < 17"
  using that
proof (induction reads arbitrary: left)
  case Nil
  then show ?case by (simp add: take_complete_short)
next
  case (Cons r rs)
  obtain fs l where d: "take_complete_packets (left @ r) = (fs, l)" by fastforce
  then have l: "l = drop (length (left @ r) - length (left @ r) mod 17) (left @ r)"
    by (simp add: take_complete_packets_def WII_PACKET_LEN_def Let_def)
  have "length l = length (left @ r) mod 17"
    unfolding l length_drop by (rule diff_diff_cancel) (rule mod_less_eq_dividend)
  then have "length l < 17" by simp
  with Cons.IH [of l] take_complete_append [of "left @ r" "concat rs"] d
  show ?case by (simp split: prod.split)
qed

subsection \<open>Routes and rumble slots belong to open connections\<close>

definition wii_inv :: "wii_sys \<Rightarrow> bool" where
  "wii_inv s \<longleftrightarrow>
     (\<forall>k \<in> dom (ws_routing (sy_state s)). \<exists>n c. sy_conns s n = Some c \<and> k \<in> set (wc_keys c))
     \<and> (\<forall>ip \<in> dom (ws_rumble (sy_state s)). \<exists>n c. sy_conns s n = Some c \<and> wc_ip c = ip)
     \<and> (\<forall>n c. sy_conns s n = Some c \<longrightarrow> (\<forall>k \<in> set (wc_keys c). \<exists>i < 4. k = wii_key (wc_ip c) i))"

text \<open>What one frame, and then a round, does to the connection and the shared state.\<close>

definition frame_frame :: "wii_conn \<Rightarrow> wii_state \<Rightarrow> wii_conn \<Rightarrow> wii_state \<Rightarrow> bool" where
  "frame_frame c st c' st' \<longleftrightarrow>
     wc_ip c' = wc_ip c \<and> ws_rumble st' = ws_rumble st \<and> set (wc_keys c) \<subseteq> set (wc_keys c')
     \<and> (\<forall>k \<in> set (wc_keys c'). k \<in> set (wc_keys c) \<or> (\<exists>i < 4. k = wii_key (wc_ip c) i))
     \<and> dom (ws_routing st') \<subseteq> dom (ws_routing st) \<union> set (wc_keys c')"

lemma frame_frame_refl: "frame_frame c st c st"
  by (auto simp: frame_frame_def)

lemma frame_frame_trans:
  "frame_frame c st c1 st1 \<Longrightarrow> frame_frame c1 st1 c2 st2 \<Longrightarrow> frame_frame c st c2 st2"
  unfolding frame_frame_def by (auto 0 3)

lemma wii_parse_id: "wii_parse buf = Some (i, pkt) \<Longrightarrow> i < 4"
  by (auto simp: wii_parse_def Let_def not_le split: if_splits)

lemma wii_frame_frame:
  assumes "wii_frame buf out_open dev_open c st = ((c', st'), go)"
  shows "frame_frame c st c' st'"
proof (cases "wii_parse buf")
  case None
  with assms show ?thesis by (auto simp: wii_frame_def frame_frame_refl)
next
  case (Some r)
  then obtain i pkt where r: "wii_parse buf = Some (i, pkt)" by (cases r) auto
  have i: "i < 4" by (rule wii_parse_id [OF r])
  show ?thesis
  proof (cases "ws_routing st (wii_key (wc_ip c) i)")
    case None
    with assms r i show ?thesis
      by (auto simp: wii_frame_def frame_frame_def Let_def split: if_splits)
  next
    case (Some ch)
    with assms r show ?thesis
      by (auto simp: wii_frame_def frame_frame_def Let_def split: if_splits)
  qed
qed

lemma wii_frames_frame:
  "wii_frames fs out_open dev_open c st = ((c', st'), go) \<Longrightarrow> frame_frame c st c' st'"
proof (induction fs out_open dev_open c st rule: wii_frames.induct)
  case (2 f fs out_open dev_open c st)
  obtain c1 st1 g where f: "wii_frame f out_open (dev_open f) c st = ((c1, st1), g)"
    by (metis surj_pair)
  with 2 show ?case
    by (cases g) (auto intro: frame_frame_trans wii_frame_frame)
qed (simp add: frame_frame_refl)

lemma wii_round_frame:
  assumes "wii_round rd out_open dev_open writes c st = ((c', st'), go, resp)"
  shows "frame_frame c st c' st'"
proof (cases "\<exists>bs. rd = ReadBytes bs \<and> bs \<noteq> []")
  case False
  with assms show ?thesis by (cases rd) (auto simp: wii_round_def frame_frame_refl)
next
  case True
  then obtain bs where bs: "rd = ReadBytes bs" "bs \<noteq> []" by blast
  obtain frames left where t: "take_complete_packets (wc_left c @ bs) = (frames, left)" by fastforce
  obtain c1 st1 g where w: "wii_frames frames out_open dev_open (c\<lparr>wc_left := left\<rparr>) st = ((c1, st1), g)"
    by (metis surj_pair)
  from wii_frames_frame [OF w] have "frame_frame c st c1 st1"
    by (simp add: frame_frame_def)
  moreover have "c' = c1 \<and> st' = st1"
    using assms bs t w by (auto simp: wii_round_def split: if_splits)
  ultimately show ?thesis by simp
qed

lemma fold_remove_keys:
  "fold (\<lambda>k m. m(k := None)) ks m = (\<lambda>k. if k \<in> set ks then None else m k)"
  by (induction ks arbitrary: m) (auto simp: fun_eq_iff)

lemma wii_set_rumble_frame:
  "ws_routing (wii_set_rumble key x st) = ws_routing st"
  "dom (ws_rumble (wii_set_rumble key x st)) = dom (ws_rumble st)"
  by (auto simp: wii_set_rumble_def Let_def split: option.splits prod.splits)

lemma wii_inv_go:
  assumes inv: "wii_inv s" and n: "sy_conns s n = Some c"
    and f: "frame_frame c (sy_state s) c' st'"
  shows "wii_inv \<lparr>sy_conns = (sy_conns s)(n \<mapsto> c'), sy_state = st'\<rparr>"
proof -
  let ?s = "\<lparr>sy_conns = (sy_conns s)(n \<mapsto> c'), sy_state = st'\<rparr>"
  have keep: "\<exists>m d. sy_conns ?s m = Some d \<and> (k \<in> set (wc_keys d0) \<longrightarrow> k \<in> set (wc_keys d)) \<and> wc_ip d = wc_ip d0"
    if "sy_conns s m0 = Some d0" for m0 d0 k
    using that n f by (cases "m0 = n") (auto simp: frame_frame_def)
  have "\<exists>m d. sy_conns ?s m = Some d \<and> k \<in> set (wc_keys d)" if "k \<in> dom (ws_routing st')" for k
  proof (cases "k \<in> set (wc_keys c')")
    case False
    with that f have "k \<in> dom (ws_routing (sy_state s))" by (auto simp: frame_frame_def)
    with inv obtain m0 d0 where "sy_conns s m0 = Some d0" "k \<in> set (wc_keys d0)"
      unfolding wii_inv_def by blast
    with keep [OF this(1), of k] show ?thesis by blast
  qed auto
  moreover have "\<exists>m d. sy_conns ?s m = Some d \<and> wc_ip d = ip" if "ip \<in> dom (ws_rumble st')" for ip
  proof -
    from that f have "ip \<in> dom (ws_rumble (sy_state s))" by (simp add: frame_frame_def)
    with inv obtain m0 d0 where "sy_conns s m0 = Some d0" "wc_ip d0 = ip"
      unfolding wii_inv_def by blast
    with keep [OF this(1)] show ?thesis by blast
  qed
  moreover have "\<exists>i < 4. k = wii_key (wc_ip d) i"
    if "sy_conns ?s m = Some d" "k \<in> set (wc_keys d)" for m d k
  proof (cases "m = n")
    case True
    with that have "d = c'" by simp
    with that(2) f have "k \<in> set (wc_keys c) \<or> (\<exists>i < 4. k = wii_key (wc_ip c) i)" "wc_ip d = wc_ip c"
      by (auto simp: frame_frame_def)
    with inv n show ?thesis unfolding wii_inv_def by metis
  next
    case False
    with that inv show ?thesis unfolding wii_inv_def by simp
  qed
  ultimately show ?thesis unfolding wii_inv_def by auto
qed

lemma wii_inv_close:
  assumes inv: "wii_inv s" and n: "sy_conns s n = Some c"
    and f: "frame_frame c (sy_state s) c' st'"
  shows "wii_inv \<lparr>sy_conns = (sy_conns s)(n := None), sy_state = wii_close c' st'\<rparr>"
proof -
  let ?s = "\<lparr>sy_conns = (sy_conns s)(n := None), sy_state = wii_close c' st'\<rparr>"
  have "\<exists>m d. sy_conns ?s m = Some d \<and> k \<in> set (wc_keys d)" if "k \<in> dom (ws_routing (sy_state ?s))" for k
  proof -
    from that have k: "k \<in> dom (ws_routing st')" "k \<notin> set (wc_keys c')"
      by (auto simp: wii_close_def fold_remove_keys split: if_splits)
    with f have old: "k \<in> dom (ws_routing (sy_state s))" "k \<notin> set (wc_keys c)"
      by (auto simp: frame_frame_def)
    with inv obtain m0 d0 where d: "sy_conns s m0 = Some d0" "k \<in> set (wc_keys d0)"
      unfolding wii_inv_def by blast
    with old(2) n have "m0 \<noteq> n" by auto
    with d show ?thesis by auto
  qed
  moreover have "\<exists>m d. sy_conns ?s m = Some d \<and> wc_ip d = ip" if "ip \<in> dom (ws_rumble (sy_state ?s))" for ip
  proof -
    from that f have ip: "ip \<in> dom (ws_rumble (sy_state s))" "ip \<noteq> wc_ip c"
      by (auto simp: wii_close_def frame_frame_def split: if_splits)
    with inv obtain m0 d0 where d: "sy_conns s m0 = Some d0" "wc_ip d0 = ip"
      unfolding wii_inv_def by blast
    with ip(2) n have "m0 \<noteq> n" by auto
    with d show ?thesis by auto
  qed
  moreover have "\<exists>i < 4. k = wii_key (wc_ip d) i"
    if "sy_conns ?s m = Some d" "k \<in> set (wc_keys d)" for m d k
    using that inv unfolding wii_inv_def by (auto split: if_splits)
  ultimately show ?thesis unfolding wii_inv_def by auto
qed

lemma wii_inv_accept:
  assumes inv: "wii_inv s" and n: "sy_conns s n = None"
  shows "wii_inv (wii_step (WiiAccept n ip) s)"
proof -
  let ?s = "wii_step (WiiAccept n ip) s" and ?c = "\<lparr>wc_ip = ip, wc_left = [], wc_keys = []\<rparr>"
  have conns: "sy_conns ?s = (sy_conns s)(n \<mapsto> ?c)"
    and routing: "ws_routing (sy_state ?s) = ws_routing (sy_state s)"
    and rumble: "dom (ws_rumble (sy_state ?s)) = insert ip (dom (ws_rumble (sy_state s)))"
    using n by (auto simp: wii_accept_def split: option.splits)
  have old: "sy_conns ?s m = Some d" if "sy_conns s m = Some d" for m d
    using that n conns by auto
  have "\<exists>m d. sy_conns ?s m = Some d \<and> k \<in> set (wc_keys d)" if "k \<in> dom (ws_routing (sy_state ?s))" for k
  proof -
    from that have "k \<in> dom (ws_routing (sy_state s))" unfolding routing .
    with inv obtain m d where "sy_conns s m = Some d" "k \<in> set (wc_keys d)"
      unfolding wii_inv_def by blast
    with old show ?thesis by blast
  qed
  moreover have "\<exists>m d. sy_conns ?s m = Some d \<and> wc_ip d = jp" if "jp \<in> dom (ws_rumble (sy_state ?s))" for jp
  proof (cases "jp = ip")
    case True
    have "sy_conns ?s n = Some ?c" unfolding conns by simp
    with True show ?thesis by (intro exI [of _ n] exI [of _ ?c] conjI) simp_all
  next
    case False
    with that have "jp \<in> dom (ws_rumble (sy_state s))" unfolding rumble by blast
    with inv obtain m d where "sy_conns s m = Some d" "wc_ip d = jp"
      unfolding wii_inv_def by blast
    with old show ?thesis by blast
  qed
  moreover have "\<exists>i < 4. k = wii_key (wc_ip d) i"
    if "sy_conns ?s m = Some d" "k \<in> set (wc_keys d)" for m d k
    using that inv unfolding wii_inv_def conns by (auto split: if_splits)
  ultimately show ?thesis unfolding wii_inv_def by blast
qed

lemma wii_inv_step: "wii_inv s \<Longrightarrow> wii_inv (wii_step ev s)"
proof (cases ev)
  case (WiiAccept n ip)
  then show "wii_inv s \<Longrightarrow> ?thesis"
    using wii_inv_accept [of s n ip] by (cases "sy_conns s n") simp_all
next
  case (WiiRound n rd out_open dev_open writes)
  show "wii_inv s \<Longrightarrow> ?thesis"
  proof (cases "sy_conns s n")
    case (Some c)
    obtain c' st' go resp where r: "wii_round rd out_open dev_open writes c (sy_state s) = ((c', st'), go, resp)"
      by (metis surj_pair)
    assume "wii_inv s"
    with WiiRound Some r wii_inv_go [OF _ Some wii_round_frame [OF r]]
      wii_inv_close [OF _ Some wii_round_frame [OF r]] show ?thesis
      by (cases go) simp_all
  qed (simp add: WiiRound)
next
  case (WiiRumble key x)
  then show "wii_inv s \<Longrightarrow> ?thesis"
    by (simp add: wii_inv_def wii_set_rumble_frame)
qed

lemma wii_inv_run: "wii_inv (fold wii_step evs wii_sys_new)"
proof (induction evs rule: rev_induct)
  case Nil
  show ?case by (simp add: wii_inv_def wii_sys_new_def wii_new_def)
next
  case (snoc ev evs)
  then show ?case by (simp add: wii_inv_step)
qed

subsection \<open>Rumble after a stale connection\<close>

definition no_slots :: "text_string \<Rightarrow> wii_sys \<Rightarrow> bool" where
  "no_slots ip s \<longleftrightarrow> ws_rumble (sy_state s) ip = None"

lemma no_slots_step:
  assumes "no_slots ip s" "\<forall>n. ev \<noteq> WiiAccept n ip"
  shows "no_slots ip (wii_step ev s)"
proof (cases ev)
  case (WiiAccept n ip')
  with assms show ?thesis
    by (auto simp: no_slots_def wii_accept_def split: option.splits)
next
  case (WiiRound n rd out_open dev_open writes)
  show ?thesis
  proof (cases "sy_conns s n")
    case (Some c)
    obtain c' st' go resp where r: "wii_round rd out_open dev_open writes c (sy_state s) = ((c', st'), go, resp)"
      by (metis surj_pair)
    have "ws_rumble st' = ws_rumble (sy_state s)"
      using wii_round_frame [OF r] by (simp add: frame_frame_def)
    with WiiRound Some r assms(1) show ?thesis
      by (cases go) (simp_all add: no_slots_def wii_close_def)
  qed (use assms WiiRound in simp)
next
  case (WiiRumble key x)
  with assms(1) wii_set_rumble_frame(2) [of key x "sy_state s"] show ?thesis
    by (auto simp: no_slots_def)
qed

lemma no_slots_run:
  "no_slots ip s \<Longrightarrow> \<forall>n. WiiAccept n ip \<notin> set evs \<Longrightarrow> no_slots ip (fold wii_step evs s)"
proof (induction evs arbitrary: s)
  case (Cons ev evs)
  then have "no_slots ip (wii_step ev s)" by (intro no_slots_step) auto
  with Cons show ?case by simp
qed simp

subsection \<open>Properties\<close>


text \<open>
  Property C13. Nothing leaks when Wii consoles come and go: whatever happened, a route
  belongs to a connection that is still open and names one of its four remotes, and a
  console has rumble slots only while it is connected; with no connection open, no route and no
  slots are left.
\<close>

theorem wii_routes_belong_to_connections:
  "let s = fold wii_step evs wii_sys_new in
     dom (ws_routing (sy_state s)) \<subseteq> (\<Union>c \<in> ran (sy_conns s). wii_key (wc_ip c) ` {0, 1, 2, 3})
     \<and> dom (ws_rumble (sy_state s)) \<subseteq> wc_ip ` ran (sy_conns s)"
proof -
  let ?s = "fold wii_step evs wii_sys_new"
  have four: "i < 4 \<Longrightarrow> i \<in> {0, 1, 2, 3}" for i :: u8
    by (simp add: word_less_nat_alt word_unat_eq_iff) linarith
  have inv: "wii_inv ?s" by (rule wii_inv_run)
  have "k \<in> (\<Union>c \<in> ran (sy_conns ?s). wii_key (wc_ip c) ` {0, 1, 2, 3})"
    if "k \<in> dom (ws_routing (sy_state ?s))" for k
  proof -
    from that inv obtain n c where c: "sy_conns ?s n = Some c" "k \<in> set (wc_keys c)"
      unfolding wii_inv_def by blast
    with inv obtain i where "i < 4" "k = wii_key (wc_ip c) i"
      unfolding wii_inv_def by blast
    with four c(1) show ?thesis by (blast intro: ranI)
  qed
  moreover have "ip \<in> wc_ip ` ran (sy_conns ?s)" if "ip \<in> dom (ws_rumble (sy_state ?s))" for ip
  proof -
    from that inv obtain n c where "sy_conns ?s n = Some c" "wc_ip c = ip"
      unfolding wii_inv_def by blast
    then show ?thesis by (blast intro: ranI)
  qed
  ultimately show ?thesis unfolding Let_def by blast
qed

text \<open>
  A Wii that reconnects before its old connection has timed out loses rumble: when
  the old handler ends it removes the slots of the console, which the new connection shares,
  and until the console connects again no command brings them back; every response says
  that no remote rumbles.
\<close>

theorem wii_reconnect_loses_rumble:
  assumes "sy_conns s n = Some c" "wc_ip c = ip" "\<forall>m. WiiAccept m ip \<notin> set evs"
  shows "wii_response ip (sy_state (fold wii_step (WiiRound n ReadEof o_open d_open w # evs) s)) = [0, 0, 0, 0, 10]"
proof -
  have "no_slots ip (wii_step (WiiRound n ReadEof o_open d_open w) s)"
    using assms(1,2) by (simp add: no_slots_def wii_round_def wii_close_def)
  with assms(3) have "no_slots ip (fold wii_step (WiiRound n ReadEof o_open d_open w # evs) s)"
    by (simp add: no_slots_run)
  then show ?thesis
    by (simp add: no_slots_def wii_response_def DEFAULT_POLLING_RATE_MS_def)
qed

definition example_wii_sys :: wii_sys where
  "example_wii_sys = fold wii_step [WiiAccept 0 ''10.0.0.9'', WiiAccept 1 ''10.0.0.9''] wii_sys_new"

theorem wii_reconnect_loses_rumble_witness:
  "sy_conns example_wii_sys 1 \<noteq> None
    \<and> (\<forall>d. wii_response ''10.0.0.9'' (sy_state (fold wii_step
        [WiiRound 0 ReadEof True d True, WiiRumble ''10.0.0.9:0'' 1] example_wii_sys)) = [0, 0, 0, 0, 10])"
proof -
  have s: "sy_conns example_wii_sys 1 \<noteq> None"
    "sy_conns example_wii_sys 0 = Some \<lparr>wc_ip = ''10.0.0.9'', wc_left = [], wc_keys = []\<rparr>"
    by (simp_all add: example_wii_sys_def wii_sys_new_def wii_accept_def)
  with wii_reconnect_loses_rumble [OF s(2), of "''10.0.0.9''" "[WiiRumble ''10.0.0.9:0'' 1]"]
  show ?thesis by simp
qed

end
