(* ===== verification/Tesla.thy ===== *)
theory Tesla
  imports App_State Hid_Common
begin

section \<open>Tesla bridge\<close>

text \<open>
  \<^verbatim>\<open>crates/device-tesla\<close>: configuration, the token flow, the frames of the streaming socket,
  the samples synthesised from heading and speed, the device and its reconnect loop. Answers
  of the network are inputs, and \<^verbatim>\<open>serde_json\<close>'s decoding of a text is a parameter.
  A computation that may not end returns an option, with \<^term>\<open>None\<close> for not ending.
\<close>

subsection \<open>Configuration\<close>

datatype region = NorthAmerica | Europe | China

fun api_host :: "region \<Rightarrow> text_string" where
  "api_host NorthAmerica = ''https://fleet-api.prd.na.vn.cloud.tesla.com''"
| "api_host Europe = ''https://fleet-api.prd.eu.vn.cloud.tesla.com''"
| "api_host China = ''https://fleet-api.prd.cn.vn.cloud.tesla.cn''"

record live_config =
  lc_refresh_token :: text_string
  lc_client_id :: text_string
  lc_vehicle_id :: u64
  lc_vin_tail :: mac
  lc_region :: region
  lc_idle_timeout :: duration

record synthetic_config =
  sc_rate_hz :: u16
  sc_mac :: mac

definition synthetic_default :: synthetic_config where
  "synthetic_default = \<lparr>sc_rate_hz = 10, sc_mac = as_bytes ''TESLA1''\<rparr>"

datatype tesla_config = Live live_config | Synthetic synthetic_config

text \<open>The environment is a partial function from names to texts.\<close>

definition parse_u64 :: "text_string \<Rightarrow> u64 option" where
  "parse_u64 s = map_option of_nat (from_str_radix (2 ^ 64 - 1) 10 s)"

definition tesla_from_env :: "(text_string \<Rightarrow> text_string option) \<Rightarrow> tesla_config option" where
  "tesla_from_env env =
     (case env ''TESLA_REFRESH_TOKEN'' of None \<Rightarrow> None | Some token \<Rightarrow>
      case env ''TESLA_CLIENT_ID'' of None \<Rightarrow> None | Some client \<Rightarrow>
      case Option.bind (env ''TESLA_VEHICLE_ID'') parse_u64 of None \<Rightarrow> None | Some vehicle \<Rightarrow>
        Some (Live
          \<lparr>lc_refresh_token = token, lc_client_id = client, lc_vehicle_id = vehicle,
           lc_vin_tail = drop 2 (to_be vehicle),
           lc_region = (if env ''TESLA_REGION'' = Some ''eu'' then Europe
             else if env ''TESLA_REGION'' = Some ''cn'' then China else NorthAmerica),
           lc_idle_timeout = from_secs 60\<rparr>))"

subsection \<open>Tokens\<close>

datatype auth_error = AuthHttp text_string | AuthStatus u16 text_string | MissingField text_string

record token_bundle =
  tb_access :: text_string
  tb_refresh :: text_string
  tb_expires_at :: instant

definition needs_refresh :: "instant \<Rightarrow> token_bundle \<Rightarrow> bool" where
  "needs_refresh now b \<longleftrightarrow> tb_expires_at b \<le> now"

record token_response =
  tr_access :: "text_string option"
  tr_refresh :: "text_string option"
  tr_expires_in :: "u64 option"
  tr_error :: "text_string option"
  tr_description :: "text_string option"

text \<open>What comes back from the token endpoint, and \<open>decode\<close> of a body.\<close>

datatype http_answer = HttpFailed text_string | HttpBody u16 text_string

definition is_success :: "u16 \<Rightarrow> bool" where
  "is_success st \<longleftrightarrow> 200 \<le> st \<and> st < 300"

definition u64_saturating_mul :: "u64 \<Rightarrow> nat \<Rightarrow> nat" where
  "u64_saturating_mul a k = min (unat a * k) (2 ^ 64 - 1)"

definition token_from_answer ::
  "(text_string \<Rightarrow> text_string + token_response) \<Rightarrow> instant \<Rightarrow> http_answer \<Rightarrow> auth_error + token_bundle" where
  "token_from_answer decode now ans =
     (case ans of
        HttpFailed e \<Rightarrow> Inl (AuthHttp e)
      | HttpBody st body \<Rightarrow>
          if \<not> is_success st then Inl (AuthStatus st body)
          else
            case decode body of
              Inl e \<Rightarrow> Inl (AuthHttp (''json decode: '' @ e))
            | Inr r \<Rightarrow>
                case tr_error r of
                  Some err \<Rightarrow> Inl (AuthStatus 400
                    (err @ '': '' @ (case tr_description r of Some d \<Rightarrow> d | None \<Rightarrow> [])))
                | None \<Rightarrow>
                    case tr_access r of None \<Rightarrow> Inl (MissingField ''access_token'') | Some access \<Rightarrow>
                    case tr_refresh r of None \<Rightarrow> Inl (MissingField ''refresh_token'') | Some rt \<Rightarrow>
                    case tr_expires_in r of None \<Rightarrow> Inl (MissingField ''expires_in'') | Some secs \<Rightarrow>
                      Inr \<lparr>tb_access = access, tb_refresh = rt,
                           tb_expires_at = now + from_secs (u64_saturating_mul secs 4 div 5)\<rparr>)"

subsection \<open>Frames of the stream\<close>

datatype api_error = Malformed text_string

record stream_frame =
  sf_timestamp_ms :: u64
  sf_speed_mph :: "f32 option"
  sf_heading_deg :: "f32 option"
  sf_power_kw :: "f32 option"
  sf_shift_state :: "text_string option"
  sf_est_lat :: "f64 option"
  sf_est_lng :: "f64 option"
  sf_est_heading_deg :: "f32 option"

text \<open>A column that is missing, empty or no number is none.\<close>

definition column :: "(text_string \<Rightarrow> 'a option) \<Rightarrow> text_string list \<Rightarrow> nat \<Rightarrow> 'a option" where
  "column f cols k = (if k < length cols then if cols ! k = [] then None else f (cols ! k) else None)"

definition decode_stream_value :: "text_string \<Rightarrow> api_error + stream_frame" where
  "decode_stream_value value =
     (let cols = split_on (\<lambda>c. c = CHR '','') value in
      case parse_u64 (cols ! 0) of
        None \<Rightarrow> Inl (Malformed ''stream timestamp parse'')
      | Some ts \<Rightarrow> Inr
          \<lparr>sf_timestamp_ms = ts, sf_speed_mph = column parse_f32 cols 1,
           sf_heading_deg = column parse_f32 cols 2, sf_power_kw = column parse_f32 cols 3,
           sf_shift_state = column Some cols 4, sf_est_lat = column parse_f64 cols 5,
           sf_est_lng = column parse_f64 cols 6, sf_est_heading_deg = column parse_f32 cols 7\<rparr>)"

record stream_envelope =
  se_msg_type :: text_string
  se_value :: "text_string option"
  se_error_type :: "text_string option"

subsection \<open>Synthesised samples\<close>

definition MPH_TO_MPS :: f32 where
  "MPH_TO_MPS = f32_lit 44704 100000"

record imu_synth =
  sy_heading_deg :: "f32 option"
  sy_speed_mps :: "f32 option"
  sy_timestamp_us :: "u64 option"

definition synth_new :: imu_synth where
  "synth_new = \<lparr>sy_heading_deg = None, sy_speed_mps = None, sy_timestamp_us = None\<rparr>"

definition deg180 :: f32 where
  "deg180 = f32_of_int 180"

definition deg360 :: f32 where
  "deg360 = f32_of_int 360"

text \<open>The two loops of \<^verbatim>\<open>unwrapped_delta_deg\<close>, which may not end.\<close>

partial_function (option) unwrap_down :: "f32 \<Rightarrow> f32 option" where
  "unwrap_down d = (if deg180 < d then unwrap_down (d - deg360) else Some d)"

partial_function (option) unwrap_up :: "f32 \<Rightarrow> f32 option" where
  "unwrap_up d = (if d \<le> - deg180 then unwrap_up (d + deg360) else Some d)"

definition unwrapped_delta_deg :: "f32 \<Rightarrow> f32 \<Rightarrow> f32 option" where
  "unwrapped_delta_deg a b = Option.bind (unwrap_down (b - a)) unwrap_up"

definition synth_ingest ::
  "u64 \<Rightarrow> f32 option \<Rightarrow> f32 option \<Rightarrow> imu_synth \<Rightarrow> (imu_synth \<times> imu_sample option) option" where
  "synth_ingest timestamp heading_deg speed_mph s =
     (case heading_deg of None \<Rightarrow> Some (s, None) | Some heading \<Rightarrow>
      case speed_mph of None \<Rightarrow> Some (s, None) | Some mph \<Rightarrow>
        let speed = mph * MPH_TO_MPS;
            s' = \<lparr>sy_heading_deg = Some heading, sy_speed_mps = Some speed, sy_timestamp_us = Some timestamp\<rparr>
        in case (sy_timestamp_us s, sy_heading_deg s, sy_speed_mps s) of
             (Some prev_ts, Some prev_heading, Some prev_speed) \<Rightarrow>
               let dt = f32_of_int (int (unat (saturating_sub timestamp prev_ts))) / f32_lit 1000000 1
               in if \<not> (f32_is_finite dt \<and> f32_lit 1 1000 < dt) then Some (s', None)
                  else
                    (case unwrapped_delta_deg prev_heading heading of
                       None \<Rightarrow> None
                     | Some delta \<Rightarrow>
                         let yaw = delta * deg_to_rad / dt
                         in Some (s', Some \<lparr>gyro = (0, 0, yaw),
                              accel = ((speed - prev_speed) / dt, speed * yaw, GRAVITY),
                              mag = None, timestamp_us = timestamp\<rparr>))
           | _ \<Rightarrow> Some (s', None))"

subsection \<open>Messages of the stream\<close>

datatype frame_action = Emit imu_sample | Disconnect

definition handle_text_frame ::
  "(text_string \<Rightarrow> stream_envelope option) \<Rightarrow> text_string \<Rightarrow> imu_synth
    \<Rightarrow> (imu_synth \<times> frame_action option) option" where
  "handle_text_frame decode txt s =
     (case decode txt of
        None \<Rightarrow> Some (s, None)
      | Some env \<Rightarrow>
          if se_msg_type env = ''data:update'' then
            (case se_value env of
               None \<Rightarrow> Some (s, None)
             | Some value \<Rightarrow>
                 case decode_stream_value value of
                   Inl _ \<Rightarrow> Some (s, None)
                 | Inr f \<Rightarrow>
                     map_option (\<lambda>(s', r). (s', map_option Emit r))
                       (synth_ingest (of_nat (u64_saturating_mul (sf_timestamp_ms f) 1000))
                          (sf_heading_deg f) (sf_speed_mph f) s))
          else if se_msg_type env = ''data:error'' then Some (synth_new, Some Disconnect)
          else Some (s, None))"

datatype ws_message = WsText text_string | WsBinary | WsPing | WsPong | WsClose | WsFrame

definition handle_ws_message ::
  "(text_string \<Rightarrow> stream_envelope option) \<Rightarrow> ws_message \<Rightarrow> imu_synth
    \<Rightarrow> (imu_synth \<times> frame_action option) option" where
  "handle_ws_message decode msg s =
     (case msg of
        WsText txt \<Rightarrow> handle_text_frame decode txt s
      | WsClose \<Rightarrow> Some (s, Some Disconnect)
      | _ \<Rightarrow> Some (s, None))"

subsection \<open>The device\<close>

record tesla_device =
  td_meta :: device_metadata
  td_config :: tesla_config
  td_stop :: bool
  td_runner :: bool

definition full_mac :: "mac \<Rightarrow> mac" where
  "full_mac tail = tail"

definition tesla_new :: "tesla_config \<Rightarrow> tesla_device" where
  "tesla_new config =
     \<lparr>td_meta =
        \<lparr>md_id = (case config of
             Live lc \<Rightarrow> \<lparr>id_mac = full_mac (lc_vin_tail lc), id_serial = ''tesla-'' @ dec_digits (unat (lc_vehicle_id lc))\<rparr>
           | Synthetic sc \<Rightarrow> \<lparr>id_mac = sc_mac sc, id_serial = ''tesla-synth''\<rparr>),
         md_kind = Tesla, md_firmware = None,
         md_caps = \<lparr>has_magnetometer = False, has_battery = False, has_rumble = False, native_rate_hz = 10\<rparr>\<rparr>,
      td_config = config, td_stop = False, td_runner = False\<rparr>"

definition tesla_start :: "tesla_device \<Rightarrow> device_error + unit \<times> tesla_device" where
  "tesla_start d =
     (if td_runner d then Inl (Hid ''tesla device already started'')
      else Inr ((), d\<lparr>td_runner := True\<rparr>))"

definition tesla_stop :: "tesla_device \<Rightarrow> tesla_device" where
  "tesla_stop d = d\<lparr>td_stop := True, td_runner := False\<rparr>"

text \<open>
  \<^verbatim>\<open>TeslaFactory\<close>: one device, offered once; whether the supervisor takes it or not, nothing
  more is sent.
\<close>

definition tesla_enumerate :: "tesla_config \<Rightarrow> bool \<Rightarrow> tesla_device list" where
  "tesla_enumerate config takes = (if takes then [tesla_new config] else [])"

subsection \<open>The stop signal\<close>

text \<open>
  What a wait on the watch channel meets: a change to the value, or the sender is gone, which
  ends the wait at once and leaves the value as it is.
\<close>

datatype wait_event = WaitSlept | WaitChanged bool | WaitGone

fun wait_or_stop :: "wait_event \<Rightarrow> bool \<Rightarrow> bool \<times> bool" where
  "wait_or_stop WaitSlept flag = (False, flag)"
| "wait_or_stop (WaitChanged v) flag = (v, v)"
| "wait_or_stop WaitGone flag = (flag, flag)"

subsection \<open>One connection\<close>

text \<open>A message comes with whether the receiver of the samples still takes one.\<close>

datatype stream_event =
    StMessage ws_message bool
  | StReadError text_string
  | StEnd
  | StIdle
  | StChanged wait_event

datatype stream_result = StreamOk | StreamFailed text_string | StreamStuck | StreamOpen

fun stream_loop ::
  "(text_string \<Rightarrow> stream_envelope option) \<Rightarrow> imu_synth \<Rightarrow> bool \<Rightarrow> stream_event list
    \<Rightarrow> imu_sample list \<times> bool \<times> stream_result" where
  "stream_loop decode s flag [] = ([], flag, StreamOpen)"
| "stream_loop decode s flag (StReadError e # evs) = ([], flag, StreamFailed (''ws read: '' @ e))"
| "stream_loop decode s flag (StEnd # evs) = ([], flag, StreamOk)"
| "stream_loop decode s flag (StIdle # evs) = ([], flag, StreamFailed ''idle timeout'')"
| "stream_loop decode s flag (StChanged w # evs) =
     (case wait_or_stop w flag of
        (True, flag') \<Rightarrow> ([], flag', StreamOk)
      | (False, flag') \<Rightarrow> stream_loop decode s flag' evs)"
| "stream_loop decode s flag (StMessage msg takes # evs) =
     (case handle_ws_message decode msg s of
        None \<Rightarrow> ([], flag, StreamStuck)
      | Some (s', None) \<Rightarrow> stream_loop decode s' flag evs
      | Some (s', Some Disconnect) \<Rightarrow> ([], flag, StreamOk)
      | Some (s', Some (Emit x)) \<Rightarrow>
          if takes then
            (case stream_loop decode s' flag evs of (xs, r) \<Rightarrow> (x # xs, r))
          else ([], flag, StreamOk))"

text \<open>Connecting and subscribing fail or succeed; the synthesiser starts afresh each time.\<close>

definition stream_once ::
  "(text_string \<Rightarrow> stream_envelope option) \<Rightarrow> text_string option \<Rightarrow> bool \<Rightarrow> stream_event list
    \<Rightarrow> imu_sample list \<times> bool \<times> stream_result" where
  "stream_once decode connect_error flag evs =
     (case connect_error of
        Some e \<Rightarrow> ([], flag, StreamFailed e)
      | None \<Rightarrow> stream_loop decode synth_new flag evs)"

subsection \<open>The reconnect loop\<close>

definition MAX_BACKOFF :: duration where
  "MAX_BACKOFF = from_secs 60"

text \<open>What the runner does, in order.\<close>

datatype live_act =
    ActEmit channel_info
  | ActRefresh text_string "auth_error + token_bundle"
  | ActConnect text_string
  | ActWait duration wait_event

definition ensure_token ::
  "(text_string \<Rightarrow> text_string + token_response) \<Rightarrow> live_config \<Rightarrow> instant \<Rightarrow> instant \<Rightarrow> http_answer
    \<Rightarrow> token_bundle option \<Rightarrow> live_act list \<times> (auth_error + text_string) \<times> token_bundle option" where
  "ensure_token decode config now answered ans state =
     (if \<exists>b. state = Some b \<and> \<not> needs_refresh now b then ([], Inr (tb_access (the state)), state)
      else
        let current = (case state of Some b \<Rightarrow> tb_refresh b | None \<Rightarrow> lc_refresh_token config);
            res = token_from_answer decode answered ans
        in ([ActRefresh current res],
            (case res of Inl e \<Rightarrow> (Inl e, state) | Inr b \<Rightarrow> (Inr (tb_access b), Some b))))"

text \<open>What one round of the loop meets, and what the loop keeps.\<close>

record live_round =
  lr_now :: instant
  lr_answered :: instant
  lr_answer :: http_answer
  lr_connect_error :: "text_string option"
  lr_stream :: "stream_event list"
  lr_wait :: wait_event

record live_state =
  lv_token :: "token_bundle option"
  lv_backoff :: duration
  lv_stopped :: bool

definition live_new :: live_state where
  "live_new = \<lparr>lv_token = None, lv_backoff = from_secs 1, lv_stopped = False\<rparr>"

definition double_backoff :: "duration \<Rightarrow> duration" where
  "double_backoff d = min (d * 2) MAX_BACKOFF"

text \<open>A wait of the loop: it goes on with the new backoff, or the runner says goodbye.\<close>

definition live_wait ::
  "duration \<Rightarrow> duration \<Rightarrow> wait_event \<Rightarrow> live_state \<Rightarrow> live_act list \<times> live_state option" where
  "live_wait dur next w st =
     (case wait_or_stop w (lv_stopped st) of
        (True, f) \<Rightarrow> ([ActWait dur w, ActEmit Disconnected], None)
      | (False, f) \<Rightarrow> ([ActWait dur w], Some (st\<lparr>lv_backoff := next, lv_stopped := f\<rparr>)))"

text \<open>One round; no next state means that the runner has returned, or is stuck.\<close>

definition live_step ::
  "(text_string \<Rightarrow> text_string + token_response) \<Rightarrow> (text_string \<Rightarrow> stream_envelope option) \<Rightarrow> live_config
    \<Rightarrow> live_round \<Rightarrow> live_state \<Rightarrow> live_act list \<times> live_state option" where
  "live_step tdecode decode config r st =
     (if lv_stopped st then ([ActEmit Disconnected], None)
      else
        case ensure_token tdecode config (lr_now r) (lr_answered r) (lr_answer r) (lv_token st) of
          (acts, Inl e, tok) \<Rightarrow>
            (case live_wait (lv_backoff st) (double_backoff (lv_backoff st)) (lr_wait r) (st\<lparr>lv_token := tok\<rparr>) of
               (acts2, st') \<Rightarrow> (acts @ acts2, st'))
        | (acts, Inr access, tok) \<Rightarrow>
            (case stream_once decode (lr_connect_error r) (lv_stopped st) (lr_stream r) of
               (xs, flag, res) \<Rightarrow>
                 let st1 = st\<lparr>lv_token := tok, lv_stopped := flag\<rparr>;
                     out = acts @ ActConnect access # map (\<lambda>x. ActEmit (ImuSamples [x])) xs
                 in (case res of
                       StreamOk \<Rightarrow>
                         (case live_wait (from_secs 5) (from_secs 1) (lr_wait r) st1 of
                            (acts2, st') \<Rightarrow> (out @ acts2, st'))
                     | StreamFailed e \<Rightarrow>
                         (case live_wait (lv_backoff st) (double_backoff (lv_backoff st)) (lr_wait r) st1 of
                            (acts2, st') \<Rightarrow> (out @ acts2, st'))
                     | StreamStuck \<Rightarrow> (out, None)
                     | StreamOpen \<Rightarrow> (out, None))))"

fun live_rounds ::
  "(text_string \<Rightarrow> text_string + token_response) \<Rightarrow> (text_string \<Rightarrow> stream_envelope option) \<Rightarrow> live_config
    \<Rightarrow> live_state \<Rightarrow> live_round list \<Rightarrow> live_act list" where
  "live_rounds tdecode decode config st [] = []"
| "live_rounds tdecode decode config st (r # rs) =
     (case live_step tdecode decode config r st of
        (acts, None) \<Rightarrow> acts
      | (acts, Some st') \<Rightarrow> acts @ live_rounds tdecode decode config st' rs)"

definition run_live ::
  "(text_string \<Rightarrow> text_string + token_response) \<Rightarrow> (text_string \<Rightarrow> stream_envelope option) \<Rightarrow> live_config
    \<Rightarrow> device_id \<Rightarrow> live_round list \<Rightarrow> live_act list" where
  "run_live tdecode decode config i rs =
     ActEmit (Connected i) # live_rounds tdecode decode config live_new rs"

subsection \<open>The synthetic drive\<close>

text \<open>The cosine and the arc tangent in single precision are parameters.\<close>

fun fp_rem :: "fp \<Rightarrow> fp \<Rightarrow> fp" where
  "fp_rem (FFin s k) (FFin t l) = (if l = 0 then FNaN else FFin s (k mod l))"
| "fp_rem (FFin s k) (FInf t) = FFin s k"
| "fp_rem _ _ = FNaN"

definition f32_rem :: "f32 \<Rightarrow> f32 \<Rightarrow> f32" where
  "f32_rem a b = f32_of (fp_rem (f32_val a) (f32_val b))"

definition f32_to_degrees :: "f32 \<Rightarrow> f32" where
  "f32_to_degrees x = x * f32_lit 572957795130823208767981548141051703 (10 ^ 34)"

definition f32_tau :: f32 where
  "f32_tau = f32_lit 628318530717958647692528676655900577 (10 ^ 35)"

definition procedural_frame :: "(f32 \<Rightarrow> f32) \<Rightarrow> (f32 \<Rightarrow> f32 \<Rightarrow> f32) \<Rightarrow> u64 \<Rightarrow> stream_frame" where
  "procedural_frame cosf atan2f t =
     (let t_s = f32_of_int (int (unat t)) / f32_lit 1000000 1;
          loop_s = f32_lit 60 1;
          theta = f32_rem t_s loop_s / loop_s * f32_tau;
          dx = cosf theta;
          dy = cosf (f32_lit 2 1 * theta) * f32_lit 5 10;
          heading = f32_rem (f32_to_degrees (atan2f dy dx) + f32_lit 360 1) (f32_lit 360 1)
      in \<lparr>sf_timestamp_ms = t div 1000, sf_speed_mph = Some (f32_lit 30 1), sf_heading_deg = Some heading,
          sf_power_kw = Some (f32_lit 10 1), sf_shift_state = Some ''D'', sf_est_lat = None,
          sf_est_lng = None, sf_est_heading_deg = Some heading\<rparr>)"

definition synth_period :: "u16 \<Rightarrow> nat" where
  "synth_period rate_hz = 1000000 div max (unat rate_hz) 1"

text \<open>One tick of the loop.\<close>

definition synthetic_tick ::
  "(f32 \<Rightarrow> f32) \<Rightarrow> (f32 \<Rightarrow> f32 \<Rightarrow> f32) \<Rightarrow> u16 \<Rightarrow> u64 \<times> imu_synth \<Rightarrow> ((u64 \<times> imu_synth) \<times> imu_sample option) option" where
  "synthetic_tick cosf atan2f rate_hz ts =
     (case ts of (t, s) \<Rightarrow>
        let f = procedural_frame cosf atan2f t in
        map_option (\<lambda>(s', r). ((t + of_nat (synth_period rate_hz), s'), r))
          (synth_ingest (of_nat (u64_saturating_mul (sf_timestamp_ms f) 1000)) (sf_heading_deg f)
            (sf_speed_mph f) s))"

text \<open>What each round meets: a tick, with whether the receiver takes a sample, or the stop channel.\<close>

datatype synth_event = SynTick bool | SynChanged wait_event

fun run_synthetic_loop ::
  "(f32 \<Rightarrow> f32) \<Rightarrow> (f32 \<Rightarrow> f32 \<Rightarrow> f32) \<Rightarrow> u16 \<Rightarrow> u64 \<times> imu_synth \<Rightarrow> bool \<Rightarrow> synth_event list \<Rightarrow> channel_info list" where
  "run_synthetic_loop cosf atan2f rate_hz ts flag [] = []"
| "run_synthetic_loop cosf atan2f rate_hz ts flag (SynTick takes # evs) =
     (case synthetic_tick cosf atan2f rate_hz ts of
        None \<Rightarrow> []
      | Some (ts', None) \<Rightarrow> run_synthetic_loop cosf atan2f rate_hz ts' flag evs
      | Some (ts', Some x) \<Rightarrow>
          if takes then ImuSamples [x] # run_synthetic_loop cosf atan2f rate_hz ts' flag evs else [])"
| "run_synthetic_loop cosf atan2f rate_hz ts flag (SynChanged w # evs) =
     (case wait_or_stop w flag of
        (True, _) \<Rightarrow> [Disconnected]
      | (False, flag') \<Rightarrow> run_synthetic_loop cosf atan2f rate_hz ts flag' evs)"

definition run_synthetic ::
  "(f32 \<Rightarrow> f32) \<Rightarrow> (f32 \<Rightarrow> f32 \<Rightarrow> f32) \<Rightarrow> synthetic_config \<Rightarrow> device_id \<Rightarrow> synth_event list \<Rightarrow> channel_info list" where
  "run_synthetic cosf atan2f config i evs =
     Connected i # run_synthetic_loop cosf atan2f (sc_rate_hz config) (0, synth_new) False evs"

end
