(* ===== verification/Tesla_Props.thy ===== *)
theory Tesla_Props
  imports Tesla
begin

section \<open>Properties of the Tesla bridge\<close>

text \<open>
  When the loops that unwrap a heading end and when they do not, the reconnect delays, the
  tokens a connection uses, and the synthetic drive.
\<close>

subsection \<open>Exact and decreasing differences\<close>

lemma repr_normal:
  assumes "repr 23 k" "k < 2 ^ (24 + E)"
  shows "\<exists>m e. k = m * 2 ^ e \<and> m < 2 ^ 24 \<and> e \<le> E"
proof -
  obtain m e where k: "k = m * 2 ^ e" "m < 2 ^ 24"
    using assms(1) by (auto simp: repr_def)
  show ?thesis
  proof (cases "e \<le> E")
    case False
    then have e: "(2::nat) ^ e = 2 ^ (e - E) * 2 ^ E"
      by (simp flip: power_add)
    have "m * 2 ^ (e - E) * 2 ^ E < 2 ^ 24 * 2 ^ E"
      using assms(2) k(1) e by (simp add: power_add mult.assoc)
    then have "m * 2 ^ (e - E) < 2 ^ 24" by simp
    with k(1) e show ?thesis by (intro exI [of _ "m * 2 ^ (e - E)"] exI [of _ E]) simp
  qed (use k in blast)
qed

lemma repr_difference:
  assumes "repr 23 k" "k < 2 ^ (24 + E)" "c = j * 2 ^ E" "c \<le> 2 * k"
  shows "repr 23 (nat \<bar>int k - int c\<bar>)"
proof -
  obtain m e where k: "k = m * 2 ^ e" "m < 2 ^ 24" "e \<le> E"
    using repr_normal [OF assms(1,2)] by blast
  define i where "i = j * 2 ^ (E - e)"
  have c: "c = i * 2 ^ e"
    using k(3) assms(3) by (simp add: i_def flip: power_add)
  have "i * 2 ^ e \<le> (2 * m) * 2 ^ e" using assms(4) c k(1) by simp
  then have "i \<le> 2 * m" by simp
  then have m: "nat \<bar>int m - int i\<bar> < 2 ^ 24" using k(2) by (simp add: nat_less_iff)
  have "int k - int c = (int m - int i) * int (2 ^ e)"
    using k(1) c by (simp add: left_diff_distrib)
  then have "nat \<bar>int k - int c\<bar> = nat \<bar>int m - int i\<bar> * 2 ^ e"
    by (simp add: abs_mult nat_mult_distrib nat_power_eq)
  with m show ?thesis unfolding repr_def by auto
qed

abbreviation u32f :: nat where
  "u32f \<equiv> funit fmt32"

lemma u32f_pow: "u32f = 2 ^ 149"
  by (simp add: fmt32_def)

lemma deg_val: "f32_val deg180 = FFin False (180 * u32f)" "f32_val deg360 = FFin False (360 * u32f)"
  by (simp_all add: deg180_def deg360_def f32_val_of_int)

lemma deg_cmp:
  "(int k < 360 * int u) = (k < 360 * u)" "(360 * int u < int k) = (360 * u < k)"
  "(180 * int u < int k) = (180 * u < k)" "(int k = 180 * int u) = (k = 180 * u)"
  by linarith+

text \<open>A difference close to 360 is exact; a larger one is smaller than what it was taken from.\<close>

lemma sub360_exact:
  assumes "repr 23 k" "180 * u32f \<le> k" "k \<le> 540 * u32f"
  shows "fp_make fmt32 s (nat \<bar>int k - int (360 * u32f)\<bar>) 1 = FFin s (nat \<bar>int k - int (360 * u32f)\<bar>)"
proof -
  let ?d = "nat \<bar>int k - int (360 * u32f)\<bar>"
  have lim: "540 * u32f < flimit fmt32" by (simp add: fmt32_def)
  have "repr 23 ?d"
  proof (rule repr_difference [OF assms(1)])
    show "360 * u32f = 45 * 2 ^ 152" by (simp add: fmt32_def)
    have "540 * u32f < 2 ^ (24 + 152)" by (simp add: fmt32_def)
    with assms(3) show "k < 2 ^ (24 + 152)" by (rule le_less_trans)
    show "360 * u32f \<le> 2 * k" using assms(2) by linarith
  qed
  moreover have "?d < flimit fmt32" using assms(2,3) lim by linarith
  ultimately show ?thesis
    using fp_make_exact [of fmt32 ?d 1 s] by (simp add: fmt32_def)
qed

lemma sub360_smaller:
  assumes "repr 23 k" "540 * u32f \<le> k" "k < 2 ^ 32 * u32f"
  shows "\<exists>j. fp_make fmt32 s (k - 360 * u32f) 1 = FFin s j \<and> 180 * u32f \<le> j \<and> j < k"
proof -
  let ?n = "k - 360 * u32f" and ?r = "nat \<bar>int k - int (2 ^ 157)\<bar>"
  have p: "2 ^ 157 = 256 * u32f" "2 ^ 32 * u32f = 2 ^ (24 + 157)" "2 ^ 32 * u32f < flimit fmt32"
    by (simp_all add: fmt32_def)
  have u: "0 < u32f" by simp
  have r: "?r = k - 2 ^ 157" using assms(2) p(1) by linarith
  have "repr 23 ?r"
    using assms p by (intro repr_difference [where j = 1 and E = 157]) linarith+
  then have rr: "fp_round 23 (?r * 1) 1 = ?r" by (rule fp_round_exact) simp
  have "repr 23 (180 * u32f)" unfolding u32f_pow by (rule repr_mult_pow) simp
  then have lo: "fp_round 23 (180 * u32f * 1) 1 = 180 * u32f" by (rule fp_round_exact) simp
  have "fp_round 23 ?n 1 \<le> fp_round 23 ?r 1"
    using r p(1) by (intro fp_round_mono) simp_all
  then have hi: "fp_round 23 ?n 1 < k"
    using rr r assms(2) p(1) u by simp
  have "fp_round 23 (180 * u32f) 1 \<le> fp_round 23 ?n 1"
    using assms(2) by (intro fp_round_mono) simp_all
  with lo have "180 * u32f \<le> fp_round 23 ?n 1" by simp
  moreover have "fp_round 23 ?n 1 < flimit fmt32"
    using hi assms(3) p(3) by linarith
  ultimately show ?thesis
    using hi by (simp add: fp_make_def Let_def fmt32_def)
qed

subsection \<open>The loops of the heading\<close>

definition half_turn :: "f32 \<Rightarrow> bool" where
  "half_turn d \<longleftrightarrow> (\<exists>s k. f32_val d = FFin s k \<and> k \<le> 180 * u32f \<and> (s \<longrightarrow> k < 180 * u32f))"

lemma half_turn_bounds:
  "half_turn d \<Longrightarrow> - deg180 < d \<and> d \<le> deg180 \<and> \<not> deg180 < d \<and> \<not> d \<le> - deg180"
proof -
  assume "half_turn d"
  then obtain s k where d: "f32_val d = FFin s k" "k \<le> 180 * u32f" "s \<longrightarrow> k < 180 * u32f"
    unfolding half_turn_def by blast
  have "0 < u32f" by simp
  then have "- (180 * int u32f) < sgn_int s k" "sgn_int s k \<le> 180 * int u32f"
    using d(2,3) by (cases s; simp add: sgn_int_def; linarith)+
  with d(1) show ?thesis
    by (auto simp: less_f32_def less_eq_f32_def fp_le_def deg_val sgn_int_def)
qed

lemma half_turn_done: "half_turn d \<Longrightarrow> unwrap_down d = Some d \<and> unwrap_up d = Some d"
  using half_turn_bounds [of d] by (simp add: unwrap_down.simps [of d] unwrap_up.simps [of d])

lemma val_repr: "f32_val d = FFin s k \<Longrightarrow> repr 23 k"
  using fp_ok_val(1) [of d] by (simp add: fmt32_def)

lemma sub_deg360:
  "f32_val d = FFin False k \<Longrightarrow> f32_val (d - deg360) =
     (if k = 360 * u32f then FFin False 0
      else fp_make fmt32 (k < 360 * u32f) (nat \<bar>int k - int (360 * u32f)\<bar>) 1)"
  by (auto simp: fp_sub_def deg_val Let_def sgn_int_def deg_cmp)

lemma add_deg360:
  "f32_val d = FFin True k \<Longrightarrow> f32_val (d + deg360) =
     (if k = 360 * u32f then FFin False 0
      else fp_make fmt32 (\<not> k < 360 * u32f) (nat \<bar>int k - int (360 * u32f)\<bar>) 1)"
  by (auto simp: deg_val Let_def sgn_int_def abs_minus_commute deg_cmp not_less order.order_iff_strict)

lemma unwrap_down_ends:
  "f32_val d = FFin False k \<Longrightarrow> k < 2 ^ 32 * u32f \<Longrightarrow> \<exists>d'. unwrap_down d = Some d' \<and> half_turn d'"
proof (induction k arbitrary: d rule: less_induct)
  case (less k)
  have r: "repr 23 k" by (rule val_repr [OF less.prems(1)])
  have step: "unwrap_down d = unwrap_down (d - deg360)" if "180 * u32f < k"
    using that less.prems(1) by (subst unwrap_down.simps) (simp add: less_f32_def deg_val sgn_int_def)
  consider "k \<le> 180 * u32f" | "180 * u32f < k" "k \<le> 540 * u32f" | "540 * u32f < k" by linarith
  then show ?case
  proof cases
    case 1
    with less.prems(1) have "half_turn d" by (auto simp: half_turn_def)
    then show ?thesis using half_turn_done by blast
  next
    case 2
    let ?j = "nat \<bar>int k - int (360 * u32f)\<bar>"
    have "f32_val (d - deg360) = (if k = 360 * u32f then FFin False 0 else FFin (k < 360 * u32f) ?j)"
      using sub_deg360 [OF less.prems(1)] sub360_exact [OF r] 2 by simp
    moreover have "?j \<le> 180 * u32f" "k < 360 * u32f \<Longrightarrow> ?j < 180 * u32f" using 2 by linarith+
    ultimately have "half_turn (d - deg360)" by (auto simp: half_turn_def split: if_splits)
    then show ?thesis using step [OF 2(1)] half_turn_done by auto
  next
    case 3
    obtain j where j: "fp_make fmt32 False (k - 360 * u32f) 1 = FFin False j" "180 * u32f \<le> j" "j < k"
      using sub360_smaller [OF r _ less.prems(2)] 3 by (metis less_imp_le)
    have "nat \<bar>int k - int (360 * u32f)\<bar> = k - 360 * u32f" using 3 by linarith
    then have v: "f32_val (d - deg360) = FFin False j"
      using sub_deg360 [OF less.prems(1)] j(1) 3 by simp
    have "180 * u32f < k" using 3 by linarith
    with less.IH [OF j(3) v] j(3) less.prems(2) step show ?thesis by simp
  qed
qed

lemma unwrap_up_ends:
  "f32_val d = FFin True k \<Longrightarrow> k < 2 ^ 32 * u32f \<Longrightarrow> \<exists>d'. unwrap_up d = Some d' \<and> half_turn d'"
proof (induction k arbitrary: d rule: less_induct)
  case (less k)
  have r: "repr 23 k" by (rule val_repr [OF less.prems(1)])
  have step: "unwrap_up d = unwrap_up (d + deg360)" if "180 * u32f \<le> k"
    using that less.prems(1)
    by (subst unwrap_up.simps) (auto simp: less_eq_f32_def fp_le_def deg_val sgn_int_def deg_cmp)
  consider "k < 180 * u32f" | "180 * u32f \<le> k" "k < 540 * u32f" | "540 * u32f \<le> k" by linarith
  then show ?case
  proof cases
    case 1
    with less.prems(1) have "half_turn d" by (auto simp: half_turn_def)
    then show ?thesis using half_turn_done by blast
  next
    case 2
    let ?j = "nat \<bar>int k - int (360 * u32f)\<bar>"
    have "f32_val (d + deg360) = (if k = 360 * u32f then FFin False 0 else FFin (\<not> k < 360 * u32f) ?j)"
      using add_deg360 [OF less.prems(1)] sub360_exact [OF r] 2 by simp
    moreover have "?j \<le> 180 * u32f" "\<not> k < 360 * u32f \<Longrightarrow> ?j < 180 * u32f" using 2 by linarith+
    ultimately have "half_turn (d + deg360)" by (auto simp: half_turn_def split: if_splits)
    then show ?thesis using step [OF 2(1)] half_turn_done by auto
  next
    case 3
    obtain j where j: "fp_make fmt32 True (k - 360 * u32f) 1 = FFin True j" "180 * u32f \<le> j" "j < k"
      using sub360_smaller [OF r 3 less.prems(2)] by metis
    have "nat \<bar>int k - int (360 * u32f)\<bar> = k - 360 * u32f" using 3 by linarith
    moreover have "k \<noteq> 360 * u32f" "\<not> k < 360 * u32f" using 3 funit_pos(1) by linarith+
    ultimately have v: "f32_val (d + deg360) = FFin True j"
      using add_deg360 [OF less.prems(1)] j(1) by simp
    have "180 * u32f \<le> k" using 3 by linarith
    with less.IH [OF j(3) v] j(3) less.prems(2) step show ?thesis by simp
  qed
qed

lemma unwrap_down_infinite:
  assumes "f32_val d = FInf False"
  shows "unwrap_down d = None"
proof (rule ccontr)
  assume "unwrap_down d \<noteq> None"
  then obtain y where "unwrap_down d = Some y" by auto
  then have "f32_val d \<noteq> FInf False"
  proof (rule unwrap_down.raw_induct [where P = "\<lambda>d y. f32_val d \<noteq> FInf False", rotated])
    fix f d y
    assume IH: "\<And>d y. f d = Some y \<Longrightarrow> f32_val d \<noteq> FInf False"
      and eq: "(if deg180 < d then f (d - deg360) else Some d) = Some y"
    show "f32_val d \<noteq> FInf False"
    proof
      assume i: "f32_val d = FInf False"
      then have "f32_val (d - deg360) = FInf False" by (simp add: fp_sub_def deg_val)
      moreover have "deg180 < d" using i by (simp add: less_f32_def deg_val)
      ultimately show False using eq IH [of "d - deg360" y] by simp
    qed
  qed
  with assms show False by simp
qed

subsection \<open>The reconnect loop\<close>

fun act_waits :: "live_act list \<Rightarrow> duration list" where
  "act_waits [] = []"
| "act_waits (ActWait d w # acts) = d # act_waits acts"
| "act_waits (a # acts) = act_waits acts"

fun act_refreshes :: "live_act list \<Rightarrow> (text_string \<times> (auth_error + token_bundle)) list" where
  "act_refreshes [] = []"
| "act_refreshes (ActRefresh t r # acts) = (t, r) # act_refreshes acts"
| "act_refreshes (a # acts) = act_refreshes acts"

lemma act_waits_append [simp]: "act_waits (xs @ ys) = act_waits xs @ act_waits ys"
  by (induction xs rule: act_waits.induct) simp_all

lemma act_refreshes_append [simp]: "act_refreshes (xs @ ys) = act_refreshes xs @ act_refreshes ys"
  by (induction xs rule: act_refreshes.induct) simp_all

lemma act_refreshes_emits [simp]: "act_refreshes (map (\<lambda>x. ActEmit (f x)) xs) = []"
  by (induction xs) simp_all

text \<open>A chain of refreshes: each uses the token the last successful one returned.\<close>

fun refresh_chain :: "text_string \<Rightarrow> (text_string \<times> (auth_error + token_bundle)) list \<Rightarrow> bool" where
  "refresh_chain t [] \<longleftrightarrow> True"
| "refresh_chain t ((u, r) # rest) \<longleftrightarrow>
     u = t \<and> refresh_chain (case r of Inr b \<Rightarrow> tb_refresh b | Inl _ \<Rightarrow> t) rest"

definition held_refresh :: "live_config \<Rightarrow> token_bundle option \<Rightarrow> text_string" where
  "held_refresh config state = (case state of Some b \<Rightarrow> tb_refresh b | None \<Rightarrow> lc_refresh_token config)"

lemma live_wait_refreshes: "live_wait d n w st = (acts, st') \<Longrightarrow> act_refreshes acts = []"
  by (auto simp: live_wait_def split: prod.splits bool.splits)

lemma live_wait_token: "live_wait d n w st = (acts, Some st') \<Longrightarrow> lv_token st' = lv_token st"
  by (auto simp: live_wait_def split: prod.splits bool.splits)

lemma ensure_token_chain:
  assumes "ensure_token decode config now answered ans state = (acts, res, state')"
    and "refresh_chain (held_refresh config state') rest"
  shows "refresh_chain (held_refresh config state) (act_refreshes acts @ rest)"
  using assms
  by (auto simp: ensure_token_def held_refresh_def Let_def split: if_splits sum.splits option.splits)

lemma ensure_token_chain_end:
  "ensure_token decode config now answered ans state = (acts, res, state') \<Longrightarrow>
     refresh_chain (held_refresh config state) (act_refreshes acts)"
  by (auto simp: ensure_token_def held_refresh_def Let_def split: if_splits sum.splits option.splits)

text \<open>A round is its token request, then acts without one; it hands on the token it got.\<close>

lemma live_step_split:
  assumes "live_step tdecode decode config r st = (acts, st')" "\<not> lv_stopped st"
  obtains pre res tok post where
    "ensure_token tdecode config (lr_now r) (lr_answered r) (lr_answer r) (lv_token st) = (pre, res, tok)"
    "acts = pre @ post" "act_refreshes post = []" "\<And>s. st' = Some s \<Longrightarrow> lv_token s = tok"
proof -
  obtain pre res tok where e: "ensure_token tdecode config (lr_now r) (lr_answered r) (lr_answer r) (lv_token st) = (pre, res, tok)"
    by (metis surj_pair)
  show ?thesis
  proof (cases res)
    case (Inl err)
    obtain a2 s2 where w: "live_wait (lv_backoff st) (double_backoff (lv_backoff st)) (lr_wait r)
        (st\<lparr>lv_token := tok\<rparr>) = (a2, s2)" by fastforce
    with assms e Inl have "acts = pre @ a2" "st' = s2" by (simp_all add: live_step_def)
    then show ?thesis
      using that [OF e] live_wait_refreshes [OF w] w live_wait_token by fastforce
  next
    case (Inr access)
    obtain xs flag q where s: "stream_once decode (lr_connect_error r) (lv_stopped st) (lr_stream r) = (xs, flag, q)"
      by (metis surj_pair)
    let ?st1 = "st\<lparr>lv_token := tok, lv_stopped := flag\<rparr>"
    let ?out = "ActConnect access # map (\<lambda>x. ActEmit (ImuSamples [x])) xs"
    obtain a2 s2 where w: "live_wait (from_secs 5) (from_secs 1) (lr_wait r) ?st1 = (a2, s2)" by fastforce
    obtain a3 s3 where v: "live_wait (lv_backoff st) (double_backoff (lv_backoff st)) (lr_wait r) ?st1 = (a3, s3)"
      by fastforce
    have "\<exists>post. acts = pre @ post \<and> act_refreshes post = [] \<and> (\<forall>s. st' = Some s \<longrightarrow> lv_token s = tok)"
      using assms e Inr s w v live_wait_refreshes [OF w] live_wait_refreshes [OF v]
        live_wait_token [of _ _ _ ?st1]
      by (cases q) (fastforce simp: live_step_def Let_def)+
    with that [OF e] show ?thesis by blast
  qed
qed

lemma live_rounds_chain:
  "refresh_chain (held_refresh config (lv_token st)) (act_refreshes (live_rounds tdecode decode config st rs))"
proof (induction rs arbitrary: st)
  case (Cons r rs)
  obtain acts st' where s: "live_step tdecode decode config r st = (acts, st')" by fastforce
  show ?case
  proof (cases "lv_stopped st")
    case True
    with s show ?thesis by (auto simp: live_step_def)
  next
    case False
    obtain pre res tok post where p:
      "ensure_token tdecode config (lr_now r) (lr_answered r) (lr_answer r) (lv_token st) = (pre, res, tok)"
      "acts = pre @ post" "act_refreshes post = []" "\<And>s. st' = Some s \<Longrightarrow> lv_token s = tok"
      using live_step_split [OF s False] by metis
    show ?thesis
    proof (cases st')
      case None
      with s p(2,3) ensure_token_chain_end [OF p(1)] show ?thesis by simp
    next
      case (Some st1)
      with Cons.IH [of st1] p(4) have
        "refresh_chain (held_refresh config tok) (act_refreshes (live_rounds tdecode decode config st1 rs))"
        by simp
      from ensure_token_chain [OF p(1) this] s p(2,3) Some show ?thesis by simp
    qed
  qed
qed simp

text \<open>A round whose token request fails, and whose wait is slept out.\<close>

definition failing_round :: "(text_string \<Rightarrow> text_string + token_response) \<Rightarrow> live_round \<Rightarrow> bool" where
  "failing_round tdecode r \<longleftrightarrow>
     (\<exists>e. token_from_answer tdecode (lr_answered r) (lr_answer r) = Inl e) \<and> lr_wait r = WaitSlept"

lemma live_step_failing:
  "failing_round tdecode r \<Longrightarrow> lv_token st = None \<Longrightarrow> \<not> lv_stopped st \<Longrightarrow>
     \<exists>t e. live_step tdecode decode config r st =
       ([ActRefresh t (Inl e), ActWait (lv_backoff st) WaitSlept],
        Some (st\<lparr>lv_backoff := double_backoff (lv_backoff st)\<rparr>))"
  by (auto simp: failing_round_def live_step_def ensure_token_def live_wait_def Let_def)

lemma double_backoff_power:
  "double_backoff (min (from_secs (2 ^ i)) MAX_BACKOFF) = min (from_secs (2 ^ Suc i)) MAX_BACKOFF"
  by (auto simp: double_backoff_def MAX_BACKOFF_def from_secs_def min_def)

lemma live_rounds_backoff:
  "\<forall>r \<in> set rs. failing_round tdecode r \<Longrightarrow> lv_token st = None \<Longrightarrow> \<not> lv_stopped st \<Longrightarrow>
     lv_backoff st = min (from_secs (2 ^ i)) MAX_BACKOFF \<Longrightarrow>
     act_waits (live_rounds tdecode decode config st rs) =
       map (\<lambda>j. min (from_secs (2 ^ (i + j))) MAX_BACKOFF) [0..<length rs]"
proof (induction rs arbitrary: st i)
  case (Cons r rs)
  obtain t e where s: "live_step tdecode decode config r st =
      ([ActRefresh t (Inl e), ActWait (lv_backoff st) WaitSlept],
       Some (st\<lparr>lv_backoff := double_backoff (lv_backoff st)\<rparr>))"
    using live_step_failing [of tdecode r st decode config] Cons.prems by auto
  have "act_waits (live_rounds tdecode decode config (st\<lparr>lv_backoff := double_backoff (lv_backoff st)\<rparr>) rs) =
      map (\<lambda>j. min (from_secs (2 ^ (Suc i + j))) MAX_BACKOFF) [0..<length rs]"
    using Cons.prems by (intro Cons.IH) (simp_all add: double_backoff_power del: power_Suc)
  then show ?case
    using s Cons.prems(4) by (simp add: upt_conv_Cons map_Suc_upt [symmetric] comp_def del: upt_Suc power_Suc)
qed simp

subsection \<open>Properties\<close>

lemma two_32_val: "f32_val (f32_lit 4294967296 1) = FFin False (2 ^ 32 * u32f)"
  by (simp add: f32_eval)

text \<open>
  Property C10. The loops that bring a change of heading into half a turn end whenever the
  change is below 2 to the 32 degrees, far beyond what a compass can give, although the
  subtraction of 360 is rounded: the result lies above -180 and at most at 180 degrees, so
  a turn through north never spikes the yaw rate.
\<close>

theorem heading_delta_ends:
  assumes "\<bar>b - a\<bar> < f32_lit 4294967296 1"
  shows "\<exists>d. unwrapped_delta_deg a b = Some d \<and> - f32_of_int 180 < d \<and> d \<le> f32_of_int 180"
proof -
  obtain s k where v: "f32_val (b - a) = FFin s k" "k < 2 ^ 32 * u32f"
    using assms two_32_val by (cases "f32_val (b - a)") (simp_all add: less_f32_def sgn_int_def)
  show ?thesis
  proof (cases s)
    case False
    then obtain d where "unwrap_down (b - a) = Some d" "half_turn d"
      using unwrap_down_ends [of "b - a" k] v by auto
    then show ?thesis
      using half_turn_done [of d] half_turn_bounds [of d] by (simp add: unwrapped_delta_deg_def deg180_def)
  next
    case True
    then have "unwrap_down (b - a) = Some (b - a)"
      using v(1) by (subst unwrap_down.simps) (simp add: less_f32_def deg_val sgn_int_def)
    moreover obtain d where "unwrap_up (b - a) = Some d" "half_turn d"
      using unwrap_up_ends [of "b - a" k] v True by auto
    ultimately show ?thesis
      using half_turn_bounds [of d] by (simp add: unwrapped_delta_deg_def deg180_def)
  qed
qed

theorem heading_delta_ends_witness:
  "\<exists>d. unwrapped_delta_deg (f32_of_int 350) (f32_of_int 10) = Some d \<and> - f32_of_int 180 < d \<and> d \<le> f32_of_int 180"
proof (rule heading_delta_ends)
  have "int_valued (f32_of_int 10 - f32_of_int 350) (10 - 350)"
    by (intro int_valued_sub int_valued_of_int) simp_all
  then have "f32_val (f32_of_int 10 - f32_of_int 350) = FFin True (340 * u32f)"
    by (simp add: int_valued_def)
  then show "\<bar>f32_of_int 10 - f32_of_int 350\<bar> < f32_lit 4294967296 1"
    unfolding less_f32_def two_32_val by (simp add: sgn_int_def u32f_pow)
qed

definition update_envelope :: "text_string \<Rightarrow> stream_envelope" where
  "update_envelope value = \<lparr>se_msg_type = ''data:update'', se_value = Some value, se_error_type = None\<rparr>"

definition heading_90 :: f32 where
  "heading_90 = f32_lit 90 1"

lemma decode_first:
  "\<exists>f. decode_stream_value ''1000,30,90,,D,,,'' = Inr f \<and> sf_timestamp_ms f = 1000
     \<and> (\<exists>v. sf_speed_mph f = Some v) \<and> sf_heading_deg f = Some heading_90"
  by (simp add: decode_stream_value_def parse_u64_def from_str_radix_def digit_of_def column_def
      parse_f32_def parse_fp_def parse_number_def parse_exp_def ascii_lower_def is_digit_def digits_nat_def
      heading_90_def f32_lit_def)

lemma decode_second:
  "\<exists>f. decode_stream_value ''2000,30,inf,,D,,,'' = Inr f \<and> sf_timestamp_ms f = 2000
     \<and> (\<exists>v. sf_speed_mph f = Some v) \<and> (\<exists>h. sf_heading_deg f = Some h \<and> f32_val h = FInf False)"
  by (simp add: decode_stream_value_def parse_u64_def from_str_radix_def digit_of_def column_def
      parse_f32_def parse_fp_def parse_number_def parse_exp_def ascii_lower_def is_digit_def digits_nat_def)

lemma one_second_counts:
  "f32_is_finite (f32_of_int 1000000 / f32_lit 1000000 1) \<and>
     f32_lit 1 1000 < f32_of_int 1000000 / f32_lit 1000000 1"
  by (simp add: f32_is_finite_def f32_val_of_int f32_eval)

lemma ingest_infinite:
  assumes "f32_val h = FInf False"
    and "s = \<lparr>sy_heading_deg = Some heading_90, sy_speed_mps = Some v, sy_timestamp_us = Some 1000000\<rparr>"
  shows "synth_ingest 2000000 (Some h) (Some w) s = None"
proof -
  have "f32_val (h - heading_90) = FInf False"
    using assms(1) by (simp add: fp_sub_def heading_90_def f32_lit_Suc)
  then have "unwrapped_delta_deg heading_90 h = None"
    by (simp add: unwrapped_delta_deg_def unwrap_down_infinite)
  then show ?thesis
    using one_second_counts assms(2)
    by (simp add: synth_ingest_def Let_def saturating_sub_def)
qed



text \<open>
  While tokens cannot be had the bridge asks less and less often: the waits between
  attempts are 1, 2, 4, 8, 16, 32 seconds and then 60 seconds each, however long it goes on.
\<close>

theorem failed_logins_back_off:
  assumes "\<forall>r \<in> set rs. failing_round tdecode r"
  shows "act_waits (run_live tdecode decode config i rs) =
    map (\<lambda>j. min (from_secs (2 ^ j)) (from_secs 60)) [0..<length rs]"
  using live_rounds_backoff [OF assms, of live_new 0 decode config]
  by (simp add: run_live_def live_new_def MAX_BACKOFF_def from_secs_def)

definition example_failing_round :: live_round where
  "example_failing_round =
     \<lparr>lr_now = 0, lr_answered = 1, lr_answer = HttpFailed ''timeout'', lr_connect_error = None, lr_stream = [], lr_wait = WaitSlept\<rparr>"

theorem failed_logins_back_off_witness:
  "\<forall>tdecode decode config i. act_waits (run_live tdecode decode config i (replicate 8 example_failing_round)) =
     map from_secs [1, 2, 4, 8, 16, 32, 60, 60]"
proof (intro allI)
  fix tdecode :: "text_string \<Rightarrow> text_string + token_response"
    and decode :: "text_string \<Rightarrow> stream_envelope option" and config i
  have "\<forall>r \<in> set (replicate 8 example_failing_round). failing_round tdecode r"
    by (simp add: failing_round_def example_failing_round_def token_from_answer_def)
  from failed_logins_back_off [OF this, of decode config i]
  show "act_waits (run_live tdecode decode config i (replicate 8 example_failing_round)) =
     map from_secs [1, 2, 4, 8, 16, 32, 60, 60]"
    by (simp add: upt_rec from_secs_def)
qed

text \<open>
  Property C31. Refresh tokens rotate and the bridge follows: the first request uses the configured
  token, and every later one the token that the last successful request returned, whatever
  fails in between.
\<close>

theorem refresh_tokens_rotate:
  "refresh_chain (lc_refresh_token config) (act_refreshes (run_live tdecode decode config i rs))"
  using live_rounds_chain [of config live_new tdecode decode rs]
  by (simp add: run_live_def live_new_def held_refresh_def)

end
