(* ===== verification/Text_Float.thy ===== *)
theory Text_Float
  imports App_State
begin

section \<open>Printing a float\<close>

text \<open>
  \<^verbatim>\<open>to_string\<close> of an \<^verbatim>\<open>f32\<close> as the standard library prints it: the shortest decimal that reads
  back as the same number, the closest of these, without an exponent. Settings are stored in
  this form and read with \<^const>\<open>parse_f32\<close>, which returns exactly what was printed.
\<close>

subsection \<open>The shortest decimal\<close>

text \<open>\<open>m\<close> times ten to the \<open>- q\<close> rounds to \<open>k\<close> units.\<close>

definition rounds_back :: "nat \<Rightarrow> nat \<Rightarrow> int \<Rightarrow> bool" where
  "rounds_back k m q \<longleftrightarrow>
     fp_make fmt32 False (m * funit fmt32 * 10 ^ nat (- q)) (10 ^ nat q) = FFin False k"

text \<open>The decimal with \<open>q\<close> digits after the point nearest to \<open>k\<close> units, if one reads back.\<close>

definition shortest_at :: "nat \<Rightarrow> int \<Rightarrow> nat option" where
  "shortest_at k q =
     (let n = k * 10 ^ nat q; d = funit fmt32 * 10 ^ nat (- q); m = n div d; r = n mod d;
          down = rounds_back k m q; up = rounds_back k (m + 1) q
      in if up \<and> (\<not> down \<or> d \<le> 2 * r) then Some (m + 1) else if down then Some m else None)"

fun first_scale :: "nat \<Rightarrow> int list \<Rightarrow> nat \<times> int" where
  "first_scale k [] = (0, 0)"
| "first_scale k (q # qs) = (case shortest_at k q of Some m \<Rightarrow> (m, q) | None \<Rightarrow> first_scale k qs)"

definition shortest :: "nat \<Rightarrow> nat \<times> int" where
  "shortest k = first_scale k [-39..149]"

definition decimal_text :: "nat \<times> int \<Rightarrow> string" where
  "decimal_text mq =
     (case mq of (m, q) \<Rightarrow>
        let ds = dec_digits m; n = length ds in
        if q \<le> 0 then ds @ replicate (nat (- q)) CHR ''0''
        else if q < int n then take (n - nat q) ds @ CHR ''.'' # drop (n - nat q) ds
        else ''0.'' @ replicate (nat q - n) CHR ''0'' @ ds)"

definition f32_to_text :: "f32 \<Rightarrow> text_string" where
  "f32_to_text x =
     (case f32_val x of
        FNaN \<Rightarrow> ''NaN''
      | FInf s \<Rightarrow> (if s then ''-inf'' else ''inf'')
      | FFin s k \<Rightarrow> (if s then ''-'' else []) @ (if k = 0 then ''0'' else decimal_text (shortest k)))"

subsection \<open>A bit pattern is determined by its value\<close>

lemma blen_eq: "2 ^ n \<le> k \<Longrightarrow> k < 2 ^ Suc n \<Longrightarrow> blen k = Suc n"
proof -
  assume k: "2 ^ n \<le> k" "k < 2 ^ Suc n"
  then have pos: "0 < k" by (cases "k = 0") auto
  have "blen k \<le> Suc n" using k(2) by (rule blen_le)
  moreover have "n < blen k"
  proof (rule ccontr)
    assume "\<not> n < blen k"
    then have "(2::nat) ^ blen k \<le> 2 ^ n" by (intro power_increasing) simp_all
    with blen_less [of k] k(1) show False by linarith
  qed
  ultimately show ?thesis by simp
qed

lemma two_digits:
  fixes w :: nat
  assumes "w div a div b = t"
  shows "w = t * (b * a) + (w div a mod b * a + w mod a)"
proof -
  have x: "w div a = t * b + w div a mod b"
    using div_mult_mod_eq [of "w div a" b] assms by simp
  have "w = w div a * a + w mod a" by (rule div_mult_mod_eq [symmetric])
  also have "w div a * a = t * (b * a) + w div a mod b * a"
    by (subst x) (simp add: distrib_right mult.assoc)
  finally show ?thesis by simp
qed

lemma pred_mult: "0 < e \<Longrightarrow> (e - 1) * a + (a + f) = e * a + (f :: nat)"
  by (cases e) simp_all

lemma fp_encode_decode:
  assumes F: "fmt_ok F" and w: "w < 2 ^ Suc (ebits F + mbits F)" and n: "fp_decode F w \<noteq> FNaN"
  shows "fp_encode F (fp_decode F w) = w"
proof -
  let ?s = "odd (w div 2 ^ (ebits F + mbits F))" and ?ex = "(w div 2 ^ mbits F) mod 2 ^ ebits F"
    and ?fr = "w mod 2 ^ mbits F"
  have fr: "?fr < 2 ^ mbits F" by simp
  have top: "w div 2 ^ (ebits F + mbits F) = of_bool ?s"
  proof -
    have "w < 2 * 2 ^ (ebits F + mbits F)" using w by simp
    then have "w div 2 ^ (ebits F + mbits F) < 2" by (rule less_mult_imp_div_less)
    then show ?thesis by (cases "w div 2 ^ (ebits F + mbits F)") (auto simp: less_Suc_eq numeral_2_eq_2)
  qed
  have parts: "w = of_bool ?s * 2 ^ (ebits F + mbits F) + (?ex * 2 ^ mbits F + ?fr)"
  proof -
    have "w div 2 ^ mbits F div 2 ^ ebits F = of_bool ?s"
      using top by (simp add: div_mult2_eq [symmetric] power_add [symmetric] add.commute)
    from two_digits [OF this] show ?thesis by (simp only: power_add)
  qed
  have enc: "fp_enc_mag (mbits F) (if ?ex = 0 then ?fr else (2 ^ mbits F + ?fr) * 2 ^ (?ex - 1)) =
      ?ex * 2 ^ mbits F + ?fr"
  proof (cases "?ex = 0")
    case True
    then show ?thesis using fr by (simp add: fp_enc_mag_def)
  next
    case False
    let ?k = "(2 ^ mbits F + ?fr) * 2 ^ (?ex - 1)"
    have "2 ^ mbits F * 2 ^ (?ex - 1) \<le> ?k" "?k < 2 * 2 ^ mbits F * 2 ^ (?ex - 1)"
      using fr by (intro mult_le_mono1 mult_strict_right_mono; simp)+
    then have b: "2 ^ (mbits F + (?ex - 1)) \<le> ?k" "?k < 2 ^ Suc (mbits F + (?ex - 1))"
      by (simp_all add: power_add mult.assoc)
    then have e: "blen ?k - Suc (mbits F) = ?ex - 1"
      using blen_eq [OF b] by simp
    have "(2::nat) ^ mbits F \<le> 2 ^ (mbits F + (?ex - 1))" by (rule power_increasing) simp_all
    with b(1) have "\<not> ?k < 2 ^ mbits F" by linarith
    then have "fp_enc_mag (mbits F) ?k = (?ex - 1) * 2 ^ mbits F + (2 ^ mbits F + ?fr)"
      unfolding fp_enc_mag_def Let_def e by simp
    also have "\<dots> = ?ex * 2 ^ mbits F + ?fr"
      using False by (intro pred_mult) simp
    finally show ?thesis using False by simp
  qed
  show ?thesis
  proof (cases "?ex = 2 ^ ebits F - 1")
    case True
    with n have z: "?fr = 0" "fp_decode F w = FInf ?s"
      by (auto simp: fp_decode_def Let_def split: if_splits)
    then show ?thesis using parts True by (simp add: fp_encode_def)
  next
    case False
    then have "fp_decode F w = FFin ?s (if ?ex = 0 then ?fr else (2 ^ mbits F + ?fr) * 2 ^ (?ex - 1))"
      by (simp add: fp_decode_def Let_def)
    then show ?thesis using parts enc by (simp only: fp_encode_def fp.case)
  qed
qed

lemma f32_of_val: "\<not> f32_is_nan x \<Longrightarrow> f32_of (f32_val x) = x"
proof -
  assume "\<not> f32_is_nan x"
  moreover have "unat (f32_bits x) < 2 ^ Suc (ebits fmt32 + mbits fmt32)"
    using unsigned_less [of "f32_bits x"] by (simp add: fmt32_def)
  ultimately have "fp_encode fmt32 (f32_val x) = unat (f32_bits x)"
    unfolding f32_val_def f32_is_nan_def by (intro fp_encode_decode) simp_all
  then show ?thesis by (cases x) (simp add: f32_of_def)
qed

subsection \<open>Reading back\<close>

lemma fp_make_scale: "0 < b \<Longrightarrow> 0 < c \<Longrightarrow> fp_make F s (a * c) (b * c) = fp_make F s a b"
proof -
  assume p: "0 < b" "0 < c"
  have "fp_round (mbits F) (a * c) (b * c) \<le> fp_round (mbits F) a b"
    "fp_round (mbits F) a b \<le> fp_round (mbits F) (a * c) (b * c)"
    using p by (intro fp_round_mono; simp add: mult.commute mult.left_commute)+
  then show ?thesis by (simp add: fp_make_def)
qed

lemma fp_make_sign: "fp_make F False n d = FFin False k \<Longrightarrow> fp_make F s n d = FFin s k"
  by (auto simp: fp_make_def Let_def split: if_splits)

lemma shortest_at_rounds: "shortest_at k q = Some m \<Longrightarrow> rounds_back k m q"
  by (auto simp: shortest_at_def Let_def split: if_splits)

lemma first_scale_rounds:
  "q \<in> set qs \<Longrightarrow> shortest_at k q \<noteq> None \<Longrightarrow> case first_scale k qs of (m, p) \<Rightarrow> rounds_back k m p"
  by (induction qs) (auto split: option.splits dest: shortest_at_rounds)

text \<open>With 149 digits after the point the decimal is exact, so the search ends.\<close>

lemma exact_scale:
  assumes "repr 23 k" "k < flimit fmt32"
  shows "shortest_at k 149 \<noteq> None"
proof -
  have ten: "(10::nat) ^ 149 = 5 ^ 149 * funit fmt32"
    by (simp add: fmt32_def power_mult_distrib [symmetric] del: power_numeral)
  have m: "k * 10 ^ 149 div funit fmt32 = k * 5 ^ 149"
    unfolding ten by (simp add: mult.assoc [symmetric])
  have e: "k * 5 ^ 149 * funit fmt32 = k * 10 ^ 149" unfolding ten by (simp only: mult.assoc)
  have "fp_make fmt32 False (k * 10 ^ 149) (10 ^ 149) = FFin False k"
    using assms by (intro fp_make_exact) (simp_all add: fmt32_def del: power_numeral)
  then have "fp_make fmt32 False (k * 5 ^ 149 * funit fmt32) (10 ^ 149) = FFin False k"
    unfolding e .
  then have "rounds_back k (k * 5 ^ 149) 149" by (simp add: rounds_back_def del: power_numeral)
  then show ?thesis
    unfolding shortest_at_def Let_def by (auto simp: m simp del: power_numeral)
qed

lemma shortest_rounds:
  "repr 23 k \<Longrightarrow> k < flimit fmt32 \<Longrightarrow> case shortest k of (m, q) \<Rightarrow> rounds_back k m q"
  unfolding shortest_def by (rule first_scale_rounds [OF _ exact_scale]) simp_all

subsection \<open>Digits\<close>

lemma decimal_digit: "d < 10 \<Longrightarrow> is_digit (''0123456789'' ! d) \<and> of_char (''0123456789'' ! d) = 48 + d"
  by (auto simp: is_digit_def less_Suc_eq numeral_eq_Suc)

lemma dec_digits_all: "list_all is_digit (dec_digits n)"
proof (induction n rule: less_induct)
  case (less n)
  show ?case
  proof (cases "n < 10")
    case True
    then show ?thesis using decimal_digit [of n] by (simp add: dec_digits.simps [of n])
  next
    case False
    then have "n div 10 < n" by simp
    with less False show ?thesis
      using decimal_digit [of "n mod 10"] by (simp add: dec_digits.simps [of n])
  qed
qed

lemma digits_nat_snoc: "digits_nat (cs @ [c]) = 10 * digits_nat cs + (of_char c - 48)"
  by (simp add: digits_nat_def)

lemma digits_nat_dec: "digits_nat (dec_digits n) = n"
proof (induction n rule: less_induct)
  case (less n)
  show ?case
  proof (cases "n < 10")
    case True
    then show ?thesis using decimal_digit [of n] by (simp add: dec_digits.simps [of n] digits_nat_def)
  next
    case False
    then have "n div 10 < n" by simp
    with less False show ?thesis
      using decimal_digit [of "n mod 10"] by (simp add: dec_digits.simps [of n] digits_nat_snoc)
  qed
qed

lemma replicate_snoc: "replicate (Suc n) x = replicate n x @ [x]"
  by (simp add: replicate_append_same)

lemma digits_nat_zeros_right: "digits_nat (cs @ replicate z CHR ''0'') = digits_nat cs * 10 ^ z"
proof (induction z)
  case (Suc z)
  have "digits_nat (cs @ replicate (Suc z) CHR ''0'') = 10 * digits_nat (cs @ replicate z CHR ''0'')"
    unfolding replicate_snoc using digits_nat_snoc [of "cs @ replicate z CHR ''0''" "CHR ''0''"] by simp
  with Suc show ?case by simp
qed simp

lemma digits_nat_zeros_left: "digits_nat (CHR ''0'' # replicate z CHR ''0'' @ cs) = digits_nat cs"
  by (induction z) (simp_all add: digits_nat_def)

lemma dec_digits_nonempty: "dec_digits n \<noteq> []"
  by (simp add: dec_digits.simps [of n])

lemma digit_zero: "is_digit CHR ''0''" "\<not> is_digit CHR ''.''"
  by (simp_all add: is_digit_def)

lemma take_digits: "list_all is_digit ds \<Longrightarrow> takeWhile is_digit ds = ds \<and> dropWhile is_digit ds = []"
  by (induction ds) simp_all

lemma take_digits_dot:
  "list_all is_digit ds \<Longrightarrow> takeWhile is_digit (ds @ CHR ''.'' # r) = ds
     \<and> dropWhile is_digit (ds @ CHR ''.'' # r) = CHR ''.'' # r"
  by (induction ds) (simp_all add: digit_zero)

lemma parse_integer:
  assumes "list_all is_digit ds" "ds \<noteq> []"
  shows "parse_number F neg ds = Some (fp_make F neg (digits_nat ds * funit F) 1)"
proof -
  have t: "takeWhile is_digit ds = ds" "dropWhile is_digit ds = []"
    using take_digits [OF assms(1)] by blast+
  show ?thesis
    unfolding parse_number_def Let_def t using assms(2) by (simp add: parse_exp_def)
qed

lemma parse_decimal:
  assumes "list_all is_digit ds" "list_all is_digit fs" "ds \<noteq> []"
  shows "parse_number F neg (ds @ CHR ''.'' # fs) =
    Some (fp_make F neg (digits_nat (ds @ fs) * funit F) (10 ^ length fs))"
proof -
  have t: "takeWhile is_digit (ds @ CHR ''.'' # fs) = ds"
    "dropWhile is_digit (ds @ CHR ''.'' # fs) = CHR ''.'' # fs"
    "takeWhile is_digit fs = fs" "dropWhile is_digit fs = []"
    using take_digits_dot [OF assms(1)] take_digits [OF assms(2)] by blast+
  show ?thesis
    unfolding parse_number_def Let_def t list.case using assms(3) by (simp add: parse_exp_def t)
qed

lemma parse_decimal_text:
  "parse_number F neg (decimal_text (m, q)) =
     Some (fp_make F neg (m * funit F * 10 ^ nat (- q)) (10 ^ nat q))"
proof -
  let ?ds = "dec_digits m"
  have d: "list_all is_digit ?ds" "?ds \<noteq> []" "digits_nat ?ds = m"
    by (rule dec_digits_all dec_digits_nonempty digits_nat_dec)+
  consider "q \<le> 0" | "0 < q" "q < int (length ?ds)" | "0 < q" "int (length ?ds) \<le> q" by linarith
  then show ?thesis
  proof cases
    case 1
    have "list_all is_digit (?ds @ replicate (nat (- q)) CHR ''0'')"
      using d(1) by (auto simp: list_all_iff digit_zero)
    with 1 d parse_integer [of "?ds @ replicate (nat (- q)) CHR ''0''" F neg] show ?thesis
      by (simp add: decimal_text_def Let_def digits_nat_zeros_right ac_simps)
  next
    case 2
    let ?i = "length ?ds - nat q"
    have "list_all is_digit (take ?i ?ds)" "list_all is_digit (drop ?i ?ds)" "take ?i ?ds \<noteq> []"
      using d(1) 2 by (auto simp: list_all_iff dest: in_set_takeD in_set_dropD)
    with 2 d parse_decimal [of "take ?i ?ds" "drop ?i ?ds" F neg] show ?thesis
      by (simp add: decimal_text_def Let_def)
  next
    case 3
    let ?fs = "replicate (nat q - length ?ds) CHR ''0'' @ ?ds"
    have "list_all is_digit ?fs" "length ?fs = nat q"
      using d(1) 3 by (auto simp: list_all_iff digit_zero)
    with 3 d parse_decimal [of "''0''" ?fs F neg] show ?thesis
      by (simp add: decimal_text_def Let_def digit_zero digits_nat_zeros_left)
  qed
qed

lemma decimal_text_digit: "\<exists>c cs. decimal_text mq = c # cs \<and> is_digit c"
proof -
  obtain m q where mq: "mq = (m, q)" by fastforce
  obtain c cs where ds: "dec_digits m = c # cs" "is_digit c"
    using dec_digits_nonempty [of m] dec_digits_all [of m] by (cases "dec_digits m") auto
  show ?thesis
    unfolding mq decimal_text_def Let_def
    by (auto simp: ds digit_zero take_Cons')
qed

lemma lower_digit:
  "is_digit c \<Longrightarrow> ascii_lower c = c \<and> c \<noteq> CHR ''i'' \<and> c \<noteq> CHR ''n'' \<and> c \<noteq> CHR ''-'' \<and> c \<noteq> CHR ''+''"
  by (auto simp: is_digit_def ascii_lower_def Let_def)

lemma parse_signed:
  assumes "t = c # cs" "is_digit c" "parse_number F neg t = Some v"
  shows "parse_fp F ((if neg then ''-'' else []) @ t) = Some v"
proof -
  have "parse_sign ((if neg then ''-'' else []) @ t) = (neg, t)"
    using assms(1) lower_digit [OF assms(2)] by simp
  with assms(1,3) lower_digit [OF assms(2)] show ?thesis by (simp add: parse_fp_def Let_def)
qed

text \<open>What is printed of a finite number is read back as the same bit pattern.\<close>

lemma parse_f32_to_text:
  assumes "f32_is_finite x"
  shows "parse_f32 (f32_to_text x) = Some x"
proof -
  obtain s k where v: "f32_val x = FFin s k"
    using assms by (cases "f32_val x") (auto simp: f32_is_finite_def)
  have ok: "repr 23 k" "k < flimit fmt32"
    using fp_ok_val(1) [of x] v by (simp_all add: fmt32_def)
  have "parse_fp fmt32 (f32_to_text x) = Some (FFin s k)"
  proof (cases "k = 0")
    case True
    have "parse_number fmt32 s ''0'' = Some (FFin s 0)"
      using parse_integer [of "''0''" fmt32 s] by (simp add: digit_zero digits_nat_def fp_make_def Let_def fmt32_def)
    with True v parse_signed [of "''0''" "CHR ''0''" "[]" fmt32 s] show ?thesis
      by (simp add: f32_to_text_def digit_zero)
  next
    case False
    obtain m q where mq: "shortest k = (m, q)" by fastforce
    with shortest_rounds [OF ok] have "rounds_back k m q" by simp
    then have "fp_make fmt32 s (m * funit fmt32 * 10 ^ nat (- q)) (10 ^ nat q) = FFin s k"
      unfolding rounds_back_def by (rule fp_make_sign)
    then have p: "parse_number fmt32 s (decimal_text (m, q)) = Some (FFin s k)"
      by (simp add: parse_decimal_text)
    obtain c cs where "decimal_text (m, q) = c # cs" "is_digit c"
      using decimal_text_digit by blast
    from parse_signed [OF this p] v mq False show ?thesis by (simp add: f32_to_text_def)
  qed
  moreover have "\<not> f32_is_nan x" using v by (simp add: f32_is_nan_def)
  ultimately show ?thesis using f32_of_val [of x] v by (simp add: parse_f32_def)
qed

end
