(* ===== verification/Settings_Db.thy ===== *)
theory Settings_Db
  imports Text_Float
begin

section \<open>The settings database\<close>

text \<open>
  \<^verbatim>\<open>crates/persistence\<close>: the SQLite tables of settings, bias seeds and device history, and the
  two stores the pipelines read and write through.

  A table is what its statements in \<^verbatim>\<open>db.rs\<close> and \<^verbatim>\<open>bias.rs\<close> make of it: a map from the primary
  key, or for the history, which is listed as a whole, the rows. SQLite itself decides
  only whether a statement runs, an argument of every operation: \<open>None\<close> when it does, or the
  text of the error, and then the table is as before. The \<^verbatim>\<open>updated\<close> columns are never read.
\<close>

subsection \<open>Tables\<close>

datatype persistence_error =
    Sqlite text_string
  | Migration text_string
  | IoFailed text_string
  | InvalidValue text_string text_string

fun persistence_error_text :: "persistence_error \<Rightarrow> text_string" where
  "persistence_error_text (Sqlite e) = ''sqlite: '' @ e"
| "persistence_error_text (Migration e) = ''migration: '' @ e"
| "persistence_error_text (IoFailed e) = ''io: '' @ e"
| "persistence_error_text (InvalidValue column reason) =
     ''invalid value for column '' @ column @ '': '' @ reason"

type_synonym sql_fault = "text_string option"

text \<open>A stored row may hold an address that is not six bytes, and the angle in double precision.\<close>

record stored_row =
  sr_mac :: bytes
  sr_serial :: text_string
  sr_kind :: text_string
  sr_last_seen :: u64
  sr_rotation :: f64

record device_history_row =
  hr_row_mac :: mac
  hr_row_serial :: text_string
  hr_row_kind :: text_string
  hr_row_last_seen :: u64
  hr_row_rotation :: f32

record database =
  db_settings :: "text_string \<Rightarrow> text_string option"
  db_bias :: "mac \<Rightarrow> (text_string \<times> bias) option"
  db_history :: "stored_row list"

definition db_empty :: database where
  "db_empty = \<lparr>db_settings = Map.empty, db_bias = Map.empty, db_history = []\<rparr>"

definition get_setting ::
  "sql_fault \<Rightarrow> text_string \<Rightarrow> database \<Rightarrow> persistence_error + text_string option" where
  "get_setting flt key db = (case flt of Some e \<Rightarrow> Inl (Sqlite e) | None \<Rightarrow> Inr (db_settings db key))"

definition set_setting ::
  "sql_fault \<Rightarrow> text_string \<Rightarrow> text_string \<Rightarrow> database \<Rightarrow> (persistence_error + unit) \<times> database" where
  "set_setting flt key v db =
     (case flt of
        Some e \<Rightarrow> (Inl (Sqlite e), db)
      | None \<Rightarrow> (Inr (), db\<lparr>db_settings := (db_settings db)(key \<mapsto> v)\<rparr>))"

definition history_row :: "stored_row \<Rightarrow> device_history_row option" where
  "history_row r =
     (if length (sr_mac r) \<noteq> 6 then None
      else Some \<lparr>hr_row_mac = sr_mac r, hr_row_serial = sr_serial r, hr_row_kind = sr_kind r,
        hr_row_last_seen = sr_last_seen r, hr_row_rotation = f32_of_f64 (sr_rotation r)\<rparr>)"

text \<open>The latest first; rows of one time in the order of the table, one SQLite may choose.\<close>

definition list_device_history ::
  "sql_fault \<Rightarrow> database \<Rightarrow> persistence_error + device_history_row list" where
  "list_device_history flt db =
     (case flt of
        Some e \<Rightarrow> Inl (Sqlite e)
      | None \<Rightarrow> Inr (List.map_filter history_row (sort_key (\<lambda>r. - sint (sr_last_seen r)) (db_history db))))"

definition upsert_device_history ::
  "sql_fault \<Rightarrow> mac \<Rightarrow> text_string \<Rightarrow> text_string \<Rightarrow> u64 \<Rightarrow> f32 \<Rightarrow> database
    \<Rightarrow> (persistence_error + unit) \<times> database" where
  "upsert_device_history flt m serial kind seen deg db =
     (let row = \<lparr>sr_mac = m, sr_serial = serial, sr_kind = kind, sr_last_seen = seen,
            sr_rotation = f64_of_f32 deg\<rparr>;
          known = (\<exists>r \<in> set (db_history db). sr_mac r = m)
      in case flt of
           Some e \<Rightarrow> (Inl (Sqlite e), db)
         | None \<Rightarrow> (Inr (), db\<lparr>db_history :=
             (if known then map (\<lambda>r. if sr_mac r = m then row else r) (db_history db)
              else db_history db @ [row])\<rparr>))"

subsection \<open>The settings store\<close>

text \<open>Errors are logged and read as an absent row; a poisoned angle is read as none.\<close>

definition rotation_key_for :: "device_id \<Rightarrow> text_string" where
  "rotation_key_for i = ''rotation_offset_deg:'' @ mac_key (id_mac i)"

definition sql_get :: "sql_fault \<Rightarrow> database \<Rightarrow> text_string \<Rightarrow> text_string option" where
  "sql_get flt db key = (case get_setting flt key db of Inr v \<Rightarrow> v | Inl _ \<Rightarrow> None)"

definition sql_set :: "sql_fault \<Rightarrow> database \<Rightarrow> text_string \<Rightarrow> text_string \<Rightarrow> database" where
  "sql_set flt db key v = snd (set_setting flt key v db)"

definition sql_get_rotation :: "sql_fault \<Rightarrow> database \<Rightarrow> device_id \<Rightarrow> f32" where
  "sql_get_rotation flt db i =
     (case Option.bind (sql_get flt db (rotation_key_for i)) parse_f32 of
        Some v \<Rightarrow> if f32_is_finite v then v else 0
      | None \<Rightarrow> 0)"

definition sql_set_rotation :: "sql_fault \<Rightarrow> database \<Rightarrow> device_id \<Rightarrow> f32 \<Rightarrow> database" where
  "sql_set_rotation flt db i deg =
     (if \<not> f32_is_finite deg then db
      else snd (set_setting flt (rotation_key_for i) (f32_to_text deg) db))"

subsection \<open>The bias store\<close>

text \<open>The row is found by the address alone; the serial number is only noted in it.\<close>

definition sql_load_bias :: "sql_fault \<Rightarrow> database \<Rightarrow> device_id \<Rightarrow> bias option" where
  "sql_load_bias flt db i =
     (case flt of None \<Rightarrow> map_option snd (db_bias db (id_mac i)) | Some _ \<Rightarrow> None)"

definition sql_store_bias :: "sql_fault \<Rightarrow> database \<Rightarrow> device_id \<Rightarrow> bias \<Rightarrow> database" where
  "sql_store_bias flt db i b =
     (if \<not> bias_finite b then db
      else case flt of
             Some _ \<Rightarrow> db
           | None \<Rightarrow> db\<lparr>db_bias := (db_bias db)(id_mac i \<mapsto> (id_serial i, b))\<rparr>)"

subsection \<open>Keys of different devices and settings differ\<close>

lemma hex_lower_inj: "hex02_lower a = hex02_lower b \<longleftrightarrow> a = b"
proof
  have d: "i = j" if "''0123456789abcdef'' ! i = ''0123456789abcdef'' ! j" "i < 16" "j < 16" for i j
    using that nth_eq_iff_index_eq [of "''0123456789abcdef''" i j] by simp
  assume e: "hex02_lower a = hex02_lower b"
  then have "unat a div 16 = unat b div 16" "unat a mod 16 = unat b mod 16"
    using unat_u8_less [of a] unat_u8_less [of b]
    by (auto simp: hex02_lower_def Let_def intro!: d)
  then have "unat a = unat b" by (metis div_mult_mod_eq)
  then show "a = b" by (simp add: word_unat_eq_iff)
qed simp

lemma length_hex_lower: "length (hex02_lower b) = 2"
  by (simp add: hex02_lower_def Let_def)

lemma mac_key_inj: "mac_key a = mac_key b \<longleftrightarrow> a = b"
proof
  show "mac_key a = mac_key b \<Longrightarrow> a = b"
  proof (induction a arbitrary: b)
    case Nil
    then show ?case by (cases b) (auto simp: mac_key_def hex02_lower_def Let_def)
  next
    case (Cons x a)
    then obtain y c where b: "b = y # c"
      by (cases b) (auto simp: mac_key_def hex02_lower_def Let_def)
    have "hex02_lower x = hex02_lower y" "mac_key a = mac_key c"
      using Cons.prems b by (auto simp: mac_key_def append_eq_append_conv length_hex_lower)
    with Cons.IH b show ?case by (simp add: hex_lower_inj)
  qed
qed simp

subsection \<open>Stores with a slot per device\<close>

text \<open>
  The contract of a store that files devices under a slot. With a slot per identity it is the
  contract of the traits; the database has a slot per address.
\<close>

locale slot_bias_store =
  fixes load :: "'s \<Rightarrow> device_id \<Rightarrow> bias option"
    and store :: "'s \<Rightarrow> device_id \<Rightarrow> bias \<Rightarrow> 's"
    and slot :: "device_id \<Rightarrow> 'k"
  assumes load_slot: "bias_finite b \<Longrightarrow> load (store s i b) j = (if slot j = slot i then Some b else load s j)"
    and slot_rejects: "\<not> bias_finite b \<Longrightarrow> load (store s i b) j = load s j"
begin

lemma load_slot_other: "slot j \<noteq> slot i \<Longrightarrow> load (store s i b) j = load s j"
  by (cases "bias_finite b") (simp_all add: load_slot slot_rejects)

lemma load_slot_after:
  "load (fold (\<lambda>(i, b) s. store s i b) ops s) i =
     (case map_of (rev (map (\<lambda>(j, b). (slot j, b)) (filter (\<lambda>(j, b). bias_finite b) ops))) (slot i) of
        Some b \<Rightarrow> Some b | None \<Rightarrow> load s i)"
  by (induction ops arbitrary: s)
    (auto simp: load_slot slot_rejects load_slot_other map_add_def split: option.splits if_splits)

end

locale slot_settings_store =
  fixes get_rot :: "'s \<Rightarrow> device_id \<Rightarrow> f32"
    and set_rot :: "'s \<Rightarrow> device_id \<Rightarrow> f32 \<Rightarrow> 's"
    and get_key :: "'s \<Rightarrow> text_string \<Rightarrow> text_string option"
    and set_key :: "'s \<Rightarrow> text_string \<Rightarrow> text_string \<Rightarrow> 's"
    and slot :: "device_id \<Rightarrow> 'k"
    and reserved :: "text_string \<Rightarrow> bool"
  assumes get_slot: "f32_is_finite d \<Longrightarrow> get_rot (set_rot s i d) j = (if slot j = slot i then d else get_rot s j)"
    and rot_rejects: "\<not> f32_is_finite d \<Longrightarrow> get_rot (set_rot s i d) j = get_rot s j"
    and rot_keeps: "\<not> reserved k \<Longrightarrow> get_rot (set_key s k v) j = get_rot s j"
    and get_key_set: "get_key (set_key s k v) k' = (if k' = k then Some v else get_key s k')"
    and key_keeps: "\<not> reserved k \<Longrightarrow> get_key (set_rot s i d) k = get_key s k"
begin

lemma rot_other: "slot j \<noteq> slot i \<Longrightarrow> get_rot (set_rot s i d) j = get_rot s j"
  by (cases "f32_is_finite d") (simp_all add: get_slot rot_rejects)

lemma rot_after:
  "get_rot (fold (\<lambda>(i, d) s. set_rot s i d) ops s) i =
     (case map_of (rev (map (\<lambda>(j, d). (slot j, d)) (filter (\<lambda>(j, d). f32_is_finite d) ops))) (slot i) of
        Some d \<Rightarrow> d | None \<Rightarrow> get_rot s i)"
  by (induction ops arbitrary: s)
    (auto simp: get_slot rot_rejects rot_other map_add_def split: option.splits if_splits)

lemma rot_after_keys:
  "\<forall>(k, v) \<in> set kvs. \<not> reserved k \<Longrightarrow>
     get_rot (fold (\<lambda>(k, v) s. set_key s k v) kvs s) i = get_rot s i"
  by (induction kvs arbitrary: s) (auto simp: rot_keeps)

end

sublocale bias_store \<subseteq> by_identity: slot_bias_store load store "\<lambda>i. i"
  by unfold_locales (simp_all add: load_store store_rejects)

sublocale settings_store \<subseteq> by_identity: slot_settings_store get_rot set_rot get_key set_key "\<lambda>i. i" "\<lambda>k. False"
  by unfold_locales (simp_all add: get_set_rot set_rot_rejects rot_key get_set_key key_rot)

definition rotation_key :: "text_string \<Rightarrow> bool" where
  "rotation_key k \<longleftrightarrow> take 20 k = ''rotation_offset_deg:''"

lemma rotation_key_for_key: "rotation_key (rotation_key_for i)"
  by (simp add: rotation_key_def rotation_key_for_def)

lemma sql_get_after: "sql_get None (sql_set None db k v) k' = (if k' = k then Some v else sql_get None db k')"
  by (simp add: sql_get_def sql_set_def get_setting_def set_setting_def)

lemma sql_set_rotation_key:
  "f32_is_finite d \<Longrightarrow> sql_set_rotation None db i d = sql_set None db (rotation_key_for i) (f32_to_text d)"
  by (simp add: sql_set_rotation_def sql_set_def)

interpretation sql_bias: slot_bias_store "sql_load_bias None" "sql_store_bias None" id_mac
  by unfold_locales (auto simp: sql_load_bias_def sql_store_bias_def)

interpretation sql_settings: slot_settings_store "sql_get_rotation None" "sql_set_rotation None"
  "sql_get None" "sql_set None" id_mac rotation_key
proof unfold_locales
  fix d db i j
  assume "f32_is_finite d"
  then show "sql_get_rotation None (sql_set_rotation None db i d) j =
      (if id_mac j = id_mac i then d else sql_get_rotation None db j)"
    by (simp add: sql_get_rotation_def sql_set_rotation_key sql_get_after parse_f32_to_text
        rotation_key_for_def mac_key_inj)
next
  fix k v db j
  assume "\<not> rotation_key k"
  then have "rotation_key_for j \<noteq> k" using rotation_key_for_key by blast
  then show "sql_get_rotation None (sql_set None db k v) j = sql_get_rotation None db j"
    by (simp add: sql_get_rotation_def sql_get_after)
next
  fix k db i d
  assume "\<not> rotation_key k"
  then have "rotation_key_for i \<noteq> k" using rotation_key_for_key by blast
  then show "sql_get None (sql_set_rotation None db i d) k = sql_get None db k"
    by (auto simp: sql_set_rotation_def sql_get_after [unfolded sql_set_def])
qed (simp_all add: sql_set_rotation_def sql_get_after)

subsection \<open>Properties\<close>

text \<open>
  Property C23. The database returns, for an address, the last finite bias stored under that
  address by any device, whatever its serial number, and the last finite angle exactly as it
  was given, although it was kept as text.
\<close>

theorem database_keeps_last_by_address:
  "sql_load_bias None (fold (\<lambda>(i, b) s. sql_store_bias None s i b) bs db_empty) i =
     map_of (rev (map (\<lambda>(j, b). (id_mac j, b)) (filter (\<lambda>(j, b). bias_finite b) bs))) (id_mac i)
   \<and> sql_get_rotation None (fold (\<lambda>(i, d) s. sql_set_rotation None s i d) ds db_empty) i =
     (case map_of (rev (map (\<lambda>(j, d). (id_mac j, d)) (filter (\<lambda>(j, d). f32_is_finite d) ds))) (id_mac i) of
        Some d \<Rightarrow> d | None \<Rightarrow> 0)"
proof
  have "sql_load_bias None db_empty i = None" by (simp add: sql_load_bias_def db_empty_def)
  then show "sql_load_bias None (fold (\<lambda>(i, b) s. sql_store_bias None s i b) bs db_empty) i =
     map_of (rev (map (\<lambda>(j, b). (id_mac j, b)) (filter (\<lambda>(j, b). bias_finite b) bs))) (id_mac i)"
    using sql_bias.load_slot_after [of bs db_empty i] by (simp split: option.splits)
  have "sql_get_rotation None db_empty i = 0"
    by (simp add: sql_get_rotation_def sql_get_def get_setting_def db_empty_def)
  then show "sql_get_rotation None (fold (\<lambda>(i, d) s. sql_set_rotation None s i d) ds db_empty) i =
     (case map_of (rev (map (\<lambda>(j, d). (id_mac j, d)) (filter (\<lambda>(j, d). f32_is_finite d) ds))) (id_mac i) of
        Some d \<Rightarrow> d | None \<Rightarrow> 0)"
    using sql_settings.rot_after [of ds db_empty i] by (simp cong: option.case_cong)
qed

end
