(* ===== verification/App_Commands.thy ===== *)
theory App_Commands
  imports Settings_Db Osc_Config
begin

section \<open>The commands of the desktop application\<close>

text \<open>
  \<^verbatim>\<open>apps/everything-imu-app/src/commands.rs\<close>: what the user interface calls. A command reads
  and writes the database and updates the running pipelines through the registry.

  A command is a function on the application's state that returns a value or an \<open>ipc_error\<close>.
  It runs as one step: the registry serialises its parts, and nothing else writes the
  settings. \<open>flt n\<close> says whether the \<open>n\<close>-th statement of the command fails in SQLite; what was
  written before it stays. Printing and parsing JSON is the \<^verbatim>\<open>serde_json\<close> crate's: \<open>print_cal\<close>
  and \<open>parse_cal\<close>.
\<close>

subsection \<open>State and sequencing\<close>

datatype ipc_error =
    NotFound
  | InvalidInput text_string
  | Internal text_string

record app =
  ap_state :: app_state
  ap_db :: database
  ap_haptic :: haptic_config
  ap_log :: "text_string list"
  ap_pulses :: "(nat \<times> mac) list"

type_synonym 'a cmd = "app \<Rightarrow> (ipc_error + 'a) \<times> app"
type_synonym sql_faults = "nat \<Rightarrow> sql_fault"

definition ipc_of_persistence :: "persistence_error \<Rightarrow> ipc_error" where
  "ipc_of_persistence e = Internal (persistence_error_text e)"

definition cmd_return :: "'a \<Rightarrow> 'a cmd" where
  "cmd_return x ap = (Inr x, ap)"

definition cmd_fail :: "ipc_error \<Rightarrow> 'a cmd" where
  "cmd_fail e ap = (Inl e, ap)"

definition cmd_bind :: "'a cmd \<Rightarrow> ('a \<Rightarrow> 'b cmd) \<Rightarrow> 'b cmd" where
  "cmd_bind c k ap = (case c ap of (Inl e, ap') \<Rightarrow> (Inl e, ap') | (Inr x, ap') \<Rightarrow> k x ap')"

definition cmd_then :: "'a cmd \<Rightarrow> 'b cmd \<Rightarrow> 'b cmd" where
  "cmd_then c k = cmd_bind c (\<lambda>_. k)"

definition db_read :: "sql_fault \<Rightarrow> text_string \<Rightarrow> text_string option cmd" where
  "db_read flt key ap =
     (case get_setting flt key (ap_db ap) of
        Inl e \<Rightarrow> (Inl (ipc_of_persistence e), ap)
      | Inr v \<Rightarrow> (Inr v, ap))"

definition db_write :: "sql_fault \<Rightarrow> text_string \<Rightarrow> text_string \<Rightarrow> unit cmd" where
  "db_write flt key v ap =
     (case set_setting flt key v (ap_db ap) of
        (Inl e, db) \<Rightarrow> (Inl (ipc_of_persistence e), ap\<lparr>ap_db := db\<rparr>)
      | (Inr _, db) \<Rightarrow> (Inr (), ap\<lparr>ap_db := db\<rparr>))"

text \<open>An operation of the registry; its answer is logged or dropped.\<close>

definition live :: "(app_state \<Rightarrow> 'b \<times> app_state) \<Rightarrow> 'b cmd" where
  "live f ap = (case f (ap_state ap) of (x, st) \<Rightarrow> (Inr x, ap\<lparr>ap_state := st\<rparr>))"

text \<open>The value of a setting or the default.\<close>

definition read_or :: "sql_fault \<Rightarrow> text_string \<Rightarrow> 'a \<Rightarrow> (text_string \<Rightarrow> 'a) \<Rightarrow> 'a cmd" where
  "read_or flt key d f =
     cmd_bind (db_read flt key) (\<lambda>v. cmd_return (case v of Some s \<Rightarrow> f s | None \<Rightarrow> d))"

definition or_default :: "'a \<Rightarrow> 'a option \<Rightarrow> 'a" where
  "or_default d x = (case x of Some v \<Rightarrow> v | None \<Rightarrow> d)"

definition filtered :: "('a \<Rightarrow> bool) \<Rightarrow> 'a option \<Rightarrow> 'a option" where
  "filtered p x = (case x of Some v \<Rightarrow> if p v then Some v else None | None \<Rightarrow> None)"

definition bool_text :: "bool \<Rightarrow> text_string" where
  "bool_text b = (if b then ''1'' else ''0'')"

definition is_on :: "text_string \<Rightarrow> bool" where
  "is_on s \<longleftrightarrow> s = ''1'' \<or> eq_ignore_ascii_case s ''true''"

definition key_of :: "text_string \<Rightarrow> mac \<Rightarrow> text_string" where
  "key_of name m = name @ CHR '':'' # mac_key m"

subsection \<open>Devices, history and general settings\<close>

definition list_devices :: "device_metadata list cmd" where
  "list_devices ap = (Inr (device_metadata_snapshot (ap_state ap)), ap)"

definition history_command :: "sql_fault \<Rightarrow> device_history_row list cmd" where
  "history_command flt ap =
     (case list_device_history flt (ap_db ap) of
        Inl e \<Rightarrow> (Inl (ipc_of_persistence e), ap)
      | Inr rows \<Rightarrow> (Inr rows, ap))"

record app_settings =
  as_server_addr :: text_string
  as_log_filter :: text_string
  as_theme :: text_string
  as_auto_start_synthetic :: bool
  as_close_to_tray :: bool
  as_auto_update :: bool
  as_auto_install :: bool
  as_crash_report :: bool

definition app_settings_default :: app_settings where
  "app_settings_default =
     \<lparr>as_server_addr = ''127.0.0.1:6969'', as_log_filter = ''info'', as_theme = ''dark'',
      as_auto_start_synthetic = False, as_close_to_tray = False, as_auto_update = True,
      as_auto_install = True, as_crash_report = False\<rparr>"

definition get_settings :: "sql_faults \<Rightarrow> app_settings cmd" where
  "get_settings flt =
     (let d = app_settings_default in
      cmd_bind (read_or (flt 0) ''slime_server_addr'' (as_server_addr d) (\<lambda>v. v)) (\<lambda>addr.
      cmd_bind (read_or (flt 1) ''log_filter'' (as_log_filter d) (\<lambda>v. v)) (\<lambda>log.
      cmd_bind (read_or (flt 2) ''theme'' (as_theme d) (\<lambda>v. v)) (\<lambda>theme.
      cmd_bind (read_or (flt 3) ''auto_start_synthetic'' (as_auto_start_synthetic d) (\<lambda>v. v = ''1'')) (\<lambda>synth.
      cmd_bind (read_or (flt 4) ''close_to_tray'' (as_close_to_tray d) (\<lambda>v. v = ''1'')) (\<lambda>tray.
      cmd_bind (read_or (flt 5) ''auto_update_on_startup'' (as_auto_update d) (\<lambda>v. v \<noteq> ''0'')) (\<lambda>update.
      cmd_bind (read_or (flt 6) ''auto_install_on_startup'' (as_auto_install d) (\<lambda>v. v \<noteq> ''0'')) (\<lambda>install.
      cmd_bind (read_or (flt 7) ''crash_report_enabled'' (as_crash_report d) (\<lambda>v. v = ''1'')) (\<lambda>crash.
      cmd_return \<lparr>as_server_addr = addr, as_log_filter = log, as_theme = theme,
        as_auto_start_synthetic = synth, as_close_to_tray = tray, as_auto_update = update,
        as_auto_install = install, as_crash_report = crash\<rparr>)))))))))"

definition set_setting_command :: "sql_fault \<Rightarrow> text_string \<Rightarrow> text_string \<Rightarrow> unit cmd" where
  "set_setting_command flt key v = db_write flt key v"

definition request_reset_command ::
  "(device_id \<Rightarrow> send_outcome \<times> u64) \<Rightarrow> mac \<Rightarrow> reset_kind \<Rightarrow> unit cmd" where
  "request_reset_command out m k ap =
     (case find (\<lambda>d. id_mac (md_id d) = m) (device_metadata_snapshot (ap_state ap)) of
        None \<Rightarrow> (Inl NotFound, ap)
      | Some _ \<Rightarrow> (Inr (), ap\<lparr>ap_state := request_reset out k (ap_state ap)\<rparr>))"

definition get_log_buffer :: "text_string list cmd" where
  "get_log_buffer ap = (Inr (ap_log ap), ap)"

text \<open>The synthetic supervisor that is then started is a run of its own.\<close>

definition restart_synthetic :: "u8 \<Rightarrow> unit cmd" where
  "restart_synthetic pool =
     (if pool = 0 then cmd_fail (InvalidInput ''count must be >= 1'')
      else live (\<lambda>st. ((), shutdown st)))"

definition set_emission_paused :: "bool \<Rightarrow> unit cmd" where
  "set_emission_paused b = live (\<lambda>st. ((), set_paused b st))"

definition get_emission_paused :: "bool cmd" where
  "get_emission_paused ap = (Inr (as_paused (ap_state ap)), ap)"

subsection \<open>Settings of a device\<close>

definition set_device_rotation_offset :: "sql_faults \<Rightarrow> mac \<Rightarrow> f32 \<Rightarrow> unit cmd" where
  "set_device_rotation_offset flt m deg =
     (if \<not> f32_is_finite deg then cmd_fail (InvalidInput ''non-finite degrees'')
      else cmd_then (db_write (flt 0) (key_of ''rotation_offset_deg'' m) (f32_to_text deg))
          (cmd_then (live (set_rotation_offset m deg)) (cmd_return ())))"

definition set_gyro_scale_command :: "sql_faults \<Rightarrow> mac \<Rightarrow> f32 \<Rightarrow> unit cmd" where
  "set_gyro_scale_command flt m scale =
     (if \<not> f32_is_finite scale \<or> scale \<le> 0
      then cmd_fail (InvalidInput ''gyro_scale must be finite and > 0'')
      else cmd_then (db_write (flt 0) (key_of ''gyro_scale'' m) (f32_to_text scale))
          (cmd_then (live (set_gyro_scale m scale)) (cmd_return ())))"

definition set_tracker_hidden :: "sql_faults \<Rightarrow> mac \<Rightarrow> bool \<Rightarrow> unit cmd" where
  "set_tracker_hidden flt m b = db_write (flt 0) (key_of ''tracker_hidden'' m) (bool_text b)"

definition i32_to_text :: "i32 \<Rightarrow> text_string" where
  "i32_to_text n =
     (let v = sint n in (if v < 0 then ''-'' else []) @ dec_digits (nat \<bar>v\<bar>))"

definition set_tracker_order :: "sql_faults \<Rightarrow> mac \<Rightarrow> i32 \<Rightarrow> unit cmd" where
  "set_tracker_order flt m n = db_write (flt 0) (key_of ''tracker_order'' m) (i32_to_text n)"

definition set_tracker_group :: "sql_faults \<Rightarrow> mac \<Rightarrow> text_string \<Rightarrow> unit cmd" where
  "set_tracker_group flt m name =
     (let trimmed = trim name in
      if length trimmed > 32 then cmd_fail (InvalidInput ''group too long (max 32 chars)'')
      else db_write (flt 0) (key_of ''tracker_group'' m) trimmed)"

definition set_tracker_label :: "sql_faults \<Rightarrow> mac \<Rightarrow> text_string \<Rightarrow> unit cmd" where
  "set_tracker_label flt m label =
     (let trimmed = trim label in
      if length trimmed > 64 then cmd_fail (InvalidInput ''label too long (max 64 chars)'')
      else db_write (flt 0) (key_of ''tracker_label'' m) trimmed)"

text \<open>Effective when the device next connects.\<close>

definition set_fusion_algo :: "sql_faults \<Rightarrow> mac \<Rightarrow> fusion_algo \<Rightarrow> unit cmd" where
  "set_fusion_algo flt m algo = db_write (flt 0) (key_of ''fusion_algo'' m) (algo_to_setting algo)"

definition set_mounting_command :: "sql_faults \<Rightarrow> mac \<Rightarrow> mounting \<Rightarrow> unit cmd" where
  "set_mounting_command flt m x =
     cmd_then (db_write (flt 0) (key_of ''mounting_orientation'' m) (mounting_to_setting x))
       (cmd_then (live (set_mounting_orientation m (mounting_from_setting (mounting_to_setting x))))
          (cmd_return ()))"

definition set_magnetometer_command :: "sql_faults \<Rightarrow> mac \<Rightarrow> bool \<Rightarrow> unit cmd" where
  "set_magnetometer_command flt m b =
     cmd_then (db_write (flt 0) (key_of ''magnetometer_enabled'' m) (bool_text b))
       (cmd_then (live (set_magnetometer_enabled m b)) (cmd_return ()))"

text \<open>\<^verbatim>\<open>str::parse::<i32>\<close>: an optional sign, then digits, in range.\<close>

definition parse_i32 :: "text_string \<Rightarrow> i32 option" where
  "parse_i32 s =
     (case (if s = ''-'' \<or> s = ''+'' then (False, s) else parse_sign s) of (neg, ds) \<Rightarrow>
        if ds = [] then None
        else case digits_radix 10 0 ds of
               None \<Rightarrow> None
             | Some n \<Rightarrow>
                 let v = (if neg then - int n else int n) in
                 if - (2 ^ 31) \<le> v \<and> v < 2 ^ 31 then Some (word_of_int v) else None)"

record per_device_settings =
  pd_fusion :: fusion_algo
  pd_mounting :: mounting
  pd_mag_enabled :: bool
  pd_rotation_offset :: f32
  pd_gyro_scale :: f32
  pd_label :: text_string
  pd_hidden :: bool
  pd_order :: i32
  pd_group :: text_string

definition get_per_device_settings :: "sql_faults \<Rightarrow> mac \<Rightarrow> per_device_settings cmd" where
  "get_per_device_settings flt m =
     cmd_bind (read_or (flt 0) (key_of ''fusion_algo'' m) AlgoVqf algo_from_setting) (\<lambda>fusion.
     cmd_bind (read_or (flt 1) (key_of ''mounting_orientation'' m) MountIdentity mounting_from_setting) (\<lambda>mounting.
     cmd_bind (read_or (flt 2) (key_of ''mag_cal'' m) False (\<lambda>s. s \<noteq> [])) (\<lambda>has_cal.
     cmd_bind (read_or (flt 3) (key_of ''magnetometer_enabled'' m) has_cal is_on) (\<lambda>mag_on.
     cmd_bind (db_read (flt 4) (key_of ''rotation_offset_deg'' m)) (\<lambda>rot.
     cmd_bind (db_read (flt 5) (key_of ''gyro_scale'' m)) (\<lambda>scale.
     cmd_bind (read_or (flt 6) (key_of ''tracker_label'' m) [] (\<lambda>s. s)) (\<lambda>label.
     cmd_bind (read_or (flt 7) (key_of ''tracker_hidden'' m) False (\<lambda>s. s = ''1'')) (\<lambda>hidden.
     cmd_bind (db_read (flt 8) (key_of ''tracker_order'' m)) (\<lambda>order.
     cmd_bind (read_or (flt 9) (key_of ''tracker_group'' m) [] (\<lambda>s. s)) (\<lambda>grp.
     cmd_return \<lparr>pd_fusion = fusion, pd_mounting = mounting, pd_mag_enabled = mag_on,
       pd_rotation_offset = or_default 0 (filtered f32_is_finite (Option.bind rot parse_f32)),
       pd_gyro_scale = or_default 1 (filtered positive_finite (Option.bind scale parse_f32)),
       pd_label = label, pd_hidden = hidden,
       pd_order = or_default 0 (Option.bind order parse_i32), pd_group = grp\<rparr>))))))))))"

subsection \<open>Outputs and rumble\<close>

record output_profile =
  op_led_mask :: u8
  op_rumble :: bool

definition parse_u8 :: "text_string \<Rightarrow> u8 option" where
  "parse_u8 s = map_option of_nat (from_str_radix 255 10 s)"

definition get_output_profile :: "sql_faults \<Rightarrow> mac \<Rightarrow> output_profile cmd" where
  "get_output_profile flt m =
     cmd_bind (db_read (flt 0) (key_of ''led_mask'' m)) (\<lambda>leds.
     cmd_bind (read_or (flt 1) (key_of ''rumble_enabled'' m) False is_on) (\<lambda>rumble.
     cmd_return \<lparr>op_led_mask = or_default 0 (Option.bind leds parse_u8), op_rumble = rumble\<rparr>))"

definition set_output_profile :: "sql_faults \<Rightarrow> mac \<Rightarrow> output_profile \<Rightarrow> bool \<Rightarrow> unit cmd" where
  "set_output_profile flt m p apply_now =
     cmd_then (db_write (flt 0) (key_of ''led_mask'' m) (dec_digits (unat (op_led_mask p))))
     (cmd_then (db_write (flt 1) (key_of ''rumble_enabled'' m) (bool_text (op_rumble p)))
       (if apply_now
        then cmd_then (live (set_led_mask m (op_led_mask p)))
          (cmd_then (live (set_device_rumble m (if op_rumble p then 1 else 0))) (cmd_return ()))
        else cmd_return ()))"

text \<open>
  A pulse starts the motor and leaves a task that stops it after the time, in milliseconds;
  \<open>pulse_over\<close> is the end of the \<open>n\<close>-th such task.
\<close>

definition test_rumble_at :: "mac \<Rightarrow> f32 \<Rightarrow> u32 \<Rightarrow> unit cmd" where
  "test_rumble_at m intensity ms =
     cmd_bind (live (set_device_rumble m (f32_clamp intensity 0 1))) (\<lambda>sent.
       if \<not> sent then cmd_return ()
       else (\<lambda>ap. (Inr (), ap\<lparr>ap_pulses := ap_pulses ap @ [(min (unat ms) 1500, m)]\<rparr>)))"

definition test_rumble :: "mac \<Rightarrow> u32 \<Rightarrow> unit cmd" where
  "test_rumble m ms = test_rumble_at m 1 ms"

definition pulse_over :: "nat \<Rightarrow> app \<Rightarrow> app" where
  "pulse_over n ap =
     (if n < length (ap_pulses ap)
      then ap\<lparr>ap_state := snd (set_device_rumble (snd (ap_pulses ap ! n)) 0 (ap_state ap)),
              ap_pulses := take n (ap_pulses ap) @ drop (Suc n) (ap_pulses ap)\<rparr>
      else ap)"

record haptic_calibration =
  hcal_floor :: f32
  hcal_gain :: f32

definition haptic_calibration_default :: haptic_calibration where
  "haptic_calibration_default = \<lparr>hcal_floor = 0, hcal_gain = 1\<rparr>"

definition finite_between :: "f32 \<Rightarrow> f32 \<Rightarrow> f32 \<Rightarrow> bool" where
  "finite_between lo hi v \<longleftrightarrow> f32_is_finite v \<and> lo \<le> v \<and> v \<le> hi"

definition get_haptic_calibration :: "sql_faults \<Rightarrow> mac \<Rightarrow> haptic_calibration cmd" where
  "get_haptic_calibration flt m =
     cmd_bind (db_read (flt 0) (key_of ''haptic_floor'' m)) (\<lambda>fl.
     cmd_bind (db_read (flt 1) (key_of ''haptic_gain'' m)) (\<lambda>gn.
     cmd_return
       \<lparr>hcal_floor = or_default 0 (filtered (finite_between 0 1) (Option.bind fl parse_f32)),
        hcal_gain = or_default 1 (filtered (finite_between 0 (f32_of_int 4)) (Option.bind gn parse_f32))\<rparr>))"

definition set_haptic_calibration :: "sql_faults \<Rightarrow> mac \<Rightarrow> haptic_calibration \<Rightarrow> unit cmd" where
  "set_haptic_calibration flt m cal =
     (if \<not> finite_between 0 1 (hcal_floor cal) then cmd_fail (InvalidInput ''floor must be in [0, 1]'')
      else if \<not> finite_between 0 (f32_of_int 4) (hcal_gain cal)
      then cmd_fail (InvalidInput ''gain must be in [0, 4]'')
      else cmd_then (db_write (flt 0) (key_of ''haptic_floor'' m) (f32_to_text (hcal_floor cal)))
          (db_write (flt 1) (key_of ''haptic_gain'' m) (f32_to_text (hcal_gain cal))))"

end
