(* ===== verification/App_Telemetry.thy ===== *)
theory App_Telemetry
  imports App_Commands
begin

section \<open>Calibration, telemetry and diagnosis commands\<close>

text \<open>
  The rest of \<^verbatim>\<open>commands.rs\<close>: the calibration wizard, the magnetometer calibration, telemetry,
  the connection status and the doctor; and \<^verbatim>\<open>tracker_emitter.rs\<close>, which turns the snapshots
  of the registry into the events of the user interface. The arc tangent is the argument
  \<open>atan2\<close>; what hidapi, Bluetooth and the socket answered to the doctor is a \<open>doctor_probe\<close>.
\<close>

subsection \<open>The calibration wizard\<close>

definition vec_norm3 :: "f32 vec3 \<Rightarrow> f32" where
  "vec_norm3 v = (case v of (x, y, z) \<Rightarrow> f32_sqrt (x * x + y * y + z * z))"

text \<open>\<^verbatim>\<open>f32::to_degrees\<close> multiplies by 57.2957795130823208767981548141051703.\<close>

definition F32_DEGREES :: f32 where
  "F32_DEGREES = f32_lit 572957795130823208767981548141051703 10000000000000000000000000000000000"

definition yaw_deg_from_quat :: "(f32 \<Rightarrow> f32 \<Rightarrow> f32) \<Rightarrow> f32 quat \<Rightarrow> f32" where
  "yaw_deg_from_quat atan2 q =
     (case q of (x, y, z, w) \<Rightarrow>
        let siny = f32_of_int 2 * (w * y + x * z);
            cosy = 1 - f32_of_int 2 * (y * y + z * z)
        in atan2 siny cosy * F32_DEGREES)"

definition suggested_mounting :: "f32 vec3 \<Rightarrow> mounting" where
  "suggested_mounting acc =
     (case acc of (x, y, z) \<Rightarrow>
        if \<bar>x\<bar> \<le> \<bar>z\<bar> \<and> \<bar>y\<bar> \<le> \<bar>z\<bar> then (if z < 0 then UpsideDown else MountIdentity)
        else if \<bar>y\<bar> \<le> \<bar>x\<bar> then (if 0 < x then LeftSide else RightSide)
        else if 0 < y then FacingForward else FacingBack)"

record wizard_status =
  ws_mounting :: mounting
  ws_rotation_offset :: f32
  ws_accel_norm :: f32
  ws_gyro_norm :: f32
  ws_sample_age_ms :: u64

definition get_calibration_wizard_status ::
  "(f32 \<Rightarrow> f32 \<Rightarrow> f32) \<Rightarrow> mac \<Rightarrow> wizard_status cmd" where
  "get_calibration_wizard_status atan2 m ap =
     (case find (\<lambda>(i, s). id_mac i = m) (latest_sample_snapshot (ap_state ap)) of
        None \<Rightarrow> (Inl NotFound, ap)
      | Some (i, s) \<Rightarrow>
          let q = or_default quat_identity (map_of (latest_quat_snapshot (ap_state ap)) i) in
          (Inr \<lparr>ws_mounting = suggested_mounting (ss_acc s),
             ws_rotation_offset = - yaw_deg_from_quat atan2 q,
             ws_accel_norm = vec_norm3 (ss_acc s), ws_gyro_norm = vec_norm3 (ss_gyr s),
             ws_sample_age_ms = ss_elapsed_ms s\<rparr>, ap))"

definition apply_calibration_wizard ::
  "sql_faults \<Rightarrow> mac \<Rightarrow> mounting \<Rightarrow> f32 \<Rightarrow> bool \<Rightarrow> unit cmd" where
  "apply_calibration_wizard flt m x deg mag_on =
     (if \<not> f32_is_finite deg then cmd_fail (InvalidInput ''non-finite degrees'')
      else cmd_then (db_write (flt 0) (key_of ''mounting_orientation'' m) (mounting_to_setting x))
          (cmd_then (db_write (flt 1) (key_of ''rotation_offset_deg'' m) (f32_to_text deg))
          (cmd_then (db_write (flt 2) (key_of ''magnetometer_enabled'' m) (bool_text mag_on))
          (cmd_then (live (set_mounting_orientation m (mounting_from_setting (mounting_to_setting x))))
          (cmd_then (live (set_rotation_offset m deg))
          (cmd_then (live (set_magnetometer_enabled m mag_on)) (cmd_return ())))))))"

subsection \<open>Magnetometer calibration\<close>

definition start_mag_command :: "platform \<Rightarrow> mac \<Rightarrow> bool cmd" where
  "start_mag_command pf m = live (start_mag_calibration pf m)"

definition cancel_mag_command :: "platform \<Rightarrow> mac \<Rightarrow> bool cmd" where
  "cancel_mag_command pf m = live (cancel_mag_calibration pf m)"

text \<open>The message has a dash between its two parts.\<close>

definition mag_fit_failed :: text_string where
  "mag_fit_failed = ''magnetometer calibration fit failed '' @ map byte_char [0xE2, 0x80, 0x94]
     @ '' rotate the device through more orientations and try again''"

definition finish_mag_command ::
  "(mag_calibration \<Rightarrow> text_string + text_string) \<Rightarrow> platform \<Rightarrow> bool \<Rightarrow> bool \<Rightarrow> sql_faults \<Rightarrow> mac
    \<Rightarrow> mag_calibration cmd" where
  "finish_mag_command print_cal pf race timely flt m =
     cmd_bind (live (finish_mag_calibration pf race timely m)) (\<lambda>r.
       case r of
         None \<Rightarrow> cmd_fail (Internal mag_fit_failed)
       | Some cal \<Rightarrow>
           (case print_cal cal of
              Inl e \<Rightarrow> cmd_fail (Internal e)
            | Inr json \<Rightarrow>
                cmd_then (db_write (flt 0) (key_of ''mag_cal'' m) json)
                (cmd_then (db_write (flt 1) (key_of ''magnetometer_enabled'' m) ''1'')
                (cmd_then (live (set_mag_calibration m (Some cal)))
                (cmd_then (live (set_magnetometer_enabled m True)) (cmd_return cal))))))"

definition get_mag_cal_progress :: "mac \<Rightarrow> mag_cal_progress cmd" where
  "get_mag_cal_progress m ap = (Inr (or_default progress_default (mag_cal_progress_of m (ap_state ap))), ap)"

definition get_mag_calibration ::
  "(text_string \<Rightarrow> mag_calibration option) \<Rightarrow> sql_faults \<Rightarrow> mac \<Rightarrow> mag_calibration option cmd" where
  "get_mag_calibration parse_cal flt m =
     cmd_bind (db_read (flt 0) (key_of ''mag_cal'' m)) (\<lambda>v. cmd_return (Option.bind v parse_cal))"

definition clear_mag_calibration :: "sql_faults \<Rightarrow> mac \<Rightarrow> unit cmd" where
  "clear_mag_calibration flt m =
     cmd_then (db_write (flt 0) (key_of ''mag_cal'' m) [])
       (cmd_then (live (set_mag_calibration m None)) (cmd_return ()))"

subsection \<open>Telemetry\<close>

record advanced_telemetry =
  at_mac :: mac
  at_serial :: text_string
  at_rate :: f32
  at_battery :: f32
  at_gyro_norm :: f32
  at_accel_norm :: f32
  at_mag_norm :: "f32 option"
  at_bias :: bias
  at_orientation :: "f32 quat"
  at_sample_age_ms :: u64

definition telemetry_of :: "app_state \<Rightarrow> device_metadata \<Rightarrow> advanced_telemetry" where
  "telemetry_of st d =
     (let i = md_id d;
          s = or_default sample_snapshot_default (map_of (latest_sample_snapshot st) i)
      in \<lparr>at_mac = id_mac i, at_serial = id_serial i,
          at_rate = or_default 0 (map_of (latest_rate_snapshot st) i),
          at_battery = or_default f32_nan (map_of (latest_battery_snapshot st) i),
          at_gyro_norm = vec_norm3 (ss_gyr s), at_accel_norm = vec_norm3 (ss_acc s),
          at_mag_norm = map_option vec_norm3 (ss_mag s),
          at_bias = or_default (0, 0, 0) (map_of (latest_bias_snapshot st) i),
          at_orientation = or_default quat_identity (map_of (latest_quat_snapshot st) i),
          at_sample_age_ms = ss_elapsed_ms s\<rparr>)"

definition get_advanced_telemetry :: "advanced_telemetry list cmd" where
  "get_advanced_telemetry ap =
     (Inr (map (telemetry_of (ap_state ap)) (device_metadata_snapshot (ap_state ap))), ap)"

record connection_status =
  cs_server_addr :: text_string
  cs_supports_bundle :: bool
  cs_packets_sent :: u64
  cs_last_send_ago :: "u64 option"
  cs_last_handshake_ago :: "u64 option"

definition ms_ago :: "u64 \<Rightarrow> u64 \<Rightarrow> u64 option" where
  "ms_ago now t = (if t = 0 then None else Some (saturating_sub now t))"

definition connection_status_of :: "u64 \<Rightarrow> text_string \<Rightarrow> client_stats \<Rightarrow> connection_status" where
  "connection_status_of now addr s =
     \<lparr>cs_server_addr = addr, cs_supports_bundle = st_supports_bundle s,
      cs_packets_sent = st_packets_sent s, cs_last_send_ago = ms_ago now (st_last_send s),
      cs_last_handshake_ago = ms_ago now (st_last_handshake s)\<rparr>"

definition get_connection_status :: "sql_faults \<Rightarrow> u64 \<Rightarrow> connection_status cmd" where
  "get_connection_status flt now =
     cmd_bind (live (\<lambda>st. (aggregated_stats st, st))) (\<lambda>s.
     cmd_bind (read_or (flt 0) ''slime_server_addr'' ''127.0.0.1:6969'' (\<lambda>v. v)) (\<lambda>addr.
     cmd_return (connection_status_of now addr s)))"

subsection \<open>Events of the user interface\<close>

record tracker_entry =
  ts_mac :: mac
  ts_serial :: text_string
  ts_quat :: "f32 quat"
  ts_battery :: f32
  ts_rate :: f32

definition tracker_update :: "app_state \<Rightarrow> tracker_entry list" where
  "tracker_update st =
     map (\<lambda>d. let i = md_id d in
       \<lparr>ts_mac = id_mac i, ts_serial = id_serial i,
        ts_quat = or_default (0, 0, 0, 1) (map_of (latest_quat_snapshot st) i),
        ts_battery = or_default f32_nan (map_of (latest_battery_snapshot st) i),
        ts_rate = or_default 0 (map_of (latest_rate_snapshot st) i)\<rparr>)
       (device_metadata_snapshot st)"

definition is_low_battery :: "tracker_entry \<Rightarrow> bool" where
  "is_low_battery t \<longleftrightarrow> f32_is_finite (ts_battery t) \<and> 0 < ts_battery t \<and> ts_battery t < f32_lit 15 100"

definition low_battery_count :: "tracker_entry list \<Rightarrow> nat" where
  "low_battery_count ts = length (filter is_low_battery ts)"

text \<open>An update without an entry is not emitted.\<close>

definition non_empty :: "'a list \<Rightarrow> 'a list option" where
  "non_empty xs = (if xs = [] then None else Some xs)"

definition imu_sample_update :: "app_state \<Rightarrow> (mac \<times> sample_snapshot) list option" where
  "imu_sample_update st =
     non_empty (List.map_filter
       (\<lambda>d. map_option (Pair (id_mac (md_id d))) (map_of (latest_sample_snapshot st) (md_id d)))
       (device_metadata_snapshot st))"

definition bias_update :: "app_state \<Rightarrow> (mac \<times> bias) list option" where
  "bias_update st =
     non_empty (List.map_filter
       (\<lambda>d. map_option (Pair (id_mac (md_id d))) (map_of (latest_bias_snapshot st) (md_id d)))
       (device_metadata_snapshot st))"

definition latency_update :: "app_state \<Rightarrow> (mac \<times> latency_snapshot) list option" where
  "latency_update st =
     non_empty (List.map_filter
       (\<lambda>d. map_option (Pair (id_mac (md_id d)))
          (filtered (\<lambda>s. samples_window s \<noteq> 0) (map_of (latest_latency_snapshot st) (md_id d))))
       (device_metadata_snapshot st))"

text \<open>Here an error of the database is passed over.\<close>

definition connection_update :: "sql_fault \<Rightarrow> u64 \<Rightarrow> app \<Rightarrow> connection_status" where
  "connection_update flt now ap =
     connection_status_of now (or_default ''127.0.0.1:6969'' (sql_get flt (ap_db ap) ''slime_server_addr''))
       (aggregated_stats (ap_state ap))"

subsection \<open>The doctor\<close>

datatype doctor_status = Pass | Warn | Fail

record doctor_check =
  dc_name :: text_string
  dc_status :: doctor_status
  dc_message :: text_string

record doctor_report =
  dr_server_addr :: text_string
  dr_checks :: "doctor_check list"
  dr_overall :: doctor_status

datatype udp_answer =
    BadAddress text_string
  | BindError text_string
  | ConnectError text_string
  | SendError text_string
  | Accepted text_string

record doctor_probe =
  dp_nintendo :: nat
  dp_jc2 :: nat
  dp_pads :: nat
  dp_moves :: nat
  dp_decks :: nat
  dp_ctrls :: nat
  dp_udp :: "text_string \<Rightarrow> udp_answer"

fun severity :: "doctor_status \<Rightarrow> nat" where
  "severity Pass = 0"
| "severity Warn = 1"
| "severity Fail = 2"

definition bump :: "doctor_status \<Rightarrow> doctor_status \<Rightarrow> doctor_status" where
  "bump s current = (if severity current < severity s then s else current)"

definition paired_check :: "doctor_probe \<Rightarrow> doctor_check" where
  "paired_check p =
     (let total = dp_nintendo p + dp_jc2 p + dp_pads p + dp_moves p + dp_decks p + dp_ctrls p in
      \<lparr>dc_name = ''Paired devices'', dc_status = (if total = 0 then Warn else Pass),
       dc_message =
         (if total = 0 then ''No paired controllers visible. Check Bluetooth pairing.''
          else dec_digits total @ '' controller(s) visible (jc1-hid='' @ dec_digits (dp_nintendo p)
            @ '', jc2-ble='' @ dec_digits (dp_jc2 p) @ '', sony-pad='' @ dec_digits (dp_pads p)
            @ '', ps-move='' @ dec_digits (dp_moves p) @ '', steam-deck='' @ dec_digits (dp_decks p)
            @ '', steam-ctrl='' @ dec_digits (dp_ctrls p) @ '')'')\<rparr>)"

definition udp_check :: "text_string \<Rightarrow> udp_answer \<Rightarrow> doctor_check" where
  "udp_check addr a =
     (case (case a of
        BadAddress e \<Rightarrow> (Fail, ''Invalid server address `'' @ addr @ ''`: '' @ e)
      | BindError e \<Rightarrow> (Fail, ''UDP bind failed: '' @ e)
      | ConnectError e \<Rightarrow> (Fail, ''UDP connect failed: '' @ e)
      | SendError e \<Rightarrow> (Fail, ''UDP send failed: '' @ e)
      | Accepted shown \<Rightarrow> (Pass, ''UDP send to '' @ shown @ '' accepted'')) of
        (s, msg) \<Rightarrow> \<lparr>dc_name = ''UDP socket'', dc_status = s, dc_message = msg\<rparr>)"

definition persistence_check :: "persistence_error + text_string option \<Rightarrow> doctor_check" where
  "persistence_check r =
     (case (case r of
        Inr _ \<Rightarrow> (Pass, ''Persistence DB reachable'')
      | Inl e \<Rightarrow> (Fail, ''Persistence DB error: '' @ persistence_error_text e)) of
        (s, msg) \<Rightarrow> \<lparr>dc_name = ''Persistence'', dc_status = s, dc_message = msg\<rparr>)"

definition doctor :: "doctor_probe \<Rightarrow> sql_faults \<Rightarrow> doctor_report cmd" where
  "doctor p flt =
     cmd_bind (read_or (flt 0) ''slime_server_addr'' ''127.0.0.1:6969'' (\<lambda>v. v)) (\<lambda>addr ap.
       let paired = paired_check p; udp = udp_check addr (dp_udp p addr);
           db = persistence_check (get_setting (flt 1) ''__noop__'' (ap_db ap));
           overall = bump (dc_status db) (bump (dc_status udp) (bump (dc_status paired) Pass))
       in (Inr \<lparr>dr_server_addr = addr,
             dr_checks = [paired, udp,
               \<lparr>dc_name = ''hidapi'', dc_status = Pass, dc_message = ''hidapi singleton initialized''\<rparr>, db],
             dr_overall = overall\<rparr>, ap))"

end
