(* ===== verification/App_Haptics.thy ===== *)
theory App_Haptics
  imports App_Commands
begin

section \<open>Haptic rules and network targets in the application\<close>

text \<open>
  \<^verbatim>\<open>apps/everything-imu-app/src/haptics.rs\<close>, the rules of the OSC bridge as the user interface
  sees them, with addresses as hexadecimal text, and \<^verbatim>\<open>udp_haptic.rs\<close>, the list of receivers
  on the network. Both are kept as JSON texts in the settings; printing and parsing
  JSON is the \<^verbatim>\<open>serde_json\<close> crate's and a parameter.
\<close>

subsection \<open>Addresses as text\<close>

definition mac_to_hex :: "mac \<Rightarrow> text_string" where
  "mac_to_hex m = concat (map hex02_lower m)"

text \<open>
  A slice of a string panics when an end is inside a character, that is, before a continuation
  byte. \<open>Panic\<close> is that outcome.
\<close>

datatype 'a outcome = Panic | Returns 'a

definition char_boundary :: "text_string \<Rightarrow> nat \<Rightarrow> bool" where
  "char_boundary s n \<longleftrightarrow>
     n = 0 \<or> n = length s \<or> (n < length s \<and> \<not> in_range 0x80 0xBF (char_byte (s ! n)))"

definition str_slice :: "text_string \<Rightarrow> nat \<Rightarrow> nat \<Rightarrow> text_string outcome" where
  "str_slice s a b =
     (if a \<le> b \<and> char_boundary s a \<and> char_boundary s b then Returns (take (b - a) (drop a s)) else Panic)"

fun parse_mac_from :: "text_string \<Rightarrow> nat list \<Rightarrow> mac option outcome" where
  "parse_mac_from s [] = Returns (Some [])"
| "parse_mac_from s (i # is) =
     (case str_slice s (i * 2) (i * 2 + 2) of
        Panic \<Rightarrow> Panic
      | Returns t \<Rightarrow>
          (case from_str_radix 255 16 t of
             None \<Rightarrow> Returns None
           | Some b \<Rightarrow>
               (case parse_mac_from s is of
                  Returns (Some bs) \<Rightarrow> Returns (Some (of_nat b # bs))
                | r \<Rightarrow> r)))"

definition parse_mac :: "text_string \<Rightarrow> mac option outcome" where
  "parse_mac s = (if length s \<noteq> 12 then Returns None else parse_mac_from s [0..<6])"

subsection \<open>The rules of the bridge\<close>

record haptic_rule_dto =
  hd_address :: text_string
  hd_device_mac :: text_string
  hd_mode :: haptic_mode

record haptic_config_dto =
  hd_enabled :: bool
  hd_port :: u16
  hd_rules :: "haptic_rule_dto list"

definition config_to_dto :: "haptic_config \<Rightarrow> haptic_config_dto" where
  "config_to_dto c =
     \<lparr>hd_enabled = hc_enabled c, hd_port = hc_port c,
      hd_rules = map (\<lambda>r. \<lparr>hd_address = hr_address r, hd_device_mac = mac_to_hex (hr_mac r),
        hd_mode = hr_mode r\<rparr>) (hc_rules c)\<rparr>"

fun rules_of_dto :: "haptic_rule_dto list \<Rightarrow> haptic_rule list outcome" where
  "rules_of_dto [] = Returns []"
| "rules_of_dto (r # rs) =
     (case parse_mac (hd_device_mac r) of
        Panic \<Rightarrow> Panic
      | Returns m \<Rightarrow>
          (case rules_of_dto rs of
             Panic \<Rightarrow> Panic
           | Returns out \<Rightarrow>
               Returns (case m of
                  None \<Rightarrow> out
                | Some a \<Rightarrow> \<lparr>hr_address = hd_address r, hr_mac = a, hr_mode = hd_mode r\<rparr> # out)))"

definition dto_to_config :: "haptic_config_dto \<Rightarrow> haptic_config outcome" where
  "dto_to_config d =
     (case rules_of_dto (hd_rules d) of
        Panic \<Rightarrow> Panic
      | Returns rs \<Rightarrow> Returns \<lparr>hc_enabled = hd_enabled d, hc_port = hd_port d, hc_rules = rs\<rparr>)"

definition CONFIG_KEY :: text_string where
  "CONFIG_KEY = ''haptic_config''"

definition load_config :: "(text_string \<Rightarrow> haptic_config option) \<Rightarrow> sql_fault \<Rightarrow> database \<Rightarrow> haptic_config" where
  "load_config parse flt db = or_default default_config (Option.bind (sql_get flt db CONFIG_KEY) parse)"

definition get_haptic_config ::
  "(text_string \<Rightarrow> haptic_config option) \<Rightarrow> sql_faults \<Rightarrow> haptic_config_dto cmd" where
  "get_haptic_config parse flt ap = (Inr (config_to_dto (load_config parse (flt 0) (ap_db ap))), ap)"

text \<open>The running bridge watches \<^const>\<open>ap_haptic\<close>; a panic ends the command before anything is written.\<close>

definition set_haptic_config ::
  "(haptic_config \<Rightarrow> text_string + text_string) \<Rightarrow> sql_faults \<Rightarrow> haptic_config_dto \<Rightarrow> app
    \<Rightarrow> ((ipc_error + unit) \<times> app) outcome" where
  "set_haptic_config print flt d ap =
     (case dto_to_config d of
        Panic \<Rightarrow> Panic
      | Returns c \<Rightarrow>
          Returns
            (case print c of
               Inl e \<Rightarrow> (Inl (Internal e), ap)
             | Inr json \<Rightarrow>
                 cmd_then (db_write (flt 0) CONFIG_KEY json)
                   (\<lambda>ap. (Inr (), ap\<lparr>ap_haptic := c\<rparr>)) ap))"

subsection \<open>Network targets\<close>

record udp_target =
  ut_mac :: mac
  ut_alias :: text_string
  ut_host :: text_string
  ut_port :: u16

definition FRAME_MAGIC :: u8 where "FRAME_MAGIC = 0xE1"
definition FRAME_VERSION :: u8 where "FRAME_VERSION = 1"

definition UDP_FNV_OFFSET :: u64 where "UDP_FNV_OFFSET = 0xcbf29ce484222325"
definition UDP_FNV_PRIME :: u64 where "UDP_FNV_PRIME = 0x00000100000001b3"

definition udp_fnv1a_64 :: "bytes \<Rightarrow> u64" where
  "udp_fnv1a_64 bs = foldl (\<lambda>h b. (h XOR ucast b) * UDP_FNV_PRIME) UDP_FNV_OFFSET bs"

definition synth_mac :: "text_string \<Rightarrow> u16 \<Rightarrow> mac" where
  "synth_mac host port =
     0x02 # take 5 (to_le (udp_fnv1a_64 (as_bytes (''udp:'' @ host @ '':'' @ dec_digits (unat port)))))"

text \<open>The level in fifteen bits; the cast to 16 bits saturates and takes a NaN to 0.\<close>

definition haptic_frame :: "f32 \<Rightarrow> u16 \<Rightarrow> bytes" where
  "haptic_frame intensity duration_ms =
     (let clamped = f32_clamp intensity 0 1;
          q = (of_nat (f32_to_nat (2 ^ 16 - 1) (f32_round (clamped * f32_of_int 32767))) :: u16)
      in [FRAME_MAGIC, FRAME_VERSION] @ to_le q @ to_le duration_ms @ [0, 0])"

fun upsert_target :: "udp_target \<Rightarrow> udp_target list \<Rightarrow> udp_target list" where
  "upsert_target t [] = [t]"
| "upsert_target t (x # xs) = (if ut_mac x = ut_mac t then t # xs else x # upsert_target t xs)"

definition retain_targets :: "mac \<Rightarrow> udp_target list \<Rightarrow> udp_target list" where
  "retain_targets m = filter (\<lambda>t. ut_mac t \<noteq> m)"

definition find_target :: "mac \<Rightarrow> udp_target list \<Rightarrow> udp_target option" where
  "find_target m = find (\<lambda>t. ut_mac t = m)"

text \<open>The registry in memory, which nothing in the application creates.\<close>

record udp_registry =
  ur_inner :: "udp_target list"

definition registry_list :: "udp_registry \<Rightarrow> udp_target list" where
  "registry_list g = ur_inner g"

definition registry_set_all :: "udp_target list \<Rightarrow> udp_registry \<Rightarrow> udp_registry" where
  "registry_set_all ts g = g\<lparr>ur_inner := ts\<rparr>"

definition registry_upsert :: "udp_target \<Rightarrow> udp_registry \<Rightarrow> udp_registry" where
  "registry_upsert t g = g\<lparr>ur_inner := upsert_target t (ur_inner g)\<rparr>"

definition registry_remove :: "mac \<Rightarrow> udp_registry \<Rightarrow> bool \<times> udp_registry" where
  "registry_remove m g =
     (let after = retain_targets m (ur_inner g) in (length after < length (ur_inner g), g\<lparr>ur_inner := after\<rparr>))"

definition registry_find :: "mac \<Rightarrow> udp_registry \<Rightarrow> udp_target option" where
  "registry_find m g = find_target m (ur_inner g)"

subsection \<open>The commands on the saved list\<close>

record target_json =
  tj_parse :: "text_string \<Rightarrow> udp_target list option"
  tj_print :: "udp_target list \<Rightarrow> text_string option"

definition TARGETS_KEY :: text_string where
  "TARGETS_KEY = ''udp_haptic_targets''"

definition load_targets :: "target_json \<Rightarrow> sql_fault \<Rightarrow> udp_target list cmd" where
  "load_targets js flt =
     cmd_bind (db_read flt TARGETS_KEY) (\<lambda>v. cmd_return (or_default [] (tj_parse js (or_default [] v))))"

definition save_targets :: "target_json \<Rightarrow> sql_fault \<Rightarrow> udp_target list \<Rightarrow> unit cmd" where
  "save_targets js flt ts = db_write flt TARGETS_KEY (or_default [] (tj_print js ts))"

definition udp_haptic_list :: "target_json \<Rightarrow> sql_faults \<Rightarrow> udp_target list cmd" where
  "udp_haptic_list js flt = load_targets js (flt 0)"

definition udp_haptic_upsert ::
  "target_json \<Rightarrow> sql_faults \<Rightarrow> text_string \<Rightarrow> text_string \<Rightarrow> u16 \<Rightarrow> udp_target cmd" where
  "udp_haptic_upsert js flt alias host port =
     (let t = \<lparr>ut_mac = synth_mac host port, ut_alias = alias, ut_host = host, ut_port = port\<rparr> in
      cmd_bind (load_targets js (flt 0)) (\<lambda>ts.
      cmd_then (save_targets js (flt 1) (upsert_target t ts)) (cmd_return t)))"

definition udp_haptic_remove :: "target_json \<Rightarrow> sql_faults \<Rightarrow> mac \<Rightarrow> unit cmd" where
  "udp_haptic_remove js flt m =
     cmd_bind (load_targets js (flt 0)) (\<lambda>ts. save_targets js (flt 1) (retain_targets m ts))"

text \<open>\<open>send\<close> resolves the host, opens a socket and sends the frame.\<close>

definition udp_haptic_test ::
  "(udp_target \<Rightarrow> bytes \<Rightarrow> text_string + unit) \<Rightarrow> target_json \<Rightarrow> sql_faults \<Rightarrow> mac \<Rightarrow> f32 \<Rightarrow> u16 \<Rightarrow> unit cmd" where
  "udp_haptic_test send js flt m intensity duration_ms =
     cmd_bind (load_targets js (flt 0)) (\<lambda>ts.
       case find_target m ts of
         None \<Rightarrow> cmd_fail NotFound
       | Some t \<Rightarrow>
           (case send t (haptic_frame intensity duration_ms) of
              Inl e \<Rightarrow> cmd_fail (Internal e)
            | Inr _ \<Rightarrow> cmd_return ()))"

subsection \<open>Lemmas\<close>

definition hex_ok :: "nat \<Rightarrow> bool" where
  "hex_ok n \<longleftrightarrow> digit_of (''0123456789abcdef'' ! n) = Some n
     \<and> \<not> in_range 0x80 0xBF (char_byte (''0123456789abcdef'' ! n)) \<and> ''0123456789abcdef'' ! n \<noteq> CHR ''+''"

lemma hex_lower_digit: "n < 16 \<Longrightarrow> hex_ok n"
proof -
  have "list_all hex_ok [0..<16]" by code_simp
  then show "n < 16 \<Longrightarrow> ?thesis" by (simp add: list_all_iff)
qed

lemma hex_pair:
  obtains c d where "hex02_lower x = [c, d]" "\<not> in_range 0x80 0xBF (char_byte c)"
    "\<not> in_range 0x80 0xBF (char_byte d)" "from_str_radix 255 16 [c, d] = Some (unat x)"
proof
  let ?h = "\<lambda>n. ''0123456789abcdef'' ! n"
  have n: "unat x div 16 < 16" "unat x mod 16 < 16" "unat x \<le> 255" using unat_u8_less [of x] by simp_all
  note d = hex_lower_digit [OF n(1), unfolded hex_ok_def] hex_lower_digit [OF n(2), unfolded hex_ok_def]
  show "hex02_lower x = [?h (unat x div 16), ?h (unat x mod 16)]"
    by (simp only: hex02_lower_def Let_def)
  show "\<not> in_range 0x80 0xBF (char_byte (?h (unat x div 16)))"
    "\<not> in_range 0x80 0xBF (char_byte (?h (unat x mod 16)))" using d by blast+
  have "16 * (unat x div 16) + unat x mod 16 = unat x" by simp
  then show "from_str_radix 255 16 [?h (unat x div 16), ?h (unat x mod 16)] = Some (unat x)"
    unfolding from_str_radix_def Let_def using d n not_sym [of "CHR ''+''"] by (auto simp del: nth_Cons_numeral)
qed

lemma parse_mac_to_hex:
  assumes "length m = 6"
  shows "parse_mac (mac_to_hex m) = Returns (Some m)"
proof -
  obtain x1 x2 x3 x4 x5 x6 where m: "m = [x1, x2, x3, x4, x5, x6]"
    using assms by (auto simp: length_Suc_conv numeral_eq_Suc)
  obtain c1 d1 where 1: "hex02_lower x1 = [c1, d1]" "\<not> in_range 0x80 0xBF (char_byte c1)"
    "from_str_radix 255 16 [c1, d1] = Some (unat x1)" by (rule hex_pair)
  obtain c2 d2 where 2: "hex02_lower x2 = [c2, d2]" "\<not> in_range 0x80 0xBF (char_byte c2)"
    "from_str_radix 255 16 [c2, d2] = Some (unat x2)" by (rule hex_pair)
  obtain c3 d3 where 3: "hex02_lower x3 = [c3, d3]" "\<not> in_range 0x80 0xBF (char_byte c3)"
    "from_str_radix 255 16 [c3, d3] = Some (unat x3)" by (rule hex_pair)
  obtain c4 d4 where 4: "hex02_lower x4 = [c4, d4]" "\<not> in_range 0x80 0xBF (char_byte c4)"
    "from_str_radix 255 16 [c4, d4] = Some (unat x4)" by (rule hex_pair)
  obtain c5 d5 where 5: "hex02_lower x5 = [c5, d5]" "\<not> in_range 0x80 0xBF (char_byte c5)"
    "from_str_radix 255 16 [c5, d5] = Some (unat x5)" by (rule hex_pair)
  obtain c6 d6 where 6: "hex02_lower x6 = [c6, d6]" "\<not> in_range 0x80 0xBF (char_byte c6)"
    "from_str_radix 255 16 [c6, d6] = Some (unat x6)" by (rule hex_pair)
  have u: "[0..<6] = [0, 1, 2, 3, 4, 5 :: nat]" by (simp add: upt_conv_Cons)
  show ?thesis
    unfolding m parse_mac_def mac_to_hex_def u
    by (simp add: 1 2 3 4 5 6 str_slice_def char_boundary_def)
qed

lemma ascii_boundary: "list_all (\<lambda>c. char_byte c < 0x80) s \<Longrightarrow> n \<le> length s \<Longrightarrow> char_boundary s n"
  by (auto simp: char_boundary_def list_all_length in_range_def not_le)

lemma parse_mac_from_ascii:
  "list_all (\<lambda>c. char_byte c < 0x80) s \<Longrightarrow> \<forall>i \<in> set is. i * 2 + 2 \<le> length s \<Longrightarrow> parse_mac_from s is \<noteq> Panic"
  by (induction "is") (auto simp: str_slice_def ascii_boundary split: option.split outcome.split)

subsection \<open>Properties\<close>

text \<open>Four Euro signs, twelve bytes.\<close>

definition euro_signs :: text_string where
  "euro_signs = map byte_char
     [0xE2, 0x82, 0xAC, 0xE2, 0x82, 0xAC, 0xE2, 0x82, 0xAC, 0xE2, 0x82, 0xAC]"

lemma euro_signs_panic: "parse_mac euro_signs = Panic" "valid_text euro_signs"
proof -
  have "[0..<6] = [0, 1, 2, 3, 4, 5 :: nat]" by (simp add: upt_conv_Cons)
  then show "parse_mac euro_signs = Panic"
    by (simp add: parse_mac_def euro_signs_def str_slice_def char_boundary_def in_range_def)
  show "valid_text euro_signs"
    by (simp add: valid_text_def euro_signs_def as_bytes_def utf8_conts_def in_range_def)
qed

lemma rules_of_dto_roundtrip:
  "list_all (\<lambda>r. length (hr_mac r) = 6) rs \<Longrightarrow>
     rules_of_dto (map (\<lambda>r. \<lparr>hd_address = hr_address r, hd_device_mac = mac_to_hex (hr_mac r), hd_mode = hr_mode r\<rparr>) rs)
       = Returns rs"
  by (induction rs) (simp_all add: parse_mac_to_hex)

lemma dto_roundtrip:
  "list_all (\<lambda>r. length (hr_mac r) = 6) (hc_rules c) \<Longrightarrow> dto_to_config (config_to_dto c) = Returns c"
  by (simp add: dto_to_config_def config_to_dto_def rules_of_dto_roundtrip)

lemma rules_of_dto_panic:
  "r \<in> set rs \<Longrightarrow> hd_device_mac r = euro_signs \<Longrightarrow> rules_of_dto rs = Panic"
  by (induction rs) (auto simp: euro_signs_panic split: outcome.split)


definition euro_config :: haptic_config_dto where
  "euro_config = \<lparr>hd_enabled = True, hd_port = 9001,
     hd_rules = [\<lparr>hd_address = ''/a'', hd_device_mac = euro_signs, hd_mode = Pulse 100\<rparr>]\<rparr>"


text \<open>
  The rules a user sees are the rules that are saved and the rules the running
  bridge follows: what the page shows of a configuration and sends back is stored, given to
  the bridge, and shown again, unchanged, if the JSON text reads back; no other setting changes.
\<close>

theorem haptic_rules_saved_and_live:
  assumes "list_all (\<lambda>r. length (hr_mac r) = 6) (hc_rules c)" "print c = Inr json" "parse json = Some c"
  shows "set_haptic_config print (\<lambda>_. None) (config_to_dto c) ap =
      Returns (Inr (), ap\<lparr>ap_db := sql_set None (ap_db ap) CONFIG_KEY json, ap_haptic := c\<rparr>)
    \<and> load_config parse None (sql_set None (ap_db ap) CONFIG_KEY json) = c
    \<and> get_haptic_config parse (\<lambda>_. None) (ap\<lparr>ap_db := sql_set None (ap_db ap) CONFIG_KEY json\<rparr>) =
      (Inr (config_to_dto c), ap\<lparr>ap_db := sql_set None (ap_db ap) CONFIG_KEY json\<rparr>)"
proof -
  have l: "load_config parse None (sql_set None (ap_db ap) CONFIG_KEY json) = c"
    using assms(3) by (simp add: load_config_def sql_get_after or_default_def)
  then show ?thesis
    using assms by (simp add: set_haptic_config_def dto_roundtrip get_haptic_config_def
      cmd_then_def cmd_bind_def db_write_def sql_set_def split: prod.split sum.split)
      (simp add: set_setting_def)
qed

definition one_rule :: haptic_config where
  "one_rule = \<lparr>hc_enabled = True, hc_port = 9001,
     hc_rules = [\<lparr>hr_address = ''/a'', hr_mac = [1, 2, 3, 4, 5, 6], hr_mode = Pulse 100\<rparr>]\<rparr>"

theorem haptic_rules_saved_and_live_witness:
  "\<forall>ap :: app. load_config (\<lambda>s. if s = ''x'' then Some one_rule else None) None
     (sql_set None (ap_db ap) CONFIG_KEY ''x'') = one_rule"
  by (intro allI haptic_rules_saved_and_live [where print = "\<lambda>_. Inr ''x''", THEN conjunct2, THEN conjunct1])
    (simp_all add: one_rule_def)

subsection \<open>The list of targets refines a map\<close>

datatype target_op = Upsert text_string text_string u16 | RemoveTarget mac

definition target_of :: "text_string \<Rightarrow> text_string \<Rightarrow> u16 \<Rightarrow> udp_target" where
  "target_of alias host port = \<lparr>ut_mac = synth_mac host port, ut_alias = alias, ut_host = host, ut_port = port\<rparr>"

fun target_command :: "target_json \<Rightarrow> target_op \<Rightarrow> app \<Rightarrow> app" where
  "target_command js (Upsert alias host port) ap = snd (udp_haptic_upsert js (\<lambda>_. None) alias host port ap)"
| "target_command js (RemoveTarget m) ap = snd (udp_haptic_remove js (\<lambda>_. None) m ap)"

fun target_map :: "target_op \<Rightarrow> (mac \<Rightarrow> udp_target option) \<Rightarrow> mac \<Rightarrow> udp_target option" where
  "target_map (Upsert alias host port) f = f(synth_mac host port \<mapsto> target_of alias host port)"
| "target_map (RemoveTarget m) f = f(m := None)"

lemma find_upsert:
  "find_target m (upsert_target t ts) = (if m = ut_mac t then Some t else find_target m ts)"
  by (induction ts) (auto simp: find_target_def)

lemma find_retain: "find_target m (retain_targets k ts) = (if m = k then None else find_target m ts)"
  by (induction ts) (auto simp: find_target_def retain_targets_def)

lemma macs_upsert:
  "distinct (map ut_mac ts) \<Longrightarrow> distinct (map ut_mac (upsert_target t ts))
     \<and> ut_mac ` set (upsert_target t ts) = insert (ut_mac t) (ut_mac ` set ts)"
  by (induction ts) auto

definition saved_targets :: "target_json \<Rightarrow> app \<Rightarrow> udp_target list" where
  "saved_targets js ap = or_default [] (tj_parse js (or_default [] (sql_get None (ap_db ap) TARGETS_KEY)))"

definition reads_back :: "target_json \<Rightarrow> udp_target list \<Rightarrow> bool" where
  "reads_back js ts \<longleftrightarrow> Option.bind (tj_print js ts) (tj_parse js) = Some ts"

fun target_list :: "target_op \<Rightarrow> udp_target list \<Rightarrow> udp_target list" where
  "target_list (Upsert alias host port) = upsert_target (target_of alias host port)"
| "target_list (RemoveTarget m) = retain_targets m"

lemma command_saves:
  assumes "reads_back js (target_list op (saved_targets js ap))"
  shows "saved_targets js (target_command js op ap) = target_list op (saved_targets js ap)"
proof -
  have l: "load_targets js None ap = (Inr (saved_targets js ap), ap)" for ap
    by (simp add: load_targets_def saved_targets_def cmd_bind_def cmd_return_def db_read_def
        get_setting_def sql_get_def)
  have w: "save_targets js None ts ap = (Inr (), ap\<lparr>ap_db := sql_set None (ap_db ap) TARGETS_KEY (or_default [] (tj_print js ts))\<rparr>)"
    for ts ap
    by (simp add: save_targets_def db_write_def set_setting_def sql_set_def)
  have r: "saved_targets js (ap\<lparr>ap_db := sql_set None db TARGETS_KEY (or_default [] (tj_print js ts))\<rparr>) = ts"
    if "reads_back js ts" for ts db
    using that by (cases "tj_print js ts")
      (simp_all add: saved_targets_def sql_get_after or_default_def reads_back_def)
  show ?thesis
    using assms by (cases op)
      (simp_all add: udp_haptic_upsert_def udp_haptic_remove_def cmd_bind_def cmd_then_def
        cmd_return_def l w r target_of_def Let_def)
qed

lemma run_saves:
  assumes "\<And>n. n < length ops \<Longrightarrow> reads_back js (fold target_list (take (Suc n) ops) (saved_targets js ap))"
  shows "saved_targets js (fold (target_command js) ops ap) = fold target_list ops (saved_targets js ap)"
  using assms
proof (induction ops rule: rev_induct)
  case (snoc op ops)
  have "reads_back js (fold target_list (take (Suc n) ops) (saved_targets js ap))" if "n < length ops" for n
    using snoc.prems [of n] that by simp
  with snoc.IH have ih: "saved_targets js (fold (target_command js) ops ap) = fold target_list ops (saved_targets js ap)"
    by simp
  with snoc.prems [of "length ops"]
  have "reads_back js (target_list op (saved_targets js (fold (target_command js) ops ap)))" by simp
  from command_saves [OF this] ih show ?case by simp
qed simp

lemma list_refines_map:
  assumes "distinct (map ut_mac ts)"
  shows "(\<lambda>m. find_target m (fold target_list ops ts)) = fold target_map ops (\<lambda>m. find_target m ts)
    \<and> distinct (map ut_mac (fold target_list ops ts))"
  using assms
proof (induction ops arbitrary: ts)
  case (Cons op ops)
  have "distinct (map ut_mac (target_list op ts))"
    using Cons.prems macs_upsert by (cases op) (auto simp: retain_targets_def distinct_map_filter)
  moreover have "(\<lambda>m. find_target m (target_list op ts)) = target_map op (\<lambda>m. find_target m ts)"
    by (cases op) (auto simp: find_upsert find_retain target_of_def)
  ultimately show ?case using Cons.IH [of "target_list op ts"] by simp
qed simp

text \<open>
  The saved list of network targets refines a map from the address made of host
  and port: adding an endpoint again replaces its entry, removing it leaves the others, no
  address is listed twice, and the list that is read is the map, whatever commands came before,
  as long as the JSON texts read back.
\<close>

theorem targets_refine_map:
  assumes "sql_get None (ap_db ap) TARGETS_KEY = None" "tj_parse js [] = None"
    and "\<And>n. n < length ops \<Longrightarrow> reads_back js (fold target_list (take (Suc n) ops) [])"
  shows "let ts = saved_targets js (fold (target_command js) ops ap) in
    (\<lambda>m. find_target m ts) = fold target_map ops Map.empty \<and> distinct (map ut_mac ts)"
proof -
  have e: "saved_targets js ap = []"
    using assms(1,2) by (simp add: saved_targets_def or_default_def)
  have "(\<lambda>m. find_target m []) = Map.empty" by (simp add: find_target_def)
  with run_saves [of ops js ap] assms(3) list_refines_map [of "[]" ops] show ?thesis
    by (simp add: e Let_def)
qed

definition one_target_json :: target_json where
  "one_target_json =
     \<lparr>tj_parse = (\<lambda>s. if s = ''x'' then Some [target_of ''a'' ''h'' 1] else None),
      tj_print = (\<lambda>ts. Some ''x'')\<rparr>"

theorem targets_refine_map_witness:
  "let ts = saved_targets one_target_json (fold (target_command one_target_json) [Upsert ''a'' ''h'' 1]
       \<lparr>ap_state = app_new, ap_db = db_empty, ap_haptic = default_config, ap_log = [], ap_pulses = []\<rparr>) in
    (\<lambda>m. find_target m ts) = fold target_map [Upsert ''a'' ''h'' 1] Map.empty \<and> distinct (map ut_mac ts)"
  by (rule targets_refine_map)
    (simp_all add: sql_get_def get_setting_def db_empty_def one_target_json_def reads_back_def)

end
