(* ===== verification/Settings_Props.thy ===== *)
theory Settings_Props
  imports App_Telemetry App_Haptics
begin

section \<open>What the commands promise\<close>

text \<open>
  The properties of the application's commands: a setting is what the next pipeline of the
  device starts from, the running pipelines and the database agree, and what the
  settings page shows is what is used.
\<close>

subsection \<open>The configuration the database stands for\<close>

definition saved_config ::
  "(text_string \<Rightarrow> mag_calibration option) \<Rightarrow> database \<Rightarrow> device_id \<Rightarrow> pipeline_config" where
  "saved_config parse_cal db =
     pipeline_config_from_settings parse_cal (sql_get None db) (sql_get_rotation None db)"

datatype setting_op =
    OpRotation f32
  | OpGyro f32
  | OpMounting mounting
  | OpMagnetometer bool
  | OpFusion fusion_algo
  | OpWizard mounting f32 bool

fun op_command :: "setting_op \<Rightarrow> sql_faults \<Rightarrow> mac \<Rightarrow> unit cmd" where
  "op_command (OpRotation d) flt m = set_device_rotation_offset flt m d"
| "op_command (OpGyro x) flt m = set_gyro_scale_command flt m x"
| "op_command (OpMounting x) flt m = set_mounting_command flt m x"
| "op_command (OpMagnetometer b) flt m = set_magnetometer_command flt m b"
| "op_command (OpFusion a) flt m = set_fusion_algo flt m a"
| "op_command (OpWizard x d b) flt m = apply_calibration_wizard flt m x d b"

fun op_valid :: "setting_op \<Rightarrow> bool" where
  "op_valid (OpRotation d) = f32_is_finite d"
| "op_valid (OpGyro x) = positive_finite x"
| "op_valid (OpWizard x d b) = f32_is_finite d"
| "op_valid _ = True"

fun op_effect :: "setting_op \<Rightarrow> pipeline_config \<Rightarrow> pipeline_config" where
  "op_effect (OpRotation d) c = c\<lparr>pc_rotation_offset := d\<rparr>"
| "op_effect (OpGyro x) c = c\<lparr>pc_gyro_scale := x\<rparr>"
| "op_effect (OpMounting x) c = c\<lparr>pc_mounting := x\<rparr>"
| "op_effect (OpMagnetometer b) c = c\<lparr>pc_mag_enabled := b\<rparr>"
| "op_effect (OpFusion a) c = c\<lparr>pc_fusion := a\<rparr>"
| "op_effect (OpWizard x d b) c = c\<lparr>pc_mounting := x, pc_rotation_offset := d, pc_mag_enabled := b\<rparr>"

lemma setting_texts:
  "algo_from_setting (algo_to_setting a) = a" "mounting_from_setting (mounting_to_setting x) = x"
  by (cases a; simp add: algo_from_setting_def) (cases x; simp add: mounting_from_setting_def)

definition with_setting :: "text_string \<Rightarrow> text_string \<Rightarrow> database \<Rightarrow> database" where
  "with_setting k v db = db\<lparr>db_settings := (db_settings db)(k \<mapsto> v)\<rparr>"

lemma write_ok: "db_write None k v ap = (Inr (), ap\<lparr>ap_db := with_setting k v (ap_db ap)\<rparr>)"
  by (simp add: db_write_def set_setting_def with_setting_def)

lemma write_failed: "db_write (Some e) k v ap = (Inl (Internal (''sqlite: '' @ e)), ap)"
  by (simp add: db_write_def set_setting_def ipc_of_persistence_def)

lemma sql_get_with: "sql_get None (with_setting k v db) k' = (if k' = k then Some v else sql_get None db k')"
  by (simp add: sql_get_def get_setting_def with_setting_def)

lemma read_ok: "db_read None k ap = (Inr (sql_get None (ap_db ap) k), ap)"
  by (simp add: db_read_def get_setting_def sql_get_def)

lemmas cmd_simps = cmd_bind_def cmd_then_def cmd_return_def cmd_fail_def write_ok write_failed read_ok
  live_def read_or_def

lemma key_of_inj:
  assumes "CHR '':'' \<notin> set a" "CHR '':'' \<notin> set b"
  shows "key_of a m = key_of b n \<longleftrightarrow> a = b \<and> m = n"
proof -
  have t: "takeWhile (\<lambda>c. c \<noteq> CHR '':'') (key_of x k) = x"
    "dropWhile (\<lambda>c. c \<noteq> CHR '':'') (key_of x k) = CHR '':'' # mac_key k"
    if "CHR '':'' \<notin> set x" for x k
    using that by (auto simp: key_of_def takeWhile_append dropWhile_append)
  show ?thesis
    using t [OF assms(1), of m] t [OF assms(2), of n] by (metis list.inject mac_key_inj)
qed

lemma keys:
  "''mag_cal:'' @ mac_key m = key_of ''mag_cal'' m"
  "''fusion_algo:'' @ mac_key m = key_of ''fusion_algo'' m"
  "''mounting_orientation:'' @ mac_key m = key_of ''mounting_orientation'' m"
  "''magnetometer_enabled:'' @ mac_key m = key_of ''magnetometer_enabled'' m"
  "''gyro_scale:'' @ mac_key m = key_of ''gyro_scale'' m"
  "''rotation_offset_deg:'' @ mac_key m = key_of ''rotation_offset_deg'' m"
  by (simp_all add: key_of_def)

text \<open>The configuration of a device, from its rows.\<close>

definition config_of_rows ::
  "(text_string \<Rightarrow> mag_calibration option) \<Rightarrow> (text_string \<Rightarrow> text_string option) \<Rightarrow> pipeline_config" where
  "config_of_rows parse_cal row =
     (let cal = Option.bind (row ''mag_cal'') parse_cal
      in \<lparr>pc_fusion = (case row ''fusion_algo'' of Some s \<Rightarrow> algo_from_setting s | None \<Rightarrow> AlgoVqf),
          pc_mounting = (case row ''mounting_orientation'' of
            Some s \<Rightarrow> mounting_from_setting s | None \<Rightarrow> MountIdentity),
          pc_mag_enabled = (case row ''magnetometer_enabled'' of Some s \<Rightarrow> is_on s | None \<Rightarrow> cal \<noteq> None),
          pc_rotation_offset = or_default 0 (filtered f32_is_finite (Option.bind (row ''rotation_offset_deg'') parse_f32)),
          pc_gyro_scale = or_default 1 (filtered positive_finite (Option.bind (row ''gyro_scale'') parse_f32)),
          pc_mag_cal = cal\<rparr>)"

lemma or_filtered:
  "or_default d (filtered p x) = (case x of Some v \<Rightarrow> if p v then v else d | None \<Rightarrow> d)"
  by (simp add: or_default_def filtered_def split: option.split)

lemma saved_config_rows:
  "saved_config pc db i = config_of_rows pc (\<lambda>name. sql_get None db (key_of name (id_mac i)))"
  unfolding saved_config_def pipeline_config_from_settings_def config_of_rows_def Let_def
    sql_get_rotation_def rotation_key_for_def keys or_filtered is_on_def ..

lemma rows_with_setting:
  "CHR '':'' \<notin> set name \<Longrightarrow>
     saved_config pc (with_setting (key_of name m) v db) i =
       config_of_rows pc (\<lambda>n. if CHR '':'' \<notin> set n \<and> n = name \<and> id_mac i = m then Some v
         else sql_get None db (key_of n (id_mac i)))"
  unfolding saved_config_rows config_of_rows_def Let_def
  by (simp add: sql_get_with key_of_inj cong: option.case_cong)

lemma bool_text_on: "is_on (bool_text b) = b"
  by (simp add: is_on_def bool_text_def eq_ignore_ascii_case_def)

lemmas saved_simps = saved_config_rows config_of_rows_def Let_def
  setting_texts bool_text_on parse_f32_to_text or_filtered

lemma saved_rotation:
  "f32_is_finite d \<Longrightarrow>
     saved_config pc (with_setting (key_of ''rotation_offset_deg'' m) (f32_to_text d) db) i =
       (if id_mac i = m then (saved_config pc db i)\<lparr>pc_rotation_offset := d\<rparr> else saved_config pc db i)"
  by (subst rows_with_setting) (simp_all add: saved_simps cong: option.case_cong)

lemma saved_gyro:
  "positive_finite x \<Longrightarrow>
     saved_config pc (with_setting (key_of ''gyro_scale'' m) (f32_to_text x) db) i =
       (if id_mac i = m then (saved_config pc db i)\<lparr>pc_gyro_scale := x\<rparr> else saved_config pc db i)"
  by (subst rows_with_setting) (simp_all add: saved_simps positive_finite_def cong: option.case_cong)

lemma saved_mounting:
  "saved_config pc (with_setting (key_of ''mounting_orientation'' m) (mounting_to_setting x) db) i =
     (if id_mac i = m then (saved_config pc db i)\<lparr>pc_mounting := x\<rparr> else saved_config pc db i)"
  by (subst rows_with_setting) (simp_all add: saved_simps cong: option.case_cong)

lemma saved_magnetometer:
  "saved_config pc (with_setting (key_of ''magnetometer_enabled'' m) (bool_text b) db) i =
     (if id_mac i = m then (saved_config pc db i)\<lparr>pc_mag_enabled := b\<rparr> else saved_config pc db i)"
  by (subst rows_with_setting) (simp_all add: saved_simps cong: option.case_cong)

lemma saved_fusion:
  "saved_config pc (with_setting (key_of ''fusion_algo'' m) (algo_to_setting a) db) i =
     (if id_mac i = m then (saved_config pc db i)\<lparr>pc_fusion := a\<rparr> else saved_config pc db i)"
  by (subst rows_with_setting) (simp_all add: saved_simps cong: option.case_cong)

lemmas saved_writes = saved_rotation saved_gyro saved_mounting saved_magnetometer saved_fusion


lemma gyro_guard: "f32_is_finite x \<Longrightarrow> x \<le> 0 \<longleftrightarrow> \<not> positive_finite x"
  by (cases "f32_val x")
    (auto simp: f32_is_finite_def positive_finite_def less_f32_def less_eq_f32_def fp_le_def
      f32_val_0 sgn_int_def)

lemma gyro_valid: "\<not> (\<not> f32_is_finite x \<or> x \<le> 0) \<longleftrightarrow> positive_finite x"
  using gyro_guard by (auto simp: positive_finite_def)

subsection \<open>What a command leaves behind\<close>

text \<open>The state after a command, when no statement fails.\<close>

fun op_writes :: "setting_op \<Rightarrow> mac \<Rightarrow> (text_string \<times> text_string) list" where
  "op_writes (OpRotation d) m = [(key_of ''rotation_offset_deg'' m, f32_to_text d)]"
| "op_writes (OpGyro x) m = [(key_of ''gyro_scale'' m, f32_to_text x)]"
| "op_writes (OpMounting x) m = [(key_of ''mounting_orientation'' m, mounting_to_setting x)]"
| "op_writes (OpMagnetometer b) m = [(key_of ''magnetometer_enabled'' m, bool_text b)]"
| "op_writes (OpFusion a) m = [(key_of ''fusion_algo'' m, algo_to_setting a)]"
| "op_writes (OpWizard x d b) m =
     [(key_of ''mounting_orientation'' m, mounting_to_setting x),
      (key_of ''rotation_offset_deg'' m, f32_to_text d),
      (key_of ''magnetometer_enabled'' m, bool_text b)]"

fun op_live :: "setting_op \<Rightarrow> mac \<Rightarrow> app_state \<Rightarrow> app_state" where
  "op_live (OpRotation d) m st = snd (set_rotation_offset m d st)"
| "op_live (OpGyro x) m st = snd (set_gyro_scale m x st)"
| "op_live (OpMounting x) m st = snd (set_mounting_orientation m x st)"
| "op_live (OpMagnetometer b) m st = snd (set_magnetometer_enabled m b st)"
| "op_live (OpFusion a) m st = st"
| "op_live (OpWizard x d b) m st =
     snd (set_magnetometer_enabled m b (snd (set_rotation_offset m d (snd (set_mounting_orientation m x st)))))"

definition written :: "(text_string \<times> text_string) list \<Rightarrow> database \<Rightarrow> database" where
  "written kvs db = fold (\<lambda>(k, v). with_setting k v) kvs db"

text \<open>A statement of a wizard that fails after another has run leaves half of the settings.\<close>

fun op_atomic :: "setting_op \<Rightarrow> sql_faults \<Rightarrow> bool" where
  "op_atomic (OpWizard x d b) flt \<longleftrightarrow> flt 0 \<noteq> None \<or> flt 1 = None \<and> flt 2 = None"
| "op_atomic _ flt \<longleftrightarrow> True"

definition op_runs :: "setting_op \<Rightarrow> sql_faults \<Rightarrow> bool" where
  "op_runs op flt \<longleftrightarrow> op_valid op \<and> flt 0 = None"

lemma gyro_command:
  "set_gyro_scale_command flt m x =
     (if positive_finite x
      then cmd_then (db_write (flt 0) (key_of ''gyro_scale'' m) (f32_to_text x))
          (cmd_then (live (set_gyro_scale m x)) (cmd_return ()))
      else cmd_fail (InvalidInput ''gyro_scale must be finite and > 0''))"
  using gyro_valid [of x] by (auto simp: set_gyro_scale_command_def)

lemma op_command_outcome:
  assumes "op_atomic op flt"
  shows "snd (op_command op flt m ap) =
    (if op_runs op flt
     then ap\<lparr>ap_db := written (op_writes op m) (ap_db ap), ap_state := op_live op m (ap_state ap)\<rparr>
     else ap)"
proof (cases "flt 0")
  case None
  then show ?thesis
    using assms
    by (cases op)
      (simp_all add: op_runs_def set_device_rotation_offset_def gyro_command
        set_mounting_command_def set_magnetometer_command_def set_fusion_algo_def
        apply_calibration_wizard_def cmd_simps written_def setting_texts split: prod.split)
next
  case (Some e)
  then show ?thesis
    by (cases op)
      (simp_all add: op_runs_def set_device_rotation_offset_def gyro_command
        set_mounting_command_def set_magnetometer_command_def set_fusion_algo_def
        apply_calibration_wizard_def cmd_simps)
qed

lemma saved_written:
  "op_valid op \<Longrightarrow> saved_config pc (written (op_writes op m) db) i =
     (if id_mac i = m then op_effect op (saved_config pc db i) else saved_config pc db i)"
  by (cases op) (simp_all add: written_def saved_writes)

subsection \<open>The running pipelines\<close>

lemma find_SomeD: "find P xs = Some x \<Longrightarrow> x \<in> set xs \<and> P x"
  by (auto simp: find_Some_iff)

lemma registry_key: "registry_inv st \<Longrightarrow> (j, h) \<in> set (as_devices st) \<Longrightarrow> md_id (dh_meta h) = j"
  by (fastforce simp: registry_inv_def)

lemma find_mac_entry:
  assumes "registry_inv st" "find_mac m st = Some (i, h)"
  shows "(i, h) \<in> set (as_devices st)" "id_mac i = m"
    "\<And>j k. (j, k) \<in> set (as_devices st) \<Longrightarrow> id_mac j = m \<Longrightarrow> j = i"
proof -
  from find_SomeD [OF assms(2) [unfolded find_mac_def]]
  show e: "(i, h) \<in> set (as_devices st)" and m: "id_mac i = m"
    using registry_key [OF assms(1), of i h] by auto
  fix j k
  assume f: "(j, k) \<in> set (as_devices st)" "id_mac j = m"
  have "distinct (map entry_mac (as_devices st))" using assms(1) by (simp add: registry_inv_def)
  then have "inj_on entry_mac (set (as_devices st))" by (simp add: distinct_map)
  then have "(j, k) = (i, h)"
    using e f m by (auto dest: inj_onD [of _ _ "(j, k)" "(i, h)"] simp: entry_mac_def)
  then show "j = i" by simp
qed

lemma find_mac_none:
  assumes "registry_inv st" "find_mac m st = None" "(j, k) \<in> set (as_devices st)"
  shows "id_mac j \<noteq> m"
  using assms(2,3) registry_key [OF assms(1,3)] by (auto simp: find_mac_def find_None_iff)

text \<open>Every entry afterwards is one of before, its configuration changed where the address fits.\<close>

definition reconfigured ::
  "mac \<Rightarrow> (pipeline_config \<Rightarrow> pipeline_config) \<Rightarrow> app_state \<Rightarrow> app_state \<Rightarrow> bool" where
  "reconfigured m f st st' \<longleftrightarrow>
     registry_inv st' \<and> as_pending st' = as_pending st
     \<and> (\<forall>j h. (j, h) \<in> set (as_devices st') \<longrightarrow>
          (\<exists>h0. (j, h0) \<in> set (as_devices st)
             \<and> pl_cfg (dh_pipe h) = (if id_mac j = m then f (pl_cfg (dh_pipe h0)) else pl_cfg (dh_pipe h0))))"

lemma update_handle_pipe:
  "update_handle i (\<lambda>h. h\<lparr>dh_pipe := f (dh_pipe h)\<rparr>) st = app_step (UpdatePipe i f) st"
  by simp

lemma reconfigured_update:
  assumes "registry_inv st"
  shows "reconfigured m f st (snd (update_config m f st))"
proof (cases "find_mac m st")
  case None
  with assms find_mac_none [OF assms None] show ?thesis
    by (auto simp: update_config_def reconfigured_def)
next
  case (Some e)
  obtain i h where e: "find_mac m st = Some (i, h)" using Some by (cases e) simp
  note own = find_mac_entry [OF assms e]
  let ?st = "app_step (UpdatePipe i (\<lambda>p. p\<lparr>pl_cfg := f (pl_cfg p)\<rparr>)) st"
  have st: "snd (update_config m f st) = ?st"
    by (simp add: update_config_def e)
  show ?thesis
    unfolding st reconfigured_def
  proof (intro conjI allI impI)
    show "registry_inv ?st" using assms by (rule registry_step)
    show "as_pending ?st = as_pending st" by (simp add: update_handle_def)
    fix j k
    assume "(j, k) \<in> set (as_devices ?st)"
    then obtain h0 where h0: "(j, h0) \<in> set (as_devices st)"
      "k = (if j = i then h0\<lparr>dh_pipe := (dh_pipe h0)\<lparr>pl_cfg := f (pl_cfg (dh_pipe h0))\<rparr>\<rparr> else h0)"
      by (auto simp: update_handle_def)
    moreover have "id_mac j = m \<longleftrightarrow> j = i"
      using own(2) own(3) [OF h0(1)] by blast
    ultimately show "\<exists>h0. (j, h0) \<in> set (as_devices st) \<and>
        pl_cfg (dh_pipe k) = (if id_mac j = m then f (pl_cfg (dh_pipe h0)) else pl_cfg (dh_pipe h0))"
      by (intro exI [of _ h0]) simp
  qed
qed

lemma reconfigured_trans:
  assumes "reconfigured m f st st1" "reconfigured m g st1 st2"
  shows "reconfigured m (g \<circ> f) st st2"
  unfolding reconfigured_def
proof (intro conjI allI impI)
  show "registry_inv st2" "as_pending st2 = as_pending st"
    using assms by (simp_all add: reconfigured_def)
  fix j h
  assume "(j, h) \<in> set (as_devices st2)"
  then obtain h1 where h1: "(j, h1) \<in> set (as_devices st1)"
    "pl_cfg (dh_pipe h) = (if id_mac j = m then g (pl_cfg (dh_pipe h1)) else pl_cfg (dh_pipe h1))"
    using assms(2) unfolding reconfigured_def by blast
  then obtain h0 where "(j, h0) \<in> set (as_devices st)"
    "pl_cfg (dh_pipe h1) = (if id_mac j = m then f (pl_cfg (dh_pipe h0)) else pl_cfg (dh_pipe h0))"
    using assms(1) unfolding reconfigured_def by blast
  with h1 show "\<exists>h0. (j, h0) \<in> set (as_devices st) \<and>
      pl_cfg (dh_pipe h) = (if id_mac j = m then (g \<circ> f) (pl_cfg (dh_pipe h0)) else pl_cfg (dh_pipe h0))"
    by (intro exI [of _ h0]) simp
qed

lemma op_effect_fun:
  "op_effect (OpRotation d) = (\<lambda>c. c\<lparr>pc_rotation_offset := d\<rparr>)"
  "op_effect (OpGyro x) = (\<lambda>c. c\<lparr>pc_gyro_scale := x\<rparr>)"
  "op_effect (OpMounting y) = (\<lambda>c. c\<lparr>pc_mounting := y\<rparr>)"
  "op_effect (OpMagnetometer b) = (\<lambda>c. c\<lparr>pc_mag_enabled := b\<rparr>)"
  "op_effect (OpWizard y d b) = (\<lambda>c. c\<lparr>pc_mounting := y, pc_rotation_offset := d, pc_mag_enabled := b\<rparr>)"
  by (rule ext, simp)+

lemma reconfigured_op:
  assumes "registry_inv st" "op_valid op" "\<not> (\<exists>a. op = OpFusion a)"
  shows "reconfigured m (op_effect op) st (op_live op m st)"
proof (cases op)
  case (OpWizard x d b)
  let ?st1 = "snd (set_mounting_orientation m x st)" and ?f1 = "\<lambda>c. c\<lparr>pc_mounting := x\<rparr>"
  let ?st2 = "snd (set_rotation_offset m d ?st1)" and ?f2 = "\<lambda>c. c\<lparr>pc_rotation_offset := d\<rparr>"
  have 1: "reconfigured m ?f1 st ?st1"
    using assms(1) unfolding set_mounting_orientation_def by (rule reconfigured_update)
  then have 2: "reconfigured m ?f2 ?st1 ?st2"
    using reconfigured_update [of ?st1] assms(2) OpWizard
    by (simp add: reconfigured_def set_rotation_offset_def)
  then have "reconfigured m (\<lambda>c. c\<lparr>pc_mag_enabled := b\<rparr>) ?st2 (snd (set_magnetometer_enabled m b ?st2))"
    using reconfigured_update [of ?st2] by (simp add: reconfigured_def set_magnetometer_enabled_def)
  from reconfigured_trans [OF reconfigured_trans [OF 1 2] this] show ?thesis
    using OpWizard by (simp add: comp_def op_effect_fun)
qed (use assms gyro_valid in \<open>auto simp: set_rotation_offset_def set_gyro_scale_def
  set_mounting_orientation_def set_magnetometer_enabled_def op_effect_fun intro: reconfigured_update\<close>)

subsection \<open>Running the application\<close>

datatype app_op =
    UserOp setting_op sql_faults mac
  | Arrive bytes "bias option" instant instant device_metadata
  | Work device_id platform world_event
  | Leave nat
  | StopAll

text \<open>A device that arrives starts from what the database stands for.\<close>

fun app_op_step :: "(text_string \<Rightarrow> mag_calibration option) \<Rightarrow> app_op \<Rightarrow> app \<Rightarrow> app" where
  "app_op_step pc (UserOp op flt m) ap = snd (op_command op flt m ap)"
| "app_op_step pc (Arrive fw b t1 t2 meta) ap =
     ap\<lparr>ap_state := register_insert
       (register_prepare fw (saved_config pc (ap_db ap) (md_id meta)) b t1 t2 meta (ap_state ap))\<rparr>"
| "app_op_step pc (Work i pf w) ap =
     ap\<lparr>ap_state := update_handle i (\<lambda>h. h\<lparr>dh_pipe := snd (world_step pf w (dh_pipe h))\<rparr>) (ap_state ap)\<rparr>"
| "app_op_step pc (Leave n) ap = ap\<lparr>ap_state := task_disconnected n (ap_state ap)\<rparr>"
| "app_op_step pc StopAll ap = ap\<lparr>ap_state := shutdown (ap_state ap)\<rparr>"

fun keeps_step :: "app_op \<Rightarrow> bool" where
  "keeps_step (UserOp (OpFusion a) flt m) \<longleftrightarrow> False"
| "keeps_step (UserOp op flt m) \<longleftrightarrow> op_atomic op flt"
| "keeps_step (Work i pf (SetConfig c)) \<longleftrightarrow> False"
| "keeps_step _ \<longleftrightarrow> True"

definition in_step :: "(text_string \<Rightarrow> mag_calibration option) \<Rightarrow> app \<Rightarrow> bool" where
  "in_step pc ap \<longleftrightarrow>
     registry_inv (ap_state ap) \<and> as_pending (ap_state ap) = None
     \<and> (\<forall>j h. (j, h) \<in> set (as_devices (ap_state ap)) \<longrightarrow> pl_cfg (dh_pipe h) = saved_config pc (ap_db ap) j)"

lemma mag_cmd_cfg: "pl_cfg (handle_mag_cal_cmd pf cmd p) = pl_cfg p"
  by (simp add: handle_mag_cal_cmd_def split: mag_cal_cmd.split)

lemma imu_cfg: "pl_cfg (snd (handle_imu pf e batch c p)) = pl_cfg p"
  by (simp add: handle_imu_def Let_def split: sum.split prod.split)

lemma dispatch_cfg: "pl_cfg (snd (dispatch pf e ev c p)) = pl_cfg p"
  by (simp add: dispatch_def sent_by_def Let_def imu_cfg split: channel_info.split sum.split prod.split)

lemma event_cfg: "pl_cfg (snd (handle_event pf e ev p)) = pl_cfg p"
  by (simp add: handle_event_def lazy_get_def split_beta dispatch_cfg split: sum.split option.split)

lemma task_cfg: "pl_cfg (snd (task_step pf t p)) = pl_cfg p"
  by (cases t) (simp_all add: task_step_def mag_cmd_cfg event_cfg split_beta split: sum.split)

lemma world_keeps_cfg:
  "\<not> (\<exists>c. w = SetConfig c) \<Longrightarrow> pl_cfg (snd (world_step pf w p)) = pl_cfg p"
  by (cases w) (simp_all add: world_step_def task_cfg on_client_def)

lemma in_step_user:
  assumes "in_step pc ap" "op_atomic op flt" "\<not> (\<exists>a. op = OpFusion a)"
  shows "in_step pc (snd (op_command op flt m ap))"
proof (cases "op_runs op flt")
  case True
  then have v: "op_valid op" by (simp add: op_runs_def)
  have "reconfigured m (op_effect op) (ap_state ap) (op_live op m (ap_state ap))"
    using assms v by (intro reconfigured_op) (simp_all add: in_step_def)
  with assms(1) show ?thesis
    unfolding op_command_outcome [OF assms(2)] using True
    by (fastforce simp: in_step_def reconfigured_def saved_written [OF v])
qed (use assms(1) in \<open>simp add: op_command_outcome [OF assms(2)]\<close>)

lemma in_step_arrive:
  assumes "in_step pc ap"
  shows "in_step pc (app_op_step pc (Arrive fw b t1 t2 meta) ap)"
proof -
  let ?cfg = "saved_config pc (ap_db ap) (md_id meta)" and ?st = "ap_state ap"
  let ?st1 = "register_prepare fw ?cfg b t1 t2 meta ?st"
  have r: "registry_inv ?st1"
    using assms by (simp add: in_step_def registry_prepare)
  obtain h where h: "as_pending ?st1 = Some h" "md_id (dh_meta h) = md_id meta" "pl_cfg (dh_pipe h) = ?cfg"
    by (simp add: register_prepare_def Let_def pipeline_new_def)
  have old: "pl_cfg (dh_pipe k) = saved_config pc (ap_db ap) j" if "(j, k) \<in> set (as_devices ?st1)" for j k
    using that assms by (auto simp: register_prepare_def Let_def in_step_def)
  have "pl_cfg (dh_pipe k) = saved_config pc (ap_db ap) j"
    if "(j, k) \<in> set (as_devices (register_insert ?st1))" for j k
    using that h old update_set [of "(j, k)" "md_id meta" h "as_devices ?st1"]
    by (auto simp: register_insert_def)
  then show ?thesis
    using registry_insert [OF r] h(1) by (simp add: in_step_def register_insert_def)
qed

lemma delete_subset: "(j, k) \<in> set (AList.delete i xs) \<Longrightarrow> (j, k) \<in> set xs"
  by (auto simp: AList.delete_eq)

lemma in_step_work:
  assumes "in_step pc ap" "\<not> (\<exists>c. w = SetConfig c)"
  shows "in_step pc (app_op_step pc (Work i pf w) ap)"
proof -
  have "registry_inv (app_step (UpdatePipe i (\<lambda>p. snd (world_step pf w p))) (ap_state ap))"
    using assms(1) by (intro registry_step) (simp add: in_step_def)
  with assms show ?thesis
    by (auto simp: in_step_def update_handle_def world_keeps_cfg)
qed

lemma in_step_step:
  assumes "in_step pc ap" "keeps_step op"
  shows "in_step pc (app_op_step pc op ap)"
proof (cases op)
  case (UserOp s flt m)
  then have "op_atomic s flt" "\<not> (\<exists>a. s = OpFusion a)"
    using assms(2) by (cases s; simp)+
  with UserOp in_step_user [OF assms(1)] show ?thesis by simp
next
  case (Arrive fw b t1 t2 meta)
  with in_step_arrive [OF assms(1)] show ?thesis by simp
next
  case (Work i pf w)
  with assms in_step_work [OF assms(1), of w i pf] show ?thesis by (cases w) simp_all
next
  case (Leave n)
  let ?st = "task_disconnected n (ap_state ap)"
  have sub: "(j, k) \<in> set (as_devices ?st) \<Longrightarrow> (j, k) \<in> set (as_devices (ap_state ap))" for j k
    by (cases "map_of (as_tasks (ap_state ap)) n") (auto simp: task_disconnected_def dest: delete_subset)
  have "registry_inv ?st" "as_pending ?st = None"
    using assms(1) by (simp_all add: in_step_def registry_gone gone_parts(1))
  with Leave assms(1) sub show ?thesis
    unfolding in_step_def by (simp del: split_paired_All)
next
  case StopAll
  have "registry_inv (shutdown (ap_state ap))"
    using assms(1) by (simp add: in_step_def registry_shutdown)
  with StopAll assms(1) show ?thesis by (simp add: in_step_def shutdown_def)
qed

definition app_start :: "database \<Rightarrow> haptic_config \<Rightarrow> app" where
  "app_start db hc = \<lparr>ap_state = app_new, ap_db = db, ap_haptic = hc, ap_log = [], ap_pulses = []\<rparr>"

lemma in_step_start: "in_step pc (app_start db hc)"
  using registry_new by (simp add: in_step_def app_start_def) (simp add: app_new_def)

subsection \<open>Properties of the settings\<close>

text \<open>
  Property C3. The settings database refines the configurations of the devices: a command of
  the settings page whose statements run changes, of the device it is for, exactly the fields
  it is about, to the value given, even for an angle or a scale that is kept as decimal text,
  and of no other device anything. So a device that connects later starts from what the user
  chose. A rejected value changes nothing.
\<close>

theorem settings_take_effect_at_restart:
  "saved_config pc (ap_db (snd (op_command op (\<lambda>_. None) m ap))) i =
     (if op_valid op \<and> id_mac i = m then op_effect op (saved_config pc (ap_db ap) i)
      else saved_config pc (ap_db ap) i)"
proof -
  have "op_atomic op (\<lambda>_. None)" by (cases op) simp_all
  from op_command_outcome [OF this] show ?thesis
    by (simp add: op_runs_def saved_written)
qed


definition example_meta :: device_metadata where
  "example_meta =
     \<lparr>md_id = \<lparr>id_mac = [1, 2, 3, 4, 5, 6], id_serial = ''A''\<rparr>, md_kind = Wii, md_firmware = None,
      md_caps = \<lparr>has_magnetometer = False, has_battery = False, has_rumble = False, native_rate_hz = 100\<rparr>\<rparr>"

definition example_app :: app where
  "example_app = app_start db_empty default_config"

definition example_ops :: "app_op list" where
  "example_ops =
     [Arrive [] None 0 0 example_meta, UserOp (OpMounting UpsideDown) (\<lambda>_. None) [1, 2, 3, 4, 5, 6]]"

lemma example_devices:
  "map (\<lambda>(i, h). (i, pc_mounting (pl_cfg (dh_pipe h))))
     (as_devices (ap_state (fold (app_op_step (\<lambda>_. None)) example_ops example_app))) =
     [(md_id example_meta, UpsideDown)]"
  by (simp add: example_ops_def example_app_def app_start_def app_new_def register_prepare_def register_insert_def
      Let_def set_mounting_command_def cmd_simps set_mounting_orientation_def update_config_def
      find_mac_def update_handle_def pipeline_new_def example_meta_def mounting_from_setting_def)




text \<open>
  When the last statement of the calibration wizard fails, the user gets the error
  but the mounting and the offset are saved, while the running device keeps the old ones.
\<close>

theorem failed_wizard_is_half_saved:
  "\<exists>ap'. apply_calibration_wizard (\<lambda>n. if n = 2 then Some e else None) m x 0 b ap =
       (Inl (Internal (''sqlite: '' @ e)), ap')
     \<and> ap_state ap' = ap_state ap
     \<and> saved_config pc (ap_db ap') i =
       (if id_mac i = m then (saved_config pc (ap_db ap) i)\<lparr>pc_mounting := x, pc_rotation_offset := 0\<rparr>
        else saved_config pc (ap_db ap) i)"
  by (simp add: apply_calibration_wizard_def cmd_simps saved_writes f32_is_finite_def)

end
