(* ===== verification/Hopx_Tools.thy ===== *)
theory Hopx_Tools
  imports Hopx
begin

section \<open>Discovery sessions and diagnostics of the Bluetooth tracker\<close>

text \<open>
  The rest of \<^verbatim>\<open>crates/device-hopx\<close>: the discovery loop and the one-shot scan of
  \<^verbatim>\<open>factory.rs\<close>, and \<^verbatim>\<open>diagnostics.rs\<close>, which streams raw records and probes commands. What
  the \<^verbatim>\<open>btleplug\<close> crate and the clock answer are inputs, an error with its text.
\<close>

subsection \<open>The discovery loop\<close>

text \<open>
  A round asks every adapter; one that fails is passed over. \<open>open\<close> of a round says whether
  the receiver is still there when it starts, \<open>taken\<close> how many devices it takes.
\<close>

fun ask_adapters ::
  "(text_string + peripheral_info list) list \<Rightarrow> text_string set \<Rightarrow> hopx_device list \<times> text_string set" where
  "ask_adapters [] known = ([], known)"
| "ask_adapters (Inl e # as) known = ask_adapters as known"
| "ask_adapters (Inr ps # as) known =
     (case hopx_discover ps known of (ds, known') \<Rightarrow> map_prod ((@) ds) id (ask_adapters as known'))"

fun hopx_rounds ::
  "(bool \<times> (text_string + peripheral_info list) list) list \<Rightarrow> text_string set \<Rightarrow> hopx_device list" where
  "hopx_rounds [] known = []"
| "hopx_rounds ((still_open, as) # rs) known =
     (if \<not> still_open then []
      else case ask_adapters as known of (ds, known') \<Rightarrow> ds @ hopx_rounds rs known')"

definition hopx_enumerate ::
  "text_string + unit \<Rightarrow> text_string + nat \<Rightarrow> (bool \<times> (text_string + peripheral_info list) list) list
    \<Rightarrow> nat \<Rightarrow> (device_error + unit) \<times> hopx_device list" where
  "hopx_enumerate manager adapters rounds taken =
     (case manager of
        Inl e \<Rightarrow> (Inl (Hid (''hopx manager init failed: '' @ e)), [])
      | Inr _ \<Rightarrow>
          (case adapters of
             Inl e \<Rightarrow> (Inl (Hid (''hopx adapters query failed: '' @ e)), [])
           | Inr n \<Rightarrow> (Inr (), if n = 0 then [] else take taken (hopx_rounds rounds {}))))"

subsection \<open>The one-shot scan\<close>

record nearby_hopx =
  nb_name :: text_string
  nb_address :: text_string
  nb_mac :: mac

fun scan_peripherals ::
  "peripheral_info list \<Rightarrow> text_string set \<Rightarrow> nearby_hopx list \<times> text_string set" where
  "scan_peripherals [] seen = ([], seen)"
| "scan_peripherals (p # ps) seen =
     (case pi_name p of
        None \<Rightarrow> scan_peripherals ps seen
      | Some name \<Rightarrow>
          if \<not> name_matches name \<or> pi_addr p \<in> seen then scan_peripherals ps seen
          else map_prod ((#) \<lparr>nb_name = name, nb_address = pi_addr p, nb_mac = hopx_mac (pi_addr p)\<rparr>) id
              (scan_peripherals ps (insert (pi_addr p) seen)))"

fun scan_adapters ::
  "(text_string + peripheral_info list) list \<Rightarrow> text_string set \<Rightarrow> device_error + nearby_hopx list" where
  "scan_adapters [] seen = Inr []"
| "scan_adapters (Inl e # as) seen = Inl (Hid (''hopx one-shot peripherals query failed: '' @ e))"
| "scan_adapters (Inr ps # as) seen =
     (case scan_peripherals ps seen of (ns, seen') \<Rightarrow>
        (case scan_adapters as seen' of Inl e \<Rightarrow> Inl e | Inr ns' \<Rightarrow> Inr (ns @ ns')))"

definition hopx_scan_nearby ::
  "text_string + unit \<Rightarrow> text_string + (text_string + peripheral_info list) list \<Rightarrow> device_error + nearby_hopx list" where
  "hopx_scan_nearby manager adapters =
     (case manager of
        Inl e \<Rightarrow> Inl (Hid (''hopx manager init failed: '' @ e))
      | Inr _ \<Rightarrow>
          (case adapters of
             Inl e \<Rightarrow> Inl (Hid (''hopx adapters query failed: '' @ e))
           | Inr as \<Rightarrow> if as = [] then Inr [] else scan_adapters as {}))"

subsection \<open>Connecting for a diagnostic\<close>

text \<open>
  A poll of the search is the time it starts at and the peripherals with readable properties;
  \<open>None\<close> is a search that has not ended.
\<close>

definition not_found_text :: text_string where
  "not_found_text = ''no \"Triki\" device found within 20s '' @ map byte_char [0xE2, 0x80, 0x94]
     @ '' is it powered on?''"

fun find_triki ::
  "instant \<Rightarrow> (instant \<times> (text_string + peripheral_info list)) list \<Rightarrow> (text_string + peripheral_info) option" where
  "find_triki deadline [] = None"
| "find_triki deadline ((now, answer) # polls) =
     (if deadline \<le> now then Some (Inl not_found_text)
      else case answer of
             Inl e \<Rightarrow> Some (Inl (''peripherals query: '' @ e))
           | Inr ps \<Rightarrow>
               (case find (\<lambda>p. \<exists>name. pi_name p = Some name \<and> name_matches name) ps of
                  Some p \<Rightarrow> Some (Inr p)
                | None \<Rightarrow> find_triki deadline polls))"

record triki_answers =
  ta_manager :: "text_string + unit"
  ta_adapters :: "text_string + nat"
  ta_scan :: "text_string + unit"
  ta_found :: "text_string + peripheral_info"
  ta_connect :: "text_string + unit"
  ta_discover :: "text_string + unit"
  ta_tx :: bool
  ta_rx :: "bool option"

definition failing :: "text_string \<Rightarrow> text_string + 'a \<Rightarrow> text_string + 'a" where
  "failing what r = (case r of Inl e \<Rightarrow> Inl (what @ '': '' @ e) | Inr x \<Rightarrow> Inr x)"

definition and_then :: "text_string + 'a \<Rightarrow> ('a \<Rightarrow> text_string + 'b) \<Rightarrow> text_string + 'b" where
  "and_then r k = (case r of Inl e \<Rightarrow> Inl e | Inr x \<Rightarrow> k x)"

text \<open>The link: whether commands are written without response.\<close>

definition connect_triki :: "triki_answers \<Rightarrow> text_string + bool" where
  "connect_triki a =
     and_then (failing ''manager init'' (ta_manager a)) (\<lambda>_.
     and_then (failing ''adapters query'' (ta_adapters a)) (\<lambda>n.
     and_then (if n = 0 then Inl ''no BLE adapter found'' else Inr ()) (\<lambda>_.
     and_then (failing ''start scan'' (ta_scan a)) (\<lambda>_.
     and_then (ta_found a) (\<lambda>p.
     and_then (failing ''connect'' (ta_connect a)) (\<lambda>_.
     and_then (failing ''discover services'' (ta_discover a)) (\<lambda>_.
     and_then (if ta_tx a then Inr () else Inl ''NUS TX characteristic not found'') (\<lambda>_.
       case ta_rx a of
         None \<Rightarrow> Inl ''NUS RX characteristic not found''
       | Some no_response \<Rightarrow> Inr no_response))))))))"

record reconnect_answers =
  ra_connect :: "text_string + unit"
  ra_discover :: "text_string + unit"
  ra_subscribe :: "text_string + unit"
  ra_notifications :: "text_string + unit"

definition hopx_reconnect :: "reconnect_answers \<Rightarrow> text_string + unit" where
  "hopx_reconnect a =
     and_then (failing ''reconnect'' (ra_connect a)) (\<lambda>_.
     and_then (failing ''rediscover services'' (ra_discover a)) (\<lambda>_.
     and_then (failing ''resubscribe'' (ra_subscribe a)) (\<lambda>_.
     failing ''notifications stream'' (ra_notifications a))))"

subsection \<open>Streaming raw records\<close>

record raw_sample =
  rs_seq :: u8
  rs_channels :: "int list"
  rs_rate :: f32

definition as_secs_f32 :: "duration \<Rightarrow> f32" where
  "as_secs_f32 d = f32_of_int (int (d div 10 ^ 9)) + f32_of_int (int (d mod 10 ^ 9)) / f32_of_int (10 ^ 9)"

definition raw_rate :: "nat \<Rightarrow> duration \<Rightarrow> f32" where
  "raw_rate n d =
     (let secs = as_secs_f32 d; least = f32_lit 1 1000
      in f32_of_int (int n) / (if secs < least then least else secs))"

text \<open>\<open>clock n\<close> is the time read for the \<open>n\<close>-th record, \<open>n\<close> from 0.\<close>

fun raw_samples :: "(nat \<Rightarrow> instant) \<Rightarrow> nat \<Rightarrow> raw_record list \<Rightarrow> raw_sample list" where
  "raw_samples clock n [] = []"
| "raw_samples clock n (r # rs) =
     \<lparr>rs_seq = rr_seq r, rs_channels = rr_channels r,
      rs_rate = raw_rate (Suc n) (duration_since (clock n) (clock 0))\<rparr> # raw_samples clock (Suc n) rs"

fun raw_loop :: "(nat \<Rightarrow> instant) \<Rightarrow> nat \<Rightarrow> bytes \<Rightarrow> (bool \<times> bytes) list \<Rightarrow> raw_sample list" where
  "raw_loop clock n buf [] = []"
| "raw_loop clock n buf ((is_tx, data) # ns) =
     (if \<not> is_tx then raw_loop clock n buf ns
      else case feed_raw buf data of (rs, buf') \<Rightarrow>
        raw_samples clock n rs @ raw_loop clock (n + length rs) buf' ns)"

text \<open>The stream ends with the list of notifications; the stop command is then tried.\<close>

definition stream_raw ::
  "triki_answers \<Rightarrow> text_string + unit \<Rightarrow> text_string + unit \<Rightarrow> text_string + unit \<Rightarrow> (nat \<Rightarrow> instant)
    \<Rightarrow> (bool \<times> bytes) list \<Rightarrow> (text_string + bytes list) \<times> raw_sample list" where
  "stream_raw a subscribe start notifications clock ns =
     (case and_then (connect_triki a) (\<lambda>_.
           and_then (failing ''subscribe'' subscribe) (\<lambda>_.
           and_then (failing ''start command'' start) (\<lambda>_.
           failing ''notifications stream'' notifications))) of
        Inl e \<Rightarrow> (Inl e, [])
      | Inr _ \<Rightarrow> (Inr [START_CMD, STOP_CMD], raw_loop clock 0 [] ns))"

subsection \<open>Probing commands\<close>

record probe_result =
  pb_cmd :: u8
  pb_attempt :: u8
  pb_responses :: "bytes list"
  pb_disconnected :: bool

text \<open>
  What an attempt meets: the answer to the write, then what the wait for replies gives until
  the dwell time is over, and the answer to reconnecting.
\<close>

datatype dwell_event = Reply bool bytes | StreamEnded | DwellOver

record probe_try =
  pt_write :: "text_string + unit"
  pt_events :: "dwell_event list"
  pt_reconnect :: reconnect_answers

fun dwell :: "dwell_event list \<Rightarrow> bytes list \<times> bool" where
  "dwell [] = ([], False)"
| "dwell (Reply is_tx data # es) = (case dwell es of (rs, lost) \<Rightarrow> (if is_tx then data # rs else rs, lost))"
| "dwell (StreamEnded # es) = ([], True)"
| "dwell (DwellOver # es) = ([], False)"

text \<open>The result of an attempt, and whether the probe goes on.\<close>

definition probe_attempt :: "probe_try \<Rightarrow> u8 \<Rightarrow> u8 \<Rightarrow> probe_result \<times> bool" where
  "probe_attempt t cmd attempt =
     (let (rs, lost) = (case pt_write t of Inl e \<Rightarrow> ([], True) | Inr _ \<Rightarrow> dwell (pt_events t))
      in (\<lparr>pb_cmd = cmd, pb_attempt = attempt, pb_responses = rs, pb_disconnected = lost\<rparr>,
          \<not> lost \<or> (\<exists>u. hopx_reconnect (pt_reconnect t) = Inr u)))"

definition probe_plan :: "bytes \<Rightarrow> u8 \<Rightarrow> (u8 \<times> u8) list" where
  "probe_plan cmds repeats =
     concat (map (\<lambda>c. map (\<lambda>n. (c, of_nat n)) [1..<Suc (max (unat repeats) 1)]) cmds)"

fun probe_loop :: "(nat \<Rightarrow> probe_try) \<Rightarrow> nat \<Rightarrow> (u8 \<times> u8) list \<Rightarrow> probe_result list" where
  "probe_loop tries n [] = []"
| "probe_loop tries n ((cmd, attempt) # plan) =
     (case probe_attempt (tries n) cmd attempt of (r, go_on) \<Rightarrow>
        r # (if go_on then probe_loop tries (Suc n) plan else []))"

definition probe_commands ::
  "triki_answers \<Rightarrow> text_string + unit \<Rightarrow> text_string + unit \<Rightarrow> (nat \<Rightarrow> probe_try) \<Rightarrow> bytes \<Rightarrow> u8
    \<Rightarrow> (text_string + unit) \<times> probe_result list" where
  "probe_commands a subscribe notifications tries cmds repeats =
     (case and_then (connect_triki a) (\<lambda>_.
           and_then (failing ''subscribe'' subscribe) (\<lambda>_.
           failing ''notifications stream'' notifications)) of
        Inl e \<Rightarrow> (Inl e, [])
      | Inr _ \<Rightarrow> (Inr (), probe_loop tries 0 (probe_plan cmds repeats)))"

subsection \<open>Properties\<close>

text \<open>Trackers of a list of peripherals: those with a name that matches.\<close>

definition tracker_addrs :: "peripheral_info list \<Rightarrow> text_string set" where
  "tracker_addrs ps = {pi_addr p |p. p \<in> set ps \<and> (\<exists>name. pi_name p = Some name \<and> name_matches name)}"

lemma tracker_addrs_Nil [simp]: "tracker_addrs [] = {}"
  by (simp add: tracker_addrs_def)

lemma tracker_addrs_Cons:
  "tracker_addrs (p # ps) =
     (case pi_name p of Some name \<Rightarrow> if name_matches name then {pi_addr p} else {} | None \<Rightarrow> {}) \<union> tracker_addrs ps"
  by (auto simp: tracker_addrs_def split: option.split)

lemma tracker_addrs_append [simp]: "tracker_addrs (ps @ qs) = tracker_addrs ps \<union> tracker_addrs qs"
  by (auto simp: tracker_addrs_def)

lemma scan_peripherals_addrs:
  "scan_peripherals ps seen = (ns, seen') \<Longrightarrow>
     seen' = seen \<union> tracker_addrs ps \<and> nb_address ` set ns = tracker_addrs ps - seen \<and> distinct (map nb_address ns)"
proof (induction ps arbitrary: seen ns seen')
  case (Cons p ps)
  obtain ms s where rec: "scan_peripherals ps (insert (pi_addr p) seen) = (ms, s)"
    "s = insert (pi_addr p) seen \<union> tracker_addrs ps"
    "nb_address ` set ms = tracker_addrs ps - insert (pi_addr p) seen" "distinct (map nb_address ms)"
    using Cons.IH [of "insert (pi_addr p) seen"] by (cases "scan_peripherals ps (insert (pi_addr p) seen)") auto
  show ?case
  proof (cases "(\<exists>name. pi_name p = Some name \<and> name_matches name) \<and> pi_addr p \<notin> seen")
    case True
    then obtain name where n: "pi_name p = Some name" "name_matches name" "pi_addr p \<notin> seen" by blast
    with Cons.prems rec(1) have "ns = \<lparr>nb_name = name, nb_address = pi_addr p, nb_mac = hopx_mac (pi_addr p)\<rparr> # ms"
      "seen' = s" by simp_all
    with rec(2-4) n show ?thesis
      by (simp add: tracker_addrs_Cons) blast
  next
    case False
    then have "scan_peripherals ps seen = (ns, seen')"
      using Cons.prems by (auto split: option.splits if_splits)
    from Cons.IH [OF this] False show ?thesis
      by (cases "pi_name p") (auto simp: tracker_addrs_Cons)
  qed
qed simp

lemma scan_adapters_addrs:
  "scan_adapters (map Inr pss) seen = Inr ns \<Longrightarrow>
     nb_address ` set ns = tracker_addrs (concat pss) - seen \<and> distinct (map nb_address ns)"
proof (induction pss arbitrary: seen ns)
  case (Cons ps pss)
  obtain ms s where m: "scan_peripherals ps seen = (ms, s)" by fastforce
  with Cons.prems obtain ks where k: "scan_adapters (map Inr pss) s = Inr ks" "ns = ms @ ks"
    by (auto split: sum.splits)
  note p = scan_peripherals_addrs [OF m] and r = Cons.IH [OF k(1)]
  have "nb_address ` set ns = nb_address ` set ms \<union> nb_address ` set ks" using k(2) by auto
  with p r k(2) show ?case by auto
qed simp

lemma scan_adapters_ok: "\<exists>ns. scan_adapters (map Inr pss) seen = Inr ns"
  by (induction pss arbitrary: seen) (auto split: prod.split sum.split, metis sum.distinct(1))

text \<open>
  The one-shot scan lists every tracker in reach exactly once: when the adapters
  answer, the addresses listed are those of the peripherals whose name starts as it should, and
  no address is listed twice, however many adapters have seen it.
\<close>

theorem nearby_lists_each_tracker_once:
  "\<exists>ns. hopx_scan_nearby (Inr ()) (Inr (map Inr pss)) = Inr ns
     \<and> nb_address ` set ns = tracker_addrs (concat pss) \<and> distinct (map nb_address ns)"
proof (cases "pss = []")
  case True
  then show ?thesis by (simp add: hopx_scan_nearby_def)
next
  case False
  then have s: "hopx_scan_nearby (Inr ()) (Inr (map Inr pss)) = scan_adapters (map Inr pss) {}"
    by (simp add: hopx_scan_nearby_def)
  obtain ns where ns: "scan_adapters (map Inr pss) {} = Inr ns" using scan_adapters_ok by blast
  with scan_adapters_addrs [OF ns] show ?thesis unfolding s by auto
qed

lemma probe_attempt_result:
  assumes "probe_attempt t c a = (r, go)"
  shows "pb_cmd r = c" "pb_attempt r = a"
    "\<not> go \<Longrightarrow> pb_disconnected r \<and> (\<exists>e. hopx_reconnect (pt_reconnect t) = Inl e)"
proof -
  obtain rs lost where w: "(case pt_write t of Inl e \<Rightarrow> ([], True) | Inr _ \<Rightarrow> dwell (pt_events t)) = (rs, lost)"
    by fastforce
  show "pb_cmd r = c" "pb_attempt r = a"
    using assms by (auto simp: probe_attempt_def w)
  assume "\<not> go"
  then have "lost" "\<nexists>u. hopx_reconnect (pt_reconnect t) = Inr u" "pb_disconnected r = lost"
    using assms by (auto simp: probe_attempt_def w)
  then show "pb_disconnected r \<and> (\<exists>e. hopx_reconnect (pt_reconnect t) = Inl e)"
    by (cases "hopx_reconnect (pt_reconnect t)") auto
qed

text \<open>
  A probe reports on its plan in order: every command as often as asked, at
  least once, one result for each attempt; it stops early only at an attempt that lost the
  link and could not be reconnected.
\<close>

theorem probe_follows_plan:
  "(let rs = probe_loop tries 0 (probe_plan cmds repeats); k = length rs in
    map (\<lambda>r. (pb_cmd r, pb_attempt r)) rs = take k (probe_plan cmds repeats)
    \<and> (k = length (probe_plan cmds repeats)
       \<or> pb_disconnected (last rs) \<and> (\<exists>e. hopx_reconnect (pt_reconnect (tries (k - 1))) = Inl e)))"
proof -
  have "map (\<lambda>r. (pb_cmd r, pb_attempt r)) (probe_loop tries n plan) = take (length (probe_loop tries n plan)) plan
    \<and> (length (probe_loop tries n plan) = length plan
       \<or> pb_disconnected (last (probe_loop tries n plan))
         \<and> (\<exists>e. hopx_reconnect (pt_reconnect (tries (n + length (probe_loop tries n plan) - 1))) = Inl e))" for n plan
  proof (induction plan arbitrary: n)
    case (Cons ca plan)
    obtain c a where ca: "ca = (c, a)" by fastforce
    obtain r go where r: "probe_attempt (tries n) c a = (r, go)" by fastforce
    note f = probe_attempt_result [OF r]
    show ?case
    proof (cases "go")
      case True
      show ?thesis
      proof (cases "probe_loop tries (Suc n) plan = []")
        case empty: True
        then have "plan = []" by (cases plan) (auto split: prod.splits)
        with ca r f True show ?thesis by simp
      next
        case False
        with Cons.IH [of "Suc n"] ca r f True show ?thesis by auto
      qed
    qed (use ca r f in simp)
  qed simp
  from this [of 0 "probe_plan cmds repeats"] show ?thesis by (simp add: Let_def)
qed

end
