(* ===== verification/Synthetic.thy ===== *)
theory Synthetic
  imports Hid_Common Float_Ops
begin

section \<open>Synthetic devices\<close>

text \<open>
  The sources without hardware: \<^verbatim>\<open>synthetic.rs\<close> of the Joy-Con, DualSense, PS Move, Steam
  Deck and Steam Controller crates, and the part of their factories that makes a pool of
  them. Each sends rounds of samples computed from its own clock in single precision. The
  sine and cosine are arguments; the ticks of the timer are the rounds of a run.
\<close>

subsection \<open>Identity\<close>

fun hex_digits :: "nat \<Rightarrow> string" where
  "hex_digits n = (if n < 16 then [] else hex_digits (n div 16)) @ [''0123456789abcdef'' ! (n mod 16)]"

declare hex_digits.simps [simp del]

text \<open>\<^verbatim>\<open>{seed:04x}\<close>.\<close>

definition hex04 :: "u64 \<Rightarrow> string" where
  "hex04 seed = (let ds = hex_digits (unat seed) in replicate (4 - length ds) CHR ''0'' @ ds)"

record synth_device =
  sy_meta :: device_metadata
  sy_seed :: u64
  sy_running :: bool

definition synth_new_device ::
  "mac \<Rightarrow> text_string \<Rightarrow> device_kind \<Rightarrow> capabilities \<Rightarrow> u64 \<Rightarrow> synth_device" where
  "synth_new_device m serial kind caps seed =
     \<lparr>sy_meta = \<lparr>md_id = \<lparr>id_mac = m, id_serial = serial\<rparr>, md_kind = kind,
        md_firmware = Some ''synthetic 0.1'', md_caps = caps\<rparr>,
      sy_seed = seed, sy_running = False\<rparr>"

definition synth_joycon_mac :: "u64 \<Rightarrow> mac" where
  "synth_joycon_mac seed = [0x02, 0x57, 0x45] @ take 3 (to_le seed)"

definition synth_joycon_new :: "u64 \<Rightarrow> synth_device" where
  "synth_joycon_new seed =
     synth_new_device (synth_joycon_mac seed) (''synthetic-'' @ hex04 seed) JoyConL
       \<lparr>has_magnetometer = False, has_battery = True, has_rumble = True, native_rate_hz = 200\<rparr> seed"

definition synth_dualsense_mac :: "u64 \<Rightarrow> mac" where
  "synth_dualsense_mac seed = [0x02, 0x53, 0x4F] @ take 3 (to_le seed)"

definition synth_dualsense_new :: "u64 \<Rightarrow> synth_device" where
  "synth_dualsense_new seed =
     synth_new_device (synth_dualsense_mac seed) (''synth-ds5-'' @ hex04 seed) DualSense
       \<lparr>has_magnetometer = False, has_battery = True, has_rumble = True, native_rate_hz = 250\<rparr> seed"

definition synth_psmove_mac :: "u64 \<Rightarrow> mac" where
  "synth_psmove_mac seed = [0x02, 0x4D, 0x56] @ take 3 (to_le seed)"

definition synth_psmove_new :: "u64 \<Rightarrow> synth_device" where
  "synth_psmove_new seed =
     synth_new_device (synth_psmove_mac seed) (''synth-move-'' @ hex04 seed) PsMoveZcm1
       \<lparr>has_magnetometer = True, has_battery = True, has_rumble = True, native_rate_hz = 175\<rparr> seed"

definition synth_deck_mac :: "u64 \<Rightarrow> mac" where
  "synth_deck_mac seed = [0x02, 0x28, 0xDE] @ take 3 (to_le seed)"

definition synth_deck_new :: "u64 \<Rightarrow> synth_device" where
  "synth_deck_new seed =
     synth_new_device (synth_deck_mac seed) (''synth-deck-'' @ hex04 seed) SteamDeck
       \<lparr>has_magnetometer = False, has_battery = False, has_rumble = True, native_rate_hz = 250\<rparr> seed"

definition synth_ctrl_mac :: "u64 \<Rightarrow> mac" where
  "synth_ctrl_mac seed = [0x02, 0x28, 0xDE, 0x11] @ take 2 (to_le seed)"

definition synth_ctrl_new :: "u64 \<Rightarrow> synth_device" where
  "synth_ctrl_new seed =
     synth_new_device (synth_ctrl_mac seed) (''synth-steamctrl-'' @ hex04 seed) SteamController
       \<lparr>has_magnetometer = False, has_battery = True, has_rumble = True, native_rate_hz = 100\<rparr> seed"

subsection \<open>Rounds\<close>

text \<open>
  A round takes the clock, in seconds, to the samples sent and the clock after. The cast of a
  time to microseconds saturates, so a negative one is 0.
\<close>

definition micros_u64 :: "f32 \<Rightarrow> u64" where
  "micros_u64 t = of_nat (f32_to_nat (2 ^ 64 - 1) (t * f32_of_int 1000000))"

definition synth_sample :: "f32 \<Rightarrow> (f32 \<times> f32 \<times> f32) option \<Rightarrow> u64 \<Rightarrow> imu_sample" where
  "synth_sample gz m us = \<lparr>gyro = (0, 0, gz), accel = (0, 0, f32_lit 980665 100000), mag = m, timestamp_us = us\<rparr>"

type_synonym synth_round = "(f32 \<Rightarrow> f32) \<Rightarrow> (f32 \<Rightarrow> f32) \<Rightarrow> f32 \<Rightarrow> imu_sample list \<times> f32"

fun joycon_subs :: "(f32 \<Rightarrow> f32) \<Rightarrow> int list \<Rightarrow> f32 \<Rightarrow> imu_sample list \<times> f32" where
  "joycon_subs sinf [] t = ([], t)"
| "joycon_subs sinf (k # ks) t =
     (let gz = sinf (t * f32_lit 5 10) * f32_lit 5 10;
          s = synth_sample gz None (micros_u64 (t - f32_of_int (2 - k) * f32_lit 5 1000))
      in map_prod ((#) s) id (joycon_subs sinf ks (t + f32_lit 5 1000)))"

definition synth_joycon_round :: synth_round where
  "synth_joycon_round sinf cosf t = joycon_subs sinf [0, 1, 2] t"

definition synth_dualsense_round :: synth_round where
  "synth_dualsense_round sinf cosf t =
     ([synth_sample (sinf (t * f32_lit 6 10) * f32_lit 7 10) None (micros_u64 t)], t + f32_lit 4 1000)"

definition SYNTH_MAG_OFFSET :: "f32 \<times> f32 \<times> f32" where
  "SYNTH_MAG_OFFSET = (f32_of_int 6, f32_of_int (-12), f32_of_int 9)"

fun psmove_subs :: "(f32 \<Rightarrow> f32) \<Rightarrow> (f32 \<Rightarrow> f32) \<Rightarrow> int list \<Rightarrow> f32 \<Rightarrow> imu_sample list \<times> f32" where
  "psmove_subs sinf cosf [] t = ([], t)"
| "psmove_subs sinf cosf (k # ks) t =
     (case SYNTH_MAG_OFFSET of (ox, oy, oz) \<Rightarrow>
        let gz = sinf (t * f32_lit 4 10) * f32_lit 6 10;
            az = t * f32_of_int 5;
            pol = t * f32_lit 13 10;
            m = (ox + sinf pol * cosf az * f32_of_int 45,
                 oy + cosf pol * f32_of_int 45,
                 oz + sinf pol * sinf az * f32_of_int 45);
            s = synth_sample gz (Some m) (micros_u64 (t - f32_of_int (1 - k) * f32_lit 55 10000))
        in map_prod ((#) s) id (psmove_subs sinf cosf ks (t + f32_lit 55 10000)))"

definition synth_psmove_round :: synth_round where
  "synth_psmove_round sinf cosf t = psmove_subs sinf cosf [0, 1] t"

definition synth_deck_round :: synth_round where
  "synth_deck_round sinf cosf t =
     ([synth_sample (sinf (t * f32_lit 7 10) * f32_lit 4 10) None (micros_u64 t)], t + f32_lit 4 1000)"

definition synth_ctrl_round :: synth_round where
  "synth_ctrl_round sinf cosf t =
     ([synth_sample (sinf (t * f32_lit 5 10) * f32_lit 5 10) None (micros_u64 t)], t + f32_lit 10 1000)"

subsection \<open>The task\<close>

text \<open>
  The list says of each tick whether the receiver takes the samples; the task ends at the
  first that are not taken. A battery level follows every so many packets, counted in 32 bits;
  whether it is taken is not looked at.
\<close>

fun synth_loop ::
  "(f32 \<Rightarrow> imu_sample list \<times> f32) \<Rightarrow> (u32 \<times> f32) option \<Rightarrow> f32 \<Rightarrow> u32 \<Rightarrow> bool list \<Rightarrow> channel_info list" where
  "synth_loop step battery t n [] = []"
| "synth_loop step battery t n (taken # ticks) =
     (case step t of (ss, t') \<Rightarrow>
        if \<not> taken then []
        else ImuSamples ss
          # (case battery of
               None \<Rightarrow> []
             | Some (every, lvl) \<Rightarrow>
                 if (n + 1) mod every = 0 then [Battery \<lparr>fraction = lvl, charging = False\<rparr>] else [])
          @ synth_loop step battery t' (n + 1) ticks)"

definition synth_task ::
  "(f32 \<Rightarrow> imu_sample list \<times> f32) \<Rightarrow> (u32 \<times> f32) option \<Rightarrow> synth_device \<Rightarrow> bool list \<Rightarrow> channel_info list" where
  "synth_task step battery d ticks = Connected (md_id (sy_meta d)) # synth_loop step battery 0 0 ticks"

definition joycon_battery :: "(u32 \<times> f32) option" where
  "joycon_battery = Some (60, f32_lit 75 100)"

definition dualsense_battery :: "(u32 \<times> f32) option" where
  "dualsense_battery = Some (250, f32_lit 66 100)"

definition psmove_battery :: "(u32 \<times> f32) option" where
  "psmove_battery = Some (90, f32_lit 55 100)"

definition synth_start :: "synth_device \<Rightarrow> synth_device" where
  "synth_start d = d\<lparr>sy_running := True\<rparr>"

definition synth_stop :: "synth_device \<Rightarrow> synth_device" where
  "synth_stop d = d\<lparr>sy_running := False\<rparr>"

definition synth_set_led :: "u8 \<Rightarrow> synth_device \<Rightarrow> synth_device" where
  "synth_set_led leds d = d"

definition synth_set_rumble :: "f32 \<Rightarrow> synth_device \<Rightarrow> synth_device" where
  "synth_set_rumble x d = d"

subsection \<open>Pools\<close>

text \<open>A factory makes \<open>count\<close> devices, as long as its receiver takes them.\<close>

definition synth_enumerate :: "(u64 \<Rightarrow> synth_device) \<Rightarrow> u8 \<Rightarrow> nat \<Rightarrow> synth_device list" where
  "synth_enumerate mk pool taken = take taken (map (\<lambda>i. mk (of_nat i)) [0..<unat pool])"

text \<open>The devices of the five factories of a synthetic run, \<open>restart_synthetic\<close> in the application.\<close>

definition synth_pool :: "u8 \<Rightarrow> synth_device list" where
  "synth_pool pool =
     concat (map (\<lambda>mk. synth_enumerate mk pool 255)
       [synth_joycon_new, synth_dualsense_new, synth_psmove_new, synth_deck_new, synth_ctrl_new])"

definition synth_addr :: "synth_device \<Rightarrow> mac" where
  "synth_addr d = id_mac (md_id (sy_meta d))"

subsection \<open>Properties\<close>

lemma nat_to_le_zero: "nat_to_le k 0 = replicate k 0"
  by (induction k) simp_all

lemma nat_to_le_byte: "i < 256 \<Longrightarrow> nat_to_le (Suc k) i = of_nat i # replicate k 0"
  by (simp add: nat_to_le_zero)

lemma seed_bytes:
  assumes "i < 256"
  shows "take 3 (to_le (of_nat i :: u64)) = [of_nat i, 0, 0]" "take 2 (to_le (of_nat i :: u64)) = [of_nat i, 0]"
proof -
  have u: "unat (of_nat i :: u64) = i" using assms by (simp add: unat_of_nat)
  have "LENGTH(64) div 8 = Suc 7" by simp
  then have "to_le (of_nat i :: u64) = nat_to_le (Suc 7) i"
    unfolding to_le_def u by (rule arg_cong)
  then have t: "to_le (of_nat i :: u64) = of_nat i # replicate 7 0"
    unfolding nat_to_le_byte [OF assms] .
  show "take 3 (to_le (of_nat i :: u64)) = [of_nat i, 0, 0]"
    "take 2 (to_le (of_nat i :: u64)) = [of_nat i, 0]"
    unfolding t by (simp_all add: numeral_eq_Suc)
qed

lemma byte_inj:
  assumes "i < 256" "j < 256"
  shows "(of_nat i :: u8) = of_nat j \<longleftrightarrow> i = j"
proof
  assume "(of_nat i :: u8) = of_nat j"
  then have "unat (of_nat i :: u8) = unat (of_nat j :: u8)" by simp
  with assms show "i = j" by (simp add: unat_of_nat)
qed simp

text \<open>The addresses of a pool: five groups, each counted up.\<close>

definition numbered_macs :: "u8 list \<Rightarrow> u8 list \<Rightarrow> nat \<Rightarrow> mac list" where
  "numbered_macs pre post n = map (\<lambda>i. pre @ [of_nat i] @ post) [0..<n]"

lemma distinct_numbered: "n \<le> 256 \<Longrightarrow> distinct (numbered_macs pre post n)"
  by (auto simp: numbered_macs_def distinct_map inj_on_def byte_inj)

lemma pool_addrs:
  "map synth_addr (synth_pool pool) =
     numbered_macs [0x02, 0x57, 0x45] [0, 0] (unat pool) @ numbered_macs [0x02, 0x53, 0x4F] [0, 0] (unat pool)
     @ numbered_macs [0x02, 0x4D, 0x56] [0, 0] (unat pool) @ numbered_macs [0x02, 0x28, 0xDE] [0, 0] (unat pool)
     @ numbered_macs [0x02, 0x28, 0xDE, 0x11] [0] (unat pool)"
proof -
  have le: "unat pool \<le> 255" using unsigned_less [of pool, where ?'a = nat] by simp
  then have [simp]: "min 255 (unat pool) = unat pool" by simp
  have "map synth_addr (synth_enumerate mk pool 255) = numbered_macs pre post (unat pool)"
    if "\<And>i. i < 256 \<Longrightarrow> synth_addr (mk (of_nat i)) = pre @ [of_nat i] @ post" for mk pre post
    using that le by (simp add: synth_enumerate_def numbered_macs_def take_map)
  note group = this
  have a: "synth_addr (synth_joycon_new (of_nat i)) = [0x02, 0x57, 0x45] @ [of_nat i] @ [0, 0]"
    "synth_addr (synth_dualsense_new (of_nat i)) = [0x02, 0x53, 0x4F] @ [of_nat i] @ [0, 0]"
    "synth_addr (synth_psmove_new (of_nat i)) = [0x02, 0x4D, 0x56] @ [of_nat i] @ [0, 0]"
    "synth_addr (synth_deck_new (of_nat i)) = [0x02, 0x28, 0xDE] @ [of_nat i] @ [0, 0]"
    "synth_addr (synth_ctrl_new (of_nat i)) = [0x02, 0x28, 0xDE, 0x11] @ [of_nat i] @ [0]" if "i < 256" for i
    using seed_bytes [OF that]
    by (simp_all add: synth_addr_def synth_new_device_def synth_joycon_new_def synth_joycon_mac_def
        synth_dualsense_new_def synth_dualsense_mac_def synth_psmove_new_def synth_psmove_mac_def
        synth_deck_new_def synth_deck_mac_def synth_ctrl_new_def synth_ctrl_mac_def)
  show ?thesis
    by (simp only: synth_pool_def list.map concat.simps append_Nil2 map_append
        group [OF a(1)] group [OF a(2)] group [OF a(3)] group [OF a(4)] group [OF a(5)])
qed

text \<open>
  The synthetic controllers of one run have distinct addresses exactly when no more
  than 17 of each kind are asked for: the eighteenth Steam Deck is given the address of the
  first Steam Controller, and with it, the registry being keyed by address, replaces it.
\<close>

theorem synthetic_addresses_distinct_up_to_17:
  "distinct (map synth_addr (synth_pool pool)) \<longleftrightarrow> unat pool \<le> 17"
proof
  assume d: "distinct (map synth_addr (synth_pool pool))"
  show "unat pool \<le> 17"
  proof (rule ccontr)
    assume "\<not> unat pool \<le> 17"
    then have "17 \<in> {0..<unat pool}" "0 \<in> {0..<unat pool}" by auto
    from imageI [OF this(1), of "\<lambda>i. [0x02, 0x28, 0xDE] @ [of_nat i] @ [0, 0 :: u8]"]
      imageI [OF this(2), of "\<lambda>i. [0x02, 0x28, 0xDE, 0x11] @ [of_nat i] @ [0 :: u8]"]
    have "[0x02, 0x28, 0xDE] @ [of_nat 17] @ [0, 0] \<in> set (numbered_macs [0x02, 0x28, 0xDE] [0, 0] (unat pool))"
      "[0x02, 0x28, 0xDE, 0x11] @ [of_nat 0] @ [0] \<in> set (numbered_macs [0x02, 0x28, 0xDE, 0x11] [0] (unat pool))"
      by (simp_all only: numbered_macs_def set_map set_upt)
    moreover have "[0x02, 0x28, 0xDE] @ [of_nat 17] @ [0, 0] = [0x02, 0x28, 0xDE, 0x11] @ [of_nat 0 :: u8] @ [0]"
      by simp
    ultimately have "set (numbered_macs [0x02, 0x28, 0xDE] [0, 0] (unat pool))
        \<inter> set (numbered_macs [0x02, 0x28, 0xDE, 0x11] [0] (unat pool)) \<noteq> {}" by (metis disjoint_iff)
    with d show False unfolding pool_addrs distinct_append by blast
  qed
next
  assume le: "unat pool \<le> 17"
  have "(of_nat i :: u8) \<noteq> 0x11" if "i < unat pool" for i
    using that le byte_inj [of i 17] by simp
  with le show "distinct (map synth_addr (synth_pool pool))"
    unfolding pool_addrs distinct_append
    by (auto simp: distinct_numbered) (auto simp: numbered_macs_def)
qed

text \<open>
  A battery level comes with every \<open>every\<close>-th round, until the count of 32 bits wraps.
\<close>

definition batteries :: "channel_info list \<Rightarrow> nat" where
  "batteries cs = length (filter (\<lambda>c. case c of Battery b \<Rightarrow> True | _ \<Rightarrow> False) cs)"

lemma synth_loop_batteries:
  assumes "unat n0 + n < 2 ^ 32"
  shows "batteries (synth_loop step (Some (every, lvl)) t n0 (replicate n True))
    = (unat n0 + n) div unat every - unat n0 div unat every"
  using assms
proof (induction n arbitrary: t n0)
  case 0
  then show ?case by (simp add: batteries_def)
next
  case (Suc n)
  have s: "unat (n0 + 1) = Suc (unat n0)"
  proof -
    have "unat (of_nat (Suc (unat n0)) :: u32) = Suc (unat n0)"
      using Suc.prems by (simp add: unat_of_nat del: of_nat_Suc)
    moreover have "(of_nat (Suc (unat n0)) :: u32) = n0 + 1"
      by (subst of_nat_Suc) (simp add: add.commute del: of_nat_Suc)
    ultimately show ?thesis by metis
  qed
  have m: "(n0 + 1) mod every = 0 \<longleftrightarrow> Suc (unat n0) mod unat every = 0"
    unfolding s [symmetric] unat_mod [symmetric] by (simp only: unsigned_eq_0_iff)
  have mono: "Suc (unat n0) div unat every \<le> (Suc (unat n0) + n) div unat every"
    by (simp add: div_le_mono)
  obtain ss t' where st: "step t = (ss, t')" by fastforce
  have split: "batteries (synth_loop step (Some (every, lvl)) t n0 (replicate (Suc n) True))
    = (if Suc (unat n0) mod unat every = 0 then 1 else 0)
      + batteries (synth_loop step (Some (every, lvl)) t' (n0 + 1) (replicate n True))"
    by (simp add: st m batteries_def)
  have rest: "batteries (synth_loop step (Some (every, lvl)) t' (n0 + 1) (replicate n True))
    = (Suc (unat n0) + n) div unat every - Suc (unat n0) div unat every"
    using Suc.IH [of "n0 + 1" t'] Suc.prems unfolding s by simp
  show ?case
    using mono div_Suc [of "unat n0" "unat every"] unfolding split rest
    by (simp only: add_Suc add_Suc_right) (auto split: if_splits)
qed

end
