(* ===== verification/Front_Ends.thy ===== *)
theory Front_Ends
  imports Settings_Props Tesla
begin

section \<open>Starting the application and the headless program\<close>

text \<open>
  The start-up of the two programs: \<^verbatim>\<open>lib.rs\<close>, \<^verbatim>\<open>supervisor_boot.rs\<close>, \<^verbatim>\<open>tray.rs\<close>,
  \<^verbatim>\<open>logging.rs\<close>, \<^verbatim>\<open>update_boot.rs\<close>, \<^verbatim>\<open>updater.rs\<close>, \<^verbatim>\<open>crash_report.rs\<close> and
  \<^verbatim>\<open>webview_runtime.rs\<close> of the desktop application, \<^verbatim>\<open>main.rs\<close>, \<^verbatim>\<open>cli.rs\<close> and
  \<^verbatim>\<open>doctor.rs\<close> of the headless one. What the windowing toolkit, the updater and the
  operating system answer are inputs, what is asked of a window is a list of \<open>window_op\<close>.
\<close>

subsection \<open>Which drivers are started\<close>

text \<open>A factory with what it is made from. The forwarders are made with the address they bind.\<close>

datatype driver_choice =
    JoyconReal | JoyconSynth u8
  | DualSenseReal | DualSenseSynth u8
  | PsMoveReal | PsMoveSynth u8
  | DeckReal | DeckSynth u8
  | SteamCtrlReal | SteamCtrlSynth u8
  | DualShock3Real
  | WiiAt text_string | ThreeDsAt text_string | VitaAt text_string | RemoteAt text_string
  | HopxReal
  | TeslaSynth | TeslaLive tesla_config

definition WII_BIND :: text_string where "WII_BIND = ''0.0.0.0:9909''"
definition THREE_DS_BIND :: text_string where "THREE_DS_BIND = ''0.0.0.0:9305''"
definition VITA_BIND :: text_string where "VITA_BIND = ''0.0.0.0:9306''"
definition REMOTE_BIND :: text_string where "REMOTE_BIND = ''0.0.0.0:9320''"

definition app_drivers :: "(text_string \<Rightarrow> text_string option) \<Rightarrow> bool \<Rightarrow> driver_choice list" where
  "app_drivers env auto_start_synthetic =
     (if auto_start_synthetic
      then [JoyconSynth 1, DualSenseSynth 1, PsMoveSynth 1, DeckSynth 1, SteamCtrlSynth 1, TeslaSynth]
      else [JoyconReal, DualSenseReal, PsMoveReal, WiiAt WII_BIND, ThreeDsAt THREE_DS_BIND,
            VitaAt VITA_BIND, DualShock3Real, DeckReal, SteamCtrlReal, HopxReal, RemoteAt REMOTE_BIND])
     @ (if env ''EIMU_ENABLE_TESLA'' = Some ''1''
        then (case tesla_from_env env of Some cfg \<Rightarrow> [TeslaLive cfg] | None \<Rightarrow> []) else [])"

text \<open>The arguments of the headless program, an absent flag as False and an absent value as None.\<close>

record cli =
  cl_server :: text_string
  cl_synthetic :: "u8 option"
  cl_synth_ds :: u8
  cl_synth_move :: u8
  cl_synth_deck :: u8
  cl_synth_steam_ctrl :: u8
  cl_synth_tesla :: bool
  cl_tesla :: bool
  cl_db :: "text_string option"
  cl_log :: text_string
  cl_list_devices :: bool
  cl_doctor :: bool
  cl_hopx_raw :: bool
  cl_psmove_raw :: bool
  cl_hopx_probe :: "text_string option"
  cl_hopx_probe_repeats :: u8
  cl_ds_raw :: bool
  cl_wii_raw :: bool
  cl_wii_bind :: text_string
  cl_three_ds_bind :: text_string
  cl_vita_bind :: text_string
  cl_remote_bind :: text_string
  cl_ps_pair :: "text_string option"

definition cli_default :: cli where
  "cli_default =
     \<lparr>cl_server = ''127.0.0.1:6969'', cl_synthetic = None, cl_synth_ds = 0, cl_synth_move = 0,
      cl_synth_deck = 0, cl_synth_steam_ctrl = 0, cl_synth_tesla = False, cl_tesla = False,
      cl_db = None, cl_log = ''info'', cl_list_devices = False, cl_doctor = False,
      cl_hopx_raw = False, cl_psmove_raw = False, cl_hopx_probe = None, cl_hopx_probe_repeats = 3,
      cl_ds_raw = False, cl_wii_raw = False, cl_wii_bind = ''127.0.0.1:9909'',
      cl_three_ds_bind = ''0.0.0.0:9305'', cl_vita_bind = ''0.0.0.0:9306'',
      cl_remote_bind = ''0.0.0.0:9320'', cl_ps_pair = None\<rparr>"

text \<open>What a start of the headless program does: one tool, or tracking.\<close>

datatype cli_mode =
    RunDoctor text_string
  | DsRaw | HopxRaw | PsmoveRaw
  | WiiRaw text_string
  | PsPair text_string
  | HopxProbe text_string u8
  | ListDevices
  | Track

definition cli_mode_of :: "cli \<Rightarrow> cli_mode" where
  "cli_mode_of a =
     (if cl_doctor a then RunDoctor (cl_server a)
      else if cl_ds_raw a then DsRaw
      else if cl_hopx_raw a then HopxRaw
      else if cl_psmove_raw a then PsmoveRaw
      else if cl_wii_raw a then WiiRaw (cl_wii_bind a)
      else case cl_ps_pair a of
        Some m \<Rightarrow> PsPair m
      | None \<Rightarrow>
          (case cl_hopx_probe a of
             Some spec \<Rightarrow> HopxProbe spec (cl_hopx_probe_repeats a)
           | None \<Rightarrow> if cl_list_devices a then ListDevices else Track))"

definition any_synth :: "cli \<Rightarrow> bool" where
  "any_synth a \<longleftrightarrow> cl_synthetic a \<noteq> None \<or> cl_synth_ds a > 0 \<or> cl_synth_move a > 0
     \<or> cl_synth_deck a > 0 \<or> cl_synth_steam_ctrl a > 0 \<or> cl_synth_tesla a"

definition when_some :: "bool \<Rightarrow> 'a \<Rightarrow> 'a list" where
  "when_some b x = (if b then [x] else [])"

definition cli_drivers :: "(text_string \<Rightarrow> text_string option) \<Rightarrow> cli \<Rightarrow> driver_choice list" where
  "cli_drivers env a =
     (if any_synth a
      then (let jc = or_default 0 (cl_synthetic a) in
            when_some (jc > 0) (JoyconSynth jc)
            @ when_some (cl_synth_ds a > 0) (DualSenseSynth (cl_synth_ds a))
            @ when_some (cl_synth_move a > 0) (PsMoveSynth (cl_synth_move a))
            @ when_some (cl_synth_deck a > 0) (DeckSynth (cl_synth_deck a))
            @ when_some (cl_synth_steam_ctrl a > 0) (SteamCtrlSynth (cl_synth_steam_ctrl a))
            @ when_some (cl_synth_tesla a) TeslaSynth)
      else [JoyconReal, DualSenseReal, PsMoveReal, WiiAt (cl_wii_bind a), ThreeDsAt (cl_three_ds_bind a),
            VitaAt (cl_vita_bind a), RemoteAt (cl_remote_bind a), DualShock3Real, DeckReal,
            SteamCtrlReal, HopxReal])
     @ (if cl_tesla a
        then (case tesla_from_env env of Some cfg \<Rightarrow> [TeslaLive cfg] | None \<Rightarrow> []) else [])"

subsection \<open>The doctor of the headless program\<close>

datatype check_outcome = CheckPass text_string | CheckWarn text_string | CheckFail text_string

fun failed :: "check_outcome \<Rightarrow> bool" where
  "failed (CheckFail m) = True"
| "failed _ = False"

text \<open>
  The lines of the report with their labels, and the exit code. \<open>hid\<close> is the answer of the
  first listing, an error or how many Nintendo devices it has; then the devices the other
  listings have, and the answers of the socket.
\<close>

definition run_doctor ::
  "text_string \<Rightarrow> text_string + nat \<Rightarrow> nat \<Rightarrow> nat \<Rightarrow> nat \<Rightarrow> nat \<Rightarrow> nat
    \<Rightarrow> text_string + unit \<Rightarrow> text_string + unit \<Rightarrow> text_string + unit
    \<Rightarrow> (text_string \<times> check_outcome) list \<times> nat" where
  "run_doctor server hid jc2 pads moves decks ctrls a_bind a_conn a_send =
     (let first = (case hid of
            Inr _ \<Rightarrow> CheckPass ''hidapi singleton initialized''
          | Inl e \<Rightarrow> CheckFail (''hidapi init failed: '' @ e));
          jc1 = (case hid of Inr n \<Rightarrow> n | Inl _ \<Rightarrow> 0);
          total = jc1 + jc2 + pads + moves + decks + ctrls;
          dev = (if total = 0 then CheckWarn ''no paired controllers visible (Bluetooth pairing?)''
            else CheckPass (dec_digits total @ '' controller(s) visible (jc1-hid='' @ dec_digits jc1
              @ '', jc2-ble='' @ dec_digits jc2 @ '', sony-pad='' @ dec_digits pads
              @ '', ps-move='' @ dec_digits moves @ '', steam-deck='' @ dec_digits decks
              @ '', steam-ctrl='' @ dec_digits ctrls @ '')''));
          udp = (case a_bind of
              Inl e \<Rightarrow> CheckFail (''UDP bind failed: '' @ e)
            | Inr _ \<Rightarrow>
                (case a_conn of
                   Inl e \<Rightarrow> CheckFail (''UDP connect failed: '' @ e)
                 | Inr _ \<Rightarrow>
                     (case a_send of
                        Inl e \<Rightarrow> CheckFail (''UDP send failed: '' @ e)
                      | Inr _ \<Rightarrow> CheckPass (''UDP send to '' @ server @ '' accepted''))))
      in ([(''hidapi'', first), (''paired devices'', dev), (''UDP socket'', udp)],
          if failed first \<or> failed udp then 1 else 0))"

subsection \<open>What the application reads at start\<close>

text \<open>A setting that cannot be read counts as absent.\<close>

definition boot_setting :: "sql_fault \<Rightarrow> text_string \<Rightarrow> database \<Rightarrow> text_string option" where
  "boot_setting flt key db = (case get_setting flt key db of Inr v \<Rightarrow> v | Inl _ \<Rightarrow> None)"

definition boot_flag :: "sql_fault \<Rightarrow> text_string \<Rightarrow> database \<Rightarrow> bool" where
  "boot_flag flt key db = (case boot_setting flt key db of Some v \<Rightarrow> v = ''1'' | None \<Rightarrow> False)"

definition boot_opt_out :: "sql_fault \<Rightarrow> text_string \<Rightarrow> database \<Rightarrow> bool" where
  "boot_opt_out flt key db = (case boot_setting flt key db of Some v \<Rightarrow> v \<noteq> ''0'' | None \<Rightarrow> True)"

text \<open>The server the clients talk to; \<open>parse_addr\<close> reads a socket address.\<close>

definition boot_server :: "(text_string \<Rightarrow> 'a option) \<Rightarrow> sql_fault \<Rightarrow> database \<Rightarrow> 'a option" where
  "boot_server parse_addr flt db =
     (case Option.bind (boot_setting flt ''slime_server_addr'' db) parse_addr of
        Some a \<Rightarrow> Some a
      | None \<Rightarrow> parse_addr ''127.0.0.1:6969'')"

text \<open>Crash reports are sent when the setting is on and the address to send them to is given.\<close>

definition crash_reporting :: "bool \<Rightarrow> text_string option \<Rightarrow> bool" where
  "crash_reporting enabled dsn \<longleftrightarrow> enabled \<and> (\<exists>v. dsn = Some v \<and> v \<noteq> [])"

subsection \<open>Windows\<close>

datatype window_op =
    Unminimize | ShowWindow | Focus | Eval text_string | Hide | PreventClose | Destroy | Exit nat
  | Dialog text_string | OpenUrl text_string

text \<open>Closing the main window only hides it when the setting says so.\<close>

definition close_requested :: "sql_fault \<Rightarrow> text_string \<Rightarrow> app \<Rightarrow> window_op list" where
  "close_requested flt label ap =
     (if label \<noteq> ''main'' then []
      else if boot_flag flt ''close_to_tray'' (ap_db ap) then [PreventClose, Hide] else [])"

definition missing_runtime_message :: "text_string \<Rightarrow> text_string" where
  "missing_runtime_message detail =
     ''everything-imu needs the Microsoft Edge WebView2 runtime to draw its window, and this computer does not have it.''
     @ [CHR 0x0A, CHR 0x0A]
     @ ''Install the WebView2 runtime, then start everything-imu again.'' @ [CHR 0x0A, CHR 0x0A]
     @ ''Open the download page now?'' @ [CHR 0x0A, CHR 0x0A] @ ''('' @ detail @ '')''"

definition startup_failure_message :: "text_string \<Rightarrow> text_string" where
  "startup_failure_message detail =
     ''everything-imu could not open its window and is shutting down.'' @ [CHR 0x0A, CHR 0x0A]
     @ ''('' @ detail @ '')''"

definition WEBVIEW2_DOWNLOAD_URL :: text_string where
  "WEBVIEW2_DOWNLOAD_URL = ''https://developer.microsoft.com/microsoft-edge/webview2/''"

text \<open>On Windows, the answer to the probe and to the question.\<close>

definition ensure_available :: "text_string + text_string \<Rightarrow> bool \<Rightarrow> window_op list" where
  "ensure_available version yes =
     (case version of
        Inr _ \<Rightarrow> []
      | Inl e \<Rightarrow> Dialog (missing_runtime_message e) # when_some yes (OpenUrl WEBVIEW2_DOWNLOAD_URL) @ [Exit 1])"

definition fail_startup :: "text_string \<Rightarrow> window_op list" where
  "fail_startup detail = [Dialog (startup_failure_message detail), Exit 1]"

subsection \<open>The tray\<close>

text \<open>\<open>opened\<close> says whether the main window exists.\<close>

definition focus_main :: "bool \<Rightarrow> window_op list" where
  "focus_main opened = (if opened then [Unminimize, ShowWindow, Focus] else [])"

definition quoted :: "text_string \<Rightarrow> text_string" where
  "quoted t = [CHR 0x27] @ t @ [CHR 0x27]"

definition navigate :: "bool \<Rightarrow> text_string \<Rightarrow> window_op list" where
  "navigate opened path =
     focus_main opened
     @ when_some opened (Eval (''window.history.pushState(null, '' @ quoted [] @ '', '' @ quoted path
         @ ''); window.dispatchEvent(new PopStateEvent('' @ quoted ''popstate'' @ ''));''))"

definition toggle_bridge :: "app \<Rightarrow> app" where
  "toggle_bridge ap = ap\<lparr>ap_state := set_paused (\<not> as_paused (ap_state ap)) (ap_state ap)\<rparr>"

text \<open>
  One reset request for every device; \<open>out n\<close> gives the outcomes of the sends of the \<open>n\<close>-th
  request. A request that fails would be logged; it never does.
\<close>

definition broadcast_reset ::
  "(nat \<Rightarrow> device_id \<Rightarrow> send_outcome \<times> u64) \<Rightarrow> reset_kind \<Rightarrow> app_state \<Rightarrow> app_state" where
  "broadcast_reset out k st =
     fold (\<lambda>n. request_reset (out n) k) [0..<length (device_metadata_snapshot st)] st"

definition quit_app :: "bool \<Rightarrow> window_op list" where
  "quit_app opened = when_some opened Destroy @ [Exit 0]"

definition menu_event ::
  "(nat \<Rightarrow> device_id \<Rightarrow> send_outcome \<times> u64) \<Rightarrow> bool \<Rightarrow> text_string \<Rightarrow> app \<Rightarrow> window_op list \<times> app" where
  "menu_event out opened item ap =
     (if item = ''show'' then (focus_main opened, ap)
      else if item = ''nav-dashboard'' then (navigate opened ''/'', ap)
      else if item = ''nav-connection'' then (navigate opened ''/connection'', ap)
      else if item = ''toggle-bridge'' then ([], toggle_bridge ap)
      else if item = ''reset-yaw'' then ([], ap\<lparr>ap_state := broadcast_reset out Yaw (ap_state ap)\<rparr>)
      else if item = ''reset-full'' then ([], ap\<lparr>ap_state := broadcast_reset out Full (ap_state ap)\<rparr>)
      else if item = ''quit'' then (quit_app opened, ap)
      else ([], ap))"

text \<open>The tooltip, with a dash and a warning sign in UTF-8.\<close>

definition tray_tooltip :: "nat \<Rightarrow> nat \<Rightarrow> text_string" where
  "tray_tooltip n low =
     (let dash = map byte_char [0xE2, 0x80, 0x94];
          base = ''everything-imu '' @ dash
            @ (if n = 1 then '' 1 device connected'' else '' '' @ dec_digits n @ '' devices connected'')
      in if low > 0
         then base @ [CHR 0x0A] @ map byte_char [0xE2, 0x9A, 0xA0] @ '' '' @ dec_digits low @ '' low battery''
         else base)"

text \<open>On Linux the tray is left out when no library for it is found.\<close>

definition tray_candidates :: "text_string list" where
  "tray_candidates =
     concat (map (\<lambda>d. map (\<lambda>c. d @ ''/'' @ c) [''libayatana-appindicator3.so.1'', ''libappindicator3.so.1''])
       [''/usr/lib'', ''/usr/lib64'', ''/usr/lib/x86_64-linux-gnu'', ''/usr/lib/aarch64-linux-gnu'', ''/lib'', ''/lib64''])"

definition tray_backend_available :: "(text_string \<Rightarrow> bool) \<Rightarrow> bool" where
  "tray_backend_available file_exists \<longleftrightarrow> list_ex file_exists tray_candidates"

text \<open>
  Building the tray may fail or panic; the program goes on without it. The answer is that of the
  builder, None a panic.
\<close>

definition init_tray_or_warn :: "(text_string \<Rightarrow> bool) \<Rightarrow> (text_string + unit) option \<Rightarrow> bool" where
  "init_tray_or_warn file_exists built \<longleftrightarrow> tray_backend_available file_exists \<and> built = Some (Inr ())"

subsection \<open>Set-up of the application\<close>

text \<open>What runs after the set-up; \<open>bt_drivers\<close> is what the supervisor is started with.\<close>

record 'a boot =
  bt_server :: 'a
  bt_app :: app
  bt_crash :: bool
  bt_tray :: bool
  bt_drivers :: "driver_choice list"

datatype 'a setup_end = SetupPanic | SetupFails text_string | Running "'a boot"

text \<open>
  The state of the application and its tasks: the haptic bridge with the stored rules, the tray,
  the drivers. The numbers of the faults are those of the reads in the order of the code.
\<close>

definition start_tasks ::
  "(text_string \<Rightarrow> haptic_config option) \<Rightarrow> sql_faults \<Rightarrow> (text_string \<Rightarrow> text_string option)
    \<Rightarrow> (text_string \<Rightarrow> bool) \<Rightarrow> (text_string + unit) option \<Rightarrow> bool \<Rightarrow> bool \<Rightarrow> 'a \<Rightarrow> database \<Rightarrow> 'a boot" where
  "start_tasks parse flt env file_exists built synthetic crash server db =
     \<lparr>bt_server = server, bt_app = app_start db (load_config parse (flt 3) db), bt_crash = crash,
      bt_tray = init_tray_or_warn file_exists built, bt_drivers = app_drivers env synthetic\<rparr>"

text \<open>
  The set-up: \<open>dir_known\<close> and \<open>log_file\<close> say whether the directory of the application is known and
  the log file can be made, \<open>opened\<close> is the database or why it did not open.
\<close>

definition app_setup ::
  "(text_string \<Rightarrow> 'a option) \<Rightarrow> (text_string \<Rightarrow> haptic_config option) \<Rightarrow> sql_faults
    \<Rightarrow> (text_string \<Rightarrow> text_string option) \<Rightarrow> (text_string \<Rightarrow> bool) \<Rightarrow> (text_string + unit) option
    \<Rightarrow> bool \<Rightarrow> bool \<Rightarrow> persistence_error + database \<Rightarrow> 'a setup_end" where
  "app_setup parse_addr parse flt env file_exists built dir_known log_file opened =
     (if \<not> dir_known then SetupPanic
      else
        case opened of
          Inl e \<Rightarrow> SetupFails (persistence_error_text e)
        | Inr db \<Rightarrow>
            (case boot_server parse_addr (flt 0) db of
               None \<Rightarrow> SetupPanic
             | Some server \<Rightarrow>
                 let synthetic = boot_flag (flt 1) ''auto_start_synthetic'' db;
                     crash = crash_reporting (boot_flag (flt 2) ''crash_report_enabled'' db)
                       (env ''EVERYTHING_IMU_SENTRY_DSN'')
                 in if \<not> log_file then SetupPanic
                    else Running (start_tasks parse flt env file_exists built synthetic crash server db)))"

subsection \<open>Messages to the user interface\<close>

datatype received_event = Event device_metadata | Lagged | ClosedChannel

fun forward_events :: "received_event list \<Rightarrow> device_metadata list" where
  "forward_events [] = []"
| "forward_events (Event m # es) = m # forward_events es"
| "forward_events (Lagged # es) = forward_events es"
| "forward_events (ClosedChannel # es) = []"

record log_entry =
  le_ts_ms :: u64
  le_level :: text_string
  le_target :: text_string
  le_message :: text_string

definition LOG_RING_CAPACITY :: nat where "LOG_RING_CAPACITY = 500"

definition visit_field :: "text_string \<Rightarrow> text_string \<Rightarrow> text_string" where
  "visit_field field msg = (if msg \<noteq> [] then msg @ '' '' else msg) @ field"

definition ring_push :: "'a \<Rightarrow> 'a list \<Rightarrow> 'a list" where
  "ring_push e buf = (if LOG_RING_CAPACITY \<le> length buf then tl buf else buf) @ [e]"

text \<open>An event, its fields printed: what is kept and what is sent to the user interface.\<close>

definition on_log_event ::
  "nat option \<Rightarrow> text_string \<Rightarrow> text_string \<Rightarrow> text_string list \<Rightarrow> log_entry list \<Rightarrow> log_entry list \<times> log_entry" where
  "on_log_event clock lvl tgt fs buf =
     (let e = \<lparr>le_ts_ms = now_ms_unix clock, le_level = lvl, le_target = tgt,
            le_message = fold visit_field fs []\<rparr>
      in (ring_push e buf, e))"

subsection \<open>Updates\<close>

record update_info =
  ui_current :: text_string
  ui_latest :: text_string
  ui_url :: text_string
  ui_available :: bool

datatype update_error = Backend text_string | NoUpdateError

fun update_error_text :: "update_error \<Rightarrow> text_string" where
  "update_error_text (Backend e) = ''updater: '' @ e"
| "update_error_text NoUpdateError = ''no update available''"

text \<open>
  What the updater answers: an error, or the update on offer with its version and address. The
  version of the program is an argument.
\<close>

type_synonym update_answer = "text_string + (text_string \<times> text_string) option"

definition update_check :: "text_string \<Rightarrow> update_answer \<Rightarrow> update_error + update_info" where
  "update_check version answer =
     (case answer of
        Inl e \<Rightarrow> Inl (Backend e)
      | Inr (Some (v, url)) \<Rightarrow>
          Inr \<lparr>ui_current = version, ui_latest = v, ui_url = url, ui_available = True\<rparr>
      | Inr None \<Rightarrow> Inr \<lparr>ui_current = version, ui_latest = version, ui_url = [], ui_available = False\<rparr>)"

definition update_apply :: "text_string \<Rightarrow> update_answer \<Rightarrow> text_string + unit \<Rightarrow> update_error + update_info" where
  "update_apply version answer install =
     (case answer of
        Inl e \<Rightarrow> Inl (Backend e)
      | Inr None \<Rightarrow> Inl NoUpdateError
      | Inr (Some (v, url)) \<Rightarrow>
          (case install of
             Inl e \<Rightarrow> Inl (Backend e)
           | Inr _ \<Rightarrow> Inr \<lparr>ui_current = version, ui_latest = v, ui_url = [], ui_available = False\<rparr>))"

definition check_for_update :: "text_string \<Rightarrow> update_answer \<Rightarrow> update_info cmd" where
  "check_for_update version answer ap =
     (case update_check version answer of
        Inl e \<Rightarrow> (Inl (Internal (update_error_text e)), ap) | Inr i \<Rightarrow> (Inr i, ap))"

definition apply_update_command ::
  "text_string \<Rightarrow> update_answer \<Rightarrow> text_string + unit \<Rightarrow> update_info cmd" where
  "apply_update_command version answer install ap =
     (case update_apply version answer install of
        Inl e \<Rightarrow> (Inl (Internal (update_error_text e)), ap) | Inr i \<Rightarrow> (Inr i, ap))"

datatype update_stage =
    Checking
  | NoUpdate text_string
  | Available text_string text_string
  | Installing text_string text_string
  | Installed text_string
  | FailedUpdate text_string

text \<open>The task at start: what it reports, and whether it asks for the installation.\<close>

definition update_at_start ::
  "sql_faults \<Rightarrow> text_string \<Rightarrow> update_answer \<Rightarrow> update_answer \<Rightarrow> text_string + unit \<Rightarrow> database
    \<Rightarrow> update_stage list" where
  "update_at_start flt version answer1 answer2 install db =
     (if \<not> boot_opt_out (flt 0) ''auto_update_on_startup'' db then []
      else Checking #
        (case update_check version answer1 of
           Inl e \<Rightarrow> [FailedUpdate (update_error_text e)]
         | Inr info \<Rightarrow>
             if \<not> ui_available info then [NoUpdate (ui_current info)]
             else Available (ui_current info) (ui_latest info) #
               (if \<not> boot_opt_out (flt 1) ''auto_install_on_startup'' db then []
                else Installing (ui_current info) (ui_latest info) #
                  (case update_apply version answer2 install of
                     Inr applied \<Rightarrow> [Installed (ui_latest applied)]
                   | Inl e \<Rightarrow> [FailedUpdate (update_error_text e)]))))"

subsection \<open>Properties\<close>


lemma synthetic_zero_starts_nothing:
  "cli_drivers env (cli_default\<lparr>cl_synthetic := Some 0\<rparr>) = []"
  by (simp add: cli_drivers_def cli_default_def any_synth_def when_some_def or_default_def)

text \<open>The last tool asked for wins over no other: the doctor comes first, tracking last.\<close>

lemma doctor_exit_code:
  "snd (run_doctor server hid jc2 pads moves decks ctrls a_bind a_conn a_send) = 0 \<longleftrightarrow>
     (\<exists>n. hid = Inr n) \<and> (\<exists>a b c. a_bind = Inr a \<and> a_conn = Inr b \<and> a_send = Inr c)"
  by (auto simp: run_doctor_def Let_def split: sum.split)

subsubsection \<open>Settings\<close>

lemma boot_setting_ok: "boot_setting None key db = sql_get None db key"
  by (simp add: boot_setting_def get_setting_def sql_get_def)

text \<open>
  Nothing that is stored keeps the program from starting: whatever the settings hold and whichever
  reads fail, it runs once the database has opened, with the stored server if it is an address.
\<close>

lemma stored_settings_never_stop_start:
  assumes "parse_addr ''127.0.0.1:6969'' = Some a"
  shows "\<exists>b. app_setup parse_addr parse flt env file_exists built True True (Inr db) = Running b
    \<and> bt_server b \<in> insert a {x. \<exists>v. boot_setting (flt 0) ''slime_server_addr'' db = Some v \<and> parse_addr v = Some x}
    \<and> ap_db (bt_app b) = db \<and> as_devices (ap_state (bt_app b)) = []"
  using assms
  by (auto simp: app_setup_def start_tasks_def boot_server_def app_start_def app_new_def Let_def
      split: option.split bind_splits)

lemma every_unreadable_setting_is_a_default:
  assumes "\<forall>n. flt n \<noteq> None" and "parse_addr ''127.0.0.1:6969'' = Some a"
  shows "app_setup parse_addr parse flt env file_exists built True True (Inr db) =
    Running \<lparr>bt_server = a, bt_app = app_start db default_config, bt_crash = False,
      bt_tray = init_tray_or_warn file_exists built, bt_drivers = app_drivers env False\<rparr>"
proof -
  have "boot_setting (flt n) key db = None" "sql_get (flt n) db key = None" for n key
    using assms(1) [rule_format, of n] by (auto simp: boot_setting_def get_setting_def sql_get_def)
  then show ?thesis
    using assms(2)
    by (simp add: app_setup_def start_tasks_def boot_server_def boot_flag_def crash_reporting_def
        load_config_def or_default_def Let_def)
qed


text \<open>
  Property C35. An update is installed at start only with the consent of the user: the
  installation is asked for only when both switches are on and the updater has offered a newer
  version, which is announced first.
\<close>

theorem update_only_with_consent:
  assumes "Installing cur new \<in> set (update_at_start flt version answer1 answer2 install db)"
  shows "boot_opt_out (flt 0) ''auto_update_on_startup'' db \<and> boot_opt_out (flt 1) ''auto_install_on_startup'' db
    \<and> cur = version \<and> (\<exists>url. answer1 = Inr (Some (new, url)))
    \<and> take 2 (update_at_start flt version answer1 answer2 install db) = [Checking, Available cur new]"
  using assms
  by (auto simp: update_at_start_def update_check_def update_apply_def split: if_splits sum.splits option.splits prod.splits)

theorem update_only_with_consent_witness:
  "take 2 (update_at_start (\<lambda>_. None) ''1.0'' (Inr (Some (''1.1'', ''u''))) (Inr (Some (''1.1'', ''u''))) (Inr ()) db_empty)
     = [Checking, Available ''1.0'' ''1.1'']"
  using update_only_with_consent [of "''1.0''" "''1.1''" "\<lambda>_. None" "''1.0''" "Inr (Some (''1.1'', ''u''))"
      "Inr (Some (''1.1'', ''u''))" "Inr ()" db_empty]
  by (simp add: update_at_start_def update_check_def update_apply_def boot_opt_out_def boot_setting_ok
      sql_get_def get_setting_def db_empty_def)

subsubsection \<open>The log\<close>

text \<open>
  The log view keeps the newest 500 entries, in order.
\<close>

theorem log_keeps_newest:
  "fold ring_push es [] = drop (length es - 500) es"
proof (induction es rule: rev_induct)
  case (snoc e es)
  have "fold ring_push (es @ [e]) [] = ring_push e (drop (length es - 500) es)"
    using snoc by simp
  also have "\<dots> = drop (length (es @ [e]) - 500) (es @ [e])"
  proof (cases "500 \<le> length es")
    case True
    then have "length (es @ [e]) - 500 = Suc (length es - 500)" by simp
    with True show ?thesis
      by (simp add: ring_push_def LOG_RING_CAPACITY_def drop_Suc tl_drop)
  next
    case False
    then show ?thesis by (simp add: ring_push_def LOG_RING_CAPACITY_def)
  qed
  finally show ?case .
qed simp

subsubsection \<open>Resets from the tray\<close>

text \<open>The datagrams a client has sent, the newest first.\<close>

definition sent_bytes :: "client \<Rightarrow> bytes list" where
  "sent_bytes c = map (\<lambda>(_, bs, _). bs) (wire c)"

lemma user_action_sends:
  "sent_bytes (snd (send_user_action o1 now a c)) = packet_bytes sb_id sb_body (seq_ctr c) (SbUserAction a) # sent_bytes c"
  "seq_ctr (snd (send_user_action o1 now a c)) = seq_ctr c + 1"
  by (simp_all add: sent_bytes_def send_user_action_def send_sb_def next_seq_def send_packet_def
      socket_send_def record_sent_def Let_def split: send_outcome.split)

text \<open>The client of a device, if it has one.\<close>

definition client_of :: "device_id \<Rightarrow> app_state \<Rightarrow> client option" where
  "client_of i st = Option.bind (map_of (as_devices st) i) (\<lambda>h. pl_cell (dh_pipe h))"

lemma client_of_request:
  "client_of i (request_reset out k st) =
     map_option (\<lambda>c. snd (send_user_action (fst (out i)) (snd (out i)) (reset_action k) c)) (client_of i st)"
proof -
  define f where "f = (\<lambda>i (h :: device_handle). case pl_cell (dh_pipe h) of None \<Rightarrow> h
      | Some c \<Rightarrow> h\<lparr>dh_pipe := (dh_pipe h)\<lparr>pl_cell :=
          Some (snd (send_user_action (fst (out i)) (snd (out i)) (reset_action k) c))\<rparr>\<rparr>)"
  have m: "map_of (map (\<lambda>(i, h). (i, f i h)) xs) i = map_option (f i) (map_of xs i)" for xs
    by (induction xs) auto
  have p: "pl_cell (dh_pipe (f i h)) =
      map_option (\<lambda>c. snd (send_user_action (fst (out i)) (snd (out i)) (reset_action k) c)) (pl_cell (dh_pipe h))" for h
    by (simp add: f_def split: option.split)
  have "as_devices (request_reset out k st) = map (\<lambda>(i, h). (i, f i h)) (as_devices st)"
    by (simp add: request_reset_def f_def)
  then show ?thesis
    unfolding client_of_def by (cases "map_of (as_devices st) i") (simp_all add: m p)
qed

lemma length_request [simp]: "length (as_devices (request_reset out k st)) = length (as_devices st)"
  by (simp add: request_reset_def)

lemma fold_request:
  "client_of i st = Some c \<Longrightarrow>
     \<exists>c'. client_of i (fold (\<lambda>n. request_reset (out n) k) [m..<m + n] st) = Some c'
       \<and> seq_ctr c' = seq_ctr c + of_nat n
       \<and> sent_bytes c' = rev (map (\<lambda>j. packet_bytes sb_id sb_body (seq_ctr c + of_nat j)
             (SbUserAction (reset_action k))) [0..<n]) @ sent_bytes c"
proof (induction n)
  case (Suc n)
  then obtain c' where c: "client_of i (fold (\<lambda>n. request_reset (out n) k) [m..<m + n] st) = Some c'"
    "seq_ctr c' = seq_ctr c + of_nat n"
    "sent_bytes c' = rev (map (\<lambda>j. packet_bytes sb_id sb_body (seq_ctr c + of_nat j)
             (SbUserAction (reset_action k))) [0..<n]) @ sent_bytes c" by blast
  then show ?case
    by (simp add: client_of_request user_action_sends)
qed simp

text \<open>
  Property C7. A reset from the tray menu is sent once for every pair of devices: the menu asks
  for a reset for each device, and each request goes to all of them, so with \<open>n\<close> devices every
  connected client sends \<open>n\<close> packets with consecutive numbers where one was meant.
\<close>

theorem tray_reset_repeats_for_every_device:
  assumes "client_of i st = Some c"
  shows "\<exists>c'. client_of i (broadcast_reset out k st) = Some c'
    \<and> sent_bytes c' = rev (map (\<lambda>j. packet_bytes sb_id sb_body (seq_ctr c + of_nat j)
          (SbUserAction (reset_action k))) [0..<length (as_devices st)]) @ sent_bytes c"
  using fold_request [OF assms, of out k 0 "length (as_devices st)"]
  by (auto simp: broadcast_reset_def device_metadata_snapshot_def)

definition connected_pair :: "client \<Rightarrow> device_handle \<Rightarrow> app_state" where
  "connected_pair c h =
     (let h' = h\<lparr>dh_pipe := (dh_pipe h)\<lparr>pl_cell := Some c\<rparr>\<rparr>
      in app_new\<lparr>as_devices := [(\<lparr>id_mac = [1, 2, 3, 4, 5, 6], id_serial = ''A''\<rparr>, h'),
           (\<lparr>id_mac = [1, 2, 3, 4, 5, 7], id_serial = ''B''\<rparr>, h')]\<rparr>)"

theorem tray_reset_repeats_for_every_device_witness:
  "\<forall>c h. \<exists>c'. client_of \<lparr>id_mac = [1, 2, 3, 4, 5, 6], id_serial = ''A''\<rparr>
       (broadcast_reset (\<lambda>n i. (SendOk, 7)) Yaw (connected_pair c h)) = Some c'
     \<and> sent_bytes c' = [packet_bytes sb_id sb_body (seq_ctr c + 1) (SbUserAction ActResetYaw),
         packet_bytes sb_id sb_body (seq_ctr c) (SbUserAction ActResetYaw)] @ sent_bytes c"
proof (intro allI)
  fix c h
  have "client_of \<lparr>id_mac = [1, 2, 3, 4, 5, 6], id_serial = ''A''\<rparr> (connected_pair c h) = Some c"
    by (simp add: client_of_def connected_pair_def Let_def)
  from tray_reset_repeats_for_every_device [OF this, of "\<lambda>n i. (SendOk, 7)" Yaw]
  show "\<exists>c'. client_of \<lparr>id_mac = [1, 2, 3, 4, 5, 6], id_serial = ''A''\<rparr>
       (broadcast_reset (\<lambda>n i. (SendOk, 7)) Yaw (connected_pair c h)) = Some c'
     \<and> sent_bytes c' = [packet_bytes sb_id sb_body (seq_ctr c + 1) (SbUserAction ActResetYaw),
         packet_bytes sb_id sb_body (seq_ctr c) (SbUserAction ActResetYaw)] @ sent_bytes c"
    by (simp add: connected_pair_def Let_def reset_action_def)
qed

end
