(* ===== verification/System_Setup.thy ===== *)
theory System_Setup
  imports Joycon Sony Ps_Move Dual_Shock3 Steam_Pads App_Commands
begin

section \<open>Access to the controllers\<close>

text \<open>
  Two ways the application gets hold of controllers that another program or the system keeps
  from it: \<^verbatim>\<open>steam_blacklist.rs\<close>, which enters them into Steam's list of controllers to leave
  alone, and \<^verbatim>\<open>udev_install.rs\<close>, which installs rules that let the user open them.

  The reader of Steam's configuration (the \<^verbatim>\<open>keyvalues-parser\<close> crate), the searches of the
  \<^verbatim>\<open>regex\<close> crate and the lower case of a text are arguments, \<open>steam_env\<close>; what the system
  answers is an input, an error with its text.
\<close>

subsection \<open>The blacklist\<close>

datatype steam_pad = SteamJoycon | SteamSwitchPro

fun steam_ids :: "steam_pad \<Rightarrow> text_string list" where
  "steam_ids SteamJoycon = [''0x057e/0x2006'', ''0x057e/0x2007'', ''0x057e/0x2008'']"
| "steam_ids SteamSwitchPro = [''0x057e/0x2009'']"

datatype blacklist_error =
    BlIo text_string
  | BlParse text_string
  | BlInvalid
  | BlRegex
  | BlUpdate

definition em_dash :: text_string where
  "em_dash = map byte_char [0xE2, 0x80, 0x94]"

fun blacklist_error_text :: "blacklist_error \<Rightarrow> text_string" where
  "blacklist_error_text (BlIo e) = ''io: '' @ e"
| "blacklist_error_text (BlParse e) = ''vdf parse: '' @ e"
| "blacklist_error_text BlInvalid = ''steam config has no Software section '' @ em_dash @ '' not a Steam install''"
| "blacklist_error_text BlRegex = ''could not locate the controller_blacklist line in config.vdf''"
| "blacklist_error_text BlUpdate = ''blacklist was written but re-read did not contain the new entries''"

text \<open>A value of the configuration: a text, or a map from keys to the values under them.\<close>

datatype vdf = VdfStr text_string | VdfObj "(text_string \<times> vdf list) list"

fun vdf_obj :: "vdf \<Rightarrow> (text_string \<times> vdf list) list option" where
  "vdf_obj (VdfObj o') = Some o'"
| "vdf_obj (VdfStr s) = None"

fun vdf_str :: "vdf \<Rightarrow> text_string option" where
  "vdf_str (VdfStr s) = Some s"
| "vdf_str (VdfObj o') = None"

text \<open>
  The searches: for the entry with its old list, and for the brace that closes the file. Each
  gives how often it matches and the text with a new list put in at the first match.
\<close>

record steam_env =
  se_parse :: "text_string \<Rightarrow> text_string + vdf"
  se_lower :: "text_string \<Rightarrow> text_string"
  se_old :: "text_string \<Rightarrow> text_string \<Rightarrow> nat \<times> (text_string \<Rightarrow> text_string)"
  se_end :: "text_string \<Rightarrow> nat \<times> (text_string \<Rightarrow> text_string)"

definition check_valid :: "vdf \<Rightarrow> bool" where
  "check_valid cfg \<longleftrightarrow>
     (case Option.bind (vdf_obj cfg) (\<lambda>m. map_of m ''Software'') of Some s \<Rightarrow> s \<noteq> [] | None \<Rightarrow> False)"

definition get_blacklist :: "vdf \<Rightarrow> text_string option" where
  "get_blacklist cfg =
     Option.bind (vdf_obj cfg) (\<lambda>m.
     Option.bind (map_of m ''controller_blacklist'') (\<lambda>vs.
     case vs of [] \<Rightarrow> None | v # _ \<Rightarrow> vdf_str v))"

text \<open>
  Where the file is: only Windows has a registry that tells. The registry answers whether the
  first key opens, then the second, and what the value is.
\<close>

definition steam_path :: "bool \<Rightarrow> bool \<Rightarrow> text_string + unit \<Rightarrow> text_string + text_string \<Rightarrow> text_string + text_string" where
  "steam_path windows first other install =
     (if \<not> windows then Inl ''entity not found''
      else if first then install
      else case other of Inl e \<Rightarrow> Inl e | Inr _ \<Rightarrow> install)"

definition config_path :: "text_string + text_string \<Rightarrow> text_string + text_string" where
  "config_path p = (case p of Inl e \<Rightarrow> Inl e | Inr d \<Rightarrow> Inr (d @ [CHR 0x5C] @ ''config'' @ [CHR 0x5C] @ ''config.vdf''))"

definition read_config :: "text_string + text_string \<Rightarrow> (text_string \<Rightarrow> text_string + text_string) \<Rightarrow> text_string + text_string" where
  "read_config p fs = (case config_path p of Inl e \<Rightarrow> Inl e | Inr f \<Rightarrow> fs f)"

definition set_blacklist :: "steam_env \<Rightarrow> text_string \<Rightarrow> vdf \<Rightarrow> text_string \<Rightarrow> blacklist_error + text_string" where
  "set_blacklist env raw cfg new =
     (case (case get_blacklist cfg of Some old \<Rightarrow> se_old env raw old | None \<Rightarrow> se_end env raw) of
        (n, put) \<Rightarrow> if n \<noteq> 1 then Inl BlRegex else Inr (put new))"

definition verify_blacklist :: "steam_env \<Rightarrow> text_string \<Rightarrow> text_string \<Rightarrow> blacklist_error + unit" where
  "verify_blacklist env text new =
     (case se_parse env text of
        Inl e \<Rightarrow> Inl (BlParse e)
      | Inr cfg \<Rightarrow> if get_blacklist cfg = Some new then Inr () else Inl BlUpdate)"

definition bl_has :: "text_string list \<Rightarrow> steam_pad \<Rightarrow> bool" where
  "bl_has devices d \<longleftrightarrow> list_all (\<lambda>i. i \<in> set devices) (steam_ids d)"

text \<open>The first of equal entries is kept.\<close>

definition unique_texts :: "text_string list \<Rightarrow> text_string list" where
  "unique_texts xs = rev (remdups (rev xs))"

definition bl_add :: "steam_pad \<Rightarrow> text_string list \<Rightarrow> text_string list" where
  "bl_add d devices = unique_texts (devices @ steam_ids d)"

definition bl_entries :: "steam_env \<Rightarrow> text_string \<Rightarrow> text_string list" where
  "bl_entries env l = filter (\<lambda>s. s \<noteq> []) (map (se_lower env) (split_on (\<lambda>c. c = CHR '','') l))"

definition bl_read :: "steam_env \<Rightarrow> text_string + text_string \<Rightarrow> blacklist_error + text_string list" where
  "bl_read env answer =
     (case answer of
        Inl e \<Rightarrow> Inl (BlIo e)
      | Inr text \<Rightarrow>
          (case se_parse env text of
             Inl e \<Rightarrow> Inl (BlParse e)
           | Inr cfg \<Rightarrow>
               if \<not> check_valid cfg then Inl BlInvalid
               else Inr (case get_blacklist cfg of None \<Rightarrow> [] | Some l \<Rightarrow> bl_entries env l)))"

fun join_commas :: "text_string list \<Rightarrow> text_string" where
  "join_commas [] = []"
| "join_commas [d] = d"
| "join_commas (d # ds) = d @ CHR '','' # join_commas ds"

text \<open>The result, and the text the file was asked to be replaced by, if it got that far.\<close>

definition bl_save ::
  "steam_env \<Rightarrow> text_string list \<Rightarrow> text_string + text_string \<Rightarrow> text_string + unit
    \<Rightarrow> (blacklist_error + unit) \<times> text_string option" where
  "bl_save env devices answer write =
     (case answer of
        Inl e \<Rightarrow> (Inl (BlIo e), None)
      | Inr text \<Rightarrow>
          (case se_parse env text of
             Inl e \<Rightarrow> (Inl (BlParse e), None)
           | Inr cfg \<Rightarrow>
               if \<not> check_valid cfg then (Inl BlInvalid, None)
               else
                 (let new = join_commas devices in
                  case set_blacklist env text cfg new of
                    Inl e \<Rightarrow> (Inl e, None)
                  | Inr patched \<Rightarrow>
                      (case verify_blacklist env patched new of
                         Inl e \<Rightarrow> (Inl e, None)
                       | Inr _ \<Rightarrow> ((case write of Inl e \<Rightarrow> Inl (BlIo e) | Inr _ \<Rightarrow> Inr ()), Some patched)))))"

text \<open>The file is read twice: for the list, and again for saving.\<close>

definition apply_fix ::
  "steam_env \<Rightarrow> text_string + text_string \<Rightarrow> text_string + text_string \<Rightarrow> text_string + unit
    \<Rightarrow> (blacklist_error + unit) \<times> text_string option" where
  "apply_fix env answer1 answer2 write =
     (case bl_read env answer1 of
        Inl e \<Rightarrow> (Inl e, None)
      | Inr devices \<Rightarrow> bl_save env (bl_add SteamSwitchPro (bl_add SteamJoycon devices)) answer2 write)"

record blacklist_status =
  bs_needs_fix :: bool
  bs_steam_not_found :: bool
  bs_info :: text_string

definition grabbing_text :: text_string where
  "grabbing_text =
     ''Steam Input is currently grabbing Joy-Con / Pro Controllers. Without a fix, hidapi will never see them. ''
     @ ''Click Fix to add the required entries to Steam'' @ [CHR 0x27] @ ''s controller_blacklist.''"

definition check_blacklist :: "steam_env \<Rightarrow> text_string + text_string \<Rightarrow> blacklist_status" where
  "check_blacklist env answer =
     (case bl_read env answer of
        Inr devices \<Rightarrow>
          if length (filter (\<lambda>d. \<not> bl_has devices d) [SteamJoycon, SteamSwitchPro]) = 0
          then \<lparr>bs_needs_fix = False, bs_steam_not_found = False, bs_info = ''Steam controller blacklist OK.''\<rparr>
          else \<lparr>bs_needs_fix = True, bs_steam_not_found = False, bs_info = grabbing_text\<rparr>
      | Inl (BlIo e) \<Rightarrow>
          \<lparr>bs_needs_fix = False, bs_steam_not_found = True,
           bs_info = ''Steam not detected '' @ em_dash @ '' nothing to do.''\<rparr>
      | Inl e \<Rightarrow>
          \<lparr>bs_needs_fix = False, bs_steam_not_found = False,
           bs_info = ''Steam config check failed: '' @ blacklist_error_text e\<rparr>)"

definition steam_blacklist_check :: "steam_env \<Rightarrow> text_string + text_string \<Rightarrow> blacklist_status cmd" where
  "steam_blacklist_check env answer = cmd_return (check_blacklist env answer)"

definition steam_blacklist_apply_fix ::
  "steam_env \<Rightarrow> text_string + text_string \<Rightarrow> text_string + text_string \<Rightarrow> text_string + unit \<Rightarrow> unit cmd" where
  "steam_blacklist_apply_fix env answer1 answer2 write =
     (case fst (apply_fix env answer1 answer2 write) of
        Inl e \<Rightarrow> cmd_fail (Internal (blacklist_error_text e)) | Inr _ \<Rightarrow> cmd_return ())"

subsection \<open>Rules for the device files\<close>

definition nintendo_rules :: "text_string list" where
  "nintendo_rules = [''2006'', ''2007'', ''2009'', ''2017'', ''2066'', ''2067'']"

definition sony_rules :: "text_string list" where
  "sony_rules = [''05c4'', ''09cc'', ''0ce6'', ''0df2'', ''03d5'']"

definition dquote :: "text_string \<Rightarrow> text_string" where
  "dquote s = [CHR 0x22] @ s @ [CHR 0x22]"

definition rule_line :: "text_string \<Rightarrow> text_string \<Rightarrow> text_string" where
  "rule_line vendor product =
     ''KERNEL=='' @ dquote ''hidraw*'' @ '', ATTRS{idVendor}=='' @ dquote vendor
     @ '', ATTRS{idProduct}=='' @ dquote product @ '', MODE='' @ dquote ''0660'' @ '', TAG+='' @ dquote ''uaccess''
     @ [CHR 0x0A]"

definition RULES :: text_string where
  "RULES =
     ''# everything-imu '' @ em_dash @ '' let the local user open Joy-Con / DualSense / PSMove HID nodes.'' @ [CHR 0x0A]
     @ ''# Nintendo (Joy-Con L/R, Pro, NSO N64, Joy-Con 2, Pro 2)'' @ [CHR 0x0A]
     @ concat (map (rule_line ''057e'') nintendo_rules)
     @ ''# Sony (DualShock 4, DualSense, DualSense Edge, PSMove)'' @ [CHR 0x0A]
     @ concat (map (rule_line ''054c'') sony_rules)"

definition UDEV_TARGET :: text_string where
  "UDEV_TARGET = ''/etc/udev/rules.d/99-everything-imu.rules''"

datatype install_error =
    UnsupportedPlatform
  | InstallIo text_string
  | Pkexec int text_string
  | NoPkexec

definition int_text :: "int \<Rightarrow> text_string" where
  "int_text n = (if n < 0 then ''-'' @ dec_digits (nat (- n)) else dec_digits (nat n))"

fun install_error_text :: "install_error \<Rightarrow> text_string" where
  "install_error_text UnsupportedPlatform = ''udev rule installation is Linux-only''"
| "install_error_text (InstallIo e) = ''io: '' @ e"
| "install_error_text (Pkexec code err) = ''pkexec failed (exit '' @ int_text code @ ''): '' @ err"
| "install_error_text NoPkexec = ''pkexec not found in PATH '' @ em_dash @ '' install policykit and retry''"

text \<open>
  What the system answers: whether \<^verbatim>\<open>which\<close> finds the program, whether it starts, whether its
  input is there, whether the rules can be written to it, and how it ends: whether well, the
  exit code if there is one, and what it wrote.
\<close>

record pkexec_answers =
  pk_which :: bool
  pk_spawn :: "text_string + unit"
  pk_stdin :: bool
  pk_write :: "text_string + unit"
  pk_end :: "text_string + (bool \<times> int option \<times> text_string)"

definition udev_install :: "bool \<Rightarrow> pkexec_answers \<Rightarrow> install_error + text_string" where
  "udev_install linux a =
     (if \<not> linux then Inl UnsupportedPlatform
      else if \<not> pk_which a then Inl NoPkexec
      else case pk_spawn a of
        Inl e \<Rightarrow> Inl (InstallIo e)
      | Inr _ \<Rightarrow>
          if \<not> pk_stdin a then Inl (InstallIo ''pkexec stdin unavailable'')
          else case pk_write a of
            Inl e \<Rightarrow> Inl (InstallIo e)
          | Inr _ \<Rightarrow>
              (case pk_end a of
                 Inl e \<Rightarrow> Inl (InstallIo e)
               | Inr (ok, code, err) \<Rightarrow>
                   if \<not> ok then Inl (Pkexec (case code of Some n \<Rightarrow> n | None \<Rightarrow> -1) err)
                   else Inr (''Installed udev rules to '' @ UDEV_TARGET @ ''. Reconnect controllers.'')))"

definition install_udev_rules :: "bool \<Rightarrow> pkexec_answers \<Rightarrow> text_string cmd" where
  "install_udev_rules linux a =
     (case udev_install linux a of
        Inl e \<Rightarrow> cmd_fail (Internal (install_error_text e)) | Inr t \<Rightarrow> cmd_return t)"

subsection \<open>Properties\<close>

lemma set_unique_texts [simp]: "set (unique_texts xs) = set xs"
  by (simp add: unique_texts_def)

lemma split_on_no_sep: "\<forall>c \<in> set d. \<not> p c \<Longrightarrow> split_on p d = [d]"
  by (induction d) auto

lemma split_on_append: "\<forall>c \<in> set d. \<not> p c \<Longrightarrow> p s \<Longrightarrow> split_on p (d @ s # r) = d # split_on p r"
  by (induction d) auto

lemma split_join:
  assumes "ds \<noteq> []" and "\<forall>d \<in> set ds. CHR '','' \<notin> set d"
  shows "split_on (\<lambda>c. c = CHR '','') (join_commas ds) = ds"
  using assms
proof (induction ds rule: join_commas.induct)
  case (2 d)
  then show ?case by (auto intro: split_on_no_sep)
next
  case (3 d e ds)
  then show ?case by (subst join_commas.simps(3), subst split_on_append) auto
qed simp

lemma split_on_pieces: "d \<in> set (split_on p s) \<Longrightarrow> c \<in> set d \<Longrightarrow> \<not> p c"
proof (induction s arbitrary: d)
  case (Cons a s)
  show ?case
  proof (cases "split_on p s")
    case Nil
    with Cons.prems show ?thesis by (auto split: if_splits)
  next
    case (Cons w ws)
    with Cons.prems Cons.IH [of w] Cons.IH [of d] show ?thesis by (cases "p a") auto
  qed
qed simp

text \<open>
  Laws of the lower case of a text that the fix relies on: it leaves the identifiers alone, it
  is done after one time, and no comma comes out of a text without one.
\<close>

definition lower_ok :: "steam_env \<Rightarrow> bool" where
  "lower_ok env \<longleftrightarrow> (\<forall>d. \<forall>i \<in> set (steam_ids d). se_lower env i = i)
     \<and> (\<forall>s. se_lower env (se_lower env s) = se_lower env s)
     \<and> (\<forall>s. CHR '','' \<notin> set s \<longrightarrow> CHR '','' \<notin> set (se_lower env s))
     \<and> (\<forall>s. se_lower env s = [] \<longleftrightarrow> s = [])"

lemma bl_entries_facts:
  assumes "lower_ok env" and "d \<in> set (bl_entries env l)"
  shows "CHR '','' \<notin> set d" "se_lower env d = d" "d \<noteq> []"
proof -
  obtain s where "s \<in> set (split_on (\<lambda>c. c = CHR '','') l)" "d = se_lower env s" "d \<noteq> []"
    using assms(2) by (auto simp: bl_entries_def)
  moreover from this(1) have "CHR '','' \<notin> set s" using split_on_pieces by blast
  ultimately show "CHR '','' \<notin> set d" "se_lower env d = d" "d \<noteq> []"
    using assms(1) by (auto simp: lower_ok_def)
qed

lemma steam_ids_facts: "i \<in> set (steam_ids d) \<Longrightarrow> CHR '','' \<notin> set i \<and> i \<noteq> []"
  by (cases d) auto

lemma bl_read_entries:
  assumes "lower_ok env" and "bl_read env answer = Inr ds" and "d \<in> set ds"
  shows "CHR '','' \<notin> set d" "se_lower env d = d" "d \<noteq> []"
proof -
  obtain l where "d \<in> set (bl_entries env l)"
    using assms(2, 3) by (auto simp: bl_read_def split: sum.splits if_splits option.splits)
  from bl_entries_facts [OF assms(1) this]
  show "CHR '','' \<notin> set d" "se_lower env d = d" "d \<noteq> []" by blast+
qed

lemma entries_of_join:
  assumes "lower_ok env" and "ds \<noteq> []"
    and "\<forall>d \<in> set ds. CHR '','' \<notin> set d \<and> se_lower env d = d \<and> d \<noteq> []"
  shows "bl_entries env (join_commas ds) = ds"
proof -
  have "split_on (\<lambda>c. c = CHR '','') (join_commas ds) = ds" using assms by (intro split_join) auto
  moreover have "map (se_lower env) ds = ds" "filter (\<lambda>s. s \<noteq> []) ds = ds"
    using assms(3) by (auto intro: map_idI simp: filter_id_conv)
  ultimately show ?thesis by (simp add: bl_entries_def)
qed


definition toy_env :: steam_env where
  "toy_env =
     \<lparr>se_parse = (\<lambda>t. Inr (VdfObj ([(''Software'', [VdfStr ''x''])]
        @ (if t = ''old'' then [] else [(''controller_blacklist'', [VdfStr t])])))),
      se_lower = map ascii_lower, se_old = (\<lambda>raw old. (0, id)), se_end = (\<lambda>raw. (1, id))\<rparr>"

lemma ascii_lower_facts:
  "ascii_lower (ascii_lower c) = ascii_lower c" "ascii_lower c = CHR '','' \<longleftrightarrow> c = CHR '',''"
proof -
  show "ascii_lower (ascii_lower c) = ascii_lower c"
    by (simp add: ascii_lower_def Let_def)
  have "char_of (n + 32) \<noteq> CHR '',''" if "65 \<le> n" "n \<le> 90" for n :: nat
  proof
    assume "char_of (n + 32) = CHR '',''"
    then have "of_char (char_of (n + 32) :: char) = (of_char CHR '','' :: nat)" by simp
    with that show False by simp
  qed
  then show "ascii_lower c = CHR '','' \<longleftrightarrow> c = CHR '',''"
    by (auto simp: ascii_lower_def Let_def)
qed

lemma toy_env_ok: "lower_ok toy_env"
proof -
  have "se_lower toy_env i = i" if "i \<in> set (steam_ids d)" for i d
    using that by (cases d) (auto simp: toy_env_def ascii_lower_def)
  moreover have "CHR '','' \<notin> set s \<Longrightarrow> CHR '','' \<notin> set (map ascii_lower s)" for s
    using ascii_lower_facts(2) by (metis (no_types) imageE list.set_map)
  ultimately show ?thesis
    unfolding lower_ok_def by (simp add: toy_env_def ascii_lower_facts(1))
qed

lemma toy_env_valid: "se_parse toy_env t = Inr cfg \<Longrightarrow> check_valid cfg"
  by (auto simp: toy_env_def check_valid_def)


subsubsection \<open>Rules\<close>

text \<open>A device that one of the drivers takes.\<close>

definition taken_by_a_driver :: "hid_info \<Rightarrow> bool" where
  "taken_by_a_driver i \<longleftrightarrow>
     jc_listed i \<and> jc_from_pid (hi_pid i) \<noteq> None
     \<or> sony_listed i \<and> sony_from_pid (hi_pid i) \<noteq> None
     \<or> ps_listed i \<or> ds3_listed i \<or> deck_listed i \<or> sc_listed i"

text \<open>The identifiers as they are written in a rule, four digits in hex.\<close>

definition hex4 :: "u16 \<Rightarrow> text_string" where
  "hex4 w = map (\<lambda>k. ''0123456789abcdef'' ! (unat w div 16 ^ k mod 16)) [3, 2, 1, 0]"

lemma hex4_values:
  "hex4 0x057E = ''057e''"
  "hex4 0x2006 = ''2006''"
  "hex4 0x2007 = ''2007''"
  "hex4 0x2009 = ''2009''"
  "hex4 0x054C = ''054c''"
  "hex4 0x0CE6 = ''0ce6''"
  "hex4 0x0DF2 = ''0df2''"
  "hex4 0x05C4 = ''05c4''"
  "hex4 0x09CC = ''09cc''"
  "hex4 0x03D5 = ''03d5''"
  "hex4 0x0C5E = ''0c5e''"
  "hex4 0x0268 = ''0268''"
  "hex4 0x28DE = ''28de''"
  "hex4 0x1205 = ''1205''"
  "hex4 0x1102 = ''1102''"
  "hex4 0x1142 = ''1142''"
  by (simp_all add: hex4_def)

definition ids_have_rule :: "u16 \<Rightarrow> u16 \<Rightarrow> bool" where
  "ids_have_rule vid pid \<longleftrightarrow> (hex4 vid = ''057e'' \<and> hex4 pid \<in> set nintendo_rules)
     \<or> (hex4 vid = ''054c'' \<and> hex4 pid \<in> set sony_rules)"

definition has_rule :: "hid_info \<Rightarrow> bool" where
  "has_rule i \<longleftrightarrow> ids_have_rule (hi_vendor i) (hi_pid i)"

text \<open>
  Property C37. The installed rules do not open every controller the drivers take: left out are
  exactly the second PS Move, the DualShock 3 and the Steam controllers.
\<close>

theorem devices_without_a_rule:
  assumes "taken_by_a_driver i"
  shows "\<not> has_rule i \<longleftrightarrow>
    (hi_vendor i, hi_pid i) \<in> {(0x054C, 0x0C5E), (0x054C, 0x0268), (0x28DE, 0x1205), (0x28DE, 0x1102), (0x28DE, 0x1142)}"
proof -
  have "(hi_vendor i, hi_pid i) \<in> set
      [(0x057E, 0x2006), (0x057E, 0x2007), (0x057E, 0x2009), (0x054C, 0x0CE6), (0x054C, 0x0DF2), (0x054C, 0x05C4),
       (0x054C, 0x09CC), (0x054C, 0x03D5), (0x054C, 0x0C5E), (0x054C, 0x0268), (0x28DE, 0x1205), (0x28DE, 0x1102),
       (0x28DE, 0x1142)]"
    using assms
    by (auto simp: taken_by_a_driver_def jc_listed_def jc_from_pid_def JOYCON_VID_def
      sony_listed_def sony_from_pid_def SONY_VID_def ps_listed_def ps_from_pid_def ds3_listed_def
      deck_listed_def is_gamepad_interface_def sc_listed_def sc_from_pid_def split: if_splits)
  moreover have "\<forall>(v, p) \<in> set
      [(0x057E, 0x2006), (0x057E, 0x2007), (0x057E, 0x2009), (0x054C, 0x0CE6), (0x054C, 0x0DF2), (0x054C, 0x05C4),
       (0x054C, 0x09CC), (0x054C, 0x03D5), (0x054C, 0x0C5E), (0x054C, 0x0268), (0x28DE, 0x1205), (0x28DE, 0x1102),
       (0x28DE, 0x1142)].
      \<not> ids_have_rule v p \<longleftrightarrow>
      (v, p) \<in> set [(0x054C, 0x0C5E), (0x054C, 0x0268), (0x28DE, 0x1205), (0x28DE, 0x1102), (0x28DE, 0x1142)]"
    by (simp add: ids_have_rule_def hex4_values nintendo_rules_def sony_rules_def)
  ultimately show ?thesis by (auto simp: has_rule_def)
qed

definition dualshock3_info :: hid_info where
  "dualshock3_info = \<lparr>hi_path = [], hi_vendor = 0x054C, hi_pid = 0x0268, hi_serial = [], hi_iface = 0,
     hi_usage_page = 0, hi_usage = 0\<rparr>"

theorem devices_without_a_rule_witness: "taken_by_a_driver dualshock3_info \<and> \<not> has_rule dualshock3_info"
proof -
  have "taken_by_a_driver dualshock3_info"
    by (simp add: taken_by_a_driver_def ds3_listed_def dualshock3_info_def)
  with devices_without_a_rule [OF this] show ?thesis by (simp add: dualshock3_info_def)
qed

end
