(* ===== verification/Hid_Diag.thy ===== *)
theory Hid_Diag
  imports Hopx_Tools Sony Ps_Move
begin

section \<open>Diagnostics of the controllers\<close>

text \<open>
  The tools that print raw reports: \<^verbatim>\<open>diagnostics.rs\<close> of the DualSense, PS Move and Wii
  crates. What \<^verbatim>\<open>hidapi\<close>, the socket and the clock answer are inputs. What is printed is kept
  as data, not as text.
\<close>

subsection \<open>DualSense and DualShock 4\<close>

record raw_pad_sample =
  ps_report_id :: u8
  ps_len :: nat
  ps_gyro :: "int \<times> int \<times> int"
  ps_accel :: "int \<times> int \<times> int"
  ps_timestamp :: "u32 option"
  ps_ts_delta :: "u32 option"
  ps_ts_offset :: "nat option"
  ps_rate :: f32
  ps_pressed :: "bool option"

text \<open>The first listed pad, reopened by its product and interface from the device list.\<close>

definition open_first_pad ::
  "text_string + (hid_info \<times> sony_kind \<times> mac) list \<Rightarrow> text_string + hid_info list
    \<Rightarrow> (hid_info \<Rightarrow> text_string + unit) \<Rightarrow> text_string + (hid_info \<times> sony_kind \<times> nat)" where
  "open_first_pad listed api opens =
     and_then (failing ''list paired'' listed) (\<lambda>pads.
     case pads of
       [] \<Rightarrow> Inl ''no paired Sony pad found''
     | (i, kind, m) # _ \<Rightarrow>
         and_then (failing ''hidapi init'' api) (\<lambda>infos.
         case find (\<lambda>j. hi_vendor j = SONY_VID \<and> hi_pid j = hi_pid i \<and> hi_iface j = hi_iface i) infos of
           None \<Rightarrow> Inl ''paired pad vanished before open''
         | Some j \<Rightarrow> and_then (failing ''open'' (opens j)) (\<lambda>_. Inr (j, kind, nat (hi_iface j)))))"

definition ds5_usb_output :: "u8 \<Rightarrow> u8 \<Rightarrow> u8 \<Rightarrow> u8 \<Rightarrow> bytes" where
  "ds5_usb_output r g b mot =
     (replicate 48 0)[0 := 0x02, 1 := 0xFF, 2 := 0xF7, 3 := mot, 4 := mot, 45 := r, 46 := g, 47 := b]"

definition haptic_steps :: "(u8 \<times> u8 \<times> u8 \<times> u8) list" where
  "haptic_steps = [(255, 0, 0, 220), (0, 255, 0, 0), (0, 0, 255, 110), (255, 255, 255, 255), (0, 0, 0, 0)]"

text \<open>The steps: the reports written, until a write fails; the answers are in order.\<close>

fun haptic_writes :: "(u8 \<times> u8 \<times> u8 \<times> u8) list \<Rightarrow> (text_string + unit) list \<Rightarrow> bytes list \<times> (text_string + unit)" where
  "haptic_writes [] answers = ([], Inr ())"
| "haptic_writes ((r, g, b, m) # steps) [] = ([], Inr ())"
| "haptic_writes ((r, g, b, m) # steps) (Inl e # answers) = ([], Inl (''write output: '' @ e))"
| "haptic_writes ((r, g, b, m) # steps) (Inr _ # answers) =
     map_prod ((#) (ds5_usb_output r g b m)) id (haptic_writes steps answers)"

definition haptic_test ::
  "(sony_kind \<Rightarrow> text_string) \<Rightarrow> text_string + (hid_info \<times> sony_kind \<times> nat) \<Rightarrow> (text_string + unit) list
    \<Rightarrow> bytes list \<times> (text_string + unit)" where
  "haptic_test kind_text opened answers =
     (case opened of
        Inl e \<Rightarrow> ([], Inl e)
      | Inr (j, kind, iface) \<Rightarrow>
          if kind = KindDualShock4
          then ([], Inl (''haptic test only wired for DualSense, got '' @ kind_text kind))
          else (case haptic_writes haptic_steps answers of
                  (ws, Inl e) \<Rightarrow> (ws, Inl e)
                | (ws, Inr _) \<Rightarrow> (ws @ [ds5_usb_output 0 0 0 0], Inr ())))"

definition diag_i16 :: "bytes \<Rightarrow> nat \<Rightarrow> int" where
  "diag_i16 buf off = (case read_i16_le buf off of Some v \<Rightarrow> v | None \<Rightarrow> 0)"

definition diag_u16 :: "bytes \<Rightarrow> nat \<Rightarrow> u16 option" where
  "diag_u16 buf off = map_option from_le (slice_at buf off 2)"

definition diag_triple :: "bytes \<Rightarrow> nat \<Rightarrow> int \<times> int \<times> int" where
  "diag_triple buf off = (diag_i16 buf off, diag_i16 buf (off + 2), diag_i16 buf (off + 4))"

text \<open>The layout of a report, with the timestamp before it; and the timestamp to compare the next with.\<close>

definition decode_layout ::
  "sony_kind \<Rightarrow> bytes \<Rightarrow> u32 option
    \<Rightarrow> ((int \<times> int \<times> int) \<times> (int \<times> int \<times> int) \<times> u32 option \<times> u32 option \<times> nat option) \<times> u32 option" where
  "decode_layout kind buf prev =
     (case for_report kind (length buf) of
        None \<Rightarrow> (((0, 0, 0), (0, 0, 0), None, None, None), prev)
      | Some offs \<Rightarrow>
          let off = (if kind = KindDualShock4 then io_gyro offs - 3 else io_accel offs + 6);
              ts = (if kind = KindDualShock4 then map_option ucast (diag_u16 buf off) else read_u32_le buf off);
              delta = (case (ts, prev) of (Some cur, Some p) \<Rightarrow> Some (cur - p) | _ \<Rightarrow> None)
          in ((diag_triple buf (io_gyro offs), diag_triple buf (io_accel offs), ts, delta, Some off),
              (case ts of Some cur \<Rightarrow> Some cur | None \<Rightarrow> prev)))"

text \<open>
  A read is a failure, nothing within half a second, or a report with the time it arrived. The
  list of reads ends when the program is interrupted.
\<close>

fun pad_stream ::
  "sony_kind \<Rightarrow> nat \<Rightarrow> instant option \<Rightarrow> u32 option \<Rightarrow> (text_string + (instant \<times> bytes)) list
    \<Rightarrow> raw_pad_sample list \<times> (text_string + unit)" where
  "pad_stream kind n started prev [] = ([], Inr ())"
| "pad_stream kind n started prev (Inl e # rs) = ([], Inl (''read: '' @ e))"
| "pad_stream kind n started prev (Inr (now, buf) # rs) =
     (if buf = [] then pad_stream kind n started prev rs
      else
        let t0 = (case started of Some t \<Rightarrow> t | None \<Rightarrow> now) in
        (case decode_layout kind buf prev of
           ((g, a, ts, delta, off), prev') \<Rightarrow>
             map_prod ((#) \<lparr>ps_report_id = hd buf, ps_len = length buf, ps_gyro = g, ps_accel = a,
                 ps_timestamp = ts, ps_ts_delta = delta, ps_ts_offset = off,
                 ps_rate = raw_rate (Suc n) (duration_since now t0), ps_pressed = parse_ps_button kind buf\<rparr>) id
               (pad_stream kind (Suc n) (Some t0) prev' rs)))"

definition pad_stream_raw ::
  "text_string + (hid_info \<times> sony_kind \<times> nat) \<Rightarrow> (text_string + (instant \<times> bytes)) list
    \<Rightarrow> raw_pad_sample list \<times> (text_string + unit)" where
  "pad_stream_raw opened reads =
     (case opened of Inl e \<Rightarrow> ([], Inl e) | Inr (j, kind, iface) \<Rightarrow> pad_stream kind 0 None None reads)"

subsection \<open>PS Move\<close>

definition open_first_psmove ::
  "(hid_info \<Rightarrow> text_string + unit) \<Rightarrow> hid_info list \<Rightarrow> text_string + ps_kind" where
  "open_first_psmove opens infos =
     (case List.map_filter (\<lambda>i. if hi_vendor i \<noteq> 0x054C then None
            else map_option (\<lambda>k. (i, k)) (ps_from_pid (hi_pid i))) infos of
        [] \<Rightarrow> Inl (''no PS Move (ZCM1/ZCM2) found '' @ map byte_char [0xE2, 0x80, 0x94] @ '' pair over Bluetooth first'')
      | (i, k) # _ \<Rightarrow> (case failing ''open failed'' (opens i) of Inl e \<Rightarrow> Inl e | Inr _ \<Rightarrow> Inr k))"

definition read_i16_be :: "bytes \<Rightarrow> nat \<Rightarrow> int option" where
  "read_i16_be buf off = map_option (\<lambda>bs. i16_of (from_be bs)) (slice_at buf off 2)"

text \<open>A row of the table: the three values, centred when there is a bias, or too short a report.\<close>

definition centred :: "int \<Rightarrow> int \<Rightarrow> int" where
  "centred bias v = (if bias \<noteq> 0 then v mod 2 ^ 16 - bias else v)"

definition triplet_row ::
  "(bytes \<Rightarrow> nat \<Rightarrow> int option) \<Rightarrow> int \<Rightarrow> bytes \<Rightarrow> nat \<Rightarrow> (int \<times> int \<times> int) option" where
  "triplet_row rd bias buf off =
     Option.bind (rd buf off) (\<lambda>x. Option.bind (rd buf (off + 2)) (\<lambda>y. Option.bind (rd buf (off + 4)) (\<lambda>z.
       Some (centred bias x, centred bias y, centred bias z))))"

definition psmove_rows :: "ps_kind \<Rightarrow> bytes \<Rightarrow> (text_string \<times> (int \<times> int \<times> int) option) list" where
  "psmove_rows kind buf =
     [(''accelA LE-0x80'', triplet_row read_i16_le 0x8000 buf 13),
      (''accelA LE'', triplet_row read_i16_le 0 buf 13),
      (''accelA BE'', triplet_row read_i16_be 0 buf 13),
      (''gyroA  LE-0x80'', triplet_row read_i16_le 0x8000 buf 25),
      (''gyroA  LE'', triplet_row read_i16_le 0 buf 25)]
     @ (if ps_has_mag kind then [(''mag    BE'', triplet_row read_i16_be 0 buf 38)] else [])"

text \<open>
  The loop: a row at most every 200 ms, with the count of reports, until the time is over. A
  round is the seconds since the start, the answer, and the milliseconds since the last print.
\<close>

fun psmove_loop ::
  "ps_kind \<Rightarrow> nat option \<Rightarrow> nat \<Rightarrow> (nat \<times> (text_string + bytes) \<times> nat) list
    \<Rightarrow> (nat \<times> bytes \<times> (text_string \<times> (int \<times> int \<times> int) option) list) list \<times> (text_string + unit)" where
  "psmove_loop kind cap n [] = ([], Inr ())"
| "psmove_loop kind cap n ((secs, answer, ms) # rounds) =
     (if (case cap of Some c \<Rightarrow> c \<le> secs | None \<Rightarrow> False) then ([], Inr ())
      else case answer of
        Inl e \<Rightarrow> ([], Inl (''read failed: '' @ e))
      | Inr buf \<Rightarrow>
          if buf = [] then psmove_loop kind cap n rounds
          else if 200 \<le> ms
          then map_prod ((#) (Suc n, buf, psmove_rows kind buf)) id (psmove_loop kind cap (Suc n) rounds)
          else psmove_loop kind cap (Suc n) rounds)"

subsection \<open>Wii\<close>

record wii_row =
  wr_slot :: u8
  wr_accel :: "int \<times> int \<times> int"
  wr_accel_g :: "f32 \<times> f32 \<times> f32"
  wr_data :: "int \<times> int \<times> int"
  wr_gyro_dps :: "(f32 \<times> f32 \<times> f32) option"
  wr_nunchuk :: u8
  wr_mp :: u8
  wr_battery :: u8
  wr_button :: u8

definition wii_i16 :: "bytes \<Rightarrow> nat \<Rightarrow> int" where
  "wii_i16 buf off = i16_of (from_le (sub_slice buf off 2))"

definition wii_triple :: "bytes \<Rightarrow> nat \<Rightarrow> int \<times> int \<times> int" where
  "wii_triple buf off = (wii_i16 buf off, wii_i16 buf (off + 2), wii_i16 buf (off + 4))"

definition wii_row_of :: "bytes \<Rightarrow> wii_row option" where
  "wii_row_of buf =
     (if hd buf = 0xFF then None
      else
        let acc = wii_triple buf 1; dat = wii_triple buf 7 in
        Some \<lparr>wr_slot = hd buf, wr_accel = acc,
          wr_accel_g = map3 (\<lambda>r. (f32_of_int r - f32_of_int 512) / f32_of_int 200) acc,
          wr_data = dat,
          wr_gyro_dps = (if buf ! 13 = 0 then Some (map3 (\<lambda>r. (f32_of_int r - f32_of_int 8192) * f32_lit 7 100) dat) else None),
          wr_nunchuk = buf ! 13, wr_mp = buf ! 14, wr_battery = buf ! 15, wr_button = buf ! 16\<rparr>)"

fun chunks_17 :: "bytes \<Rightarrow> nat \<Rightarrow> bytes list" where
  "chunks_17 buf 0 = []"
| "chunks_17 buf (Suc n) = take 17 buf # chunks_17 (drop 17 buf) n"

text \<open>The neutral answer is written after every read, also one that is not printed.\<close>

fun wii_raw_loop ::
  "nat option \<Rightarrow> (nat \<times> (text_string + bytes) \<times> nat \<times> (text_string + unit)) list
    \<Rightarrow> wii_row list \<times> nat \<times> (text_string + unit)" where
  "wii_raw_loop cap [] = ([], 0, Inr ())"
| "wii_raw_loop cap ((secs, answer, ms, reply) # rounds) =
     (if (case cap of Some c \<Rightarrow> c \<le> secs | None \<Rightarrow> False) then ([], 0, Inr ())
      else case answer of
        Inl e \<Rightarrow> ([], 0, Inl (''wii-raw read failed: '' @ e))
      | Inr buf \<Rightarrow>
          if buf = [] then ([], 0, Inr ())
          else
            let rows = (if length buf mod 17 = 0 \<and> 200 \<le> ms
              then List.map_filter wii_row_of (chunks_17 buf (length buf div 17)) else []) in
            (case reply of
               Inl e \<Rightarrow> (rows, 0, Inl (''wii-raw reply failed: '' @ e))
             | Inr _ \<Rightarrow> (case wii_raw_loop cap rounds of (rs, n, r) \<Rightarrow> (rows @ rs, Suc n, r))))"

subsection \<open>Properties\<close>

text \<open>
  The raw dump shows what the driver reads: whenever the driver's parser accepts a
  report, the dump has the very triples the parser scales.
\<close>

theorem raw_dump_shows_what_is_parsed:
  assumes "sony_parse_report kind buf cal = Some evs"
  shows "\<exists>offs g a rest ts delta off prev'. decode_layout kind buf prev = ((g, a, ts, delta, off), prev')
    \<and> for_report kind (length buf) = Some offs \<and> evs = ImuSamples [sony_sample kind buf cal offs g a] # rest"
proof -
  obtain offs g a rest where p: "for_report kind (length buf) = Some offs"
    "read_triple buf (io_gyro offs) = Some g" "read_triple buf (io_accel offs) = Some a"
    "evs = ImuSamples [sony_sample kind buf cal offs g a] # rest"
    using assms by (auto simp: sony_parse_report_def bind_eq_Some_conv)
  have "read_triple buf off = Some v \<Longrightarrow> diag_triple buf off = v" for off v
    by (auto simp: read_triple_def diag_triple_def diag_i16_def bind_eq_Some_conv)
  with p have "diag_triple buf (io_gyro offs) = g" "diag_triple buf (io_accel offs) = a" by blast+
  with p show ?thesis by (auto simp: decode_layout_def Let_def)
qed

text \<open>The test report is the driver's for the same colour and motor with no player light.\<close>

lemma ds5_test_report_is_the_drivers:
  assumes "os_led5 st AND 0x1F = 0"
  shows "build_ds5_usb_report st =
     (case ds4_led_rgb (os_led4 st) of (r, g, b) \<Rightarrow> ds5_usb_output r g b (os_rumble st))"
  using assms
  by (simp add: build_ds5_usb_report_def fill_ds5_payload_def ds5_usb_output_def numeral_eq_Suc
      list_update_swap split: prod.split)

text \<open>A failed step leaves the pad as the step before set it.\<close>

lemma haptic_test_ends_idle:
  "haptic_test kt opened answers = (ws, Inr ()) \<Longrightarrow> ws \<noteq> [] \<and> last ws = ds5_usb_output 0 0 0 0"
  by (auto simp: haptic_test_def split: sum.splits prod.splits if_splits)

lemma wii_raw_answers_every_read:
  "wii_raw_loop cap rounds = (rows, n, r) \<Longrightarrow> n \<le> length rounds"
  by (induction cap rounds arbitrary: rows n r rule: wii_raw_loop.induct)
    (auto simp: Let_def split: if_splits sum.splits option.splits prod.splits)

end
