(* ===== verification/End_To_End.thy ===== *)
theory End_To_End
  imports Pipeline_Run Sony
begin

section \<open>From the report to the server\<close>

text \<open>
  The whole way of a sample: the reading thread of a controller turns reports into events, the
  task of its pipeline handles them, its client sends datagrams, and the server sees packets.
  The DualSense stands for the drivers that read reports; the lemmas on the pipeline hold for
  any list of events.
\<close>

subsection \<open>What the server sees\<close>

definition bodies_of :: "u32 \<Rightarrow> client \<Rightarrow> bytes list" where
  "bodies_of tag c = map snd (filter (\<lambda>(t, _). t = tag) (delivered (wire c)))"

text \<open>A client has sent what it had and then only packets of some kinds.\<close>

definition adds_kinds :: "u32 set \<Rightarrow> client \<Rightarrow> client \<Rightarrow> bool" where
  "adds_kinds S c c' \<longleftrightarrow> (\<exists>new. delivered (wire c') = delivered (wire c) @ new \<and> fst ` set new \<subseteq> S)"

lemma adds_kinds_refl [simp]: "adds_kinds S c c"
  by (simp add: adds_kinds_def)

lemma adds_kinds_trans:
  assumes "adds_kinds S c c'" "adds_kinds S c' c''"
  shows "adds_kinds S c c''"
proof -
  obtain a b where "delivered (wire c') = delivered (wire c) @ a" "fst ` set a \<subseteq> S"
    "delivered (wire c'') = delivered (wire c') @ b" "fst ` set b \<subseteq> S"
    using assms by (auto simp: adds_kinds_def)
  then show ?thesis unfolding adds_kinds_def by (intro exI [of _ "a @ b"]) (simp add: image_Un)
qed

lemma adds_kinds_send:
  assumes "sb_id p \<in> S" and "sb_id p \<noteq> BUNDLE_TAG"
  shows "adds_kinds S c (snd (send_sb out now p c))"
  using assms by (cases "out = SendOk") (auto simp: adds_kinds_def server_view_packet)

lemma adds_kinds_announce: "adds_kinds {15, 22} c (fst (announce_tracker e c p))"
proof -
  have "adds_kinds {15, 22} c (fst (announce_sensor e c p))"
    by (auto simp: announce_sensor_client sensor_info_packet_def BUNDLE_TAG_def intro!: adds_kinds_send)
  moreover have "adds_kinds {15, 22} c' (fst (announce_flags e c' q))" for c' q
    by (auto simp: announce_flags_client BUNDLE_TAG_def intro!: adds_kinds_send)
  ultimately show ?thesis
    using adds_kinds_trans by (auto simp: announce_client)
qed

lemma bodies_unchanged: "adds_kinds S c c' \<Longrightarrow> tag \<notin> S \<Longrightarrow> bodies_of tag c' = bodies_of tag c"
  by (force simp: adds_kinds_def bodies_of_def filter_empty_conv)

lemma bodies_announce [simp]:
  "bodies_of 4 (fst (announce_tracker e c p)) = bodies_of 4 c"
  "bodies_of 17 (fst (announce_tracker e c p)) = bodies_of 17 c"
  by (simp_all add: bodies_unchanged [OF adds_kinds_announce])

subsection \<open>Events\<close>

text \<open>Emission is on and the datagrams of the event are sent; what is announced may be lost.\<close>

definition sends_well :: "event_env \<Rightarrow> bool" where
  "sends_well e \<longleftrightarrow> \<not> ee_paused e \<and> fst (ee_send1 e) = SendOk \<and> fst (ee_send2 e) = SendOk \<and> fst (ee_mag e) = SendOk"

text \<open>The sample of an event that goes to the server: the last of its batch.\<close>

definition sample_of :: "channel_info \<Rightarrow> imu_sample list" where
  "sample_of ev = (case ev of ImuSamples batch \<Rightarrow> if batch = [] then [] else [last batch] | _ \<Rightarrow> [])"

fun samples_until_gone :: "channel_info list \<Rightarrow> imu_sample list" where
  "samples_until_gone [] = []"
| "samples_until_gone (ev # evs) = (if ev = Disconnected then [] else sample_of ev @ samples_until_gone evs)"

text \<open>
  The runs of a pipeline that is not stopped and whose samples are sent; datagrams received,
  rounds of the watchdog, calibration commands and new configurations come in between as they
  like. The events among them are those of the channel.
\<close>

fun well_step :: "world_event \<Rightarrow> bool" where
  "well_step (Task (TaskEvent e ev)) = sends_well e"
| "well_step (Task TaskStop) = False"
| "well_step w = True"

fun event_of :: "world_event \<Rightarrow> channel_info list" where
  "event_of (Task (TaskEvent e ev)) = [ev]"
| "event_of w = []"

definition events_of :: "world_event list \<Rightarrow> channel_info list" where
  "events_of ws = concat (map event_of ws)"

lemma events_of_simps [simp]: "events_of [] = []" "events_of (w # ws) = event_of w @ events_of ws"
  by (simp_all add: events_of_def)

subsection \<open>What the client's own tasks send\<close>

lemma adds_kinds_receive: "adds_kinds {10} c (snd (snd (receive_step now out t1 t2 rcv (r, c))))"
  by (auto simp: receive_client adds_kinds_def handle_inbound_wire server_view_def BUNDLE_TAG_def
      split: recv_outcome.split)

lemma adds_kinds_watchdog: "adds_kinds {3} c (watchdog_tick e info c)"
  by (cases "tk_out e = SendOk")
    (auto simp: adds_kinds_def watchdog_wire server_view_packet handshake_packet_def BUNDLE_TAG_def)

lemma bodies_tasks [simp]:
  "bodies_of 4 (snd (snd (receive_step now out t1 t2 rcv (r, c)))) = bodies_of 4 c"
  "bodies_of 17 (snd (snd (receive_step now out t1 t2 rcv (r, c)))) = bodies_of 17 c"
  "bodies_of 4 (watchdog_tick e info c) = bodies_of 4 c"
  "bodies_of 17 (watchdog_tick e info c) = bodies_of 17 c"
  by (simp_all add: bodies_unchanged [OF adds_kinds_receive] bodies_unchanged [OF adds_kinds_watchdog])

lemma mag_cal_cell:
  "pl_cell (handle_mag_cal_cmd pf cmd p) = pl_cell p"
  "pl_sensor_id (handle_mag_cal_cmd pf cmd p) = pl_sensor_id p"
  by (simp_all add: handle_mag_cal_cmd_def Let_def split: mag_cal_cmd.split)

subsection \<open>What an event sends\<close>

lemma persist_bias_cell [simp]: "pl_cell (persist_bias pf p) = pl_cell p" "pl_sensor_id (persist_bias pf p) = pl_sensor_id p"
  by (simp_all add: persist_bias_def Let_def)

lemma finish_batch_cell [simp]:
  "pl_cell (finish_batch pf e p) = pl_cell p" "pl_sensor_id (finish_batch pf e p) = pl_sensor_id p"
  by (simp_all add: finish_batch_def Let_def)

definition accel_body :: "u8 \<Rightarrow> imu_sample \<Rightarrow> bytes" where
  "accel_body sid s = sb_body (SbAcceleration (wire_accel s) sid)"

lemma dispatch_kinds:
  assumes "sends_well e" and "pl_cell p = Some c" and "ev \<noteq> Disconnected"
  shows "\<exists>c' p'. dispatch pf e ev c p = (Inr (), p') \<and> pl_cell p' = Some c' \<and> pl_sensor_id p' = pl_sensor_id p
    \<and> bodies_of 4 c' = bodies_of 4 c @ map (accel_body (pl_sensor_id p)) (sample_of ev)
    \<and> length (bodies_of 17 c') = length (bodies_of 17 c) + length (sample_of ev)"
proof -
  have ok: "ee_send1 e = (SendOk, snd (ee_send1 e))" "ee_send2 e = (SendOk, snd (ee_send2 e))"
    "ee_mag e = (SendOk, snd (ee_mag e))" and first: "fst (ee_send1 e) = SendOk" and live: "\<not> ee_paused e"
    using assms(1) by (auto simp: sends_well_def prod_eq_iff)
  have other: "bodies_of 4 (snd (send_sb SendOk now q c)) = bodies_of 4 c"
    "bodies_of 17 (snd (send_sb SendOk now q c)) = bodies_of 17 c" if "sb_id q \<in> {12, 21}" for now q
    using that adds_kinds_send [of q "{12, 21}" c SendOk now]
    by (auto intro!: bodies_unchanged simp: BUNDLE_TAG_def)
  show ?thesis
  proof (cases ev)
    case (ImuSamples batch)
    show ?thesis
    proof (cases "batch = []")
      case True
      with ImuSamples assms show ?thesis by (simp add: dispatch_def handle_imu_def sample_of_def)
    next
      case False
      let ?q = "process_batch pf e batch p"
      obtain c' where c': "send_batch e (last batch) ?q c = (Inr (), c')"
        "delivered (wire c') = delivered (wire c)
          @ motion_inners (pl_sensor_id ?q) (slime_quat (pl_quat ?q)) (wire_accel (last batch))
          @ mag_inners (pl_cfg ?q) (pl_sensor_id ?q) (last batch)"
        using send_batch_ok [OF ok(1-3), of "last batch" ?q c] by blast
      have mag: "filter (\<lambda>(t, _). t = tag) (mag_inners cfg sid s) = []" if "tag \<in> {4, 17}" for tag cfg sid s
        using that by (auto simp: mag_inners_def split: option.split bool.split)
      have "bodies_of 4 c' = bodies_of 4 c @ [accel_body (pl_sensor_id ?q) (last batch)]"
        "length (bodies_of 17 c') = Suc (length (bodies_of 17 c))"
        by (simp_all add: bodies_of_def c'(2) motion_inners_def mag accel_body_def)
      moreover have "pl_sensor_id ?q = pl_sensor_id p" by simp
      ultimately show ?thesis
        using False ImuSamples live c'(1) by (simp add: dispatch_def handle_imu_def Let_def sample_of_def)
    qed
  next
    case (Battery b)
    with first live other [of "SbBatteryLevel 0 (fraction b)"] assms(2) show ?thesis
      by (simp add: dispatch_def sent_by_def send_battery_def send_sb_result Let_def sample_of_def split_beta)
  next
    case (ResetRequested k)
    with first live other [of "SbUserAction (reset_action k)"] assms(2) show ?thesis
      by (simp add: dispatch_def sent_by_def send_user_action_def send_sb_result sample_of_def split_beta)
  qed (use assms in \<open>simp_all add: dispatch_def sample_of_def\<close>)
qed

lemma event_when_connected:
  "pl_cell p = Some c \<Longrightarrow> handle_event pf e ev p =
     dispatch pf e ev (fst (announce_tracker e c p))
       ((snd (announce_tracker e c p))\<lparr>pl_cell := Some (fst (announce_tracker e c p))\<rparr>)"
  by (simp add: handle_event_def lazy_get_def split_beta)

lemma event_kinds:
  assumes "sends_well e" and "pl_cell p = Some c" and "ev \<noteq> Disconnected"
  shows "\<exists>c' p'. handle_event pf e ev p = (Inr (), p') \<and> pl_cell p' = Some c' \<and> pl_sensor_id p' = pl_sensor_id p
    \<and> bodies_of 4 c' = bodies_of 4 c @ map (accel_body (pl_sensor_id p)) (sample_of ev)
    \<and> length (bodies_of 17 c') = length (bodies_of 17 c) + length (sample_of ev)"
proof -
  let ?a = "announce_tracker e c p"
  from dispatch_kinds [OF assms(1) _ assms(3), of "(snd ?a)\<lparr>pl_cell := Some (fst ?a)\<rparr>" "fst ?a" pf]
  show ?thesis
    by (simp add: event_when_connected [OF assms(2)])
qed

definition kept :: "pipeline \<Rightarrow> client \<Rightarrow> pipeline \<Rightarrow> imu_sample list \<Rightarrow> bool" where
  "kept p c p' ss \<longleftrightarrow> (\<exists>c'. pl_cell p' = Some c'
     \<and> bodies_of 4 c' = bodies_of 4 c @ map (accel_body (pl_sensor_id p)) ss
     \<and> length (bodies_of 17 c') = length (bodies_of 17 c) + length ss)"

lemma world_step_quiet:
  assumes "well_step w" and "event_of w = []" and "pl_cell p = Some c"
  shows "\<exists>c' p'. world_step pf w p = (None, p') \<and> pl_cell p' = Some c' \<and> pl_sensor_id p' = pl_sensor_id p
    \<and> bodies_of 4 c' = bodies_of 4 c \<and> bodies_of 17 c' = bodies_of 17 c"
  using assms by (cases w rule: well_step.cases)
    (simp_all add: world_step_def task_step_def on_client_def mag_cal_cell)

lemma run_kinds:
  assumes "\<forall>w \<in> set ws. well_step w" and "pl_cell p = Some c"
  shows "kept p c (snd (world_run pf ws p)) (samples_until_gone (events_of ws))"
  using assms
proof (induction ws arbitrary: p c)
  case (Cons w ws)
  note prems = Cons.prems and IH = Cons.IH
  show ?case
  proof (cases "event_of w")
    case Nil
    obtain c' p' where "world_step pf w p = (None, p')" "pl_cell p' = Some c'" "pl_sensor_id p' = pl_sensor_id p"
      "bodies_of 4 c' = bodies_of 4 c" "bodies_of 17 c' = bodies_of 17 c"
      using world_step_quiet [OF _ Nil prems(2), of pf] prems(1) by auto
    with IH [of p' c'] prems(1) Nil show ?thesis
      by (simp add: kept_def)
  next
    case (Cons ev rest)
    then obtain e where w: "w = Task (TaskEvent e ev)"
      by (cases w rule: event_of.cases) simp_all
    show ?thesis
    proof (cases "ev = Disconnected")
      case True
      then show ?thesis
        by (simp add: kept_def w world_step_def task_step_def event_when_connected [OF prems(2)] dispatch_def)
    next
      case False
      obtain c' p' where h: "handle_event pf e ev p = (Inr (), p')" "pl_cell p' = Some c'"
        "pl_sensor_id p' = pl_sensor_id p"
        "bodies_of 4 c' = bodies_of 4 c @ map (accel_body (pl_sensor_id p)) (sample_of ev)"
        "length (bodies_of 17 c') = length (bodies_of 17 c) + length (sample_of ev)"
        using event_kinds [OF _ prems(2) False, of e pf] prems(1) w by auto
      from IH [OF _ h(2)] prems(1) False show ?thesis
        by (auto simp: kept_def w world_step_def task_step_def h)
    qed
  qed
qed (simp add: kept_def)

subsection \<open>Reports\<close>

text \<open>The sample the parser reads from a report it accepts.\<close>

definition pad_sample :: "sony_kind \<Rightarrow> sony_cal option \<Rightarrow> bytes \<Rightarrow> imu_sample list" where
  "pad_sample kind cal buf =
     (case sony_parse_report kind buf cal of Some (ImuSamples [s] # _) \<Rightarrow> [s] | _ \<Rightarrow> [])"

text \<open>The samples of the reports read, up to the end of the thread.\<close>

fun pad_samples :: "sony_kind \<Rightarrow> sony_cal option \<Rightarrow> read_result list \<Rightarrow> imu_sample list" where
  "pad_samples kind cal [] = []"
| "pad_samples kind cal (ReadReport buf now # rs) = pad_sample kind cal buf @ pad_samples kind cal rs"
| "pad_samples kind cal (ReadNothing # rs) = pad_samples kind cal rs"
| "pad_samples kind cal (r # rs) = []"

lemma samples_append:
  "Disconnected \<notin> set xs \<Longrightarrow> samples_until_gone (xs @ ys) = concat (map sample_of xs) @ samples_until_gone ys"
  by (induction xs) auto

lemma on_report_samples:
  assumes "sony_on_report kind cal i buf now st = (evs, st')"
  shows "Disconnected \<notin> set evs" "concat (map sample_of evs) = pad_sample kind cal buf"
proof -
  have p: "sony_parse_report kind buf cal = None
    \<or> (\<exists>s rest. sony_parse_report kind buf cal = Some (ImuSamples [s] # rest) \<and> set rest \<subseteq> range Battery)"
    by (auto simp: sony_parse_report_def split: option.splits bind_splits)
  have b: "concat (map sample_of rest) = []" "Disconnected \<notin> set rest" if "set rest \<subseteq> range Battery" for rest
    using that by (induction rest) (auto simp: sample_of_def)
  show "Disconnected \<notin> set evs" "concat (map sample_of evs) = pad_sample kind cal buf"
    using assms p b by (auto simp: sony_on_report_def pad_sample_def sample_of_def Let_def
        split: option.splits prod.splits if_splits)
qed

lemma reader_samples:
  "samples_until_gone (reader_loop (sony_on_report kind cal i) st rs) = pad_samples kind cal rs"
proof (induction "sony_on_report kind cal i" st rs rule: reader_loop.induct)
  case (5 st buf now rs)
  obtain evs st' where r: "sony_on_report kind cal i buf now st = (evs, st')"
    by (cases "sony_on_report kind cal i buf now st")
  from 5 [OF r [symmetric]] on_report_samples [OF r] show ?case
    by (simp add: r samples_append)
qed simp_all


definition still_pad :: sony_device where
  "still_pad = sony_new KindDualSense ''A'' [1, 2, 3, 4, 5, 6]"

definition still_reads :: "read_result list" where
  "still_reads = [ReadNothing, ReadReport (replicate 64 0) 5, ReadReport (replicate 7 0) 6, ReadReport (replicate 64 0) 9, ReadFailed]"

definition well :: "event_env \<Rightarrow> event_env" where
  "well e = e\<lparr>ee_paused := False, ee_send1 := (SendOk, 1), ee_send2 := (SendOk, 2), ee_mag := (SendOk, 3)\<rparr>"

lemma still_samples: "length (pad_samples (sd_kind still_pad) (sd_cal still_pad) still_reads) = 2"
  by (simp add: still_reads_def still_pad_def sony_new_def pad_sample_def sony_parse_report_def for_report_def
      read_triple_def read_i16_le_def byte_at_def)

definition still_run :: "event_env \<Rightarrow> tick_env \<Rightarrow> bytes \<Rightarrow> receiver \<Rightarrow> pipeline_config \<Rightarrow> world_event list" where
  "still_run e te d r cfg =
     Watch te # SetConfig cfg # Task (TaskMagCal CmdStart) # Receive 7 SendOk 8 9 (RecvOk d) r
       # map (\<lambda>ev. Task (TaskEvent (well e) ev)) (sony_read still_pad still_reads)"

lemma still_run_events: "events_of (still_run e te d r cfg) = sony_read still_pad still_reads"
  by (simp add: still_run_def events_of_def comp_def)

lemma still_run_well: "\<forall>w \<in> set (still_run e te d r cfg). well_step w"
  by (auto simp: still_run_def well_def sends_well_def)


end
