(* ===== verification/Imu_Math.thy ===== *)
theory Imu_Math
  imports Pipeline Float_Int
begin

section \<open>Euler angles and quaternion helpers\<close>

text \<open>
  The functions of \<^verbatim>\<open>crates/imu-math/src/coord.rs\<close> and \<^verbatim>\<open>quat.rs\<close> beside the frame change of
  \<open>Mag_Cal\<close>: the interface of the crate that the bridge itself does not call. The functions of
  the mathematical library are the record \<open>trig\<close>, the vectors and quaternions of nalgebra the
  record \<open>nalgebra\<close>. A quaternion is written \<open>(w, i, j, k)\<close>.
\<close>

record f32_trig =
  tr_cos :: "f32 \<Rightarrow> f32"
  tr_sin :: "f32 \<Rightarrow> f32"
  tr_asin :: "f32 \<Rightarrow> f32"
  tr_acos :: "f32 \<Rightarrow> f32"
  tr_atan2 :: "f32 \<Rightarrow> f32 \<Rightarrow> f32"

record 'a nalgebra =
  na_unit :: "'a quat \<Rightarrow> 'a quat"
  na_mul :: "'a quat \<Rightarrow> 'a quat \<Rightarrow> 'a quat"
  na_inverse :: "'a quat \<Rightarrow> 'a quat"
  na_axis_angle :: "'a vec3 \<Rightarrow> 'a \<Rightarrow> 'a quat"
  na_transform :: "'a quat \<Rightarrow> 'a vec3 \<Rightarrow> 'a vec3"
  na_try_normalize :: "'a vec3 \<Rightarrow> 'a \<Rightarrow> 'a vec3 option"
  na_cross :: "'a vec3 \<Rightarrow> 'a vec3 \<Rightarrow> 'a vec3"
  na_dot :: "'a vec3 \<Rightarrow> 'a vec3 \<Rightarrow> 'a"
  na_norm :: "'a vec3 \<Rightarrow> 'a"
  na_sub :: "'a vec3 \<Rightarrow> 'a vec3 \<Rightarrow> 'a vec3"
  na_div :: "'a vec3 \<Rightarrow> 'a \<Rightarrow> 'a vec3"

definition identity_rotation :: "f32 quat" where
  "identity_rotation = (1, 0, 0, 0)"

subsection \<open>Angles\<close>

abbreviation two :: f32 where "two \<equiv> f32_of_int 2"

definition deg2rad :: "f32 \<Rightarrow> f32" where
  "deg2rad deg = deg * (F32_PI / f32_of_int 180)"

definition rad2deg :: "f32 \<Rightarrow> f32" where
  "rad2deg rad = rad * (f32_of_int 180 / F32_PI)"

definition euler_xyz_to_quat :: "f32_trig \<Rightarrow> f32 nalgebra \<Rightarrow> f32 \<Rightarrow> f32 \<Rightarrow> f32 \<Rightarrow> f32 quat" where
  "euler_xyz_to_quat tr na roll_deg pitch_deg yaw_deg =
     (let r = deg2rad roll_deg; p = deg2rad pitch_deg; y = deg2rad yaw_deg; half = f32_lit 1 2;
          cr = tr_cos tr (r * half); sr = tr_sin tr (r * half);
          cp = tr_cos tr (p * half); sp = tr_sin tr (p * half);
          cy = tr_cos tr (y * half); sy = tr_sin tr (y * half)
      in na_unit na
           (cr * cp * cy + sr * sp * sy, sr * cp * cy - cr * sp * sy,
            cr * sp * cy + sr * cp * sy, cr * cp * sy - sr * sp * cy))"

text \<open>\<^verbatim>\<open>signum\<close>: one with the sign of the number, a NaN for a NaN.\<close>

definition f32_signum :: "f32 \<Rightarrow> f32" where
  "f32_signum x =
     (case f32_val x of FNaN \<Rightarrow> f32_nan | FInf s \<Rightarrow> (if s then - 1 else 1) | FFin s _ \<Rightarrow> (if s then - 1 else 1))"

definition quat_to_euler_xyz_deg :: "f32_trig \<Rightarrow> f32 quat \<Rightarrow> f32 vec3" where
  "quat_to_euler_xyz_deg tr q =
     (case q of (qw, qx, qy, qz) \<Rightarrow>
        let sinr_cosp = two * (qw * qx + qy * qz);
            cosr_cosp = 1 - two * (qx * qx + qy * qy);
            roll = tr_atan2 tr sinr_cosp cosr_cosp;
            sinp = two * (qw * qy - qz * qx);
            pitch = (if 1 \<le> \<bar>sinp\<bar> then f32_signum sinp * F32_FRAC_PI_2 else tr_asin tr sinp);
            siny_cosp = two * (qw * qz + qx * qy);
            cosy_cosp = 1 - two * (qy * qy + qz * qz);
            yaw = tr_atan2 tr siny_cosp cosy_cosp
        in (rad2deg roll, rad2deg pitch, rad2deg yaw))"

definition quat_to_euler_zxy_deg :: "f32_trig \<Rightarrow> f32 quat \<Rightarrow> f32 vec3" where
  "quat_to_euler_zxy_deg tr q =
     (case q of (qw, qx, qy, qz) \<Rightarrow>
        let pitch = tr_asin tr (f32_clamp (two * (qw * qy - qz * qx)) (- 1) 1) in
        if F32_FRAC_PI_2 \<le> \<bar>pitch\<bar> then (rad2deg pitch, rad2deg (tr_atan2 tr qy qw), 0)
        else
          let roll = tr_atan2 tr (two * (qw * qx + qy * qz)) (1 - two * (qx * qx + qy * qy));
              yaw = tr_atan2 tr (two * (qw * qz + qx * qy)) (1 - two * (qy * qy + qz * qz))
          in (rad2deg pitch, rad2deg yaw, rad2deg roll))"

definition yaw_deg_from_quat :: "f32_trig \<Rightarrow> f32 quat \<Rightarrow> f32" where
  "yaw_deg_from_quat tr q =
     (case q of (qw, qx, qy, qz) \<Rightarrow>
        rad2deg (tr_atan2 tr (two * (qw * qy + qx * qz)) (1 - two * (qy * qy + qz * qz))))"

definition pitch_deg_from_quat :: "f32_trig \<Rightarrow> f32 quat \<Rightarrow> f32" where
  "pitch_deg_from_quat tr q =
     (case q of (qw, qx, qy, qz) \<Rightarrow>
        rad2deg (tr_atan2 tr (two * (qw * qx + qy * qz)) (1 - two * (qx * qx + qy * qy))))"

subsection \<open>Rotations\<close>

definition transform_v :: "f32 nalgebra \<Rightarrow> f32 vec3 \<Rightarrow> f32 quat \<Rightarrow> f32 vec3" where
  "transform_v na v q = na_transform na q v"

definition MIN_NORM :: f32 where
  "MIN_NORM = f32_lit 1 1000000"

definition rotation_from_to ::
  "f32_trig \<Rightarrow> f32 nalgebra \<Rightarrow> f32 vec3 \<Rightarrow> f32 vec3 \<Rightarrow> f32 quat" where
  "rotation_from_to tr na v w =
     (case (na_try_normalize na v MIN_NORM, na_try_normalize na w MIN_NORM) of
        (Some f, Some t) \<Rightarrow>
          let axis = na_cross na f t; axis_len = na_norm na axis in
          if axis_len < MIN_NORM then identity_rotation
          else
            na_axis_angle na (na_div na axis axis_len)
              (tr_acos tr (f32_clamp (na_dot na f t) (- 1) 1))
      | _ \<Rightarrow> identity_rotation)"

text \<open>The turn of the world about its x axis; \<open>cos64\<close> and \<open>sin64\<close> are those of \<^verbatim>\<open>f64\<close>.\<close>

definition F64_FRAC_PI_4 :: f64 where
  "F64_FRAC_PI_4 = f64_lit 785398163397448309615660845819875721 (10 ^ 36)"

definition vqf_zup_world_to_slimevr_yup ::
  "(f64 \<Rightarrow> f64) \<Rightarrow> (f64 \<Rightarrow> f64) \<Rightarrow> f64 nalgebra \<Rightarrow> f32 nalgebra \<Rightarrow> f64 quat \<Rightarrow> f32 quat" where
  "vqf_zup_world_to_slimevr_yup cos64 sin64 na64 na q_zup =
     (let half_cos = cos64 F64_FRAC_PI_4; half_sin = sin64 F64_FRAC_PI_4;
          world_fix = na_unit na64 (half_cos, - half_sin, 0, 0)
      in case na_mul na64 world_fix q_zup of
           (w, i, j, k) \<Rightarrow> na_unit na (f32_of_f64 w, f32_of_f64 i, f32_of_f64 j, f32_of_f64 k))"

definition norm_sq :: "f32 quat \<Rightarrow> f32" where
  "norm_sq q = (case q of (w, i, j, k) \<Rightarrow> w * w + i * i + j * j + k * k)"

definition normalize_or_identity :: "f32 nalgebra \<Rightarrow> f32 quat \<Rightarrow> f32 quat" where
  "normalize_or_identity na q =
     (let mag_sq = norm_sq q in
      if \<not> f32_is_finite mag_sq \<or> mag_sq < f32_lit 1 (10 ^ 12) then identity_rotation
      else na_unit na q)"

definition axis_angle :: "f32_trig \<Rightarrow> f32 quat \<Rightarrow> f32 vec3 \<times> f32" where
  "axis_angle tr q =
     (case q of (w, i, j, k) \<Rightarrow>
        let qw = f32_clamp w (- 1) 1; angle = two * tr_acos tr qw; s = f32_sqrt (1 - qw * qw) in
        if s < f32_lit 1 10000 then ((1, 0, 0), angle) else ((i / s, j / s, k / s), angle))"

definition local_rotation :: "f32 nalgebra \<Rightarrow> f32 quat \<Rightarrow> f32 quat \<Rightarrow> f32 quat" where
  "local_rotation na child parent = na_unit na (na_mul na (na_inverse na parent) child)"

definition quat_from_gravity ::
  "f32_trig \<Rightarrow> f32 nalgebra \<Rightarrow> f32 vec3 \<Rightarrow> f32 vec3 \<Rightarrow> f32 \<Rightarrow> f32 quat" where
  "quat_from_gravity tr na raw center scale =
     (let scale = (if \<bar>scale\<bar> < f32_lit 1 (10 ^ 9) then 1 else scale) in
      case na_div na (na_sub na raw center) scale of
        (x, y, z) \<Rightarrow>
          let c = (\<lambda>v. f32_clamp v (- 1) 1) in
          case na_try_normalize na (c x, c y, c z) MIN_NORM of
            None \<Rightarrow> identity_rotation
          | Some gravity \<Rightarrow>
              let reference = (0, 0, - 1); dot = c (na_dot na gravity reference) in
              if \<bar>dot - 1\<bar> < f32_lit 1 100000 then identity_rotation
              else if \<bar>dot + 1\<bar> < f32_lit 1 100000 then na_unit na (0, 1, 0, 0)
              else
                (case na_try_normalize na (na_cross na reference gravity) MIN_NORM of
                   None \<Rightarrow> identity_rotation
                 | Some axis \<Rightarrow> na_axis_angle na axis (tr_acos tr dot)))"

subsection \<open>Domains\<close>

text \<open>
  The inverse functions are only asked inside their domain, and no root of a negative number is
  taken, so that a NaN comes out only where one went in.
\<close>

definition unit_range :: "f32 \<Rightarrow> bool" where
  "unit_range x \<longleftrightarrow> f32_is_nan x \<or> - 1 \<le> x \<and> x \<le> 1"

lemma one_not_nan [simp]: "\<not> f32_is_nan 1" "\<not> f32_is_nan (- 1)"
  by (simp_all add: f32_is_nan_def)

lemma clamp_nan: "f32_is_nan x \<Longrightarrow> f32_clamp x lo hi = x"
  using f32_not_less_nan by (auto simp: f32_clamp_def Let_def)

lemma clamp_unit_range [simp]: "unit_range (f32_clamp x (- 1) 1)"
proof (cases "f32_is_nan x")
  case False
  have "(- 1 :: f32) \<le> 1"
    by (simp add: not_nan_le less_f32_def sgn_int_def)
  from f32_clamp_within [OF False one_not_nan(2,1) this] show ?thesis
    by (simp add: unit_range_def)
qed (simp add: clamp_nan unit_range_def)

lemma inside_one: "\<not> 1 \<le> \<bar>x\<bar> \<Longrightarrow> unit_range x"
  by (cases "f32_val x")
    (auto simp: unit_range_def f32_is_nan_def less_eq_f32_def fp_le_def sgn_int_def split: if_splits)

text \<open>Two mathematical libraries that agree where the inverse functions are defined.\<close>

definition agree :: "f32_trig \<Rightarrow> f32_trig \<Rightarrow> bool" where
  "agree t u \<longleftrightarrow> tr_cos t = tr_cos u \<and> tr_sin t = tr_sin u \<and> tr_atan2 t = tr_atan2 u
     \<and> (\<forall>x. unit_range x \<longrightarrow> tr_asin t x = tr_asin u x \<and> tr_acos t x = tr_acos u x)"

lemma inverse_functions_in_domain:
  assumes "agree t u"
  shows "quat_to_euler_xyz_deg t q = quat_to_euler_xyz_deg u q"
    and "quat_to_euler_zxy_deg t q = quat_to_euler_zxy_deg u q"
    and "axis_angle t q = axis_angle u q"
    and "rotation_from_to t na v w = rotation_from_to u na v w"
    and "quat_from_gravity t na v w s = quat_from_gravity u na v w s"
  using assms inside_one
  by (auto simp: agree_def quat_to_euler_xyz_deg_def quat_to_euler_zxy_deg_def axis_angle_def
      rotation_from_to_def quat_from_gravity_def Let_def split: option.split prod.split)

lemma square_below_one:
  assumes "unit_range x" and "\<not> f32_is_nan x"
  shows "\<not> 1 - x * x < 0" and "\<not> f32_is_nan (1 - x * x)"
proof -
  let ?u = "funit fmt32"
  obtain s k where x: "f32_val x = FFin s k" and k: "k \<le> ?u"
    using assms by (cases "f32_val x")
      (auto simp: unit_range_def f32_is_nan_def less_eq_f32_def fp_le_def sgn_int_def split: if_splits)
  have one: "fp_make fmt32 False (?u * ?u) ?u = FFin False ?u"
    using fp_ok_val(1) [of 1] by (intro fp_make_exact) simp_all
  have "\<not> fp_less (FFin False ?u) (fp_make fmt32 False (k * k) ?u)"
    using fp_make_mono [of ?u ?u "k * k" "?u * ?u" fmt32] k by (simp add: one mult_le_mono)
  then obtain m where m: "fp_make fmt32 False (k * k) ?u = FFin False m" "m \<le> ?u"
    by (auto simp: fp_make_def Let_def sgn_int_def split: if_splits)
  then have "f32_val (x * x) = FFin False m"
    by (simp add: x)
  moreover have "\<not> fp_less (fp_make F False n d) (FFin False 0)" for F n d
    by (simp add: fp_make_def Let_def sgn_int_def)
  ultimately show "\<not> 1 - x * x < 0" "\<not> f32_is_nan (1 - x * x)"
    using m(2) by (auto simp: less_f32_def f32_is_nan_def fp_sub_def sgn_int_def Let_def)
qed

text \<open>So the axis and angle of a rotation never come from the root of a negative number.\<close>

lemma axis_angle_root:
  "\<not> f32_is_nan w \<Longrightarrow> let qw = f32_clamp w (- 1) 1 in \<not> 1 - qw * qw < 0"
proof -
  assume w: "\<not> f32_is_nan w"
  have "(- 1 :: f32) \<le> 1"
    by (simp add: not_nan_le less_f32_def sgn_int_def)
  then have "\<not> f32_is_nan (f32_clamp w (- 1) 1)"
    using w by (simp add: f32_clamp_def Let_def)
  then show ?thesis
    using square_below_one(1) by (simp add: Let_def)
qed

subsection \<open>Singular cases\<close>

text \<open>
  A quaternion whose squared norm overflows is replaced by the identity although it is finite and
  far from zero.
\<close>

lemma overflow_gives_identity:
  assumes "f32_val x = FFin False (11368684 * 2 ^ 192)"
  shows "normalize_or_identity na (x, 0, 0, 0) = identity_rotation"
proof -
  have "fp_mul fmt32 (FFin False (11368684 * 2 ^ 192)) (FFin False (11368684 * 2 ^ 192)) = FInf False"
    by (simp add: fp_make_def fp_round_def fp_exp_def rne_def blen_numeral blen_1 fmt32_def Let_def)
  moreover have "fp_add fmt32 (FInf False) (fp_mul fmt32 (FFin False 0) (FFin False 0)) = FInf False"
    by (simp add: fp_make_def Let_def)
  ultimately have "\<not> f32_is_finite (norm_sq (x, 0, 0, 0))"
    by (simp add: f32_is_finite_def norm_sq_def assms)
  then show ?thesis
    by (simp add: normalize_or_identity_def)
qed

lemma large_quaternion_is_lost:
  "f32_is_finite (f32_lit (10 ^ 20) 1)"
  "normalize_or_identity na (f32_lit (10 ^ 20) 1, 0, 0, 0) = identity_rotation"
proof -
  have v: "f32_val (f32_lit (10 ^ 20) 1) = FFin False (11368684 * 2 ^ 192)"
    by (simp add: f32_lit_val fp_make_def fp_round_def fp_exp_def rne_def blen_numeral blen_1 fmt32_def Let_def)
  show "f32_is_finite (f32_lit (10 ^ 20) 1)"
    unfolding f32_is_finite_def v by simp
  show "normalize_or_identity na (f32_lit (10 ^ 20) 1, 0, 0, 0) = identity_rotation"
    by (rule overflow_gives_identity [OF v])
qed

lemma opposite_directions_give_identity:
  assumes "na_try_normalize na v MIN_NORM = Some f" "na_try_normalize na w MIN_NORM = Some t"
    and "na_norm na (na_cross na f t) < MIN_NORM"
  shows "rotation_from_to tr na v w = identity_rotation"
  using assms by (simp add: rotation_from_to_def)

end
