(* ===== verification/Spec2Isabelle.thy ===== *)
theory Spec2Isabelle
  imports Slime_Race Remote_Hub Osc_Listener Latency App_State Hopx Sony_Props Joycon_Props
    Ps_Move_Props Dual_Shock3 Steam_Pads Fusion Joycon2_Props Wii_Forward Tesla_Props Settings_Props Hopx_Tools Synthetic Front_Ends
    System_Setup Hid_Diag End_To_End Imu_Math
begin

text \<open>
  A development for everything-imu, a bridge that reads motion controllers, phones and cars,
  fuses their samples into orientations and reports them to a SlimeVR server over UDP.

  \<^bold>\<open>Parts and how they interact.\<close> A \<^emph>\<open>factory\<close> of a driver crate finds devices and hands them to the
  supervisor (\<^verbatim>\<open>crates/core/src/supervisor.rs\<close>), which starts each and registers it in the
  registry (\<^verbatim>\<open>app_state.rs\<close>). A registered device has a pipeline task (\<^verbatim>\<open>pipeline.rs\<close>): it
  receives the device's events over a channel, drives an orientation filter
  (\<^verbatim>\<open>crates/imu-fusion\<close>) and calls a client (\<^verbatim>\<open>crates/slime-tracker/src/client.rs\<close>) that speaks
  SlimeVR's protocol and keeps the session alive with a receive loop and a watchdog. Haptics
  go the other way: OSC messages (\<^verbatim>\<open>crates/osc-haptics\<close>) become rumble commands through the
  registry. The desktop application (\<^verbatim>\<open>apps/everything-imu-app\<close>) reads and writes settings in an
  SQLite database (\<^verbatim>\<open>crates/persistence\<close>) and updates the running pipelines; the headless
  program (\<^verbatim>\<open>apps/headless-cli\<close>) starts the same parts from the command line.

  \<^bold>\<open>Which theory models what.\<close>

  Language and codecs. \<open>Prelude\<close>: bytes, slices, integers read from buffers, results, and the
  collections of simplification rules. \<open>Ieee_Float\<close>, \<open>Float_Ops\<close>, \<open>Float_Int\<close>: Rust's \<^verbatim>\<open>f32\<close>
  and \<^verbatim>\<open>f64\<close> as bit patterns with correctly rounded arithmetic, casts and square roots.
  \<open>Text_Utf8\<close>, \<open>Text_Parse\<close>, \<open>Text_Float\<close>: texts as UTF-8 bytes, the parsers of the standard
  library, the shortest decimal of a float and that it is read back unchanged. \<open>Codec\<close>: the
  locales \<open>codec\<close>, \<open>strict_codec\<close> and \<open>wire_enum\<close>.

  SlimeVR. \<open>Slime_Enums\<close> and \<open>Slime_Wire\<close>: \<^verbatim>\<open>serverbound.rs\<close>, \<^verbatim>\<open>clientbound.rs\<close> and
  \<^verbatim>\<open>lib.rs\<close> of \<^verbatim>\<open>slime-tracker\<close>, every packet with writer and reader, and bundles. \<open>Slime_Client\<close>:
  \<^verbatim>\<open>client.rs\<close>, its atomics as a record, the sends, the receive loop and the watchdog as a step
  relation. \<open>Slime_Race\<close>: the same two tasks with one step per access to a shared atomic.

  Devices. \<open>Device_Traits\<close>: \<^verbatim>\<open>crates/device-traits\<close> with the reset detector, the health
  classifier, rumble mapping, the stores in memory and the contracts \<open>bias_store\<close>,
  \<open>settings_store\<close>, \<open>device_lifecycle\<close>. \<open>Hid_Common\<close>: what the HID drivers share, discovery by
  polling, the reading thread and addresses. \<open>Sony\<close> and \<open>Sony_Props\<close>: \<^verbatim>\<open>device-dualsense\<close>.
  \<open>Joycon\<close>, \<open>Joycon_Props\<close>, \<open>Joycon2\<close>, \<open>Joycon2_Props\<close>: \<^verbatim>\<open>device-joycon\<close>, the second generation
  over Bluetooth in the latter two. \<open>Ps_Move\<close>, \<open>Ps_Move_Props\<close>: \<^verbatim>\<open>device-psmove\<close>.
  \<open>Dual_Shock3\<close>: \<^verbatim>\<open>device-dualshock3\<close>. \<open>Steam_Pads\<close>: \<^verbatim>\<open>device-steam-deck\<close> and
  \<^verbatim>\<open>device-steam-controller\<close>. \<open>Hopx\<close>, \<open>Hopx_Tools\<close>: \<^verbatim>\<open>device-hopx\<close>. \<open>Console_Udp\<close>: \<^verbatim>\<open>device-3ds\<close>
  and \<^verbatim>\<open>device-vita\<close>, two instances of the locale \<open>udp_listener\<close>. \<open>Wii_Forward\<close>: \<^verbatim>\<open>device-wii\<close>.
  \<open>Remote_Protocol\<close>, \<open>Remote_Hub\<close>: \<^verbatim>\<open>device-remote\<close>. \<open>Tesla\<close>, \<open>Tesla_Props\<close>: \<^verbatim>\<open>device-tesla\<close>.
  \<open>Synthetic\<close>: the \<^verbatim>\<open>synthetic.rs\<close> of five crates. \<open>Hid_Diag\<close>: three \<^verbatim>\<open>diagnostics.rs\<close>.

  Fusion and pipeline. \<open>Vqf\<close>, \<open>Vqf_Unit\<close>, \<open>Vqf_Props\<close>: \<^verbatim>\<open>vqf.rs\<close> and \<^verbatim>\<open>basic_vqf.rs\<close>.
  \<open>Madgwick\<close>: \<^verbatim>\<open>madgwick.rs\<close>. \<open>Mag_Cal\<close>: \<^verbatim>\<open>mag_cal.rs\<close>, \<^verbatim>\<open>mag_cal_wizard.rs\<close> and a frame change of
  \<^verbatim>\<open>coord.rs\<close>, \<open>Imu_Math\<close>: the Euler-angle and quaternion helpers of the same crate. \<open>Latency\<close>: \<^verbatim>\<open>latency.rs\<close>. \<open>Pipeline\<close>: \<^verbatim>\<open>pipeline.rs\<close>, \<^verbatim>\<open>lazy_slime.rs\<close>, \<^verbatim>\<open>quat.rs\<close>.
  \<open>Pipeline_Run\<close>: runs of a pipeline interleaved with its client, and the locale
  \<open>pipeline_invariant\<close>. \<open>Fusion\<close>: a filter of the pipeline is the history of its calls; here the
  histories are replayed on the translated filters. \<open>App_State\<close>: \<^verbatim>\<open>app_state.rs\<close> and
  \<^verbatim>\<open>supervisor.rs\<close>. \<open>End_To_End\<close>: from the reports of a controller, through the reading thread, the
  pipeline and the client, to what the server is sent.

  Haptics. \<open>Osc_Config\<close>: rules, mapping and sniffer. \<open>Osc_Listener\<close>: the bridge with its pulses,
  limits and idle watchdog.

  Applications. \<open>Settings_Db\<close>: \<^verbatim>\<open>crates/persistence\<close> and the locales \<open>slot_bias_store\<close> and
  \<open>slot_settings_store\<close>. \<open>App_Commands\<close>, \<open>App_Telemetry\<close>, \<open>App_Haptics\<close>: \<^verbatim>\<open>commands.rs\<close>,
  \<^verbatim>\<open>tracker_emitter.rs\<close>, \<^verbatim>\<open>haptics.rs\<close> and \<^verbatim>\<open>udp_haptic.rs\<close>, commands as functions on the state of
  the application. \<open>Settings_Props\<close>: database, registry and pipelines together. \<open>Front_Ends\<close>: the
  start of both programs, the tray, the log and updates. \<open>System_Setup\<close>: the Steam blacklist and
  the udev rules. This theory: two devices of one address, from the drivers to the registry.

  \<^bold>\<open>What the lemmas show.\<close> Wire formats: every packet and bundle is read back as written, lengths
  and truncation included. Client: the handshake, the numbering of packets, what each round of
  the watchdog does and the race between it and the receive loop. Pipeline: which packets a
  batch sends, in which order and with which contents, that pausing stops motion, that the bias
  kept is the one loaded again. Filters: orientations stay finite as long as the inputs are, and
  which inputs destroy them. Drivers: what a report or frame is decoded to, checksums, bounds,
  what reassembly and reconnection lose, which commands may be sent. Registry and database: one
  entry per address, a refinement of the stores by the database, and that a running device is
  configured as the database says. End to end: every report read reaches the server once. Findings that the proofs turned up are theorems about the
  code as it is, with the fault stated.

  \<^bold>\<open>Bounds, time and concurrency.\<close> Integers are kept at their width where they can wrap: counters,
  sequence numbers and clocks are words, and a duration is a natural number of nanoseconds.
  Loops that end are functions with their termination proved; the loop of \<^verbatim>\<open>imu.rs\<close> that may not
  is a \<open>partial_function\<close>, and both its termination on finite angles and its failure on infinite ones are
  proved. No definition takes fuel: loops over a socket, a channel or a timer are functions of
  the list of what they meet, and end with it. Tasks run one step at a time; a step is what the
  code does between two points where it waits, finer in \<open>Slime_Race\<close> for the atomics the client's
  tasks share.

  \<^bold>\<open>Parameters.\<close> What is not under \<^verbatim>\<open>src\<close> is an argument: sine, cosine and the other functions of
  the mathematical library, \<^verbatim>\<open>log2\<close>, the solver, products and pseudo-inverse of \<^verbatim>\<open>nalgebra\<close>, the
  decoder of \<^verbatim>\<open>rosc\<close>, the printer and reader of \<^verbatim>\<open>serde_json\<close>, the VDF reader and the searches of
  \<^verbatim>\<open>regex\<close>, the debug form of a path. What \<^verbatim>\<open>hidapi\<close>, \<^verbatim>\<open>btleplug\<close>, sockets, HTTP, the WebSocket
  and the system answer are inputs; SQLite only decides whether a statement runs. Channels are
  unbounded where the code waits for room; where it does not wait, the outcome of each send is an input.

  \<^bold>\<open>Not modelled.\<close> The text the diagnostics of the headless program print; the set-up of windows,
  tray, log files and command tables, which are calls to libraries; generated bindings, build
  scripts, tests, the web interface and the programs on the consoles, which are in other languages.
\<close>

subsection \<open>Two nodes of one controller\<close>

text \<open>Registering a device: both steps, with nothing in between.\<close>

definition app_register ::
  "bytes \<Rightarrow> pipeline_config \<Rightarrow> bias option \<Rightarrow> instant \<Rightarrow> device_metadata \<Rightarrow> app_state \<Rightarrow> app_state" where
  "app_register firmware cfg loaded t meta st =
     register_insert (register_prepare firmware cfg loaded t t meta st)"

definition hid_node :: "text_string \<Rightarrow> u16 \<Rightarrow> u16 \<Rightarrow> text_string \<Rightarrow> int \<Rightarrow> hid_info" where
  "hid_node path vid pid serial iface =
     \<lparr>hi_path = path, hi_vendor = vid, hi_pid = pid, hi_serial = serial, hi_iface = iface,
      hi_usage_page = 0, hi_usage = 0\<rparr>"

text \<open>Of two devices registered in turn only the second is left, and the task of the first is stopped.\<close>

definition second_evicts_first ::
  "bytes \<Rightarrow> pipeline_config \<Rightarrow> bias option \<Rightarrow> instant \<Rightarrow> device_metadata \<Rightarrow> device_metadata \<Rightarrow> bool" where
  "second_evicts_first fw cfg b t m1 m2 \<longleftrightarrow>
     (let st = app_register fw cfg b t m2 (app_register fw cfg b t m1 app_new)
      in map (\<lambda>(i, h). (i, dh_task h)) (as_devices st) = [(md_id m2, 1)] \<and> as_stopped st = [0])"

lemma same_address_evicts:
  "id_mac (md_id m1) = id_mac (md_id m2) \<Longrightarrow> second_evicts_first fw cfg b t m1 m2"
  by (simp add: second_evicts_first_def app_register_def register_prepare_def register_insert_def
      app_new_def Let_def)

text \<open>
  Property C24. The two gamepad interfaces of one Steam Controller dongle, and two DualSense pads that
  report no serial number, are two devices to their drivers but get the same address: registering
  the second evicts the first and stops its task, so only one of the two controllers ever tracks.
\<close>

theorem same_address_pads_evict_each_other:
  "(case sc_enumerate now [Some [(hid_node p 0x28DE 0x1142 serial 1, True, True),
                                 (hid_node p 0x28DE 0x1142 serial 2, True, True)]] of
      [[d1, d2]] \<Rightarrow> second_evicts_first fw cfg b t (sc_meta d1) (sc_meta d2)
    | _ \<Rightarrow> False)
   \<and> (case sony_enumerate [Some [(hid_node p 0x054C 0x0CE6 [] 3, True, True),
                                 (hid_node (q # p) 0x054C 0x0CE6 [] 3, True, True)]] of
      [[d1, d2]] \<Rightarrow> second_evicts_first fw cfg b t (sd_meta d1) (sd_meta d2)
    | _ \<Rightarrow> False)"
  by (simp add: sc_enumerate_def hid_tick_def hid_present_def hid_node_def sc_listed_def sc_from_pid_def
      sc_emit_def hid_key_def sc_new_def sony_enumerate_def sony_listed_def sony_from_pid_def sony_emit_def
      sony_new_def SONY_VID_def gamepad_usage_def same_address_evicts)

end
